(* ===== verification/Prelude.thy ===== *)
theory Prelude
  imports Main "HOL-Library.AList" "HOL-Library.Multiset"
begin

text \<open>
  Shared vocabulary of the development.

  \<^item> A Python \<open>dict\<close> keeps insertion order, so it is an association list; assignment is
    \<^const>\<open>AList.update\<close> (in place, or at the end for a new key), \<open>del\<close> and \<open>pop\<close> are
    \<^const>\<open>AList.delete\<close>, lookup is \<^const>\<open>map_of\<close>.
  \<^item> A JSON file on disk is \<open>Absent\<close>, \<open>Corrupt\<close> (\<open>json.loads\<close> raises) or \<open>Content d\<close>.
  \<^item> An operation that may raise takes the state and returns \<open>Inl\<close> the error or \<open>Inr\<close> the
    result, with the state as it is left behind in either case.
  \<^item> \<open>list.pop(i)\<close>, \<open>list.insert(i, x)\<close> and the search
    \<open>next((i for i, e in enumerate(xs) if p(e)), None)\<close>.
\<close>

named_theorems dict_simps
  \<open>lookup, update and deletion on dictionaries\<close>
named_theorems move_simps
  \<open>removing and inserting list elements by index\<close>

type_synonym ('k, 'v) dict = "('k \<times> 'v) list"
type_synonym ('s, 'e, 'a) op = "'s \<Rightarrow> ('e + 'a) \<times> 's"

abbreviation dget :: "('k, 'v) dict \<Rightarrow> 'k \<Rightarrow> 'v option" where
  "dget d k \<equiv> map_of d k"

abbreviation dset :: "'k \<Rightarrow> 'v \<Rightarrow> ('k, 'v) dict \<Rightarrow> ('k, 'v) dict" where
  "dset k v d \<equiv> AList.update k v d"

abbreviation ddel :: "'k \<Rightarrow> ('k, 'v) dict \<Rightarrow> ('k, 'v) dict" where
  "ddel k d \<equiv> AList.delete k d"

abbreviation dkeys :: "('k, 'v) dict \<Rightarrow> 'k list" where
  "dkeys d \<equiv> map fst d"

abbreviation dhas :: "('k, 'v) dict \<Rightarrow> 'k \<Rightarrow> bool" where
  "dhas d k \<equiv> map_of d k \<noteq> None"

datatype 'a jfile = Absent | Corrupt | Content 'a

lemma case_SomeE:
  "(case x of None \<Rightarrow> False | Some s \<Rightarrow> P s) \<Longrightarrow> (\<And>s. x = Some s \<Longrightarrow> P s \<Longrightarrow> R) \<Longrightarrow> R"
  by (cases x) auto

subsection \<open>Dictionaries\<close>

lemma dget_dset [dict_simps]: "dget (dset k v d) k' = (if k' = k then Some v else dget d k')"
  by (simp add: update_conv')

lemma dget_ddel [dict_simps]: "dget (ddel k d) k' = (if k' = k then None else dget d k')"
  by (simp add: delete_conv')

lemma distinct_dset [simp, intro]: "distinct (dkeys d) \<Longrightarrow> distinct (dkeys (dset k v d))"
  by (rule distinct_update)

lemma distinct_ddel [simp, intro]: "distinct (dkeys d) \<Longrightarrow> distinct (dkeys (ddel k d))"
  by (rule distinct_delete)

lemma dget_filter [dict_simps]:
  "distinct (dkeys d) \<Longrightarrow>
    dget (filter P d) k = (case dget d k of None \<Rightarrow> None | Some v \<Rightarrow> if P (k, v) then Some v else None)"
proof (induction d)
  case Nil
  then show ?case by simp
next
  case (Cons kv d)
  obtain k0 v0 where kv: "kv = (k0, v0)" by (cases kv)
  have "k = k0 \<Longrightarrow> dget d k = None"
    using Cons.prems kv by (auto simp: map_of_eq_None_iff image_iff)
  with Cons kv show ?case by (auto split: option.splits)
qed

lemma distinct_dkeys_filter [simp, intro]: "distinct (dkeys d) \<Longrightarrow> distinct (dkeys (filter P d))"
  by (induction d) (auto simp: image_iff)

lemma dget_Some_mem: "dget d k = Some v \<Longrightarrow> (k, v) \<in> set d"
  by (rule map_of_SomeD)

lemma mem_dget_Some: "distinct (dkeys d) \<Longrightarrow> (k, v) \<in> set d \<Longrightarrow> dget d k = Some v"
  by simp

subsection \<open>Lists edited by index\<close>

definition remove_at :: "nat \<Rightarrow> 'a list \<Rightarrow> 'a list" where
  "remove_at i xs = take i xs @ drop (Suc i) xs"

definition insert_at :: "nat \<Rightarrow> 'a \<Rightarrow> 'a list \<Rightarrow> 'a list" where
  "insert_at i x xs = take i xs @ x # drop i xs"

fun find_index :: "('a \<Rightarrow> bool) \<Rightarrow> 'a list \<Rightarrow> nat option" where
  "find_index p [] = None"
| "find_index p (x # xs) = (if p x then Some 0 else map_option Suc (find_index p xs))"

lemma find_index_SomeD:
  "find_index p xs = Some i \<Longrightarrow> i < length xs \<and> p (xs ! i) \<and> (\<forall>j<i. \<not> p (xs ! j))"
proof (induction xs arbitrary: i)
  case Nil
  then show ?case by simp
next
  case (Cons x xs)
  show ?case
  proof (cases "p x")
    case True
    with Cons.prems show ?thesis by auto
  next
    case False
    with Cons.prems obtain j where j: "find_index p xs = Some j" "i = Suc j" by auto
    from Cons.IH [OF j(1)] False j(2) show ?thesis
      by (auto simp: nth_Cons less_Suc_eq_0_disj split: nat.splits)
  qed
qed

lemma find_index_None_iff: "find_index p xs = None \<longleftrightarrow> (\<forall>x\<in>set xs. \<not> p x)"
  by (induction xs) auto

lemma length_remove_at [move_simps]:
  "i < length xs \<Longrightarrow> length (remove_at i xs) = length xs - 1"
  by (simp add: remove_at_def)

lemma length_insert_at [move_simps]:
  "i \<le> length xs \<Longrightarrow> length (insert_at i x xs) = Suc (length xs)"
  by (simp add: insert_at_def)

lemma nth_insert_at [move_simps]: "i \<le> length xs \<Longrightarrow> insert_at i x xs ! i = x"
  by (simp add: insert_at_def nth_append)

lemma mset_insert_at [move_simps]: "mset (insert_at i x xs) = add_mset x (mset xs)"
proof -
  have "mset (take i xs) + mset (drop i xs) = mset xs"
    by (simp flip: mset_append)
  then show ?thesis by (simp add: insert_at_def)
qed

lemma mset_remove_at [move_simps]:
  "i < length xs \<Longrightarrow> add_mset (xs ! i) (mset (remove_at i xs)) = mset xs"
proof -
  assume i: "i < length xs"
  have "mset xs = mset (take i xs @ xs ! i # drop (Suc i) xs)"
    using i by (simp add: id_take_nth_drop [symmetric])
  then show ?thesis by (simp add: remove_at_def)
qed

lemma set_remove_at_subset: "set (remove_at i xs) \<subseteq> set xs"
  by (auto simp: remove_at_def dest: in_set_takeD in_set_dropD)

lemma set_insert_at [move_simps]: "set (insert_at i x xs) = insert x (set xs)"
  using mset_insert_at [of i x xs] by (metis set_mset_add_mset_insert set_mset_mset)

lemma remove_at_insert_at [move_simps]:
  "i \<le> length xs \<Longrightarrow> remove_at i (insert_at i x xs) = xs"
  by (simp add: remove_at_def insert_at_def)

lemma mset_move [move_simps]:
  "i < length xs \<Longrightarrow> mset (insert_at j (xs ! i) (remove_at i xs)) = mset xs"
  by (simp add: move_simps)

end
