(* ===== verification/Coord_Lock.thy ===== *)
theory Coord_Lock
  imports Prelude
begin

text \<open>
  The global directory lock of \<^verbatim>\<open>user/scripts/lazy_coord.py\<close>: \<open>acquire_lock\<close> is an atomic
  \<open>os.mkdir\<close> with polling, bounded exponential backoff and reclamation of a holder that is
  confirmed dead; \<open>release_lock\<close> removes the directory.

  Time (wall clock, monotonic clock, delays) is counted in integer microseconds. A kernel start
  time is an opaque stamp of which the code uses equality only. The liveness probe of a pid and
  the kernel start time of a pid are arguments, as they are in the source
  (\<open>pid_status_fn\<close>, \<open>kernel_start_time_fn\<close>).
\<close>

subsection \<open>The lock directory and its owner file\<close>

datatype pid_status = Alive | Dead | Unknown

text \<open>A parsed \<open>owner.json\<close>; \<open>None\<close> for a field that is missing or does not convert.\<close>

record lock_owner =
  owner_pid :: "int option"
  owner_start :: "int option"
  acquired_at :: int

text \<open>A lock directory; \<open>owner_json = None\<close> when \<open>owner.json\<close> is missing or unreadable.\<close>

record lock_dir =
  owner_json :: "lock_owner option"
  dir_mtime :: int

type_synonym lock_state = "lock_dir option"

datatype kill_result = KillOk | NoSuchProcess | NotPermitted | OtherOSError

fun posix_pid_status :: "kill_result \<Rightarrow> pid_status" where
  "posix_pid_status NoSuchProcess = Dead"
| "posix_pid_status NotPermitted = Alive"
| "posix_pid_status OtherOSError = Unknown"
| "posix_pid_status KillOk = Alive"

text \<open>
  \<open>OpenProcess\<close> either yields a handle, or a last-error code; \<open>None\<close> is the \<open>ctypes\<close> call raising.
\<close>

definition win_pid_status :: "(bool \<times> int) option \<Rightarrow> pid_status" where
  "win_pid_status r =
     (case r of
        None \<Rightarrow> Unknown
      | Some (handle, err) \<Rightarrow>
          if handle then Alive
          else if err = 87 then Dead
          else if err = 5 then Alive
          else Unknown)"

definition pid_status_of ::
  "bool \<Rightarrow> (int \<Rightarrow> (bool \<times> int) option) \<Rightarrow> (int \<Rightarrow> kill_result) \<Rightarrow> int option \<Rightarrow> pid_status" where
  "pid_status_of windows open_process os_kill pid =
     (case pid of
        None \<Rightarrow> Unknown
      | Some p \<Rightarrow>
          if p \<le> 0 then Unknown
          else if windows then win_pid_status (open_process p)
          else posix_pid_status (os_kill p))"

definition confirmed_dead_owner ::
  "(int \<Rightarrow> pid_status) \<Rightarrow> (int \<Rightarrow> int option) \<Rightarrow> lock_owner option \<Rightarrow> bool" where
  "confirmed_dead_owner pid_status_fn kernel_start_time_fn owner =
     (case owner of
        None \<Rightarrow> False
      | Some ow \<Rightarrow>
          (case owner_pid ow of
             None \<Rightarrow> False
           | Some pid \<Rightarrow>
               (case pid_status_fn pid of
                  Dead \<Rightarrow> True
                | Unknown \<Rightarrow> False
                | Alive \<Rightarrow>
                    (case owner_start ow of
                       None \<Rightarrow> False
                     | Some recorded \<Rightarrow>
                         (case kernel_start_time_fn pid of
                            None \<Rightarrow> False
                          | Some live \<Rightarrow> live \<noteq> recorded)))))"

definition read_lock_owner :: "lock_state \<Rightarrow> lock_owner option" where
  "read_lock_owner l = (case l of None \<Rightarrow> None | Some d \<Rightarrow> owner_json d)"

definition write_lock_owner ::
  "int \<Rightarrow> (int \<Rightarrow> int option) \<Rightarrow> int \<Rightarrow> lock_state \<Rightarrow> lock_state" where
  "write_lock_owner my_pid kernel_start_time_fn now l =
     map_option (\<lambda>d. d\<lparr>owner_json := Some \<lparr>owner_pid = Some my_pid,
         owner_start = kernel_start_time_fn my_pid, acquired_at = now div 1000000\<rparr>\<rparr>) l"

definition lock_dir_age :: "lock_state \<Rightarrow> int \<Rightarrow> int option" where
  "lock_dir_age l now = map_option (\<lambda>d. max 0 (now - dir_mtime d)) l"

text \<open>The rename is atomic: it fails exactly when the directory is gone.\<close>

definition rename_then_remove :: "lock_state \<Rightarrow> bool \<times> lock_state" where
  "rename_then_remove l = (case l of None \<Rightarrow> (False, None) | Some _ \<Rightarrow> (True, None))"

text \<open>What the code has seen when it decides to reclaim (before the rename).\<close>

definition stale_verdict ::
  "int \<Rightarrow> int \<Rightarrow> (int \<Rightarrow> pid_status) \<Rightarrow> (int \<Rightarrow> int option) \<Rightarrow> lock_state \<Rightarrow> bool" where
  "stale_verdict grace now pid_status_fn kernel_start_time_fn l =
     (case read_lock_owner l of
        None \<Rightarrow> (case lock_dir_age l now of None \<Rightarrow> False | Some age \<Rightarrow> \<not> age \<le> grace)
      | Some ow \<Rightarrow> confirmed_dead_owner pid_status_fn kernel_start_time_fn (Some ow))"

definition maybe_reclaim_stale_lock ::
  "int \<Rightarrow> int \<Rightarrow> (int \<Rightarrow> pid_status) \<Rightarrow> (int \<Rightarrow> int option) \<Rightarrow> lock_state \<Rightarrow> bool \<times> lock_state" where
  "maybe_reclaim_stale_lock grace now pid_status_fn kernel_start_time_fn l =
     (if stale_verdict grace now pid_status_fn kernel_start_time_fn l
      then rename_then_remove l else (False, l))"

definition release_lock :: "lock_state \<Rightarrow> lock_state" where
  "release_lock l = None"

subsection \<open>The polling loop\<close>

text \<open>
  One run of \<open>acquire_lock\<close> in an environment: before the \<open>n\<close>-th \<open>mkdir\<close> other processes may
  change the directory (\<open>env_step n\<close>), the wall clock reads \<open>env_wall n\<close>, and the monotonic
  clock has advanced by the nap just slept plus a delay \<open>env_jitter n\<close>.
\<close>

record lock_ctx =
  pid_status_fn :: "int \<Rightarrow> pid_status"
  kernel_start_time_fn :: "int \<Rightarrow> int option"
  my_pid :: int
  grace_seconds :: int
  timeout :: int
  poll :: int
  env_step :: "nat \<Rightarrow> lock_state \<Rightarrow> lock_state"
  env_wall :: "nat \<Rightarrow> int"
  env_jitter :: "nat \<Rightarrow> nat"

datatype lock_result = Acquired | TimedOut

definition made_lock :: "lock_ctx \<Rightarrow> nat \<Rightarrow> lock_state" where
  "made_lock c n =
     write_lock_owner (my_pid c) (kernel_start_time_fn c) (env_wall c n)
       (Some \<lparr>owner_json = None, dir_mtime = env_wall c n\<rparr>)"

definition sees_stale :: "lock_ctx \<Rightarrow> nat \<Rightarrow> lock_state \<Rightarrow> bool" where
  "sees_stale c n l =
     stale_verdict (grace_seconds c) (env_wall c n) (pid_status_fn c) (kernel_start_time_fn c) l"

text \<open>
  The loop body, with the attempt number, the elapsed time and the current delay as its
  variables. \<open>None\<close> is running out of fuel, that is, still polling.
\<close>

fun acquire_loop ::
  "lock_ctx \<Rightarrow> nat \<Rightarrow> nat \<Rightarrow> int \<Rightarrow> int \<Rightarrow> lock_state \<Rightarrow> (lock_result \<times> lock_state) option" where
  "acquire_loop c 0 n elapsed delay l = None"
| "acquire_loop c (Suc fuel) n elapsed delay l =
     (let l1 = env_step c n l in
      case l1 of
        None \<Rightarrow> Some (Acquired, made_lock c n)
      | Some d \<Rightarrow>
          let (won, l2) = maybe_reclaim_stale_lock (grace_seconds c) (env_wall c n)
                            (pid_status_fn c) (kernel_start_time_fn c) l1 in
          if won then acquire_loop c fuel (Suc n) elapsed delay l2
          else if timeout c \<le> elapsed then Some (TimedOut, l2)
          else let nap = min delay (timeout c - elapsed) in
            acquire_loop c fuel (Suc n) (elapsed + nap + int (env_jitter c n))
              (min (delay * 2) 1000000) l2)"

text \<open>
  Each nap is at least one microsecond, so a run that reclaims nothing polls at most
  \<open>timeout + 2\<close> times; the two extra units are a reclaimed directory and the final attempt.
\<close>

definition lock_fuel :: "lock_ctx \<Rightarrow> nat" where
  "lock_fuel c = nat (timeout c) + 3"

definition acquire_lock :: "lock_ctx \<Rightarrow> lock_state \<Rightarrow> (lock_result \<times> lock_state) option" where
  "acquire_lock c l = acquire_loop c (lock_fuel c) 0 0 (poll c) l"

text \<open>An environment in which no other process touches the directory during the call.\<close>

definition quiet :: "lock_ctx \<Rightarrow> bool" where
  "quiet c \<longleftrightarrow> env_step c = (\<lambda>n l. l)"

subsection \<open>Facts about one attempt\<close>

lemma confirmed_dead_iff:
  "confirmed_dead_owner ps ks (Some ow) \<longleftrightarrow>
    (\<exists>pid. owner_pid ow = Some pid \<and>
      (ps pid = Dead \<or>
       (ps pid = Alive \<and> (\<exists>r l. owner_start ow = Some r \<and> ks pid = Some l \<and> l \<noteq> r))))"
  by (auto simp: confirmed_dead_owner_def split: option.splits pid_status.splits)

lemma stale_verdict_None [simp]: "\<not> stale_verdict g now ps ks None"
  by (simp add: stale_verdict_def read_lock_owner_def lock_dir_age_def)

lemma maybe_reclaim_Some:
  "maybe_reclaim_stale_lock g now ps ks (Some d) =
    (if stale_verdict g now ps ks (Some d) then (True, None) else (False, Some d))"
  by (simp add: maybe_reclaim_stale_lock_def rename_then_remove_def)

lemma acquire_loop_free:
  "env_step c n l = None \<Longrightarrow> acquire_loop c (Suc fuel) n e dl l = Some (Acquired, made_lock c n)"
  by simp

lemma acquire_loop_stale:
  "env_step c n l = Some d \<Longrightarrow> sees_stale c n (Some d) \<Longrightarrow>
    acquire_loop c (Suc fuel) n e dl l = acquire_loop c fuel (Suc n) e dl None"
  by (simp add: maybe_reclaim_Some sees_stale_def)

lemma acquire_loop_held:
  "env_step c n l = Some d \<Longrightarrow> \<not> sees_stale c n (Some d) \<Longrightarrow>
    acquire_loop c (Suc fuel) n e dl l =
      (if timeout c \<le> e then Some (TimedOut, Some d)
       else acquire_loop c fuel (Suc n) (e + min dl (timeout c - e) + int (env_jitter c n))
              (min (dl * 2) 1000000) (Some d))"
  by (simp add: maybe_reclaim_Some sees_stale_def Let_def)

declare acquire_loop.simps(2) [simp del]

lemmas acquire_loop_cases = acquire_loop_free acquire_loop_stale acquire_loop_held

subsection \<open>Termination and outcome of the loop\<close>

lemma acquire_loop_bounded_wait:
  assumes "0 < dl" and "nat (timeout c - e) < fuel"
    and "\<And>m l0 d. env_step c m l0 = Some d \<Longrightarrow> \<not> sees_stale c m (Some d)"
  shows "acquire_loop c fuel n e dl l \<noteq> None"
  using assms
proof (induction fuel arbitrary: n e dl l)
  case 0
  then show ?case by simp
next
  case (Suc fuel)
  show ?case
  proof (cases "env_step c n l")
    case None
    then show ?thesis by (simp add: acquire_loop_free)
  next
    case (Some d)
    let ?e' = "e + min dl (timeout c - e) + int (env_jitter c n)"
    show ?thesis
    proof (cases "timeout c \<le> e")
      case True
      with Some Suc.prems(3) [OF Some] show ?thesis by (simp add: acquire_loop_held)
    next
      case False
      then have "nat (timeout c - ?e') < fuel"
        using Suc.prems(1,2) by (auto simp: min_def)
      moreover have "0 < min (dl * 2) 1000000" using Suc.prems(1) by simp
      ultimately have "acquire_loop c fuel (Suc n) ?e' (min (dl * 2) 1000000) (Some d) \<noteq> None"
        using Suc.IH Suc.prems(3) by blast
      with Some False Suc.prems(3) [OF Some] show ?thesis by (simp add: acquire_loop_held)
    qed
  qed
qed

lemma acquire_loop_never_free:
  assumes "acquire_loop c fuel n e dl l = Some (r, l')"
    and "\<And>m l0. env_step c m l0 \<noteq> None"
    and "\<And>m l0 d. env_step c m l0 = Some d \<Longrightarrow> \<not> sees_stale c m (Some d)"
  shows "r = TimedOut \<and> l' \<noteq> None"
  using assms
proof (induction fuel arbitrary: n e dl l)
  case 0
  then show ?case by simp
next
  case (Suc fuel)
  obtain d where d: "env_step c n l = Some d" using Suc.prems(2) [of n l] by auto
  note held = acquire_loop_held [OF d Suc.prems(3) [OF d]]
  show ?case
  proof (cases "timeout c \<le> e")
    case True
    with Suc.prems(1) held show ?thesis by auto
  next
    case False
    with Suc.prems(1) held
    have "acquire_loop c fuel (Suc n) (e + min dl (timeout c - e) + int (env_jitter c n))
           (min (dl * 2) 1000000) (Some d) = Some (r, l')" by simp
    then show ?thesis using Suc.IH Suc.prems(2,3) by blast
  qed
qed

lemma quiet_env [simp]: "quiet c \<Longrightarrow> env_step c n l = l"
  by (simp add: quiet_def)

lemma quiet_free [simp]: "quiet c \<Longrightarrow> acquire_loop c (Suc f) n e dl None = Some (Acquired, made_lock c n)"
  by (simp add: acquire_loop_free)

lemma quiet_loop_total:
  assumes "quiet c" and "0 < dl" and "nat (timeout c - e) + 1 < fuel"
  shows "acquire_loop c fuel n e dl l \<noteq> None"
  using assms(2,3)
proof (induction fuel arbitrary: n e dl l)
  case 0
  then show ?case by simp
next
  case (Suc fuel)
  obtain f where f: "fuel = Suc f" using Suc.prems(2) by (cases fuel) auto
  show ?case
  proof (cases l)
    case None
    with assms(1) show ?thesis by simp
  next
    case (Some d)
    have env: "env_step c n l = Some d" using assms(1) Some by simp
    show ?thesis
    proof (cases "sees_stale c n (Some d)")
      case True
      with env f assms(1) show ?thesis by (simp add: acquire_loop_stale)
    next
      case False
      let ?e' = "e + min dl (timeout c - e) + int (env_jitter c n)"
      have "\<not> timeout c \<le> e \<Longrightarrow> nat (timeout c - ?e') + 1 < fuel"
        using Suc.prems by (auto simp: min_def)
      with Suc.IH Suc.prems(1) env False show ?thesis by (simp add: acquire_loop_held)
    qed
  qed
qed

lemma quiet_loop_outcome:
  assumes "quiet c" and "acquire_loop c fuel n e dl l = Some (r, l')"
  shows "case r of
      Acquired \<Rightarrow> (\<exists>m\<ge>n. l' = made_lock c m) \<and> (l = None \<or> (\<exists>m\<ge>n. sees_stale c m l))
    | TimedOut \<Rightarrow> l \<noteq> None \<and> l' = l"
  using assms(2)
proof (induction fuel arbitrary: n e dl l)
  case 0
  then show ?case by simp
next
  case (Suc fuel)
  show ?case
  proof (cases l)
    case None
    with assms(1) Suc.prems show ?thesis by auto
  next
    case (Some d)
    have env: "env_step c n l = Some d" using assms(1) Some by simp
    show ?thesis
    proof (cases "sees_stale c n (Some d)")
      case True
      with env Suc.prems have rec: "acquire_loop c fuel (Suc n) e dl None = Some (r, l')"
        by (simp add: acquire_loop_stale)
      with Suc.IH [OF rec] True Some show ?thesis
        by (auto split: lock_result.splits dest: Suc_leD)
    next
      case False
      show ?thesis
      proof (cases "timeout c \<le> e")
        case True
        with env False Suc.prems Some show ?thesis by (auto simp: acquire_loop_held)
      next
        case e: False
        with env False Suc.prems
        have rec: "acquire_loop c fuel (Suc n) (e + min dl (timeout c - e) + int (env_jitter c n))
               (min (dl * 2) 1000000) (Some d) = Some (r, l')"
          by (simp add: acquire_loop_held)
        with Suc.IH [OF rec] Some show ?thesis
          by (auto split: lock_result.splits dest: Suc_leD)
      qed
    qed
  qed
qed

lemma quiet_acquire_total: "quiet c \<Longrightarrow> 0 < poll c \<Longrightarrow> acquire_lock c l \<noteq> None"
  unfolding acquire_lock_def lock_fuel_def by (rule quiet_loop_total) auto

subsection \<open>Running an operation under the lock\<close>

text \<open>
  Every coordination mutation is \<open>acquire_lock(d); try: ... finally: release_lock(d)\<close>: the body
  runs on the store only if the lock was acquired, and the lock is released whether the body
  returned or raised. The state is the lock directory paired with the store it guards.
\<close>

definition with_lock ::
  "('l \<Rightarrow> bool \<times> 'l) \<Rightarrow> ('l \<Rightarrow> 'l) \<Rightarrow> 'e \<Rightarrow> ('s, 'e, 'a) op \<Rightarrow> ('l \<times> 's, 'e, 'a) op" where
  "with_lock acq rel timed_out body ls =
     (case acq (fst ls) of
        (True, l') \<Rightarrow> (case body (snd ls) of (r, s') \<Rightarrow> (r, (rel l', s')))
      | (False, l') \<Rightarrow> (Inl timed_out, (l', snd ls)))"

locale mutex =
  fixes acq :: "'l \<Rightarrow> bool \<times> 'l"
    and rel :: "'l \<Rightarrow> 'l"
    and free :: "'l \<Rightarrow> bool"
    and live :: "'l \<Rightarrow> bool"
  assumes acq_free: "free l \<Longrightarrow> fst (acq l)"
    and acq_live: "live l \<Longrightarrow> acq l = (False, l)"
    and rel_free: "free (rel l)"
begin

lemma runs_body:
  "free l \<Longrightarrow> with_lock acq rel e body (l, s) = (fst (body s), (rel (snd (acq l)), snd (body s)))"
  using acq_free [of l] by (auto simp: with_lock_def split: prod.splits bool.splits)

lemma times_out: "live l \<Longrightarrow> with_lock acq rel e body (l, s) = (Inl e, (l, s))"
  by (simp add: with_lock_def acq_live)

lemma released: "free l \<Longrightarrow> free (fst (snd (with_lock acq rel e body (l, s))))"
  by (simp add: runs_body rel_free)

lemma store_cases:
  "snd (snd (with_lock acq rel e body (l, s))) = s \<or>
   snd (snd (with_lock acq rel e body (l, s))) = snd (body s)"
  by (auto simp: with_lock_def split: prod.splits bool.splits)

lemma preserves: "P s \<Longrightarrow> P (snd (body s)) \<Longrightarrow> P (snd (snd (with_lock acq rel e body (l, s))))"
  using store_cases [of e body l s] by auto

lemma no_result_untouched:
  "fst (with_lock acq rel e body (l, s)) = Inl e' \<Longrightarrow> (\<And>e'. fst (body s) = Inl e' \<Longrightarrow> snd (body s) = s) \<Longrightarrow>
    snd (snd (with_lock acq rel e body (l, s))) = s"
  by (auto simp: with_lock_def split: prod.splits bool.splits)

end

text \<open>The parameters the callers leave at their defaults, in an environment that stays quiet.\<close>

definition coord_ctx ::
  "(int \<Rightarrow> pid_status) \<Rightarrow> (int \<Rightarrow> int option) \<Rightarrow> int \<Rightarrow> (nat \<Rightarrow> int) \<Rightarrow> (nat \<Rightarrow> nat) \<Rightarrow> lock_ctx" where
  "coord_ctx ps ks me wall jitter =
     \<lparr>pid_status_fn = ps, kernel_start_time_fn = ks, my_pid = me, grace_seconds = 2000000,
      timeout = 10000000, poll = 50000, env_step = (\<lambda>n l. l), env_wall = wall,
      env_jitter = jitter\<rparr>"

definition lock_acq :: "lock_ctx \<Rightarrow> lock_state \<Rightarrow> bool \<times> lock_state" where
  "lock_acq c l =
     (case acquire_lock c l of
        Some (Acquired, l') \<Rightarrow> (True, l')
      | Some (TimedOut, l') \<Rightarrow> (False, l')
      | None \<Rightarrow> (False, l))"

definition lock_live :: "lock_ctx \<Rightarrow> lock_state \<Rightarrow> bool" where
  "lock_live c l \<longleftrightarrow> l \<noteq> None \<and> (\<forall>n. \<not> sees_stale c n l)"

lemma quiet_coord_ctx [simp]: "quiet (coord_ctx ps ks me wall jitter)"
  by (simp add: quiet_def coord_ctx_def)

lemma poll_coord_ctx [simp]: "poll (coord_ctx ps ks me wall jitter) = 50000"
  by (simp add: coord_ctx_def)

lemma lock_acq_free: "quiet c \<Longrightarrow> lock_acq c None = (True, made_lock c 0)"
  by (simp add: lock_acq_def acquire_lock_def lock_fuel_def numeral_3_eq_3)

lemma lock_acq_live:
  assumes "quiet c" and "0 < poll c" and "lock_live c l"
  shows "lock_acq c l = (False, l)"
proof -
  obtain r l' where eq: "acquire_lock c l = Some (r, l')"
    using quiet_acquire_total [OF assms(1,2), of l] by auto
  from quiet_loop_outcome [OF assms(1) eq [unfolded acquire_lock_def]] assms(3)
  have "r = TimedOut \<and> l' = l"
    by (cases r) (auto simp: lock_live_def)
  with eq show ?thesis by (simp add: lock_acq_def)
qed

interpretation gl: mutex "lock_acq (coord_ctx ps ks me wall jitter)" release_lock
  "\<lambda>l. l = None" "lock_live (coord_ctx ps ks me wall jitter)"
  for ps ks me wall jitter
  by unfold_locales (simp_all add: lock_acq_free lock_acq_live release_lock_def)

subsection \<open>What the lock promises\<close>

text \<open>
  C37. With no other process at work, \<open>acquire_lock\<close> always comes to an end within its fuel, and
  its outcome is exact: it acquires only a lock that was free or was judged stale at one of the
  polls, and then the directory names the caller; it times out only on a directory that was
  there, and leaves it as it was.
\<close>

theorem acquire_lock_total_outcome:
  assumes "quiet c" and "0 < poll c"
  shows "\<exists>r l'. acquire_lock c l = Some (r, l') \<and>
     (case r of
        Acquired \<Rightarrow> (\<exists>m. l' = made_lock c m) \<and> (l = None \<or> (\<exists>m. sees_stale c m l))
      | TimedOut \<Rightarrow> l \<noteq> None \<and> l' = l)"
proof -
  obtain r l' where eq: "acquire_lock c l = Some (r, l')"
    using quiet_acquire_total [OF assms, of l] by auto
  from quiet_loop_outcome [OF assms(1) eq [unfolded acquire_lock_def]] eq
  show ?thesis by (auto split: lock_result.splits)
qed

theorem acquire_lock_total_outcome_witness:
  "\<exists>r l'. acquire_lock (coord_ctx (\<lambda>_. Unknown) (\<lambda>_. None) 7 (\<lambda>_. 0) (\<lambda>_. 0))
      (Some \<lparr>owner_json = None, dir_mtime = 0\<rparr>) = Some (r, l')"
  using acquire_lock_total_outcome
    [of "coord_ctx (\<lambda>_. Unknown) (\<lambda>_. None) 7 (\<lambda>_. 0) (\<lambda>_. 0)"
        "Some \<lparr>owner_json = None, dir_mtime = 0\<rparr>"]
  by auto

text \<open>
  The authoritative timeout: if other processes keep the directory in place at every poll
  and what they put there is never judged stale, the call ends in \<open>TimeoutError\<close> within its
  fuel, and a lock is still in place. Wake-ups may be arbitrarily late.
\<close>

theorem acquire_lock_times_out:
  assumes "0 < poll c"
    and held: "\<And>n l. env_step c n l \<noteq> None"
    and live: "\<And>n l d. env_step c n l = Some d \<Longrightarrow> \<not> sees_stale c n (Some d)"
  shows "\<exists>l'. acquire_lock c l = Some (TimedOut, l') \<and> l' \<noteq> None"
proof -
  obtain r l' where eq: "acquire_lock c l = Some (r, l')"
    using acquire_loop_bounded_wait [OF assms(1), of c 0 "lock_fuel c" 0 l] live
    by (auto simp: acquire_lock_def lock_fuel_def)
  with acquire_loop_never_free [OF eq [unfolded acquire_lock_def]] held live
  show ?thesis by auto
qed

text \<open>A directory that changes hands between live processes 8 and 9 at every poll.\<close>

definition busy_ctx :: lock_ctx where
  "busy_ctx = (coord_ctx (\<lambda>_. Alive) (\<lambda>_. Some 1) 7 int (\<lambda>n. n))
     \<lparr>env_step := \<lambda>n l. Some \<lparr>owner_json = Some \<lparr>owner_pid = Some (if even n then 8 else 9),
        owner_start = Some 1, acquired_at = int n\<rparr>, dir_mtime = int n\<rparr>\<rparr>"

theorem acquire_lock_times_out_witness:
  "\<exists>l'. acquire_lock busy_ctx None = Some (TimedOut, l') \<and> l' \<noteq> None"
  by (rule acquire_lock_times_out)
    (auto simp: busy_ctx_def coord_ctx_def sees_stale_def stale_verdict_def read_lock_owner_def
      confirmed_dead_owner_def)

text \<open>
  Safety over liveness: a lock whose recorded holder is alive with the recorded start time,
  or whose liveness cannot be determined, is never reclaimed, however old it is; nor is a lock
  without metadata inside the grace window. The directory is left untouched.
\<close>

theorem ambiguous_lock_never_reclaimed:
  assumes "case owner_json d of
      None \<Rightarrow> now - dir_mtime d \<le> grace \<and> 0 \<le> grace
    | Some ow \<Rightarrow> (case owner_pid ow of
          None \<Rightarrow> True
        | Some pid \<Rightarrow> ps pid = Unknown \<or> (ps pid = Alive \<and>
            (owner_start ow = None \<or> ks pid = None \<or> owner_start ow = ks pid)))"
  shows "maybe_reclaim_stale_lock grace now ps ks (Some d) = (False, Some d)"
proof (cases "owner_json d")
  case None
  with assms show ?thesis
    by (simp add: maybe_reclaim_Some stale_verdict_def read_lock_owner_def lock_dir_age_def)
next
  case (Some ow)
  with assms have "\<not> confirmed_dead_owner ps ks (Some ow)"
    by (auto simp: confirmed_dead_iff split: option.splits)
  with Some show ?thesis
    by (simp add: maybe_reclaim_Some stale_verdict_def read_lock_owner_def)
qed

theorem ambiguous_lock_never_reclaimed_witness:
  "maybe_reclaim_stale_lock 2000000 (10 ^ 15) (\<lambda>_. Alive) (\<lambda>_. Some 42)
     (Some \<lparr>owner_json = Some \<lparr>owner_pid = Some 8, owner_start = Some 42, acquired_at = 0\<rparr>,
       dir_mtime = 0\<rparr>) =
   (False, Some \<lparr>owner_json = Some \<lparr>owner_pid = Some 8, owner_start = Some 42, acquired_at = 0\<rparr>,
       dir_mtime = 0\<rparr>)"
  by (rule ambiguous_lock_never_reclaimed) simp

end
