(* ===== verification/Lock_Race.thy ===== *)
theory Lock_Race
  imports Coord_Lock
begin

text \<open>
  Several processes on one lock directory. The steps are the system calls of \<open>acquire_lock\<close> and
  \<open>release_lock\<close> in \<^verbatim>\<open>user/scripts/lazy_coord.py\<close>, each atomic, in any interleaving: \<open>mkdir\<close>, which makes the
  lock or fails; the replace that publishes \<open>owner.json\<close>, or its failure, which is ignored; on the failing side
  the reading of the clock, the read of \<open>owner.json\<close>, then the check of its pid or, without a record, the \<open>stat\<close>
  of the directory, then the rename that carries a verdict out; and on the releasing side the unlink of
  \<open>owner.json\<close> and the \<open>rmdir\<close>. A process may crash at any point, may time out, and may exit when it has no
  business with the lock; no pid is used again. As POSIX has it, a change of the entries of the directory sets
  its time. The temporary file of the record is not in the state.
\<close>

datatype phase =
    Idle
  | Trying
  | Lost
  | Asked int
  | Judging lock_owner
  | Inspecting int
  | Reclaiming
  | Made
  | Holding
  | Unlinked
  | Gone

text \<open>With each phase the time since which a process is in it.\<close>

record race =
  rdir :: lock_state
  phases :: "nat \<Rightarrow> phase"
  since :: "nat \<Rightarrow> int"
  rclock :: int

datatype race_event =
    Start nat | Mkdir nat | Publish nat | Unpublished nat | Fail nat | Clock nat | Look nat | Judge nat | Stat nat
  | Rename nat | Timeout nat | Unlink nat | Rmdir nat | Exit nat | Crash nat | Tick nat

definition race_init :: race where
  "race_init = \<lparr>rdir = None, phases = (\<lambda>_. Idle), since = (\<lambda>_. 0), rclock = 0\<rparr>"

definition race_pid_status :: "race \<Rightarrow> int \<Rightarrow> pid_status" where
  "race_pid_status s pid = (if phases s (nat pid) = Gone then Dead else Alive)"

abbreviation no_reuse :: "int \<Rightarrow> int option" where
  "no_reuse \<equiv> \<lambda>pid. Some 0"

abbreviation goto :: "nat \<Rightarrow> phase \<Rightarrow> race \<Rightarrow> race" where
  "goto p ph s \<equiv> s\<lparr>phases := (phases s)(p := ph), since := (since s)(p := rclock s)\<rparr>"

definition touched :: "int \<Rightarrow> lock_state \<Rightarrow> lock_state" where
  "touched now l = map_option (\<lambda>d. d\<lparr>dir_mtime := now\<rparr>) l"

definition unlink_owner :: "int \<Rightarrow> lock_state \<Rightarrow> lock_state" where
  "unlink_owner now l =
     (case l of
        None \<Rightarrow> None
      | Some d \<Rightarrow> if owner_json d = None then Some d else touched now (Some (d\<lparr>owner_json := None\<rparr>)))"

text \<open>A directory with an entry cannot be removed.\<close>

definition rmdir_lock :: "lock_state \<Rightarrow> lock_state" where
  "rmdir_lock l = (case l of None \<Rightarrow> None | Some d \<Rightarrow> if owner_json d = None then None else Some d)"

definition too_old :: "int \<Rightarrow> int \<Rightarrow> lock_state \<Rightarrow> bool" where
  "too_old grace now l = (case lock_dir_age l now of None \<Rightarrow> False | Some age \<Rightarrow> \<not> age \<le> grace)"

text \<open>One system call of one process; \<open>None\<close> when the process is not at that point.\<close>

fun race_exec :: "int \<Rightarrow> race_event \<Rightarrow> race \<Rightarrow> race option" where
  "race_exec grace (Start p) s = (if phases s p = Idle then Some (goto p Trying s) else None)"
| "race_exec grace (Mkdir p) s =
     (if phases s p = Trying \<and> rdir s = None
      then Some (goto p Made (s\<lparr>rdir := Some \<lparr>owner_json = None, dir_mtime = rclock s\<rparr>\<rparr>))
      else None)"
| "race_exec grace (Publish p) s =
     (if phases s p = Made
      then Some (goto p Holding
             (s\<lparr>rdir := touched (rclock s) (write_lock_owner (int p) no_reuse (rclock s) (rdir s))\<rparr>))
      else None)"
| "race_exec grace (Unpublished p) s = (if phases s p = Made then Some (goto p Holding s) else None)"
| "race_exec grace (Fail p) s =
     (if phases s p = Trying \<and> rdir s \<noteq> None then Some (goto p Lost s) else None)"
| "race_exec grace (Clock p) s = (if phases s p = Lost then Some (goto p (Asked (rclock s)) s) else None)"
| "race_exec grace (Look p) s =
     (case phases s p of
        Asked now \<Rightarrow>
          Some (goto p (case read_lock_owner (rdir s) of None \<Rightarrow> Inspecting now | Some ow \<Rightarrow> Judging ow) s)
      | _ \<Rightarrow> None)"
| "race_exec grace (Judge p) s =
     (case phases s p of
        Judging ow \<Rightarrow>
          Some (goto p (if confirmed_dead_owner (race_pid_status s) no_reuse (Some ow) then Reclaiming else Trying) s)
      | _ \<Rightarrow> None)"
| "race_exec grace (Stat p) s =
     (case phases s p of
        Inspecting now \<Rightarrow> Some (goto p (if too_old grace now (rdir s) then Reclaiming else Trying) s)
      | _ \<Rightarrow> None)"
| "race_exec grace (Rename p) s =
     (if phases s p = Reclaiming
      then Some (goto p Trying (s\<lparr>rdir := snd (rename_then_remove (rdir s))\<rparr>)) else None)"
| "race_exec grace (Timeout p) s = (if phases s p = Trying then Some (goto p Idle s) else None)"
| "race_exec grace (Unlink p) s =
     (if phases s p = Holding
      then Some (goto p Unlinked (s\<lparr>rdir := unlink_owner (rclock s) (rdir s)\<rparr>)) else None)"
| "race_exec grace (Rmdir p) s =
     (if phases s p = Unlinked then Some (goto p Idle (s\<lparr>rdir := rmdir_lock (rdir s)\<rparr>)) else None)"
| "race_exec grace (Exit p) s = (if phases s p = Idle then Some (goto p Gone s) else None)"
| "race_exec grace (Crash p) s = (if phases s p \<in> {Idle, Gone} then None else Some (goto p Gone s))"
| "race_exec grace (Tick k) s = Some (s\<lparr>rclock := rclock s + int k\<rparr>)"

text \<open>Without a step in between, the calls of one process come to the functions of the one-process model.\<close>

lemma look_is_verdict:
  "stale_verdict grace now status start l =
     (case read_lock_owner l of None \<Rightarrow> too_old grace now l
      | Some ow \<Rightarrow> confirmed_dead_owner status start (Some ow))"
  by (simp add: stale_verdict_def too_old_def split: option.split)

lemma release_is_unlink_rmdir: "rmdir_lock (unlink_owner now l) = release_lock l"
  by (cases l) (simp_all add: rmdir_lock_def unlink_owner_def touched_def release_lock_def)

text \<open>The states reachable by events that satisfy \<open>ok\<close>.\<close>

inductive race_reach :: "int \<Rightarrow> (race_event \<Rightarrow> race \<Rightarrow> bool) \<Rightarrow> race \<Rightarrow> bool"
  for grace :: int and ok :: "race_event \<Rightarrow> race \<Rightarrow> bool" where
  start: "race_reach grace ok race_init"
| step: "race_reach grace ok s \<Longrightarrow> ok e s \<Longrightarrow> race_exec grace e s = Some t \<Longrightarrow>
    race_reach grace ok t"

text \<open>A process has the lock from its \<open>mkdir\<close> to its \<open>rmdir\<close>.\<close>

definition critical :: "race \<Rightarrow> nat \<Rightarrow> bool" where
  "critical s p \<longleftrightarrow> phases s p \<in> {Made, Holding, Unlinked}"

text \<open>
  A calm event: nobody crashes and the record is written; a process does not exit while another one still has to
  check the pid that it read in its record; and no process stays longer than the grace period between its \<open>mkdir\<close>
  and its record, or between its unlink and its \<open>rmdir\<close>.
\<close>

definition brief :: "phase set" where
  "brief = {Made, Unlinked}"

definition calm :: "int \<Rightarrow> race_event \<Rightarrow> race \<Rightarrow> bool" where
  "calm grace e s \<longleftrightarrow>
     (\<forall>p. e \<noteq> Crash p \<and> e \<noteq> Unpublished p) \<and>
     (\<forall>p q ow. e = Exit p \<longrightarrow> phases s q = Judging ow \<longrightarrow> owner_pid ow \<noteq> Some (int p)) \<and>
     (\<forall>k p. e = Tick k \<longrightarrow> phases s p \<in> brief \<longrightarrow> rclock s + int k \<le> since s p + grace)"

subsection \<open>The invariant\<close>

text \<open>The metadata of the directory agrees with the phase of the process that has the lock.\<close>

definition owns :: "race \<Rightarrow> lock_dir \<Rightarrow> nat \<Rightarrow> bool" where
  "owns s d p \<longleftrightarrow> critical s p \<and>
     (phases s p \<noteq> Holding \<longrightarrow> owner_json d = None \<and> dir_mtime d = since s p) \<and>
     (phases s p = Holding \<longrightarrow>
        (\<exists>ow. owner_json d = Some ow \<and> owner_pid ow = Some (int p) \<and> owner_start ow = Some 0))"

definition dir_ok :: "race \<Rightarrow> bool" where
  "dir_ok s \<longleftrightarrow> (case rdir s of None \<Rightarrow> \<forall>p. \<not> critical s p | Some d \<Rightarrow> \<exists>p. owns s d p)"

definition times_ok :: "int \<Rightarrow> race \<Rightarrow> bool" where
  "times_ok grace s \<longleftrightarrow> (\<forall>p. phases s p \<in> brief \<longrightarrow> rclock s \<le> since s p + grace)"

text \<open>What a process remembers of the directory it looked at.\<close>

definition wrote_alive :: "race \<Rightarrow> lock_owner \<Rightarrow> bool" where
  "wrote_alive s ow \<longleftrightarrow> (\<exists>q. owner_pid ow = Some (int q) \<and> owner_start ow = Some 0 \<and> phases s q \<noteq> Gone)"

definition asked_at :: "phase \<Rightarrow> int option" where
  "asked_at ph = (case ph of Asked now \<Rightarrow> Some now | Inspecting now \<Rightarrow> Some now | _ \<Rightarrow> None)"

lemma asked_at_simps [simp]:
  "asked_at (Asked now) = Some now" "asked_at (Inspecting now) = Some now" "asked_at Idle = None"
  "asked_at Trying = None" "asked_at Lost = None" "asked_at (Judging ow) = None" "asked_at Made = None"
  "asked_at Holding = None" "asked_at Unlinked = None" "asked_at Gone = None"
  by (simp_all add: asked_at_def)

definition views_ok :: "race \<Rightarrow> bool" where
  "views_ok s \<longleftrightarrow> (\<forall>p. phases s p \<noteq> Reclaiming) \<and> (\<forall>p ow. phases s p = Judging ow \<longrightarrow> wrote_alive s ow) \<and>
     (\<forall>p now. asked_at (phases s p) = Some now \<longrightarrow> now \<le> rclock s) \<and>
     (\<forall>p now d. phases s p = Inspecting now \<longrightarrow> rdir s = Some d \<longrightarrow> owner_json d = None \<or> now \<le> dir_mtime d)"

definition race_inv :: "int \<Rightarrow> race \<Rightarrow> bool" where
  "race_inv grace s \<longleftrightarrow>
     (\<forall>p q. critical s p \<longrightarrow> critical s q \<longrightarrow> p = q) \<and> dir_ok s \<and> times_ok grace s \<and> views_ok s"

lemma race_invI:
  "(\<And>p q. critical s p \<Longrightarrow> critical s q \<Longrightarrow> p = q) \<Longrightarrow> dir_ok s \<Longrightarrow> times_ok grace s \<Longrightarrow> views_ok s \<Longrightarrow>
    race_inv grace s"
  by (simp add: race_inv_def)

lemma race_inv_init: "race_inv grace race_init"
  by (simp add: race_inv_def race_init_def critical_def dir_ok_def times_ok_def views_ok_def brief_def)

lemma owns_other: "owns s d q \<Longrightarrow> q \<noteq> p \<Longrightarrow> owns (goto p ph s) d q"
  by (simp add: owns_def critical_def)

lemma tick_frame: "critical (s\<lparr>rclock := k\<rparr>) = critical s" "owns (s\<lparr>rclock := k\<rparr>) = owns s"
  by (simp_all add: owns_def critical_def fun_eq_iff)

lemma wrote_alive_goto:
  assumes "wrote_alive s ow" and "ph = Gone \<longrightarrow> owner_pid ow \<noteq> Some (int p)"
  shows "wrote_alive (goto p ph s) ow" and "wrote_alive (goto p ph (s\<lparr>rdir := l\<rparr>)) ow"
  using assms by (auto simp: wrote_alive_def)

lemma views_goto:
  assumes "views_ok s" and "ph \<notin> {Reclaiming, Gone}" and "\<forall>ow. ph \<noteq> Judging ow" and "asked_at ph = None"
    and "\<forall>d. l = Some d \<longrightarrow> owner_json d = None \<or> rclock s \<le> dir_mtime d"
  shows "views_ok (goto p ph (s\<lparr>rdir := l\<rparr>))"
proof -
  have "owner_json d = None \<or> now \<le> dir_mtime d" if "phases s q = Inspecting now" "l = Some d" for q now d
  proof -
    have "now \<le> rclock s" using assms(1) that(1) unfolding views_ok_def by (metis asked_at_simps(2))
    with assms(5) that(2) show ?thesis by auto
  qed
  then show ?thesis using assms(1-4) wrote_alive_goto(2) [of s _ ph p l] by (auto simp: views_ok_def)
qed

text \<open>What a process may know when it comes to a phase outside the lock.\<close>

definition may_enter :: "race \<Rightarrow> nat \<Rightarrow> phase \<Rightarrow> bool" where
  "may_enter s p ph \<longleftrightarrow> ph \<notin> {Made, Holding, Unlinked, Reclaiming} \<and>
     (\<forall>ow. ph = Judging ow \<longrightarrow> wrote_alive s ow) \<and>
     (\<forall>now. asked_at ph = Some now \<longrightarrow> now \<le> rclock s) \<and>
     (\<forall>now d. ph = Inspecting now \<longrightarrow> rdir s = Some d \<longrightarrow> owner_json d = None) \<and>
     (ph = Gone \<longrightarrow> (\<forall>q ow. phases s q = Judging ow \<longrightarrow> owner_pid ow \<noteq> Some (int p)))"

lemma race_inv_outside:
  assumes inv: "race_inv grace s" and p: "\<not> critical s p" and ph: "may_enter s p ph" and "0 \<le> grace"
  shows "race_inv grace (goto p ph s)"
proof -
  have "dir_ok (goto p ph s)"
  proof (cases "rdir s")
    case None
    then show ?thesis using inv ph by (auto simp: race_inv_def dir_ok_def may_enter_def critical_def)
  next
    case (Some d)
    with inv obtain q where q: "owns s d q" by (auto simp: race_inv_def dir_ok_def)
    with p have "q \<noteq> p" by (auto simp: owns_def)
    from owns_other [OF q this] Some show ?thesis by (auto simp: dir_ok_def)
  qed
  moreover have "views_ok (goto p ph s)"
    using inv ph wrote_alive_goto(1) [of s _ ph p] by (auto simp: race_inv_def views_ok_def may_enter_def)
  moreover have "times_ok grace (goto p ph s)"
    using inv assms(4) by (simp add: race_inv_def times_ok_def)
  ultimately show ?thesis using inv ph by (auto simp: race_inv_def may_enter_def critical_def)
qed

lemma race_inv_tick:
  assumes inv: "race_inv grace s" and "\<forall>p. phases s p \<in> brief \<longrightarrow> rclock s + int k \<le> since s p + grace"
  shows "race_inv grace (s\<lparr>rclock := rclock s + int k\<rparr>)"
proof -
  have "times_ok grace (s\<lparr>rclock := rclock s + int k\<rparr>)"
    using inv assms(2) by (auto simp: race_inv_def times_ok_def intro: order_trans)
  moreover have "dir_ok (s\<lparr>rclock := rclock s + int k\<rparr>)"
    using inv by (cases "rdir s") (simp_all add: race_inv_def dir_ok_def tick_frame)
  moreover have "views_ok (s\<lparr>rclock := rclock s + int k\<rparr>)"
    using inv by (force simp: race_inv_def views_ok_def wrote_alive_def)
  ultimately show ?thesis using inv by (simp add: race_inv_def tick_frame)
qed

lemma race_inv_mkdir:
  assumes inv: "race_inv grace s" and "rdir s = None" and "phases s p = Trying" and "0 \<le> grace"
  shows "race_inv grace (goto p Made (s\<lparr>rdir := Some \<lparr>owner_json = None, dir_mtime = rclock s\<rparr>\<rparr>))"
    (is "race_inv grace ?t")
proof -
  have none: "\<not> critical s q" for q using assms by (simp add: race_inv_def dir_ok_def)
  have "owns ?t \<lparr>owner_json = None, dir_mtime = rclock s\<rparr> p"
    by (simp add: owns_def critical_def)
  then have dir: "dir_ok ?t" by (auto simp: dir_ok_def)
  have "views_ok s" using inv by (simp add: race_inv_def)
  then have views: "views_ok ?t" by (rule views_goto) simp_all
  have times: "times_ok grace ?t" using inv assms(4) by (simp add: race_inv_def times_ok_def)
  have only: "q = p" if "critical ?t q" for q using none [of q] that by (simp add: critical_def split: if_splits)
  show ?thesis
    by (rule race_invI [OF _ dir times views]) (rule trans [OF only sym [OF only]])
qed

lemma lock_owned:
  assumes "race_inv grace s" and "critical s p"
  obtains d where "rdir s = Some d" "owns s d p"
proof (cases "rdir s")
  case None
  then show thesis using assms by (simp add: race_inv_def dir_ok_def)
next
  case (Some d)
  have dir: "dir_ok s" and only: "\<And>q. critical s q \<Longrightarrow> q = p"
    using assms unfolding race_inv_def by blast+
  from dir Some obtain q where q: "owns s d q" by (auto simp: dir_ok_def)
  then have "q = p" by (intro only) (simp add: owns_def)
  with q Some that show thesis by simp
qed

text \<open>The steps of the process that has the lock: the directory changes at the present time.\<close>

lemma race_inv_inside:
  assumes inv: "race_inv grace s" and p: "critical s p" and ph: "ph \<in> {Holding, Unlinked}" and "0 \<le> grace"
    and d': "owns (goto p ph s) d' p" "owner_json d' = None \<or> dir_mtime d' = rclock s"
  shows "race_inv grace (goto p ph (s\<lparr>rdir := Some d'\<rparr>))" (is "race_inv grace ?t")
proof -
  have "owns ?t d' p" using d'(1) by (simp add: owns_def critical_def)
  then have "dir_ok ?t" by (auto simp: dir_ok_def)
  moreover have "views_ok s" using inv by (simp add: race_inv_def)
  then have "views_ok ?t" using ph d'(2) by (intro views_goto) auto
  moreover have "times_ok grace ?t" using inv assms(4) by (simp add: race_inv_def times_ok_def)
  ultimately show ?thesis using inv p by (auto simp: race_inv_def critical_def)
qed

lemma race_inv_publish:
  assumes inv: "race_inv grace s" and p: "phases s p = Made" and "0 \<le> grace"
  shows "race_inv grace (goto p Holding
           (s\<lparr>rdir := touched (rclock s) (write_lock_owner (int p) no_reuse (rclock s) (rdir s))\<rparr>))"
proof -
  have crit: "critical s p" using p by (simp add: critical_def)
  then obtain d where d: "rdir s = Some d" by (rule lock_owned [OF inv])
  show ?thesis
    unfolding d write_lock_owner_def touched_def option.map
    by (rule race_inv_inside [OF inv crit _ assms(3)]) (simp_all add: owns_def critical_def)
qed

lemma race_inv_unlink:
  assumes inv: "race_inv grace s" and p: "phases s p = Holding" and "0 \<le> grace"
  shows "race_inv grace (goto p Unlinked (s\<lparr>rdir := unlink_owner (rclock s) (rdir s)\<rparr>))"
proof -
  have crit: "critical s p" using p by (simp add: critical_def)
  then obtain d where d: "rdir s = Some d" "owns s d p" by (rule lock_owned [OF inv])
  then have "unlink_owner (rclock s) (rdir s) = Some (d\<lparr>owner_json := None, dir_mtime := rclock s\<rparr>)"
    using p by (auto simp: unlink_owner_def touched_def owns_def)
  moreover have "race_inv grace (goto p Unlinked (s\<lparr>rdir := Some (d\<lparr>owner_json := None, dir_mtime := rclock s\<rparr>)\<rparr>))"
    by (rule race_inv_inside [OF inv crit _ assms(3)]) (simp_all add: owns_def critical_def)
  ultimately show ?thesis by simp
qed

lemma race_inv_rmdir:
  assumes inv: "race_inv grace s" and p: "phases s p = Unlinked"
  shows "race_inv grace (goto p Idle (s\<lparr>rdir := rmdir_lock (rdir s)\<rparr>))" (is "race_inv grace ?t")
proof -
  have crit: "critical s p" using p by (simp add: critical_def)
  then obtain d where d: "rdir s = Some d" "owns s d p" by (rule lock_owned [OF inv])
  then have gone: "rmdir_lock (rdir s) = None" using p by (simp add: rmdir_lock_def owns_def)
  have "q \<noteq> p \<Longrightarrow> \<not> critical s q" for q using inv crit by (auto simp: race_inv_def)
  then have "dir_ok ?t" by (simp add: dir_ok_def gone critical_def)
  moreover have "views_ok s" using inv by (simp add: race_inv_def)
  then have "views_ok ?t" by (rule views_goto) (simp_all add: gone)
  moreover have "times_ok grace ?t" using inv by (simp add: race_inv_def times_ok_def brief_def)
  ultimately show ?thesis using inv by (simp add: race_inv_def critical_def)
qed

text \<open>Under the invariant no lock is ever judged stale.\<close>

lemma no_dead_owner:
  assumes "race_inv grace s" and "phases s p = Judging ow"
  shows "\<not> confirmed_dead_owner (race_pid_status s) no_reuse (Some ow)"
proof -
  have "wrote_alive s ow" using assms unfolding race_inv_def views_ok_def by blast
  then show ?thesis by (auto simp: wrote_alive_def confirmed_dead_owner_def race_pid_status_def)
qed

lemma not_too_old:
  assumes inv: "race_inv grace s" and p: "phases s p = Inspecting now" and "0 \<le> grace"
  shows "\<not> too_old grace now (rdir s)"
proof (cases "rdir s")
  case (Some d)
  then obtain q where q: "owns s d q" using inv by (auto simp: race_inv_def dir_ok_def)
  have "now \<le> rclock s" using inv p unfolding race_inv_def views_ok_def by (metis asked_at_simps(2))
  moreover have "owner_json d = None \<or> now \<le> dir_mtime d"
    using inv p Some unfolding race_inv_def views_ok_def by blast
  moreover have "rclock s \<le> dir_mtime d + grace" if "owner_json d = None"
    using inv q that by (auto simp: race_inv_def times_ok_def owns_def critical_def brief_def)
  ultimately show ?thesis using Some assms(3) by (auto simp: too_old_def lock_dir_age_def)
qed (simp add: too_old_def lock_dir_age_def)

lemma look_known:
  assumes inv: "race_inv grace s" and p: "phases s p = Asked now"
  shows "may_enter s p (case read_lock_owner (rdir s) of None \<Rightarrow> Inspecting now | Some ow \<Rightarrow> Judging ow)"
proof -
  have now: "now \<le> rclock s" using inv p unfolding race_inv_def views_ok_def by (metis asked_at_simps(1))
  show ?thesis
  proof (cases "rdir s")
    case None
    then show ?thesis using now by (simp add: may_enter_def read_lock_owner_def)
  next
    case (Some d)
    then obtain q where q: "owns s d q" using inv by (auto simp: race_inv_def dir_ok_def)
    then have "wrote_alive s ow" if "owner_json d = Some ow" for ow
      using that by (auto simp: owns_def critical_def wrote_alive_def)
    then show ?thesis using Some now by (auto simp: may_enter_def read_lock_owner_def split: option.split)
  qed
qed

lemma race_inv_step:
  assumes inv: "race_inv grace s" and ok: "calm grace e s" and g: "0 \<le> grace" and ex: "race_exec grace e s = Some t"
  shows "race_inv grace t"
proof -
  note out = race_inv_outside [OF inv _ _ g]
  have no: "phases s p \<noteq> Reclaiming" for p using inv by (simp add: race_inv_def views_ok_def)
  show ?thesis
  proof (cases e)
    case (Start p)
    then show ?thesis using ex out [of p Trying] by (auto simp: may_enter_def critical_def split: if_splits)
  next
    case (Mkdir p)
    then show ?thesis using ex race_inv_mkdir [OF inv _ _ g] by (auto split: if_splits)
  next
    case (Publish p)
    then show ?thesis using ex race_inv_publish [OF inv _ g] by (auto split: if_splits)
  next
    case (Fail p)
    then show ?thesis using ex out [of p Lost] by (auto simp: may_enter_def critical_def split: if_splits)
  next
    case (Clock p)
    then show ?thesis
      using ex out [of p "Asked (rclock s)"] by (auto simp: may_enter_def critical_def split: if_splits)
  next
    case (Timeout p)
    then show ?thesis using ex out [of p Idle] by (auto simp: may_enter_def critical_def split: if_splits)
  next
    case (Look p)
    then obtain now where p: "phases s p = Asked now" using ex by (auto split: phase.splits)
    show ?thesis using Look ex p out [OF _ look_known [OF inv p]] by (auto simp: critical_def)
  next
    case (Judge p)
    then obtain ow where p: "phases s p = Judging ow" using ex by (auto split: phase.splits)
    then show ?thesis
      using Judge ex no_dead_owner [OF inv p] out [of p Trying] by (auto simp: may_enter_def critical_def)
  next
    case (Stat p)
    then obtain now where p: "phases s p = Inspecting now" using ex by (auto split: phase.splits)
    then show ?thesis
      using Stat ex not_too_old [OF inv p g] out [of p Trying] by (auto simp: may_enter_def critical_def)
  next
    case (Unlink p)
    then show ?thesis using ex race_inv_unlink [OF inv _ g] by (auto split: if_splits)
  next
    case (Rmdir p)
    then show ?thesis using ex race_inv_rmdir [OF inv] by (auto split: if_splits)
  next
    case (Exit p)
    then show ?thesis using ex ok out [of p Gone] by (auto simp: may_enter_def critical_def calm_def split: if_splits)
  next
    case (Tick k)
    then show ?thesis using ex ok race_inv_tick [OF inv] by (auto simp: calm_def)
  qed (use ex ok no in \<open>auto simp: calm_def split: if_splits\<close>)
qed

lemma race_reach_inv: "race_reach grace (calm grace) s \<Longrightarrow> 0 \<le> grace \<Longrightarrow> race_inv grace s"
  by (induction rule: race_reach.induct) (auto intro: race_inv_init race_inv_step)

subsection \<open>Mutual exclusion, and the races that break it\<close>

fun race_run :: "int \<Rightarrow> race_event list \<Rightarrow> race \<Rightarrow> race option" where
  "race_run grace [] s = Some s"
| "race_run grace (e # es) s =
     (case race_exec grace e s of None \<Rightarrow> None | Some t \<Rightarrow> race_run grace es t)"

lemma race_run_reach:
  "race_run grace es s = Some t \<Longrightarrow> race_reach grace ok s \<Longrightarrow> (\<forall>e\<in>set es. \<forall>u. ok e u) \<Longrightarrow>
    race_reach grace ok t"
  by (induction es arbitrary: s) (auto split: option.splits intro: race_reach.step)

lemma race_run_ends:
  assumes "case race_run grace es race_init of None \<Rightarrow> False | Some s \<Rightarrow> P s" and "\<forall>e\<in>set es. \<forall>u. ok e u"
  shows "\<exists>s. race_reach grace ok s \<and> P s"
proof -
  obtain s where "race_run grace es race_init = Some s" "P s" using assms(1) by (rule case_SomeE)
  with race_run_reach [OF _ race_reach.start assms(2)] show ?thesis by blast
qed

text \<open>
  C1. Mutual exclusion of the lock directory, over every interleaving of the system calls: at most one process is
  between its \<open>mkdir\<close> and its \<open>rmdir\<close>, and the verdict to reclaim is never reached against it, as long as no
  process crashes or fails to write its record, none exits while another still has to check the pid that it
  read in its record, and none stays longer than the grace period (at least 0) between its \<open>mkdir\<close> and its record
  or between its unlink and its \<open>rmdir\<close>. The races below show what happens otherwise.
\<close>

theorem calm_mutual_exclusion:
  assumes "race_reach grace (calm grace) s" and "0 \<le> grace"
  shows "(\<forall>p q. critical s p \<longrightarrow> critical s q \<longrightarrow> p = q) \<and> (\<forall>p. phases s p \<noteq> Reclaiming)"
  using race_reach_inv [OF assms] unfolding race_inv_def views_ok_def by blast

theorem calm_mutual_exclusion_witness:
  "\<exists>s. race_reach 2000000 (calm 2000000) s \<and> critical s 1 \<and> (\<forall>q. critical s q \<longrightarrow> 1 = q)"
proof -
  let ?run = "[Start 1, Start 2, Mkdir 1, Fail 2, Clock 2, Look 2]"
  have "\<exists>s. race_reach 2000000 (calm 2000000) s \<and> critical s 1"
    by (rule race_run_ends [where es = ?run])
      (simp_all add: race_init_def critical_def calm_def read_lock_owner_def)
  then obtain s where s: "race_reach 2000000 (calm 2000000) s" "critical s 1" by blast
  moreover have "1 = q" if "critical s q" for q
    using calm_mutual_exclusion [OF s(1) zero_le_numeral] s(2) that by blast
  ultimately show ?thesis by blast
qed

lemmas race_eval = race_init_def write_lock_owner_def touched_def read_lock_owner_def confirmed_dead_owner_def
  race_pid_status_def rename_then_remove_def unlink_owner_def rmdir_lock_def too_old_def lock_dir_age_def

text \<open>
  A crash breaks mutual exclusion, whatever the grace period: the verdict and the rename
  that acts on it are two system calls. Process 0 dies holding the lock; processes 1 and 2 both
  judge that lock stale; 1 renames it away and takes the lock afresh; then 2 carries its old
  verdict out, and renames away the live lock of 1. Both end up holding the lock although
  neither has crashed.
\<close>

definition only_0_crashes :: "race_event \<Rightarrow> race \<Rightarrow> bool" where
  "only_0_crashes e = (\<lambda>s. case e of Crash p \<Rightarrow> p = 0 | Tick k \<Rightarrow> False | _ \<Rightarrow> True)"

theorem reclaim_race_double_hold:
  "\<exists>s. race_reach grace only_0_crashes s \<and> phases s 1 = Holding \<and> phases s 2 = Holding"
  by (rule race_run_ends [where es = "[Start 0, Start 1, Start 2, Mkdir 0, Publish 0, Fail 1, Fail 2, Crash 0, Clock 1, Clock 2, Look 1, Look 2,
      Judge 1, Judge 2, Rename 1, Mkdir 1, Publish 1, Rename 2, Mkdir 2, Publish 2]"])
    (simp_all add: race_eval only_0_crashes_def)

text \<open>
  No crash and no time at all is needed when a process exits: 1 reads the record of 0, 0 releases the lock and
  exits, 2 takes the lock, and 1 finds the pid that it read dead and renames the lock of 2 away.
\<close>

definition no_crash :: "race_event \<Rightarrow> race \<Rightarrow> bool" where
  "no_crash e = (\<lambda>s. case e of Crash p \<Rightarrow> False | Unpublished p \<Rightarrow> False | Tick k \<Rightarrow> False | _ \<Rightarrow> True)"

theorem exit_race_double_hold:
  "\<exists>s. race_reach grace no_crash s \<and> phases s 1 = Holding \<and> phases s 2 = Holding"
  by (rule race_run_ends [where es = "[Start 0, Start 1, Start 2, Mkdir 0, Publish 0, Fail 1, Clock 1, Look 1, Unlink 0, Rmdir 0, Exit 0,
      Mkdir 2, Publish 2, Judge 1, Rename 1, Mkdir 1, Publish 1]"])
    (simp_all add: race_eval no_crash_def)

text \<open>
  A slow release breaks it without any process ending: while 0 is between its unlink and its \<open>rmdir\<close> for longer
  than the grace period, 1 judges the directory too old; 0 removes it, 2 takes the lock, 1 renames it away.
\<close>

definition no_end :: "race_event \<Rightarrow> race \<Rightarrow> bool" where
  "no_end e = (\<lambda>s. case e of Crash p \<Rightarrow> False | Exit p \<Rightarrow> False | Unpublished p \<Rightarrow> False | _ \<Rightarrow> True)"

theorem slow_release_double_hold:
  "\<exists>s. race_reach grace no_end s \<and> phases s 1 = Holding \<and> phases s 2 = Holding"
  by (rule race_run_ends [where es = "[Start 0, Start 1, Start 2, Mkdir 0, Publish 0, Unlink 0, Tick (Suc (nat grace)), Fail 1, Clock 1, Look 1,
      Stat 1, Rmdir 0, Mkdir 2, Publish 2, Rename 1, Mkdir 1, Publish 1]"])
    (simp_all add: race_eval no_end_def)

end
