(* ===== verification/Coord_Leases.thy ===== *)
theory Coord_Leases
  imports Coord_Lock
begin

text \<open>
  Worktree leases of \<^verbatim>\<open>user/scripts/lazy_coord.py\<close>: \<open>leases.json\<close>, the fencing-token watermarks
  beside it, and the operations that change them under the global lock. \<open>now\<close> is in
  microseconds; a heartbeat is the epoch second its ISO-8601 string denotes (\<open>strftime\<close> drops the
  fraction), or \<open>None\<close> where the field is missing or does not parse. Worktree directories are
  pairs of the pool directory and the slot name.
\<close>

subsection \<open>Data\<close>

record lease =
  worker_pid :: int
  worktree_slot :: string
  term_token :: int
  heartbeat_timestamp :: "int option"
  ttl_seconds :: int

type_synonym leases = "(string, lease) dict"
type_synonym watermarks = "(string, int) dict"

record lease_store =
  store_dir :: string
  leases_file :: "leases jfile"
  marks_file :: "watermarks jfile"
  slot_dirs :: "(string \<times> string) set"

datatype coord_error =
    LockTimeout
  | JsonDecodeError
  | BadTimestamp
  | FencingError string int "int option"
  | ItemLockTimeout
  | ItemLockStillWaiting

type_synonym coord = "lock_state \<times> lease_store"

definition now_iso :: "int \<Rightarrow> int" where
  "now_iso now = now div 1000000"

definition lease_expiry :: "lease \<Rightarrow> int option" where
  "lease_expiry e = map_option (\<lambda>h. h + ttl_seconds e) (heartbeat_timestamp e)"

definition expired_at :: "int \<Rightarrow> lease \<Rightarrow> bool" where
  "expired_at now e = (case lease_expiry e of None \<Rightarrow> False | Some x \<Rightarrow> x * 1000000 < now)"

definition live_at :: "int \<Rightarrow> lease \<Rightarrow> bool" where
  "live_at now e = (case lease_expiry e of None \<Rightarrow> False | Some x \<Rightarrow> now \<le> x * 1000000)"

definition read_leases :: "lease_store \<Rightarrow> coord_error + leases" where
  "read_leases s = (case leases_file s of Absent \<Rightarrow> Inr [] | Corrupt \<Rightarrow> Inl JsonDecodeError
     | Content d \<Rightarrow> Inr d)"

definition write_leases :: "leases \<Rightarrow> lease_store \<Rightarrow> lease_store" where
  "write_leases d s = s\<lparr>leases_file := Content d\<rparr>"

definition read_watermarks :: "lease_store \<Rightarrow> watermarks" where
  "read_watermarks s = (case marks_file s of Absent \<Rightarrow> [] | Corrupt \<Rightarrow> [] | Content d \<Rightarrow> d)"

definition mark_of :: "watermarks \<Rightarrow> string \<Rightarrow> int" where
  "mark_of marks wi = (case dget marks wi of None \<Rightarrow> 0 | Some t \<Rightarrow> t)"

fun raise_marks :: "leases \<Rightarrow> watermarks \<Rightarrow> watermarks" where
  "raise_marks [] marks = marks"
| "raise_marks ((wi, e) # es) marks =
     raise_marks es (if mark_of marks wi < term_token e then dset wi (term_token e) marks else marks)"

definition record_watermarks :: "leases \<Rightarrow> lease_store \<Rightarrow> lease_store" where
  "record_watermarks entries s =
     (if entries = [] then s
      else s\<lparr>marks_file := Content (raise_marks entries (read_watermarks s))\<rparr>)"

text \<open>
  The sweep: the expiry comprehension raises on an entry whose heartbeat does not parse, before
  anything is changed; then the expired entries are popped and their slot directories removed
  (an empty slot name is falsy and removes nothing), and their tokens are recorded.
\<close>

definition expired_ids :: "int \<Rightarrow> leases \<Rightarrow> coord_error + string list" where
  "expired_ids now data =
     (if \<exists>(wi, e) \<in> set data. heartbeat_timestamp e = None then Inl BadTimestamp
      else Inr (map fst (filter (\<lambda>(wi, e). expired_at now e) data)))"

definition scrub_dirs :: "string \<Rightarrow> leases \<Rightarrow> (string \<times> string) set \<Rightarrow> (string \<times> string) set" where
  "scrub_dirs pool retired dirs =
     dirs - set (map (\<lambda>(wi, e). (pool, worktree_slot e))
                   (filter (\<lambda>(wi, e). worktree_slot e \<noteq> []) retired))"

definition reclaim ::
  "string \<Rightarrow> int \<Rightarrow> leases \<Rightarrow> lease_store \<Rightarrow> (coord_error + string list \<times> leases) \<times> lease_store" where
  "reclaim pool now data s =
     (case expired_ids now data of
        Inl e \<Rightarrow> (Inl e, s)
      | Inr ids \<Rightarrow>
          let retired = filter (\<lambda>(wi, e). wi \<in> set ids) data;
              kept = filter (\<lambda>(wi, e). wi \<notin> set ids) data
          in (Inr (ids, kept),
              record_watermarks retired (s\<lparr>slot_dirs := scrub_dirs pool retired (slot_dirs s)\<rparr>)))"

subsection \<open>Operations\<close>

definition acquire_lease_body ::
  "string \<Rightarrow> int \<Rightarrow> string \<Rightarrow> int \<Rightarrow> int \<Rightarrow> (lease_store, coord_error, lease option) op" where
  "acquire_lease_body wi pid slot ttl now s =
     (case read_leases s of
        Inl e \<Rightarrow> (Inl e, s)
      | Inr data \<Rightarrow>
          (case reclaim (store_dir s) now data s of
             (Inl e, s1) \<Rightarrow> (Inl e, s1)
           | (Inr (ids, kept), s1) \<Rightarrow>
               (case dget kept wi of
                  Some e \<Rightarrow>
                    (if live_at now e then (Inr None, s1)
                     else let token = max (term_token e) (mark_of (read_watermarks s1) wi) + 1;
                              new_entry = \<lparr>worker_pid = pid, worktree_slot = slot, term_token = token,
                                heartbeat_timestamp = Some (now_iso now), ttl_seconds = ttl\<rparr>
                          in (Inr (Some new_entry), write_leases (dset wi new_entry kept) s1))
                | None \<Rightarrow>
                    let token = max 0 (mark_of (read_watermarks s1) wi) + 1;
                        new_entry = \<lparr>worker_pid = pid, worktree_slot = slot, term_token = token,
                          heartbeat_timestamp = Some (now_iso now), ttl_seconds = ttl\<rparr>
                    in (Inr (Some new_entry), write_leases (dset wi new_entry kept) s1))))"

text \<open>The fencing test shared by \<open>heartbeat\<close>, \<open>verify_fencing\<close> and \<open>release_lease\<close>.\<close>

definition fenced :: "string \<Rightarrow> int \<Rightarrow> leases \<Rightarrow> coord_error + lease" where
  "fenced wi expected data =
     (case dget data wi of
        None \<Rightarrow> Inl (FencingError wi expected None)
      | Some e \<Rightarrow> if term_token e \<noteq> expected then Inl (FencingError wi expected (Some (term_token e)))
                  else Inr e)"

definition verify_fencing :: "string \<Rightarrow> int \<Rightarrow> lease_store \<Rightarrow> coord_error + unit" where
  "verify_fencing wi expected s =
     (case read_leases s of
        Inl e \<Rightarrow> Inl e
      | Inr data \<Rightarrow> (case fenced wi expected data of Inl e \<Rightarrow> Inl e | Inr _ \<Rightarrow> Inr ()))"

definition heartbeat_body :: "string \<Rightarrow> int \<Rightarrow> int \<Rightarrow> (lease_store, coord_error, unit) op" where
  "heartbeat_body wi expected now s =
     (case read_leases s of
        Inl e \<Rightarrow> (Inl e, s)
      | Inr data \<Rightarrow>
          (case fenced wi expected data of
             Inl e \<Rightarrow> (Inl e, s)
           | Inr e \<Rightarrow>
               (Inr (), write_leases (dset wi (e\<lparr>heartbeat_timestamp := Some (now_iso now)\<rparr>) data) s)))"

definition reclaim_expired_body :: "string \<Rightarrow> int \<Rightarrow> (lease_store, coord_error, string list) op" where
  "reclaim_expired_body pool now s =
     (case read_leases s of
        Inl e \<Rightarrow> (Inl e, s)
      | Inr data \<Rightarrow>
          (case reclaim pool now data s of
             (Inl e, s1) \<Rightarrow> (Inl e, s1)
           | (Inr (ids, kept), s1) \<Rightarrow> (Inr ids, write_leases kept s1)))"

definition release_lease_body :: "string \<Rightarrow> int \<Rightarrow> (lease_store, coord_error, unit) op" where
  "release_lease_body wi expected s =
     (case read_leases s of
        Inl e \<Rightarrow> (Inl e, s)
      | Inr data \<Rightarrow>
          (case fenced wi expected data of
             Inl e \<Rightarrow> (Inl e, s)
           | Inr e \<Rightarrow> (Inr (), write_leases (ddel wi data) (record_watermarks [(wi, e)] s))))"

text \<open>The public operations: each body under \<open>global.lock.d\<close>.\<close>

abbreviation under_lock :: "lock_ctx \<Rightarrow> (lease_store, coord_error, 'a) op \<Rightarrow> (coord, coord_error, 'a) op" where
  "under_lock c body \<equiv> with_lock (lock_acq c) release_lock LockTimeout body"

definition acquire_lease ::
  "lock_ctx \<Rightarrow> string \<Rightarrow> int \<Rightarrow> string \<Rightarrow> int \<Rightarrow> int \<Rightarrow> (coord, coord_error, lease option) op" where
  "acquire_lease c wi pid slot ttl now = under_lock c (acquire_lease_body wi pid slot ttl now)"

definition heartbeat :: "lock_ctx \<Rightarrow> string \<Rightarrow> int \<Rightarrow> int \<Rightarrow> (coord, coord_error, unit) op" where
  "heartbeat c wi expected now = under_lock c (heartbeat_body wi expected now)"

definition reclaim_expired :: "lock_ctx \<Rightarrow> string \<Rightarrow> int \<Rightarrow> (coord, coord_error, string list) op" where
  "reclaim_expired c pool now = under_lock c (reclaim_expired_body pool now)"

definition release_lease :: "lock_ctx \<Rightarrow> string \<Rightarrow> int \<Rightarrow> (coord, coord_error, unit) op" where
  "release_lease c wi expected = under_lock c (release_lease_body wi expected)"

definition release_item_lock :: "lock_ctx \<Rightarrow> string \<Rightarrow> int \<Rightarrow> (coord, coord_error, unit) op" where
  "release_item_lock c wi expected = release_lease c wi expected"

end
