(* ===== verification/Fencing.thy ===== *)
theory Fencing
  imports Prelude
begin

text \<open>
  The contract of a fencing-token service, and what follows from it for whole runs. A step may
  grant a token for a key; \<open>holds s k t\<close> says that the service accepts token \<open>t\<close> for \<open>k\<close>;
  \<open>mark s k\<close> bounds every token ever granted for \<open>k\<close>. The lease component interprets the locale
  on its own operations.
\<close>

fun run_grants :: "('e \<Rightarrow> 's \<Rightarrow> 'g option \<times> 's) \<Rightarrow> 'e list \<Rightarrow> 's \<Rightarrow> 'g list \<times> 's" where
  "run_grants step [] s = ([], s)"
| "run_grants step (e # es) s =
     (case step e s of
        (g, s1) \<Rightarrow> (case run_grants step es s1 of
          (gs, s2) \<Rightarrow> ((case g of None \<Rightarrow> gs | Some x \<Rightarrow> x # gs), s2)))"

text \<open>Grants for the same key carry strictly increasing tokens, in the order they are made.\<close>

fun increasing :: "('k \<times> int) list \<Rightarrow> bool" where
  "increasing [] = True"
| "increasing ((k, t) # gs) = ((\<forall>(k', t') \<in> set gs. k' = k \<longrightarrow> t < t') \<and> increasing gs)"

locale fencing =
  fixes step :: "'e \<Rightarrow> 's \<Rightarrow> ('k \<times> int) option \<times> 's"
    and mark :: "'s \<Rightarrow> 'k \<Rightarrow> int"
    and holds :: "'s \<Rightarrow> 'k \<Rightarrow> int \<Rightarrow> bool"
    and inv :: "'s \<Rightarrow> bool"
  assumes inv_step: "inv s \<Longrightarrow> step e s = (g, s') \<Longrightarrow> inv s'"
    and mark_mono: "inv s \<Longrightarrow> step e s = (g, s') \<Longrightarrow> mark s k \<le> mark s' k"
    and grant_fresh: "inv s \<Longrightarrow> step e s = (Some (k, t), s') \<Longrightarrow> mark s k < t \<and> t \<le> mark s' k"
    and grant_exclusive: "inv s \<Longrightarrow> step e s = (Some (k, t), s') \<Longrightarrow> holds s' k t' \<Longrightarrow> t' = t"
    and holds_step: "inv s \<Longrightarrow> step e s = (g, s') \<Longrightarrow> holds s' k t \<Longrightarrow> holds s k t \<or> g = Some (k, t)"
begin

lemma run_marks:
  assumes "inv s" and "run_grants step es s = (gs, s')"
  shows "inv s' \<and> mark s k \<le> mark s' k \<and> (\<forall>t. (k, t) \<in> set gs \<longrightarrow> mark s k < t \<and> t \<le> mark s' k)"
  using assms
proof (induction es arbitrary: s gs)
  case Nil
  then show ?case by simp
next
  case (Cons e es)
  obtain g s1 where 1: "step e s = (g, s1)" by fastforce
  obtain gs1 where 2: "run_grants step es s1 = (gs1, s')" "gs = (case g of None \<Rightarrow> gs1 | Some x \<Rightarrow> x # gs1)"
    using Cons.prems(2) 1 by (auto split: prod.splits)
  have IH: "inv s' \<and> mark s1 k \<le> mark s' k \<and> (\<forall>t. (k, t) \<in> set gs1 \<longrightarrow> mark s1 k < t \<and> t \<le> mark s' k)"
    using Cons.IH [OF inv_step [OF Cons.prems(1) 1] 2(1)] .
  have m: "mark s k \<le> mark s1 k" using mark_mono [OF Cons.prems(1) 1] .
  show ?case
  proof (cases g)
    case None
    with IH m 2(2) show ?thesis by fastforce
  next
    case (Some x)
    have "\<forall>t. x = (k, t) \<longrightarrow> mark s k < t \<and> t \<le> mark s1 k"
      using grant_fresh [OF Cons.prems(1)] 1 Some by blast
    with IH m 2(2) Some show ?thesis by fastforce
  qed
qed

lemma tokens_increase:
  assumes "inv s" and "run_grants step es s = (gs, s')"
  shows "increasing gs"
  using assms
proof (induction es arbitrary: s gs)
  case Nil
  then show ?case by simp
next
  case (Cons e es)
  obtain g s1 where 1: "step e s = (g, s1)" by fastforce
  obtain gs1 where 2: "run_grants step es s1 = (gs1, s')" "gs = (case g of None \<Rightarrow> gs1 | Some x \<Rightarrow> x # gs1)"
    using Cons.prems(2) 1 by (auto split: prod.splits)
  have inv1: "inv s1" using inv_step [OF Cons.prems(1) 1] .
  show ?case
  proof (cases g)
    case None
    with Cons.IH [OF inv1 2(1)] 2(2) show ?thesis by simp
  next
    case (Some x)
    obtain k t where x: "x = (k, t)" by (cases x)
    have "t \<le> mark s1 k" using grant_fresh [OF Cons.prems(1)] 1 Some x by blast
    then have "\<forall>t'. (k, t') \<in> set gs1 \<longrightarrow> t < t'" using run_marks [OF inv1 2(1)] by fastforce
    with Cons.IH [OF inv1 2(1)] 2(2) Some x show ?thesis by auto
  qed
qed

lemma never_again:
  assumes "inv s" and "run_grants step es s = (gs, s')" and "t \<le> mark s k" and "\<not> holds s k t"
  shows "\<not> holds s' k t"
  using assms
proof (induction es arbitrary: s gs)
  case Nil
  then show ?case by simp
next
  case (Cons e es)
  obtain g s1 where 1: "step e s = (g, s1)" by fastforce
  obtain gs1 where 2: "run_grants step es s1 = (gs1, s')"
    using Cons.prems(2) 1 by (auto split: prod.splits)
  have "g \<noteq> Some (k, t)" using grant_fresh [OF Cons.prems(1)] 1 Cons.prems(3) by fastforce
  then have "\<not> holds s1 k t" using holds_step [OF Cons.prems(1) 1] Cons.prems(4) by blast
  moreover have "t \<le> mark s1 k" using mark_mono [OF Cons.prems(1) 1, of k] Cons.prems(3) by simp
  ultimately show ?case using Cons.IH inv_step [OF Cons.prems(1) 1] 2 by blast
qed

lemma superseded:
  assumes "inv s" and "run_grants step es s = (gs, s')" and "(k, t') \<in> set gs" and "t < t'"
  shows "\<not> holds s' k t"
  using assms(1,2,3)
proof (induction es arbitrary: s gs)
  case Nil
  then show ?case by simp
next
  case (Cons e es)
  obtain g s1 where 1: "step e s = (g, s1)" by fastforce
  obtain gs1 where 2: "run_grants step es s1 = (gs1, s')" "gs = (case g of None \<Rightarrow> gs1 | Some x \<Rightarrow> x # gs1)"
    using Cons.prems(2) 1 by (auto split: prod.splits)
  have inv1: "inv s1" using inv_step [OF Cons.prems(1) 1] .
  show ?case
  proof (cases "g = Some (k, t')")
    case True
    with 1 have g: "step e s = (Some (k, t'), s1)" by simp
    have "\<not> holds s1 k t" using grant_exclusive [OF Cons.prems(1) g] assms(4) by blast
    moreover have "t \<le> mark s1 k" using grant_fresh [OF Cons.prems(1) g] assms(4) by simp
    ultimately show ?thesis using never_again [OF inv1 2(1)] by blast
  next
    case False
    then have "(k, t') \<in> set gs1" using Cons.prems(3) 2(2) by (auto split: option.splits)
    then show ?thesis using Cons.IH [OF inv1 2(1)] by blast
  qed
qed

end

end
