(* ===== verification/Coord_Fencing.thy ===== *)
theory Coord_Fencing
  imports Coord_Leases Fencing
begin

text \<open>
  Correctness of the lease operations: what each does on every branch, that double claims are
  refused, and that the store satisfies the fencing contract over arbitrary runs, crashes
  between the two file writes included.
\<close>

subsection \<open>Watermarks and the sweep\<close>

lemma mark_of_dset [simp]: "mark_of (dset k t m) k' = (if k' = k then t else mark_of m k')"
  by (simp add: mark_of_def dict_simps)

lemma mark_of_raise_marks:
  "distinct (dkeys es) \<Longrightarrow> mark_of (raise_marks es m) k =
    (case dget es k of None \<Rightarrow> mark_of m k | Some e \<Rightarrow> max (mark_of m k) (term_token e))"
proof (induction es m rule: raise_marks.induct)
  case (1 marks)
  then show ?case by simp
next
  case (2 wi e es marks)
  have "k = wi \<Longrightarrow> dget es k = None"
    using "2.prems" by (auto simp: map_of_eq_None_iff)
  with 2 show ?case by (auto simp: max_def split: option.splits)
qed

lemma mark_of_record:
  "distinct (dkeys es) \<Longrightarrow> mark_of (read_watermarks (record_watermarks es s)) k =
    (case dget es k of None \<Rightarrow> mark_of (read_watermarks s) k
     | Some e \<Rightarrow> max (mark_of (read_watermarks s) k) (term_token e))"
  by (simp add: record_watermarks_def mark_of_raise_marks read_watermarks_def [of "s\<lparr>marks_file := _\<rparr>"])

lemma record_watermarks_frame [simp]:
  "leases_file (record_watermarks es s) = leases_file s"
  "store_dir (record_watermarks es s) = store_dir s"
  "slot_dirs (record_watermarks es s) = slot_dirs s"
  by (simp_all add: record_watermarks_def)

lemma read_leases_record [simp]: "read_leases (record_watermarks es s) = read_leases s"
  by (simp add: read_leases_def)

lemma read_write_leases [simp]:
  "read_leases (write_leases d s) = Inr d"
  "read_watermarks (write_leases d s) = read_watermarks s"
  "slot_dirs (write_leases d s) = slot_dirs s"
  by (simp_all add: read_leases_def write_leases_def read_watermarks_def)

lemma live_not_expired: "live_at now e \<Longrightarrow> \<not> expired_at now e"
  by (auto simp: live_at_def expired_at_def split: option.splits)

lemma live_iff_not_expired:
  "heartbeat_timestamp e \<noteq> None \<Longrightarrow> live_at now e = (\<not> expired_at now e)"
  by (auto simp: live_at_def expired_at_def lease_expiry_def)

lemma expired_ids_mem:
  assumes "expired_ids now data = Inr ids" and "distinct (dkeys data)" and "dget data k = Some e"
  shows "k \<in> set ids \<longleftrightarrow> expired_at now e"
proof -
  have "ids = map fst (filter (\<lambda>(wi, e). expired_at now e) data)"
    using assms(1) by (simp add: expired_ids_def split: if_splits)
  then have "k \<in> set ids \<longleftrightarrow> (\<exists>e'. (k, e') \<in> set data \<and> expired_at now e')" by force
  also have "\<dots> \<longleftrightarrow> expired_at now e"
    using assms(2,3) dget_Some_mem [OF assms(3)] mem_dget_Some [OF assms(2)] by fastforce
  finally show ?thesis .
qed

lemma reclaim_Inr:
  assumes "reclaim pool now data s = (Inr (ids, kept), s1)" and dist: "distinct (dkeys data)"
  shows "distinct (dkeys kept)"
    and "dget kept k = (case dget data k of None \<Rightarrow> None
           | Some e \<Rightarrow> if expired_at now e then None else Some e)"
    and "mark_of (read_watermarks s1) k = (case dget data k of None \<Rightarrow> mark_of (read_watermarks s) k
           | Some e \<Rightarrow> if expired_at now e then max (mark_of (read_watermarks s) k) (term_token e)
                     else mark_of (read_watermarks s) k)"
    and "dget kept k = Some e \<Longrightarrow> live_at now e"
    and "leases_file s1 = leases_file s" and "read_leases s1 = read_leases s"
    and "slot_dirs s1 = scrub_dirs pool (filter (\<lambda>(wi, e). wi \<in> set ids) data) (slot_dirs s)"
proof -
  have ids: "expired_ids now data = Inr ids"
    and kept: "kept = filter (\<lambda>(wi, e). wi \<notin> set ids) data"
    and s1: "s1 = record_watermarks (filter (\<lambda>(wi, e). wi \<in> set ids) data)
               (s\<lparr>slot_dirs := scrub_dirs pool (filter (\<lambda>(wi, e). wi \<in> set ids) data) (slot_dirs s)\<rparr>)"
    using assms(1) by (auto simp: reclaim_def Let_def split: sum.splits)
  have mem: "\<And>e. dget data k = Some e \<Longrightarrow> k \<in> set ids \<longleftrightarrow> expired_at now e"
    using expired_ids_mem [OF ids dist] .
  show d1: "distinct (dkeys kept)" using dist kept by simp
  show d2: "dget kept k = (case dget data k of None \<Rightarrow> None
           | Some e \<Rightarrow> if expired_at now e then None else Some e)"
    using kept mem by (auto simp: dget_filter [OF dist] split: option.splits)
  show "mark_of (read_watermarks s1) k = (case dget data k of None \<Rightarrow> mark_of (read_watermarks s) k
           | Some e \<Rightarrow> if expired_at now e then max (mark_of (read_watermarks s) k) (term_token e)
                     else mark_of (read_watermarks s) k)"
    using mem dist unfolding s1
    by (subst mark_of_record)
      (auto simp: dget_filter read_watermarks_def split: option.splits)
  show "leases_file s1 = leases_file s" "read_leases s1 = read_leases s"
    "slot_dirs s1 = scrub_dirs pool (filter (\<lambda>(wi, e). wi \<in> set ids) data) (slot_dirs s)"
    by (simp_all add: s1 read_leases_def)
  assume k: "dget kept k = Some e"
  then have "dget data k = Some e" "\<not> expired_at now e"
    using d2 by (auto split: option.splits if_splits)
  moreover have "heartbeat_timestamp e \<noteq> None"
    using ids dget_Some_mem [OF \<open>dget data k = Some e\<close>] by (auto simp: expired_ids_def split: if_splits)
  ultimately show "live_at now e" by (simp add: live_iff_not_expired)
qed

lemma reclaim_Inl: "reclaim pool now data s = (Inl e, s1) \<Longrightarrow> s1 = s"
  by (auto simp: reclaim_def Let_def split: sum.splits)

subsection \<open>Acquisition, branch by branch\<close>

definition granted_lease :: "int \<Rightarrow> string \<Rightarrow> int \<Rightarrow> int \<Rightarrow> int \<Rightarrow> lease" where
  "granted_lease pid slot ttl now token =
     \<lparr>worker_pid = pid, worktree_slot = slot, term_token = token,
      heartbeat_timestamp = Some (now_iso now), ttl_seconds = ttl\<rparr>"

definition leases_wf :: "lease_store \<Rightarrow> bool" where
  "leases_wf s \<longleftrightarrow> (case leases_file s of Content d \<Rightarrow> distinct (dkeys d) | _ \<Rightarrow> True)"

lemma leases_wf_read: "leases_wf s \<Longrightarrow> read_leases s = Inr d \<Longrightarrow> distinct (dkeys d)"
  by (auto simp: leases_wf_def read_leases_def split: jfile.splits)

lemma leases_wf_write [simp]: "leases_wf (write_leases d s) = distinct (dkeys d)"
  by (simp add: leases_wf_def write_leases_def)

lemma acquire_cases:
  assumes "acquire_lease_body wi pid slot ttl now s = (r, s')" and "leases_wf s"
  obtains (error) e where "r = Inl e" "s' = s"
  | (held) data ids kept e where "r = Inr None" "read_leases s = Inr data"
      "reclaim (store_dir s) now data s = (Inr (ids, kept), s')" "dget data wi = Some e" "live_at now e"
  | (granted) data ids kept s1 token where "read_leases s = Inr data"
      "reclaim (store_dir s) now data s = (Inr (ids, kept), s1)" "dget kept wi = None"
      "token = max 0 (mark_of (read_watermarks s1) wi) + 1"
      "r = Inr (Some (granted_lease pid slot ttl now token))"
      "s' = write_leases (dset wi (granted_lease pid slot ttl now token) kept) s1"
proof (cases "read_leases s")
  case (Inl e)
  with assms(1) have "r = Inl e" "s' = s" by (auto simp: acquire_lease_body_def)
  then show ?thesis by (rule error)
next
  case (Inr data)
  note dist = leases_wf_read [OF assms(2) Inr]
  obtain x s1 where x: "reclaim (store_dir s) now data s = (x, s1)" by fastforce
  show ?thesis
  proof (cases x)
    case (Inl e)
    with assms(1) Inr x error reclaim_Inl show ?thesis
      by (fastforce simp: acquire_lease_body_def)
  next
    case x': (Inr p)
    obtain ids kept where p: "p = (ids, kept)" by (cases p)
    note rec = reclaim_Inr [OF x [unfolded x' p] dist]
    show ?thesis
    proof (cases "dget kept wi")
      case None
      with assms(1) Inr x x' p granted show ?thesis
        by (simp add: acquire_lease_body_def granted_lease_def Let_def)
    next
      case (Some e)
      have live: "live_at now e" using rec(4) Some by simp
      have "dget data wi = Some e" using rec(2) [of wi] Some by (auto split: option.splits if_splits)
      moreover have "r = Inr None \<and> s' = s1"
        using assms(1) Inr x x' p Some live by (simp add: acquire_lease_body_def)
      ultimately show ?thesis using held Inr x x' p live by simp
    qed
  qed
qed

lemma acquire_live_refused:
  assumes "leases_wf s" and "read_leases s = Inr data" and "dget data wi = Some e" and "live_at now e"
    and "acquire_lease_body wi pid slot ttl now s = (Inr x, s')"
  shows "x = None \<and> leases_file s' = leases_file s"
  using assms(5,1)
proof (cases rule: acquire_cases)
  case (held data' ids kept e')
  then show ?thesis using reclaim_Inr(5) [OF held(3) leases_wf_read [OF assms(1) held(2)]] by simp
next
  case (granted data' ids kept s1 token)
  have "heartbeat_timestamp e \<noteq> None"
    using assms(4) by (auto simp: live_at_def lease_expiry_def split: option.splits)
  then have "\<not> expired_at now e" using live_not_expired [OF assms(4)] by blast
  then have "dget kept wi = Some e"
    using reclaim_Inr(2) [OF granted(2) leases_wf_read [OF assms(1) granted(1)], of wi] assms(2,3) granted(1)
    by simp
  with granted(3) show ?thesis by simp
qed simp

subsection \<open>Runs of lease operations\<close>

text \<open>
  The global lock serialises the operations, so a run is a sequence of them. \<open>CrashReclaim\<close> and
  \<open>CrashRelease\<close> are a process dying after it wrote the watermarks and before it wrote
  \<open>leases.json\<close>.
\<close>

datatype lease_event =
    Acquire string int string int int
  | Heartbeat string int int
  | Release string int
  | Reclaim string int
  | CrashReclaim string int
  | CrashRelease string int

definition restore_leases :: "lease_store \<Rightarrow> lease_store \<Rightarrow> lease_store" where
  "restore_leases before after = after\<lparr>leases_file := leases_file before\<rparr>"

fun lease_step :: "lease_event \<Rightarrow> lease_store \<Rightarrow> (string \<times> int) option \<times> lease_store" where
  "lease_step (Acquire wi pid slot ttl now) s =
     (case acquire_lease_body wi pid slot ttl now s of
        (Inr (Some e), s') \<Rightarrow> (Some (wi, term_token e), s')
      | (_, s') \<Rightarrow> (None, s'))"
| "lease_step (Heartbeat wi t now) s = (None, snd (heartbeat_body wi t now s))"
| "lease_step (Release wi t) s = (None, snd (release_lease_body wi t s))"
| "lease_step (Reclaim pool now) s = (None, snd (reclaim_expired_body pool now s))"
| "lease_step (CrashReclaim pool now) s =
     (None, restore_leases s (snd (reclaim_expired_body pool now s)))"
| "lease_step (CrashRelease wi t) s = (None, restore_leases s (snd (release_lease_body wi t s)))"

definition lease_token :: "lease_store \<Rightarrow> string \<Rightarrow> int option" where
  "lease_token s wi =
     (case read_leases s of Inl _ \<Rightarrow> None | Inr d \<Rightarrow> map_option term_token (dget d wi))"

definition lease_mark :: "lease_store \<Rightarrow> string \<Rightarrow> int" where
  "lease_mark s wi =
     max 0 (max (mark_of (read_watermarks s) wi)
       (case lease_token s wi of None \<Rightarrow> 0 | Some t \<Rightarrow> t))"

definition lease_holds :: "lease_store \<Rightarrow> string \<Rightarrow> int \<Rightarrow> bool" where
  "lease_holds s wi t \<longleftrightarrow> verify_fencing wi t s = Inr ()"

lemma lease_holds_iff: "lease_holds s wi t \<longleftrightarrow> lease_token s wi = Some t"
  by (auto simp: lease_holds_def verify_fencing_def lease_token_def fenced_def
      split: sum.splits option.splits if_splits)

text \<open>
  What one step may do to one item: keep its token, drop the entry once its token is recorded
  as a watermark, or (for the item acquired) replace it by a token above everything recorded.
\<close>

definition item_step :: "string \<Rightarrow> (string \<times> int) option \<Rightarrow> lease_store \<Rightarrow> lease_store \<Rightarrow> bool" where
  "item_step k g s s' \<longleftrightarrow>
     mark_of (read_watermarks s) k \<le> mark_of (read_watermarks s') k \<and>
     (case g of
        Some (k', t) \<Rightarrow>
          if k' = k then lease_token s' k = Some t \<and> lease_mark s k < t
          else lease_token s' k = lease_token s k \<or>
            (lease_token s' k = None \<and> lease_mark s k \<le> lease_mark s' k)
      | None \<Rightarrow> lease_token s' k = lease_token s k \<or>
            (lease_token s' k = None \<and> lease_mark s k \<le> lease_mark s' k))"

lemma item_step_mark: "item_step k g s s' \<Longrightarrow> lease_mark s k \<le> lease_mark s' k"
  by (auto simp: item_step_def lease_mark_def split: option.splits prod.splits if_splits)

lemma item_step_refl: "item_step k None s s"
  by (simp add: item_step_def)

lemma lease_token_write [simp]:
  "lease_token (write_leases d s) k = map_option term_token (dget d k)"
  by (simp add: lease_token_def)

lemma item_step_sweep:
  assumes "read_leases s = Inr data" and "leases_wf s"
    and rec: "reclaim pool now data s = (Inr (ids, kept), s1)"
  shows "item_step k None s (write_leases kept s1)" and "item_step k None s s1"
    and "leases_wf (write_leases kept s1)" and "leases_wf s1"
proof -
  note dist = leases_wf_read [OF assms(2,1)]
  note r = reclaim_Inr [OF rec dist]
  show "item_step k None s (write_leases kept s1)"
    using r(2) [of k] r(3) [of k] assms(1)
    by (auto simp: item_step_def lease_mark_def lease_token_def split: option.splits if_splits)
  show "item_step k None s s1"
    using r(3) [of k] r(6)
    by (auto simp: item_step_def lease_token_def split: option.splits)
  show "leases_wf (write_leases kept s1)" "leases_wf s1"
    using r(1,5) assms(2) by (simp_all add: leases_wf_def write_leases_def)
qed

lemma item_step_acquire:
  assumes "acquire_lease_body wi pid slot ttl now s = (r, s')" and "leases_wf s"
  shows "item_step k (case r of Inr (Some e) \<Rightarrow> Some (wi, term_token e) | _ \<Rightarrow> None) s s' \<and> leases_wf s'"
  using assms
proof (cases rule: acquire_cases)
  case (error e)
  with assms(2) show ?thesis by (simp add: item_step_refl)
next
  case (held data ids kept e)
  with item_step_sweep [OF held(2) assms(2) held(3)] show ?thesis by simp
next
  case (granted data ids kept s1 token)
  note dist = leases_wf_read [OF assms(2) granted(1)]
  note r = reclaim_Inr [OF granted(2) dist]
  have wf: "leases_wf s'" using granted(6) r(1) by simp
  show ?thesis
  proof (cases "k = wi")
    case True
    have "lease_mark s wi < token"
      using r(2) [of wi] r(3) [of wi] granted(1,3,4)
      by (auto simp: lease_mark_def lease_token_def split: option.splits if_splits)
    moreover have "mark_of (read_watermarks s) wi \<le> mark_of (read_watermarks s') wi"
      using r(3) [of wi] granted(6) by (auto split: option.splits if_splits)
    ultimately show ?thesis
      using True granted(5,6) wf
      by (simp add: item_step_def granted_lease_def dict_simps)
  next
    case False
    with item_step_sweep(1) [OF granted(1) assms(2) granted(2), of k] granted(5,6) wf show ?thesis
      by (auto simp: item_step_def lease_mark_def dict_simps granted_lease_def)
  qed
qed

lemma restore_write:
  "leases_file s1 = leases_file s \<Longrightarrow> restore_leases s (write_leases d s1) = s1"
  by (simp add: restore_leases_def write_leases_def)

lemma restore_same [simp]: "restore_leases s s = s"
  by (simp add: restore_leases_def)

lemma reclaim_body_cases:
  obtains (error) e where "reclaim_expired_body pool now s = (Inl e, s)"
  | (swept) data ids kept s1 where "read_leases s = Inr data"
      "reclaim pool now data s = (Inr (ids, kept), s1)"
      "reclaim_expired_body pool now s = (Inr ids, write_leases kept s1)"
proof (cases "read_leases s")
  case (Inl e)
  then show ?thesis by (intro error) (simp add: reclaim_expired_body_def)
next
  case (Inr data)
  obtain x s1 where x: "reclaim pool now data s = (x, s1)" by fastforce
  show ?thesis
  proof (cases x)
    case (Inl e)
    with x reclaim_Inl [of pool now data s e s1] Inr show ?thesis
      by (intro error) (simp add: reclaim_expired_body_def)
  next
    case x': (Inr p)
    obtain ids kept where "p = (ids, kept)" by (cases p)
    with x x' Inr show ?thesis by (intro swept) (simp_all add: reclaim_expired_body_def)
  qed
qed

lemma release_body_cases:
  obtains (error) e where "release_lease_body wi t s = (Inl e, s)"
  | (released) data e where "read_leases s = Inr data" "dget data wi = Some e" "term_token e = t"
      "release_lease_body wi t s = (Inr (), write_leases (ddel wi data) (record_watermarks [(wi, e)] s))"
proof (cases "read_leases s")
  case (Inl e)
  then show ?thesis by (intro error) (simp add: release_lease_body_def)
next
  case (Inr data)
  show ?thesis
  proof (cases "fenced wi t data")
    case (Inl e)
    with Inr show ?thesis by (intro error) (simp add: release_lease_body_def)
  next
    case f: (Inr e)
    then have "dget data wi = Some e" "term_token e = t"
      by (auto simp: fenced_def split: option.splits if_splits)
    with Inr f show ?thesis by (intro released) (simp_all add: release_lease_body_def)
  qed
qed

lemma item_step_reclaim_body:
  assumes "leases_wf s"
  shows "item_step k None s (snd (reclaim_expired_body pool now s)) \<and>
    item_step k None s (restore_leases s (snd (reclaim_expired_body pool now s))) \<and>
    leases_wf (snd (reclaim_expired_body pool now s))"
proof (cases rule: reclaim_body_cases [of pool now s])
  case (error e)
  with assms show ?thesis by (simp add: item_step_refl)
next
  case (swept data ids kept s1)
  note r = reclaim_Inr(5) [OF swept(2) leases_wf_read [OF assms swept(1)]]
  from item_step_sweep [OF swept(1) assms swept(2)] swept(3) restore_write [OF r]
  show ?thesis by simp
qed

lemma item_step_release_body:
  assumes "leases_wf s"
  shows "item_step k None s (snd (release_lease_body wi t s)) \<and>
    item_step k None s (restore_leases s (snd (release_lease_body wi t s))) \<and>
    leases_wf (snd (release_lease_body wi t s))"
proof (cases rule: release_body_cases [of wi t s])
  case (error e)
  with assms show ?thesis by (simp add: item_step_refl)
next
  case (released data e)
  let ?s1 = "record_watermarks [(wi, e)] s"
  have m: "mark_of (read_watermarks ?s1) k =
      (if k = wi then max (mark_of (read_watermarks s) wi) (term_token e)
       else mark_of (read_watermarks s) k)"
    by (simp add: mark_of_record)
  have "item_step k None s ?s1"
    using m by (auto simp: item_step_def lease_token_def)
  moreover have "item_step k None s (write_leases (ddel wi data) ?s1)"
    using m released(1,2)
    by (auto simp: item_step_def lease_mark_def lease_token_def dict_simps split: option.splits)
  moreover have "leases_wf (write_leases (ddel wi data) ?s1)"
    using leases_wf_read [OF assms released(1)] by simp
  ultimately show ?thesis using released(4) by (simp add: restore_write)
qed

lemma item_step_heartbeat_body:
  assumes "leases_wf s"
  shows "item_step k None s (snd (heartbeat_body wi t now s)) \<and>
    leases_wf (snd (heartbeat_body wi t now s))"
  using assms leases_wf_read [OF assms]
  by (auto simp: heartbeat_body_def item_step_def fenced_def lease_token_def dict_simps
      split: sum.splits option.splits if_splits)

lemma leases_wf_restore: "leases_wf (restore_leases s s') = leases_wf s"
  by (simp add: leases_wf_def restore_leases_def)

lemma lease_step_item:
  assumes "leases_wf s" and "lease_step e s = (g, s')"
  shows "item_step k g s s' \<and> leases_wf s'"
proof (cases e)
  case (Acquire wi pid slot ttl now)
  obtain r s1 where r: "acquire_lease_body wi pid slot ttl now s = (r, s1)" by fastforce
  with assms(2) Acquire have "s' = s1" "g = (case r of Inr (Some e) \<Rightarrow> Some (wi, term_token e) | _ \<Rightarrow> None)"
    by (auto split: sum.splits option.splits)
  with item_step_acquire [OF r assms(1)] show ?thesis by simp
qed (use assms item_step_reclaim_body [OF assms(1)] item_step_release_body [OF assms(1)]
      item_step_heartbeat_body [OF assms(1)] in \<open>auto simp: leases_wf_restore\<close>)

subsection \<open>The fencing contract\<close>

definition lease_inv :: "lease_store \<Rightarrow> bool" where
  "lease_inv s \<longleftrightarrow> (case read_leases s of Inl _ \<Rightarrow> False | Inr d \<Rightarrow> distinct (dkeys d))"

lemma lease_inv_wf: "lease_inv s \<Longrightarrow> leases_wf s"
  by (auto simp: lease_inv_def leases_wf_def read_leases_def split: jfile.splits)

lemma lease_inv_iff: "lease_inv s \<longleftrightarrow> leases_wf s \<and> leases_file s \<noteq> Corrupt"
  by (auto simp: lease_inv_def leases_wf_def read_leases_def split: jfile.splits)

lemma write_leases_readable [simp]: "leases_file (write_leases d s) \<noteq> Corrupt"
  by (simp add: write_leases_def)

lemma lease_step_readable:
  assumes "leases_wf s" and "lease_step e s = (g, s')" and "leases_file s \<noteq> Corrupt"
  shows "leases_file s' \<noteq> Corrupt"
proof (cases e)
  case (Acquire wi pid slot ttl now)
  obtain r s1 where r: "acquire_lease_body wi pid slot ttl now s = (r, s1)" by fastforce
  with assms(2) Acquire have s1: "s' = s1" by (auto split: sum.splits option.splits)
  from r assms(1) show ?thesis
  proof (cases rule: acquire_cases)
    case (held data ids kept e)
    with reclaim_Inr(5) [OF held(3) leases_wf_read [OF assms(1) held(2)]] s1 assms(3)
    show ?thesis by simp
  qed (use s1 assms(3) in auto)
next
  case (Heartbeat wi t now)
  with assms show ?thesis
    by (auto simp: heartbeat_body_def split: sum.splits)
next
  case (Release wi t)
  with assms show ?thesis by (cases rule: release_body_cases [of wi t s]) auto
next
  case (Reclaim pool now)
  with assms show ?thesis by (cases rule: reclaim_body_cases [of pool now s]) auto
next
  case (CrashReclaim pool now)
  with assms show ?thesis by (auto simp: restore_leases_def)
next
  case (CrashRelease wi t)
  with assms show ?thesis by (auto simp: restore_leases_def)
qed

lemma lease_inv_step: "lease_inv s \<Longrightarrow> lease_step e s = (g, s') \<Longrightarrow> lease_inv s'"
  using lease_step_item lease_step_readable by (auto simp: lease_inv_iff)

interpretation fenced_leases: fencing lease_step lease_mark lease_holds lease_inv
proof unfold_locales
  fix s e g s' k t t'
  assume inv: "lease_inv s"
  note item = lease_step_item [OF lease_inv_wf [OF inv]]
  show "lease_step e s = (g, s') \<Longrightarrow> lease_inv s'"
    by (rule lease_inv_step [OF inv])
  show "lease_step e s = (g, s') \<Longrightarrow> lease_mark s k \<le> lease_mark s' k"
    using item item_step_mark by blast
  show "lease_mark s k < t \<and> t \<le> lease_mark s' k" if "lease_step e s = (Some (k, t), s')"
    using item [OF that, of k] by (simp add: item_step_def lease_mark_def)
  show "t' = t" if "lease_step e s = (Some (k, t), s')" "lease_holds s' k t'"
    using item [OF that(1), of k] that(2) by (simp add: item_step_def lease_holds_iff)
  show "lease_holds s k t \<or> g = Some (k, t)" if "lease_step e s = (g, s')" "lease_holds s' k t"
    using item [OF that(1), of k] that(2)
    by (auto simp: item_step_def lease_holds_iff split: option.splits prod.splits if_splits)
qed

subsection \<open>What the leases promise\<close>

text \<open>
  C2. Fencing tokens are strictly monotone per work item over every run of lease operations,
  across expiry, release, reclamation and a crash between the two file writes.
\<close>

theorem lease_tokens_increase:
  assumes "lease_inv s" and "run_grants lease_step es s = (gs, s')"
  shows "increasing gs"
  using assms by (rule fenced_leases.tokens_increase)

definition empty_store :: lease_store where
  "empty_store = \<lparr>store_dir = ''state'', leases_file = Absent, marks_file = Absent,
     slot_dirs = {(''state'', ''wt-00''), (''state'', ''wt-01'')}\<rparr>"

definition sample_run :: "lease_event list" where
  "sample_run = [Acquire ''a'' 11 ''wt-00'' 60 0, Reclaim ''state'' 61000000,
     Acquire ''a'' 12 ''wt-01'' 60 62000000, CrashRelease ''a'' 2, Release ''a'' 2,
     Acquire ''a'' 13 ''wt-00'' 60 63000000]"

lemmas lease_eval = acquire_lease_body_def reclaim_expired_body_def release_lease_body_def
  heartbeat_body_def verify_fencing_def reclaim_def expired_ids_def read_leases_def write_leases_def
  record_watermarks_def read_watermarks_def mark_of_def restore_leases_def fenced_def expired_at_def
  live_at_def lease_expiry_def now_iso_def scrub_dirs_def Let_def

lemma sample_run_grants:
  "fst (run_grants lease_step sample_run empty_store) = [(''a'', 1), (''a'', 2), (''a'', 3)]"
  by (simp add: sample_run_def empty_store_def lease_eval)

lemma empty_store_inv: "lease_inv empty_store"
  by (simp add: lease_inv_def empty_store_def read_leases_def)

theorem lease_tokens_increase_witness:
  "increasing (fst (run_grants lease_step sample_run empty_store)) \<and>
   length (fst (run_grants lease_step sample_run empty_store)) = 3"
  using lease_tokens_increase [OF empty_store_inv prod.collapse [symmetric], of sample_run]
    sample_run_grants
  by simp

text \<open>
  C3. A zombie is fenced off: once any newer token has been granted for an item, a holder of an
  older token is refused by \<open>verify_fencing\<close>, \<open>heartbeat\<close> and \<open>release_lease\<close> alike, with a
  \<open>FencingError\<close>, at every later point of the run, and it changes nothing.
\<close>

theorem zombie_fenced:
  assumes "lease_inv s" and "run_grants lease_step es s = (gs, s')"
    and "(wi, t') \<in> set gs" and "t < t'"
  shows "\<exists>got. verify_fencing wi t s' = Inl (FencingError wi t got) \<and>
     heartbeat_body wi t now s' = (Inl (FencingError wi t got), s') \<and>
     release_lease_body wi t s' = (Inl (FencingError wi t got), s')"
proof -
  have no: "lease_token s' wi \<noteq> Some t"
    using fenced_leases.superseded [OF assms] by (simp add: lease_holds_iff)
  have "lease_inv s'" using fenced_leases.run_marks [OF assms(1,2)] by simp
  then obtain d where d: "read_leases s' = Inr d" by (auto simp: lease_inv_def split: sum.splits)
  with no have "\<exists>got. fenced wi t d = Inl (FencingError wi t got)"
    by (auto simp: fenced_def lease_token_def split: option.splits)
  with d show ?thesis
    by (auto simp: verify_fencing_def heartbeat_body_def release_lease_body_def)
qed

theorem zombie_fenced_witness:
  "\<exists>got. verify_fencing ''a'' 1 (snd (run_grants lease_step sample_run empty_store)) =
     Inl (FencingError ''a'' 1 got)"
  using zombie_fenced [OF empty_store_inv prod.collapse [symmetric], of "''a''" 3 sample_run 1]
    sample_run_grants
  by auto

text \<open>
  C4. No double claim: while an item's entry is live, \<open>acquire_lease\<close> never grants it. The call
  returns \<open>None\<close> (or raises, when some other entry's heartbeat does not parse), \<open>leases.json\<close> is
  what it was, and the lock is free again.
\<close>

theorem no_double_claim:
  assumes "lease_inv s" and "read_leases s = Inr data" and "dget data wi = Some e" and "live_at now e"
  shows "\<exists>r s'. acquire_lease (coord_ctx ps ks me wall jit) wi pid slot ttl now (None, s) = (r, (None, s'))
     \<and> (r = Inr None \<or> r = Inl BadTimestamp) \<and> leases_file s' = leases_file s"
proof -
  note wf = lease_inv_wf [OF assms(1)]
  obtain r s' where r: "acquire_lease_body wi pid slot ttl now s = (r, s')" by fastforce
  have "acquire_lease (coord_ctx ps ks me wall jit) wi pid slot ttl now (None, s) = (r, (None, s'))"
    by (simp add: acquire_lease_def gl.runs_body r release_lock_def)
  moreover have "(r = Inr None \<or> r = Inl BadTimestamp) \<and> leases_file s' = leases_file s"
  proof (cases r)
    case (Inl x)
    with r assms(2) have "reclaim (store_dir s) now data s = (Inl x, s')"
      by (auto simp: acquire_lease_body_def Let_def split: sum.splits prod.splits option.splits if_splits)
    then have "expired_ids now data = Inl x \<and> s' = s"
      by (auto simp: reclaim_def Let_def split: sum.splits)
    with Inl show ?thesis by (auto simp: expired_ids_def split: if_splits)
  next
    case (Inr x)
    with acquire_live_refused [OF wf assms(2,3,4)] r show ?thesis by auto
  qed
  ultimately show ?thesis by blast
qed

definition held_store :: lease_store where
  "held_store = empty_store\<lparr>leases_file := Content
     [(''a'', granted_lease 11 ''wt-00'' 60 100000000 4), (''b'', granted_lease 12 ''wt-01'' 60 0 1)]\<rparr>"

theorem no_double_claim_witness:
  "\<exists>r s'. acquire_lease (coord_ctx (\<lambda>_. Alive) (\<lambda>_. Some 1) 7 (\<lambda>_. 0) (\<lambda>_. 0))
       ''a'' 13 ''wt-00'' 60 160000000 (None, held_store) = (r, (None, s'))
     \<and> (r = Inr None \<or> r = Inl BadTimestamp) \<and> leases_file s' = leases_file held_store"
proof (rule no_double_claim)
  show "lease_inv held_store" by (simp add: lease_inv_def held_store_def read_leases_def)
  show "read_leases held_store = Inr [(''a'', granted_lease 11 ''wt-00'' 60 100000000 4),
      (''b'', granted_lease 12 ''wt-01'' 60 0 1)]"
    by (simp add: held_store_def read_leases_def)
  show "dget [(''a'', granted_lease 11 ''wt-00'' 60 100000000 4),
      (''b'', granted_lease 12 ''wt-01'' 60 0 1)] ''a'' =
      Some (granted_lease 11 ''wt-00'' 60 100000000 4)"
    by simp
  show "live_at 160000000 (granted_lease 11 ''wt-00'' 60 100000000 4)"
    by (simp add: granted_lease_def lease_eval)
qed

text \<open>
  What that refused call leaves behind: the inline sweep runs before the refusal, so every
  expired entry has lost its worktree directory and had its token recorded, but \<open>leases.json\<close> is
  not written. The expired holder of item \<open>wi'\<close> still passes \<open>verify_fencing\<close> with its token
  and its \<open>heartbeat\<close> makes the lease live again, over a directory that is gone.
\<close>

theorem refused_claim_scrubs_held_slot:
  assumes "lease_inv s" and "read_leases s = Inr data"
    and "\<forall>(k, x) \<in> set data. heartbeat_timestamp x \<noteq> None"
    and "dget data wi = Some e" and "live_at now e"
    and "dget data wi' = Some e'" and "expired_at now e'" and "worktree_slot e' \<noteq> []"
  shows "\<exists>s'. acquire_lease_body wi pid slot ttl now s = (Inr None, s') \<and>
     (store_dir s, worktree_slot e') \<notin> slot_dirs s' \<and>
     verify_fencing wi' (term_token e') s' = Inr () \<and>
     (\<exists>s'' e''. heartbeat_body wi' (term_token e') now s' = (Inr (), s'') \<and>
        slot_dirs s'' = slot_dirs s' \<and> read_leases s'' = Inr (dset wi' e'' data) \<and>
        (0 \<le> ttl_seconds e' \<longrightarrow> now mod 1000000 = 0 \<longrightarrow> live_at now e''))"
proof -
  note dist = leases_wf_read [OF lease_inv_wf [OF assms(1)] assms(2)]
  have ids: "expired_ids now data = Inr (map fst (filter (\<lambda>(wi, e). expired_at now e) data))"
    using assms(3) by (auto simp: expired_ids_def)
  then obtain kept ids' s' where rec: "reclaim (store_dir s) now data s = (Inr (ids', kept), s')"
    by (auto simp: reclaim_def Let_def)
  note r = reclaim_Inr [OF rec dist]
  have "\<not> expired_at now e" using assms(5) by (rule live_not_expired)
  then have acq: "acquire_lease_body wi pid slot ttl now s = (Inr None, s')"
    using r(2) [of wi] assms(2,4,5) rec by (simp add: acquire_lease_body_def)
  have "wi' \<in> set ids'"
    using rec ids expired_ids_mem [OF ids dist assms(6)] assms(7) by (auto simp: reclaim_def Let_def)
  then have gone: "(store_dir s, worktree_slot e') \<notin> slot_dirs s'"
    using r(7) dget_Some_mem [OF assms(6)] assms(8) by (auto simp: scrub_dirs_def)
  have f: "fenced wi' (term_token e') data = Inr e'" using assms(6) by (simp add: fenced_def)
  have rd: "read_leases s' = Inr data" using r(6) assms(2) by simp
  let ?e'' = "e'\<lparr>heartbeat_timestamp := Some (now_iso now)\<rparr>"
  have "live_at now ?e''" if "0 \<le> ttl_seconds e'" "now mod 1000000 = 0"
    using that by (auto simp: live_at_def lease_expiry_def now_iso_def distrib_right)
  then have "\<exists>s'' e''. heartbeat_body wi' (term_token e') now s' = (Inr (), s'') \<and>
        slot_dirs s'' = slot_dirs s' \<and> read_leases s'' = Inr (dset wi' e'' data) \<and>
        (0 \<le> ttl_seconds e' \<longrightarrow> now mod 1000000 = 0 \<longrightarrow> live_at now e'')"
    using rd f by (intro exI [of _ "write_leases (dset wi' ?e'' data) s'"] exI [of _ ?e''])
      (simp add: heartbeat_body_def)
  with acq gone rd f show ?thesis by (auto simp: verify_fencing_def)
qed

theorem refused_claim_scrubs_held_slot_witness:
  "\<exists>s'. acquire_lease_body ''a'' 13 ''wt-00'' 60 160000000 held_store = (Inr None, s') \<and>
     (''state'', ''wt-01'') \<notin> slot_dirs s' \<and> verify_fencing ''b'' 1 s' = Inr ()"
proof -
  let ?a = "granted_lease 11 ''wt-00'' 60 100000000 4" and ?b = "granted_lease 12 ''wt-01'' 60 0 1"
  have "store_dir held_store = ''state''" "worktree_slot ?b = ''wt-01''" "term_token ?b = 1"
    by (simp_all add: held_store_def empty_store_def granted_lease_def)
  with refused_claim_scrubs_held_slot
    [of held_store "[(''a'', ?a), (''b'', ?b)]" "''a''" ?a 160000000 "''b''" ?b 13 "''wt-00''" 60]
  show ?thesis
    by (auto simp: held_store_def empty_store_def lease_inv_def granted_lease_def lease_eval)
qed

end
