(* ===== verification/Coord_Claims.thy ===== *)
theory Coord_Claims
  imports Coord_Fencing
begin

text \<open>
  Clients of the leases in \<^verbatim>\<open>user/scripts/lazy_coord.py\<close>: the polling per-item lock, the
  conservative shard set a parallel run may claim, the liveness test of a single item, and the
  freshness the visualizer displays (\<^verbatim>\<open>user/scripts/pipeline_visualizer/leases.py\<close>).
\<close>

subsection \<open>The per-item lock\<close>

text \<open>
  \<open>acquire_item_lock\<close> polls \<open>acquire_lease\<close>. Before the \<open>n\<close>-th poll the other processes may have
  run any operations (\<open>others n\<close>), the wall clock reads \<open>wall_at n\<close>, and the poll itself takes
  \<open>took n\<close> microseconds of the monotonic clock, which also advances by each nap.
\<close>

record item_env =
  others :: "nat \<Rightarrow> coord \<Rightarrow> coord"
  wall_at :: "nat \<Rightarrow> int"
  took :: "nat \<Rightarrow> nat"

fun item_loop ::
  "lock_ctx \<Rightarrow> item_env \<Rightarrow> string \<Rightarrow> int \<Rightarrow> string \<Rightarrow> int \<Rightarrow> int \<Rightarrow>
   nat \<Rightarrow> nat \<Rightarrow> int \<Rightarrow> int \<Rightarrow> (coord, coord_error, lease) op" where
  "item_loop c v wi pid slot ttl budget 0 n elapsed delay cs = (Inl ItemLockStillWaiting, cs)"
| "item_loop c v wi pid slot ttl budget (Suc fuel) n elapsed delay cs =
     (case acquire_lease c wi pid slot ttl (wall_at v n) (others v n cs) of
        (Inl e, cs1) \<Rightarrow> (Inl e, cs1)
      | (Inr (Some entry), cs1) \<Rightarrow> (Inr entry, cs1)
      | (Inr None, cs1) \<Rightarrow>
          (let elapsed1 = elapsed + int (took v n) in
           if budget \<le> elapsed1 then (Inl ItemLockTimeout, cs1)
           else item_loop c v wi pid slot ttl budget fuel (Suc n)
                  (elapsed1 + min delay (budget - elapsed1)) (min (delay * 2) 1000000) cs1))"

text \<open>Every nap is at least one microsecond, so \<open>budget + 1\<close> polls exhaust the budget.\<close>

definition acquire_item_lock ::
  "lock_ctx \<Rightarrow> item_env \<Rightarrow> string \<Rightarrow> int \<Rightarrow> string \<Rightarrow> int \<Rightarrow> int \<Rightarrow> int \<Rightarrow> (coord, coord_error, lease) op" where
  "acquire_item_lock c v wi pid slot ttl budget item_poll cs =
     item_loop c v wi pid slot ttl budget (nat budget + 1) 0 0 item_poll cs"

declare item_loop.simps(2) [simp del]

lemma item_loop_done:
  "acquire_lease c wi pid slot ttl (wall_at v n) (others v n cs) = (Inl e, cs1) \<Longrightarrow>
     item_loop c v wi pid slot ttl b (Suc f) n el dl cs = (Inl e, cs1)"
  "acquire_lease c wi pid slot ttl (wall_at v n) (others v n cs) = (Inr (Some entry), cs1) \<Longrightarrow>
     item_loop c v wi pid slot ttl b (Suc f) n el dl cs = (Inr entry, cs1)"
  by (simp_all add: item_loop.simps(2))

lemma item_loop_wait:
  "acquire_lease c wi pid slot ttl (wall_at v n) (others v n cs) = (Inr None, cs1) \<Longrightarrow>
     item_loop c v wi pid slot ttl b (Suc f) n el dl cs =
       (if b \<le> el + int (took v n) then (Inl ItemLockTimeout, cs1)
        else item_loop c v wi pid slot ttl b f (Suc n)
               (el + int (took v n) + min dl (b - (el + int (took v n)))) (min (dl * 2) 1000000) cs1)"
  by (simp add: item_loop.simps(2) Let_def)

lemma acquire_lease_errors:
  "fst (acquire_lease c wi pid slot ttl now cs) \<noteq> Inl ItemLockStillWaiting"
  by (auto simp: acquire_lease_def with_lock_def acquire_lease_body_def read_leases_def reclaim_def
      expired_ids_def Let_def split: prod.splits bool.splits sum.splits jfile.splits option.splits
      if_splits)

lemma item_loop_ends:
  assumes "0 < dl" and "nat (b - el) < fuel"
  shows "fst (item_loop c v wi pid slot ttl b fuel n el dl cs) \<noteq> Inl ItemLockStillWaiting"
  using assms
proof (induction fuel arbitrary: n el dl cs)
  case 0
  then show ?case by simp
next
  case (Suc fuel)
  obtain r cs1 where r: "acquire_lease c wi pid slot ttl (wall_at v n) (others v n cs) = (r, cs1)"
    by (cases "acquire_lease c wi pid slot ttl (wall_at v n) (others v n cs)")
  then have "r \<noteq> Inl ItemLockStillWaiting"
    using acquire_lease_errors [of c wi pid slot ttl "wall_at v n" "others v n cs"] by simp
  moreover
  let ?e = "el + int (took v n)"
  have "\<not> b \<le> ?e \<Longrightarrow>
      nat (b - (?e + min dl (b - ?e))) < fuel \<and> 0 < min (dl * 2) 1000000"
    using Suc.prems by (auto simp: min_def)
  ultimately show ?case
    using r Suc.IH by (cases r; cases "projr r") (auto simp: item_loop_done item_loop_wait)
qed

lemma item_loop_held:
  assumes "\<And>m cs. \<exists>cs1. acquire_lease c wi pid slot ttl (wall_at v m) (others v m cs) = (Inr None, cs1)"
    and "0 < dl" and "nat (b - el) < fuel"
  shows "fst (item_loop c v wi pid slot ttl b fuel n el dl cs) = Inl ItemLockTimeout"
  using assms(2,3)
proof (induction fuel arbitrary: n el dl cs)
  case 0
  then show ?case by simp
next
  case (Suc fuel)
  obtain cs1 where r: "acquire_lease c wi pid slot ttl (wall_at v n) (others v n cs) = (Inr None, cs1)"
    using assms(1) by blast
  let ?e = "el + int (took v n)"
  have "\<not> b \<le> ?e \<Longrightarrow>
      nat (b - (?e + min dl (b - ?e))) < fuel \<and> 0 < min (dl * 2) 1000000"
    using Suc.prems by (auto simp: min_def)
  with r Suc.IH show ?case by (simp add: item_loop_wait)
qed

lemma acquire_lease_granted:
  assumes "acquire_lease c wi pid slot ttl now cs = (Inr (Some e), (l', s'))"
  shows "l' = None \<and> verify_fencing wi (term_token e) s' = Inr ()"
proof -
  obtain l1 s1 where l: "lock_acq c (fst cs) = (True, l1)"
      "acquire_lease_body wi pid slot ttl now (snd cs) = (Inr (Some e), s')" "l' = None"
    using assms by (auto simp: acquire_lease_def with_lock_def release_lock_def
        split: prod.splits bool.splits)
  then obtain d s2 where "s' = write_leases (dset wi e d) s2"
    by (auto simp: acquire_lease_body_def Let_def read_leases_def write_leases_def
        split: sum.splits prod.splits option.splits if_splits)
  with l(3) show ?thesis
    by (auto simp: verify_fencing_def fenced_def read_leases_def write_leases_def dict_simps)
qed

lemma item_loop_granted:
  "item_loop c v wi pid slot ttl b fuel n el dl cs = (Inr e, (l', s')) \<Longrightarrow>
    l' = None \<and> verify_fencing wi (term_token e) s' = Inr ()"
proof (induction fuel arbitrary: n el dl cs)
  case 0
  then show ?case by simp
next
  case (Suc fuel)
  obtain r cs1 where r: "acquire_lease c wi pid slot ttl (wall_at v n) (others v n cs) = (r, cs1)"
    by (cases "acquire_lease c wi pid slot ttl (wall_at v n) (others v n cs)")
  show ?case
  proof (cases r)
    case (Inl x)
    with r Suc.prems show ?thesis by (simp add: item_loop_done)
  next
    case (Inr x)
    with r Suc show ?thesis
      by (cases x) (auto simp: item_loop_done item_loop_wait acquire_lease_granted split: if_splits)
  qed
qed

text \<open>
  The item lock has an authoritative outcome whatever the other processes do between its
  polls: it always comes to an end, and a call that returns an entry leaves the global lock free
  and a token that passes \<open>verify_fencing\<close>; everything else is an exception.
\<close>

theorem item_lock_outcome:
  assumes "0 < item_poll"
  shows "case acquire_item_lock c v wi pid slot ttl budget item_poll cs of
      (Inr e, cs') \<Rightarrow> fst cs' = None \<and> verify_fencing wi (term_token e) (snd cs') = Inr ()
    | (Inl x, cs') \<Rightarrow> x \<noteq> ItemLockStillWaiting"
proof -
  obtain r l' s' where r: "acquire_item_lock c v wi pid slot ttl budget item_poll cs = (r, (l', s'))"
    by (cases "acquire_item_lock c v wi pid slot ttl budget item_poll cs") auto
  with item_loop_ends [OF assms, of budget 0 "nat budget + 1" c v wi pid slot ttl 0 cs]
    item_loop_granted [of c v wi pid slot ttl budget "nat budget + 1" 0 0 item_poll cs]
  show ?thesis by (cases r) (auto simp: acquire_item_lock_def)
qed

text \<open>
  Wait-for-unlock: while at every poll the item's entry is live, the waiter is never granted
  the item, whatever else the other processes change, and it ends in \<open>ItemLockTimeout\<close>.
\<close>

theorem item_lock_waits_for_live_holder:
  assumes "0 < item_poll"
    and "\<And>n cs. fst (others v n cs) = None \<and> lease_inv (snd (others v n cs))"
    and "\<And>n cs. \<exists>data e. read_leases (snd (others v n cs)) = Inr data \<and> dget data wi = Some e \<and>
            live_at (wall_at v n) e \<and> (\<forall>(k, x) \<in> set data. heartbeat_timestamp x \<noteq> None)"
  shows "fst (acquire_item_lock (coord_ctx ps ks me wall jit) v wi pid slot ttl budget item_poll cs) =
           Inl ItemLockTimeout"
  unfolding acquire_item_lock_def
proof (rule item_loop_held)
  fix m cs
  obtain s where s: "others v m cs = (None, s)" using assms(2) [of m cs] by (cases "others v m cs") auto
  obtain data e where d: "read_leases s = Inr data" "dget data wi = Some e" "live_at (wall_at v m) e"
    "\<forall>(k, x) \<in> set data. heartbeat_timestamp x \<noteq> None"
    using assms(3) [of m cs] s by auto
  obtain r s' where r: "acquire_lease_body wi pid slot ttl (wall_at v m) s = (r, s')" by fastforce
  have "lease_inv s" using assms(2) [of m cs] s by simp
  note wf = lease_inv_wf [OF this]
  have "\<exists>x. r = Inr x"
    using r d by (auto simp: acquire_lease_body_def reclaim_def expired_ids_def Let_def
        split: option.splits if_splits)
  with acquire_live_refused [OF wf d(1,2,3)] r have "r = Inr None" by auto
  with r s show "\<exists>cs1. acquire_lease (coord_ctx ps ks me wall jit) wi pid slot ttl (wall_at v m)
      (others v m cs) = (Inr None, cs1)"
    by (simp add: acquire_lease_def gl.runs_body)
qed (use assms(1) in auto)

theorem item_lock_waits_for_live_holder_witness:
  "fst (acquire_item_lock (coord_ctx (\<lambda>_. Alive) (\<lambda>_. Some 1) 7 (\<lambda>_. 0) (\<lambda>_. 0))
     \<lparr>others = \<lambda>n cs. (None, held_store), wall_at = \<lambda>n. 160000000, took = \<lambda>n. 5\<rparr>
     ''a'' 13 ''wt-00'' 60 10000000 50000 (None, held_store)) = Inl ItemLockTimeout"
  by (rule item_lock_waits_for_live_holder)
    (simp_all add: held_store_def lease_inv_def granted_lease_def lease_eval)

theorem item_lock_outcome_witness:
  "case acquire_item_lock (coord_ctx (\<lambda>_. Alive) (\<lambda>_. Some 1) 7 (\<lambda>_. 0) (\<lambda>_. 0))
     \<lparr>others = \<lambda>n cs. cs, wall_at = \<lambda>n. 0, took = \<lambda>n. 5\<rparr>
     ''a'' 13 ''wt-00'' 60 10000000 50000 (None, empty_store) of
      (Inr e, cs') \<Rightarrow> fst cs' = None \<and> verify_fencing ''a'' (term_token e) (snd cs') = Inr ()
    | (Inl x, cs') \<Rightarrow> x \<noteq> ItemLockStillWaiting"
  by (rule item_lock_outcome) simp

subsection \<open>The shard set of a parallel run\<close>

text \<open>
  A candidate is a dictionary with an id and two precomputed flags (a missing flag is falsy), or
  anything else, of which \<open>str\<close> is the id.
\<close>

datatype candidate = Candidate string bool bool | NotADict string

datatype hold_reason = DepUnready | NoIndependentMarker | LiveLease

fun cand_id :: "candidate \<Rightarrow> string" where
  "cand_id (Candidate i _ _) = i"
| "cand_id (NotADict i) = i"

fun dep_ready :: "candidate \<Rightarrow> bool" where
  "dep_ready (Candidate _ r _) = r"
| "dep_ready (NotADict _) = False"

fun independent :: "candidate \<Rightarrow> bool" where
  "independent (Candidate _ _ m) = m"
| "independent (NotADict _) = False"

text \<open>An entry whose heartbeat does not parse is assumed live.\<close>

definition assumed_live :: "int \<Rightarrow> lease \<Rightarrow> bool" where
  "assumed_live now e = (case lease_expiry e of None \<Rightarrow> True | Some x \<Rightarrow> now \<le> x * 1000000)"

definition shard_verdict :: "leases \<Rightarrow> int \<Rightarrow> candidate \<Rightarrow> hold_reason option" where
  "shard_verdict data now cand =
     (if \<not> dep_ready cand then Some DepUnready
      else if \<not> independent cand then Some NoIndependentMarker
      else case dget data (cand_id cand) of
             None \<Rightarrow> None
           | Some e \<Rightarrow> if assumed_live now e then Some LiveLease else None)"

fun claim_loop :: "leases \<Rightarrow> int \<Rightarrow> candidate list \<Rightarrow> string list \<times> (string \<times> hold_reason) list" where
  "claim_loop data now [] = ([], [])"
| "claim_loop data now (cand # cands) =
     (case claim_loop data now cands of
        (claimed, held) \<Rightarrow>
          (case shard_verdict data now cand of
             None \<Rightarrow> (cand_id cand # claimed, held)
           | Some reason \<Rightarrow> (claimed, (cand_id cand, reason) # held)))"

definition claim_shardable ::
  "candidate list \<Rightarrow> lease_store \<Rightarrow> int \<Rightarrow> coord_error + string list \<times> (string \<times> hold_reason) list" where
  "claim_shardable cands s now =
     (case read_leases s of Inl e \<Rightarrow> Inl e | Inr data \<Rightarrow> Inr (claim_loop data now cands))"

definition has_live_lease :: "lease_store \<Rightarrow> string \<Rightarrow> int \<Rightarrow> coord_error + bool" where
  "has_live_lease s wi now =
     (case read_leases s of
        Inl e \<Rightarrow> Inl e
      | Inr data \<Rightarrow> Inr (case dget data wi of None \<Rightarrow> False | Some e \<Rightarrow> assumed_live now e))"

subsection \<open>The visualizer's view of a lease\<close>

record lease_row =
  row_wi_id :: string
  row_worker_pid :: int
  row_worktree_slot :: string
  row_term_token :: int
  heartbeat_fresh :: bool
  age_seconds :: int

text \<open>The age is in microseconds here, as \<open>now\<close> is.\<close>

definition lease_view :: "string \<Rightarrow> lease \<Rightarrow> int \<Rightarrow> coord_error + lease_row" where
  "lease_view wi e now =
     (case heartbeat_timestamp e of
        None \<Rightarrow> Inl BadTimestamp
      | Some h \<Rightarrow> Inr \<lparr>row_wi_id = wi, row_worker_pid = worker_pid e,
          row_worktree_slot = worktree_slot e, row_term_token = term_token e,
          heartbeat_fresh = (now \<le> (h + ttl_seconds e) * 1000000), age_seconds = now - h * 1000000\<rparr>)"

fun lease_views :: "leases \<Rightarrow> int \<Rightarrow> coord_error + lease_row list" where
  "lease_views [] now = Inr []"
| "lease_views ((wi, e) # es) now =
     (case lease_view wi e now of
        Inl x \<Rightarrow> Inl x
      | Inr v \<Rightarrow> (case lease_views es now of Inl x \<Rightarrow> Inl x | Inr vs \<Rightarrow> Inr (v # vs)))"

definition read_lease_views :: "lease_store \<Rightarrow> int \<Rightarrow> coord_error + lease_row list" where
  "read_lease_views s now =
     (case leases_file s of Absent \<Rightarrow> Inr [] | Corrupt \<Rightarrow> Inr [] | Content data \<Rightarrow> lease_views data now)"

subsection \<open>Claims and views agree with the leases\<close>

lemma claim_loop_filter:
  "claim_loop data now cands =
     (map cand_id (filter (\<lambda>c. shard_verdict data now c = None) cands),
      map (\<lambda>c. (cand_id c, the (shard_verdict data now c)))
        (filter (\<lambda>c. shard_verdict data now c \<noteq> None) cands))"
  by (induction cands) (auto split: option.splits)

lemma claimed_iff:
  "shard_verdict data now c = None \<longleftrightarrow>
     dep_ready c \<and> independent c \<and>
     (\<forall>e. dget data (cand_id c) = Some e \<longrightarrow> expired_at now e)"
  by (auto simp: shard_verdict_def assumed_live_def expired_at_def split: option.splits if_splits)

lemma acquire_free_item:
  assumes "leases_wf s" and "read_leases s = Inr data"
    and "\<And>e. dget data wi = Some e \<Longrightarrow> expired_at now e"
    and "acquire_lease_body wi pid slot ttl now s = (r, s')"
  shows "r = Inl BadTimestamp \<or> (\<exists>e. r = Inr (Some e))"
proof (cases "reclaim (store_dir s) now data s")
  case (Pair q s1)
  show ?thesis
  proof (cases q)
    case (Inl x)
    with Pair have "expired_ids now data = Inl x"
      by (auto simp: reclaim_def Let_def split: sum.splits)
    with Inl Pair assms(2,4) show ?thesis
      by (auto simp: acquire_lease_body_def expired_ids_def split: if_splits)
  next
    case (Inr p)
    with Pair obtain ids kept where rec: "reclaim (store_dir s) now data s = (Inr (ids, kept), s1)"
      by (cases p) auto
    have "dget kept wi = None"
      using reclaim_Inr(2) [OF rec leases_wf_read [OF assms(1,2)], of wi] assms(3)
      by (auto split: option.splits)
    with rec assms(2,4) show ?thesis by (auto simp: acquire_lease_body_def Let_def)
  qed
qed

text \<open>
  C33. The shard set is conservative and order preserving: \<open>claim_shardable\<close> claims, in queue
  order, exactly the candidates with ready dependencies and an independence marker whose item
  holds no lease that is live or unreadable, reports every other candidate as held, and changes
  nothing (it has no state to return).
\<close>

theorem shard_set_conservative:
  assumes "claim_shardable cands s now = Inr (claimed, held)"
  shows "\<exists>data. read_leases s = Inr data \<and>
    claimed = map cand_id (filter (\<lambda>c. dep_ready c \<and> independent c \<and>
       (\<forall>e. dget data (cand_id c) = Some e \<longrightarrow> expired_at now e)) cands) \<and>
    map fst held = map cand_id (filter (\<lambda>c. \<not> (dep_ready c \<and> independent c \<and>
       (\<forall>e. dget data (cand_id c) = Some e \<longrightarrow> expired_at now e))) cands)"
proof -
  obtain data where data: "read_leases s = Inr data" "claim_loop data now cands = (claimed, held)"
    using assms by (auto simp: claim_shardable_def split: sum.splits)
  then show ?thesis
    unfolding claim_loop_filter claimed_iff [symmetric] by (auto simp: comp_def)
qed

text \<open>
  The rail agrees with the lease layer: for an item that \<open>claim_shardable\<close> claims,
  \<open>acquire_lease\<close> at the same moment is never refused: it grants the lease, or raises because some
  entry of the file has an unreadable heartbeat; and \<open>has_live_lease\<close> is false for it.
\<close>

theorem claimed_item_is_grantable:
  assumes "lease_inv s" and "claim_shardable cands s now = Inr (claimed, held)" and "wi \<in> set claimed"
  shows "has_live_lease s wi now = Inr False \<and>
    (fst (acquire_lease_body wi pid slot ttl now s) = Inl BadTimestamp \<or>
     (\<exists>e. fst (acquire_lease_body wi pid slot ttl now s) = Inr (Some e)))"
proof -
  obtain data where data: "read_leases s = Inr data" "claim_loop data now cands = (claimed, held)"
    using assms(2) by (auto simp: claim_shardable_def split: sum.splits)
  then have exp: "\<And>e. dget data wi = Some e \<Longrightarrow> expired_at now e"
    using assms(3) by (auto simp: claim_loop_filter claimed_iff)
  then have "has_live_lease s wi now = Inr False"
    using data(1) by (auto simp: has_live_lease_def assumed_live_def expired_at_def split: option.splits)
  with acquire_free_item [OF lease_inv_wf [OF assms(1)] data(1) exp] show ?thesis
    by (metis prod.collapse)
qed

lemma lease_view_Inr:
  "lease_view wi e now = Inr r \<Longrightarrow>
    row_wi_id r = wi \<and> heartbeat_fresh r = live_at now e \<and> heartbeat_fresh r = assumed_live now e"
  by (auto simp: lease_view_def live_at_def assumed_live_def lease_expiry_def split: option.splits)

lemma lease_views_Inr:
  "lease_views data now = Inr rows \<Longrightarrow> map row_wi_id rows = dkeys data \<and>
    (\<forall>r\<in>set rows. \<exists>e. (row_wi_id r, e) \<in> set data \<and> lease_view (row_wi_id r) e now = Inr r)"
proof (induction data arbitrary: rows)
  case Nil
  then show ?case by simp
next
  case (Cons we data)
  obtain wi e where we: "we = (wi, e)" by (cases we)
  with Cons.prems obtain v vs where v: "lease_view wi e now = Inr v" "lease_views data now = Inr vs"
      "rows = v # vs"
    by (auto split: sum.splits)
  with Cons.IH [OF v(2)] lease_view_Inr [OF v(1)] we show ?case by auto
qed

text \<open>
  The visualizer's freshness is the coordinator's liveness: when the views of a lease file
  are shown, the row of an entry says fresh exactly if \<open>acquire_lease\<close> would treat it as live, and
  exactly if \<open>has_live_lease\<close> holds of it.
\<close>

theorem fresh_iff_live:
  assumes "lease_inv s" and "read_lease_views s now = Inr rows" and "r \<in> set rows"
  shows "\<exists>data e. read_leases s = Inr data \<and> dget data (row_wi_id r) = Some e \<and>
     heartbeat_fresh r = live_at now e \<and> has_live_lease s (row_wi_id r) now = Inr (heartbeat_fresh r)"
proof -
  have "\<exists>data. read_leases s = Inr data \<and> lease_views data now = Inr rows"
    using assms by (auto simp: read_lease_views_def read_leases_def split: jfile.splits)
  then obtain data where d: "read_leases s = Inr data" "lease_views data now = Inr rows" by blast
  with lease_views_Inr [OF d(2)] assms(3)
  obtain e where e: "(row_wi_id r, e) \<in> set data" "lease_view (row_wi_id r) e now = Inr r" by blast
  then have "dget data (row_wi_id r) = Some e"
    using leases_wf_read [OF lease_inv_wf [OF assms(1)] d(1)] by simp
  with d(1) lease_view_Inr [OF e(2)] show ?thesis by (auto simp: has_live_lease_def)
qed

theorem shard_set_conservative_witness:
  "claim_shardable [Candidate ''a'' True True, Candidate ''b'' True True, Candidate ''c'' False True,
     NotADict ''d'', Candidate ''e'' True True] held_store 160000000 =
     Inr ([''b'', ''e''], [(''a'', LiveLease), (''c'', DepUnready), (''d'', DepUnready)]) \<and>
   (\<exists>data. read_leases held_store = Inr data \<and> dget data ''e'' = None)"
proof -
  have run: "claim_shardable [Candidate ''a'' True True, Candidate ''b'' True True,
      Candidate ''c'' False True, NotADict ''d'', Candidate ''e'' True True] held_store 160000000 =
     Inr ([''b'', ''e''], [(''a'', LiveLease), (''c'', DepUnready), (''d'', DepUnready)])"
    by (simp add: claim_shardable_def shard_verdict_def assumed_live_def held_store_def
        granted_lease_def lease_eval)
  from shard_set_conservative [OF run] have "\<exists>data. read_leases held_store = Inr data" by blast
  with run show ?thesis by (auto simp: held_store_def read_leases_def)
qed

theorem claimed_item_is_grantable_witness:
  "has_live_lease held_store ''b'' 160000000 = Inr False \<and>
   (fst (acquire_lease_body ''b'' 13 ''wt-00'' 60 160000000 held_store) = Inl BadTimestamp \<or>
    (\<exists>e. fst (acquire_lease_body ''b'' 13 ''wt-00'' 60 160000000 held_store) = Inr (Some e)))"
proof (rule claimed_item_is_grantable)
  show "claim_shardable [Candidate ''b'' True True] held_store 160000000 = Inr ([''b''], [])"
    by (simp add: claim_shardable_def shard_verdict_def assumed_live_def held_store_def
        granted_lease_def lease_eval)
qed (simp_all add: lease_inv_def held_store_def read_leases_def)

theorem fresh_iff_live_witness:
  "\<exists>data e. read_leases held_store = Inr data \<and> dget data ''b'' = Some e \<and>
     False = live_at 160000000 e \<and> has_live_lease held_store ''b'' 160000000 = Inr False"
proof -
  have rows: "read_lease_views held_store 160000000 = Inr
     [\<lparr>row_wi_id = ''a'', row_worker_pid = 11, row_worktree_slot = ''wt-00'', row_term_token = 4,
        heartbeat_fresh = True, age_seconds = 60000000\<rparr>,
      \<lparr>row_wi_id = ''b'', row_worker_pid = 12, row_worktree_slot = ''wt-01'', row_term_token = 1,
        heartbeat_fresh = False, age_seconds = 160000000\<rparr>]"
    by (simp add: read_lease_views_def lease_view_def held_store_def granted_lease_def lease_eval)
  have "lease_inv held_store" by (simp add: lease_inv_def held_store_def read_leases_def)
  from fresh_iff_live [OF this rows, of "\<lparr>row_wi_id = ''b'', row_worker_pid = 12,
      row_worktree_slot = ''wt-01'', row_term_token = 1, heartbeat_fresh = False,
      age_seconds = 160000000\<rparr>"]
  show ?thesis by simp
qed

end
