(* ===== verification/Coord_Lanes.thy ===== *)
theory Coord_Lanes
  imports Coord_Leases
begin

text \<open>
  The lane ledger of a parallel run (\<^verbatim>\<open>user/scripts/lazy_coord.py\<close>, \<open>lanes.json\<close>): one entry per
  work item with the slot and branch it was claimed with and its status, and the order in which
  lanes were merged. Every change reads, mutates and writes the ledger under the sibling
  \<open>global.lock.d\<close>. \<open>git merge\<close> and \<open>git merge --abort\<close> are arguments.
\<close>

subsection \<open>Data\<close>

datatype lane_status = Claimed | LaneComplete | Merged | Demoted | Parked

text \<open>Every field of an entry may be missing; \<open>sentinel_ported_to = Some None\<close> is a stored null.\<close>

record lane =
  lane_slot :: "string option"
  branch :: "string option"
  status :: "lane_status option"
  claimed_at :: "int option"
  lane_complete_at :: "int option"
  merged_at :: "int option"
  merge_index :: "nat option"
  demoted :: "string option"
  demoted_at :: "int option"
  demotion_reason :: "string option"
  sentinel_kind :: "string option"
  parked_at :: "int option"
  sentinel_ported_to :: "string option option"

definition empty_lane :: lane where
  "empty_lane = \<lparr>lane_slot = None, branch = None, status = None, claimed_at = None,
     lane_complete_at = None, merged_at = None, merge_index = None, demoted = None,
     demoted_at = None, demotion_reason = None, sentinel_kind = None, parked_at = None,
     sentinel_ported_to = None\<rparr>"

record ledger =
  lanes :: "(string, lane) dict"
  merged_order :: "string list"

text \<open>A ledger file may lack either key; \<open>read_lanes\<close> supplies the default.\<close>

type_synonym raw_ledger = "(string, lane) dict option \<times> string list option"
type_synonym lanes_state = "lock_state \<times> raw_ledger jfile"

definition with_defaults :: "raw_ledger \<Rightarrow> ledger" where
  "with_defaults raw =
     \<lparr>lanes = (case fst raw of None \<Rightarrow> [] | Some d \<Rightarrow> d),
      merged_order = (case snd raw of None \<Rightarrow> [] | Some xs \<Rightarrow> xs)\<rparr>"

definition read_lanes :: "raw_ledger jfile \<Rightarrow> coord_error + ledger" where
  "read_lanes f =
     (case f of
        Absent \<Rightarrow> Inr \<lparr>lanes = [], merged_order = []\<rparr>
      | Corrupt \<Rightarrow> Inl JsonDecodeError
      | Content raw \<Rightarrow> Inr (with_defaults raw))"

definition write_lanes :: "ledger \<Rightarrow> raw_ledger jfile" where
  "write_lanes d = Content (Some (lanes d), Some (merged_order d))"

definition mutate_lanes ::
  "lock_ctx \<Rightarrow> (ledger \<Rightarrow> ledger) \<Rightarrow> (lanes_state, coord_error, ledger) op" where
  "mutate_lanes c mutate =
     with_lock (lock_acq c) release_lock LockTimeout
       (\<lambda>f. case read_lanes f of
              Inl e \<Rightarrow> (Inl e, f)
            | Inr data \<Rightarrow> (Inr (mutate data), write_lanes (mutate data)))"

subsection \<open>The ledger operations\<close>

definition lane_entry :: "ledger \<Rightarrow> string \<Rightarrow> lane" where
  "lane_entry data i = (case dget (lanes data) i of None \<Rightarrow> empty_lane | Some l \<Rightarrow> l)"

definition claim_lane :: "string \<Rightarrow> string \<Rightarrow> string \<Rightarrow> int \<Rightarrow> ledger \<Rightarrow> ledger" where
  "claim_lane i slot b now data =
     data\<lparr>lanes := dset i (empty_lane\<lparr>lane_slot := Some slot, branch := Some b,
       status := Some Claimed, claimed_at := Some (now_iso now)\<rparr>) (lanes data)\<rparr>"

definition complete_lane :: "string \<Rightarrow> int \<Rightarrow> ledger \<Rightarrow> ledger" where
  "complete_lane i now data =
     data\<lparr>lanes := dset i ((lane_entry data i)\<lparr>status := Some LaneComplete,
       lane_complete_at := Some (now_iso now)\<rparr>) (lanes data)\<rparr>"

definition merge_lane :: "string \<Rightarrow> int \<Rightarrow> ledger \<Rightarrow> ledger" where
  "merge_lane i now data =
     (let order = merged_order data @ [i] in
      \<lparr>lanes = dset i ((lane_entry data i)\<lparr>status := Some Merged, merged_at := Some (now_iso now),
         merge_index := Some (length order - 1)\<rparr>) (lanes data),
       merged_order = order\<rparr>)"

definition demote_lane :: "string \<Rightarrow> string \<Rightarrow> int \<Rightarrow> ledger \<Rightarrow> ledger" where
  "demote_lane i reason now data =
     data\<lparr>lanes := dset i ((lane_entry data i)\<lparr>status := Some Demoted, demoted := Some ''serial'',
       demoted_at := Some (now_iso now), demotion_reason := Some reason\<rparr>) (lanes data)\<rparr>"

definition park_lane :: "string \<Rightarrow> string \<Rightarrow> string option \<Rightarrow> int \<Rightarrow> ledger \<Rightarrow> ledger" where
  "park_lane i kind ported now data =
     data\<lparr>lanes := dset i ((lane_entry data i)\<lparr>status := Some Parked, sentinel_kind := Some kind,
       parked_at := Some (now_iso now), sentinel_ported_to := Some ported\<rparr>) (lanes data)\<rparr>"

definition ledger_record_claim where
  "ledger_record_claim c i slot b now = mutate_lanes c (claim_lane i slot b now)"

definition ledger_record_lane_complete where
  "ledger_record_lane_complete c i now = mutate_lanes c (complete_lane i now)"

definition ledger_record_merge where
  "ledger_record_merge c i now = mutate_lanes c (merge_lane i now)"

definition ledger_record_demotion where
  "ledger_record_demotion c i reason now = mutate_lanes c (demote_lane i reason now)"

definition ledger_record_park where
  "ledger_record_park c i kind ported now = mutate_lanes c (park_lane i kind ported now)"

subsection \<open>Reads\<close>

definition has_status :: "ledger \<Rightarrow> lane_status \<Rightarrow> string \<Rightarrow> bool" where
  "has_status data st i \<longleftrightarrow> status (lane_entry data i) = Some st"

definition merge_order :: "ledger \<Rightarrow> string list \<Rightarrow> string list" where
  "merge_order data queue_ids = filter (has_status data LaneComplete) queue_ids"

record flush =
  flush_merged :: "string list"
  flush_demoted :: "string list"
  flush_parked :: "string list"
  flush_claimed :: "string list"

fun flush_loop :: "(string, lane) dict \<Rightarrow> flush \<Rightarrow> flush" where
  "flush_loop [] out = out"
| "flush_loop ((i, l) # ls) out =
     flush_loop ls
       (if status l = Some Demoted then out\<lparr>flush_demoted := flush_demoted out @ [i]\<rparr>
        else if status l = Some Parked then out\<lparr>flush_parked := flush_parked out @ [i]\<rparr>
        else if status l = Some Claimed \<or> status l = Some LaneComplete
          then out\<lparr>flush_claimed := flush_claimed out @ [i]\<rparr>
        else out)"

definition flush_summary :: "ledger \<Rightarrow> flush" where
  "flush_summary data =
     flush_loop (lanes data)
       \<lparr>flush_merged = filter (has_status data Merged) (merged_order data),
        flush_demoted = [], flush_parked = [], flush_claimed = []\<rparr>"

subsection \<open>Merging the lanes back\<close>

text \<open>
  \<open>git_merge no_ff branch\<close> returns whether the exit status was 0 and the excerpt of its output;
  the working repository is threaded through.
\<close>

record 'r git_ops =
  git_merge :: "bool \<Rightarrow> string \<Rightarrow> 'r \<Rightarrow> (bool \<times> string) \<times> 'r"
  git_merge_abort :: "'r \<Rightarrow> 'r"

record merge_result =
  was_merged :: bool
  conflict :: bool
  aborted :: bool
  detail :: "string option"

definition lane_branch :: "string \<Rightarrow> string" where
  "lane_branch i = ''lane/'' @ i"

text \<open>The last 400 characters, \<open>xs[-400:]\<close>.\<close>

definition excerpt :: "string \<Rightarrow> string" where
  "excerpt out = drop (length out - 400) out"

definition merge_lane_branch :: "'r git_ops \<Rightarrow> bool \<Rightarrow> string \<Rightarrow> 'r \<Rightarrow> merge_result \<times> 'r" where
  "merge_lane_branch g no_ff b r =
     (case git_merge g no_ff b r of
        ((True, out), r1) \<Rightarrow>
          (\<lparr>was_merged = True, conflict = False, aborted = False, detail = None\<rparr>, r1)
      | ((False, out), r1) \<Rightarrow>
          (\<lparr>was_merged = False, conflict = True, aborted = True, detail = Some (excerpt out)\<rparr>,
           git_merge_abort g r1))"

text \<open>
  The loop over the merge sequence; the accumulators are the ids merged and demoted so far. A
  ledger write that raises ends the loop with the repository as the merge left it.
\<close>

fun merge_loop ::
  "lock_ctx \<Rightarrow> 'r git_ops \<Rightarrow> bool \<Rightarrow> int \<Rightarrow> string list \<Rightarrow> string list \<Rightarrow> string list \<Rightarrow>
   (lanes_state \<times> 'r, coord_error, string list \<times> string list) op" where
  "merge_loop c g no_ff now [] merged demoted_ids (ls, r) = (Inr (merged, demoted_ids), (ls, r))"
| "merge_loop c g no_ff now (i # is) merged demoted_ids (ls, r) =
     (case merge_lane_branch g no_ff (lane_branch i) r of
        (res, r1) \<Rightarrow>
          if was_merged res then
            (case ledger_record_merge c i now ls of
               (Inl e, ls1) \<Rightarrow> (Inl e, (ls1, r1))
             | (Inr _, ls1) \<Rightarrow> merge_loop c g no_ff now is (merged @ [i]) demoted_ids (ls1, r1))
          else
            (case ledger_record_demotion c i
                    (case detail res of None \<Rightarrow> ''merge conflict'' | Some d \<Rightarrow> d) now ls of
               (Inl e, ls1) \<Rightarrow> (Inl e, (ls1, r1))
             | (Inr _, ls1) \<Rightarrow> merge_loop c g no_ff now is merged (demoted_ids @ [i]) (ls1, r1)))"

definition merge_back_lanes ::
  "lock_ctx \<Rightarrow> 'r git_ops \<Rightarrow> bool \<Rightarrow> int \<Rightarrow> string list \<Rightarrow>
   (lanes_state \<times> 'r, coord_error, string list \<times> string list \<times> string list) op" where
  "merge_back_lanes c g no_ff now queue_ids st =
     (case read_lanes (snd (fst st)) of
        Inl e \<Rightarrow> (Inl e, st)
      | Inr data \<Rightarrow>
          (let order = merge_order data queue_ids in
           case merge_loop c g no_ff now order [] [] st of
             (Inl e, st1) \<Rightarrow> (Inl e, st1)
           | (Inr (merged, demoted_ids), st1) \<Rightarrow> (Inr (order, merged, demoted_ids), st1)))"

subsection \<open>Lane counts and budgets\<close>

definition effective_lanes :: "int \<Rightarrow> int \<Rightarrow> int \<Rightarrow> int" where
  "effective_lanes requested shardable pool_size = max 0 (min requested (min shardable pool_size))"

definition lane_budget_slice :: "int \<Rightarrow> int \<Rightarrow> int \<Rightarrow> int" where
  "lane_budget_slice remaining_parent max_cycles n_lanes =
     (if n_lanes \<le> 0 \<or> remaining_parent \<le> 0 then 0
      else max 0 (min remaining_parent (- (- max_cycles div n_lanes))))"

subsection \<open>Facts about one ledger operation\<close>

lemma read_write_lanes [simp]: "read_lanes (write_lanes d) = Inr d"
  by (simp add: read_lanes_def write_lanes_def with_defaults_def)

lemma mutate_lanes_free:
  "read_lanes f = Inr data \<Longrightarrow>
    mutate_lanes (coord_ctx ps ks me wall jit) m (None, f) = (Inr (m data), (None, write_lanes (m data)))"
  by (simp add: mutate_lanes_def gl.runs_body release_lock_def)

lemma mutate_lanes_held:
  "lock_live (coord_ctx ps ks me wall jit) l \<Longrightarrow>
    mutate_lanes (coord_ctx ps ks me wall jit) m (l, f) = (Inl LockTimeout, (l, f))"
  by (simp add: mutate_lanes_def gl.times_out)

lemmas record_free =
  ledger_record_merge_def mutate_lanes_free ledger_record_demotion_def

lemma lane_entry_ops [simp]:
  "lane_entry (merge_lane i now data) j =
     (if j = i then (lane_entry data i)\<lparr>status := Some Merged, merged_at := Some (now_iso now),
        merge_index := Some (length (merged_order data))\<rparr> else lane_entry data j)"
  "lane_entry (demote_lane i reason now data) j =
     (if j = i then (lane_entry data i)\<lparr>status := Some Demoted, demoted := Some ''serial'',
        demoted_at := Some (now_iso now), demotion_reason := Some reason\<rparr> else lane_entry data j)"
  by (simp_all add: lane_entry_def merge_lane_def demote_lane_def dict_simps Let_def)

lemma merged_order_ops [simp]:
  "merged_order (merge_lane i now data) = merged_order data @ [i]"
  "merged_order (demote_lane i reason now data) = merged_order data"
  by (simp_all add: merge_lane_def demote_lane_def Let_def)

subsection \<open>The merge-back against its reference\<close>

text \<open>The reference: the merges alone, in sequence, with the ids they landed and refused.\<close>

fun land :: "'r git_ops \<Rightarrow> bool \<Rightarrow> string list \<Rightarrow> 'r \<Rightarrow> (string list \<times> string list) \<times> 'r" where
  "land g no_ff [] r = (([], []), r)"
| "land g no_ff (i # is) r =
     (case merge_lane_branch g no_ff (lane_branch i) r of
        (res, r1) \<Rightarrow>
          (case land g no_ff is r1 of
             ((ok, bad), r2) \<Rightarrow> ((if was_merged res then (i # ok, bad) else (ok, i # bad)), r2)))"

lemma land_sets:
  "land g no_ff is r = ((ok, bad), r') \<Longrightarrow> mset ok + mset bad = mset is"
  by (induction g no_ff "is" r arbitrary: ok bad r' rule: land.induct)
    (auto split: prod.splits if_splits)

lemma land_subseq:
  "land g no_ff is r = ((ok, bad), r') \<Longrightarrow> distinct is \<Longrightarrow>
    ok = filter (\<lambda>i. i \<in> set ok) is \<and> bad = filter (\<lambda>i. i \<notin> set ok) is"
proof (induction g no_ff "is" r arbitrary: ok bad r' rule: land.induct)
  case (1 g no_ff r)
  then show ?case by simp
next
  case (2 g no_ff i "is" r)
  obtain res r1 where m: "merge_lane_branch g no_ff (lane_branch i) r = (res, r1)" by fastforce
  obtain ok1 bad1 r2 where l: "land g no_ff is r1 = ((ok1, bad1), r2)"
    by (metis prod.collapse)
  have "i \<notin> set ok1" using land_sets [OF l] 2(3) by (metis Un_iff distinct.simps(2) set_mset_mset set_mset_union)
  moreover have "filter (\<lambda>j. j = i \<or> j \<in> set ok1) is = filter (\<lambda>j. j \<in> set ok1) is"
    "filter (\<lambda>j. j \<noteq> i \<and> j \<notin> set ok1) is = filter (\<lambda>j. j \<notin> set ok1) is"
    using 2(3) by (auto intro!: filter_cong)
  ultimately show ?case using 2(1) [OF m [symmetric] l] 2(2,3) m l by (auto split: if_splits)
qed

lemma merge_loop_land:
  assumes "land g no_ff is r = ((ok, bad), r')" and "read_lanes f = Inr data"
  shows "\<exists>f' data'. merge_loop (coord_ctx ps ks me wall jit) g no_ff now is ms ds ((None, f), r) =
       (Inr (ms @ ok, ds @ bad), ((None, f'), r')) \<and> read_lanes f' = Inr data' \<and>
     merged_order data' = merged_order data @ ok \<and>
     (\<forall>i. branch (lane_entry data' i) = branch (lane_entry data i)) \<and>
     (\<forall>i. i \<notin> set is \<longrightarrow> lane_entry data' i = lane_entry data i) \<and>
     (distinct is \<longrightarrow> (\<forall>i\<in>set ok. has_status data' Merged i) \<and> (\<forall>i\<in>set bad. has_status data' Demoted i))"
  using assms
proof (induction "is" arbitrary: r ok bad f data ms ds)
  case Nil
  then show ?case by auto
next
  case (Cons i "is")
  obtain res r1 where m: "merge_lane_branch g no_ff (lane_branch i) r = (res, r1)" by fastforce
  obtain ok1 bad1 where l: "land g no_ff is r1 = ((ok1, bad1), r')"
    using Cons.prems(1) m by (auto split: prod.splits if_splits)
  let ?reason = "case detail res of None \<Rightarrow> ''merge conflict'' | Some d \<Rightarrow> d"
  let ?data = "if was_merged res then merge_lane i now data else demote_lane i ?reason now data"
  have rd: "read_lanes (write_lanes ?data) = Inr ?data" by simp
  note ih = Cons.IH [OF l rd, of "if was_merged res then ms @ [i] else ms"
      "if was_merged res then ds else ds @ [i]"]
  then obtain f' data' where
    run: "merge_loop (coord_ctx ps ks me wall jit) g no_ff now is
        (if was_merged res then ms @ [i] else ms) (if was_merged res then ds else ds @ [i])
        ((None, write_lanes ?data), r1) =
       (Inr ((if was_merged res then ms @ [i] else ms) @ ok1,
             (if was_merged res then ds else ds @ [i]) @ bad1), ((None, f'), r'))"
    and rest: "read_lanes f' = Inr data'" "merged_order data' = merged_order ?data @ ok1"
      "\<forall>j. branch (lane_entry data' j) = branch (lane_entry ?data j)"
      "\<forall>j. j \<notin> set is \<longrightarrow> lane_entry data' j = lane_entry ?data j"
      "distinct is \<Longrightarrow> (\<forall>j\<in>set ok1. has_status data' Merged j) \<and> (\<forall>j\<in>set bad1. has_status data' Demoted j)"
    by blast
  have res: "ok = (if was_merged res then i # ok1 else ok1)"
    "bad = (if was_merged res then bad1 else i # bad1)"
    using Cons.prems(1) m l by (auto split: if_splits)
  have step: "merge_loop (coord_ctx ps ks me wall jit) g no_ff now (i # is) ms ds ((None, f), r) =
      (Inr (ms @ ok, ds @ bad), ((None, f'), r'))"
    using run m res by (simp add: record_free Cons.prems(2) split: if_splits)
  have "branch (lane_entry ?data j) = branch (lane_entry data j)"
    "j \<noteq> i \<Longrightarrow> lane_entry ?data j = lane_entry data j" for j
    by simp_all
  moreover have "has_status ?data (if was_merged res then Merged else Demoted) i"
    by (simp add: has_status_def)
  ultimately show ?case
    using step rest res
    by (intro exI [of _ f'] exI [of _ data']) (auto simp: has_status_def)
qed

lemma merge_back_run:
  assumes "read_lanes f = Inr data" and "land g no_ff (merge_order data queue_ids) r = ((ok, bad), r')"
  shows "\<exists>f'. merge_back_lanes (coord_ctx ps ks me wall jit) g no_ff now queue_ids ((None, f), r) =
    (Inr (merge_order data queue_ids, ok, bad), ((None, f'), r'))"
  using merge_loop_land [OF assms(2,1), of ps ks me wall jit now "[]" "[]"] assms(1)
  by (auto simp: merge_back_lanes_def Let_def)

text \<open>
  C32. The merge-back is the plain sequence of merges in queue order: with the ledger lock free
  it attempts exactly the lane-complete items in queue order, its \<open>merged\<close> and \<open>demoted\<close> lists and
  the repository are those of merging in that sequence, \<open>merged\<close> and \<open>demoted\<close> are the queue
  order split in two, the ledger's merge order grows by \<open>merged\<close>, each id has the status that
  goes with its list, every recorded lane branch is preserved, no other entry changes, and the
  lock is free again.
\<close>

theorem merge_back_refines_land:
  assumes "read_lanes f = Inr data" and "distinct queue_ids"
  shows "let order = filter (has_status data LaneComplete) queue_ids;
      ((merged, refused), r') = land g no_ff order r
    in \<exists>f' data'.
      merge_back_lanes (coord_ctx ps ks me wall jit) g no_ff now queue_ids ((None, f), r) =
        (Inr (order, merged, refused), ((None, f'), r')) \<and>
      merged = filter (\<lambda>i. i \<in> set merged) order \<and> refused = filter (\<lambda>i. i \<notin> set merged) order \<and>
      read_lanes f' = Inr data' \<and> merged_order data' = merged_order data @ merged \<and>
      (\<forall>i\<in>set merged. has_status data' Merged i) \<and> (\<forall>i\<in>set refused. has_status data' Demoted i) \<and>
      (\<forall>i. branch (lane_entry data' i) = branch (lane_entry data i)) \<and>
      (\<forall>i. i \<notin> set order \<longrightarrow> lane_entry data' i = lane_entry data i)"
proof -
  define order where "order = filter (has_status data LaneComplete) queue_ids"
  obtain ok bad r' where l: "land g no_ff order r = ((ok, bad), r')" by (metis prod.collapse)
  have d: "distinct order" using assms(2) by (simp add: order_def)
  from merge_loop_land [OF l assms(1), of ps ks me wall jit now "[]" "[]"] land_subseq [OF l d] d assms(1)
  show ?thesis
    unfolding Let_def order_def [symmetric] l
    by (auto simp: merge_back_lanes_def merge_order_def Let_def order_def [symmetric])
qed

lemma land_only_merged:
  assumes "\<And>b r out r1. git_merge g no_ff b r = ((False, out), r1) \<Longrightarrow> git_merge_abort g r1 = r"
    and "land g no_ff is r = ((ok, bad), r')"
  shows "r' = fold (\<lambda>i r. snd (git_merge g no_ff (lane_branch i) r)) ok r"
  using assms(2)
proof (induction "is" arbitrary: r ok bad)
  case Nil
  then show ?case by simp
next
  case (Cons i "is")
  obtain res r1 where m: "merge_lane_branch g no_ff (lane_branch i) r = (res, r1)" by fastforce
  obtain ok1 bad1 where l: "land g no_ff is r1 = ((ok1, bad1), r')"
    using Cons.prems(1) m by (auto split: prod.splits if_splits)
  have "if was_merged res then snd (git_merge g no_ff (lane_branch i) r) = r1 else r1 = r"
    using m assms(1) by (auto simp: merge_lane_branch_def split: prod.splits bool.splits)
  with Cons.IH [OF l] Cons.prems m l show ?case by (auto split: if_splits)
qed

text \<open>
  A refused merge leaves no trace: when \<open>git merge --abort\<close> restores what a failed merge
  changed, the repository after the merge-back is the one in which only the merged lanes were
  merged, in queue order.
\<close>

theorem refused_merge_leaves_no_trace:
  assumes "\<And>b r out r1. git_merge g no_ff b r = ((False, out), r1) \<Longrightarrow> git_merge_abort g r1 = r"
    and "read_lanes f = Inr data" and "distinct queue_ids"
    and "merge_back_lanes (coord_ctx ps ks me wall jit) g no_ff now queue_ids ((None, f), r) =
           (Inr (order, merged, refused), ((l', f'), r'))"
  shows "r' = fold (\<lambda>i r. snd (git_merge g no_ff (lane_branch i) r)) merged r"
proof -
  let ?order = "filter (has_status data LaneComplete) queue_ids"
  obtain ok bad r2 where l: "land g no_ff ?order r = ((ok, bad), r2)" by (metis prod.collapse)
  with merge_loop_land [OF l assms(2), of ps ks me wall jit now "[]" "[]"] assms(2,4)
  have "merged = ok \<and> r' = r2" by (auto simp: merge_back_lanes_def merge_order_def)
  with land_only_merged [OF assms(1) l] show ?thesis by simp
qed

text \<open>A repository that logs branches; the branch of item \<open>b\<close> conflicts and leaves a mark.\<close>

definition log_git :: "string list git_ops" where
  "log_git = \<lparr>git_merge = (\<lambda>no_ff b r. if b = ''lane/b'' then ((False, ''CONFLICT''), r @ [''half''])
                                      else ((True, []), r @ [b])),
              git_merge_abort = butlast\<rparr>"

definition abc_ledger :: ledger where
  "abc_ledger = fold (\<lambda>i d. complete_lane i 7 (claim_lane i ''wt-00'' (lane_branch i) 3 d))
     [''c'', ''a'', ''b''] \<lparr>lanes = [], merged_order = []\<rparr>"

lemmas ledger_eval = abc_ledger_def log_git_def has_status_def lane_entry_def complete_lane_def
  claim_lane_def lane_branch_def merge_lane_branch_def empty_lane_def

lemma abc_order: "filter (has_status abc_ledger LaneComplete) [''a'', ''b'', ''c''] = [''a'', ''b'', ''c'']"
  by (simp add: ledger_eval)

lemma abc_land:
  "land log_git True [''a'', ''b'', ''c''] [] = (([''a'', ''c''], [''b'']), [''lane/a'', ''lane/c''])"
  by (simp add: ledger_eval)

lemma abc_merge_order:
  "land log_git True (merge_order abc_ledger [''a'', ''b'', ''c'']) [] =
     (([''a'', ''c''], [''b'']), [''lane/a'', ''lane/c''])"
  unfolding merge_order_def abc_order by (rule abc_land)

theorem merge_back_refines_land_witness:
  "\<exists>f' data'. merge_back_lanes (coord_ctx (\<lambda>_. Alive) (\<lambda>_. Some 1) 7 (\<lambda>_. 0) (\<lambda>_. 0)) log_git True 9
      [''a'', ''b'', ''c''] ((None, write_lanes abc_ledger), []) =
    (Inr ([''a'', ''b'', ''c''], [''a'', ''c''], [''b'']), ((None, f'), [''lane/a'', ''lane/c''])) \<and>
    read_lanes f' = Inr data' \<and> has_status data' Demoted ''b'' \<and>
    branch (lane_entry data' ''b'') = branch (lane_entry abc_ledger ''b'')"
proof -
  from merge_back_refines_land [OF read_write_lanes [of abc_ledger], of "[''a'', ''b'', ''c'']" log_git True "[]"
      "\<lambda>_. Alive" "\<lambda>_. Some 1" 7 "\<lambda>_. 0" "\<lambda>_. 0" 9]
  show ?thesis unfolding Let_def abc_order abc_land by auto
qed

theorem refused_merge_leaves_no_trace_witness:
  "\<exists>order merged refused st' r'.
     merge_back_lanes (coord_ctx (\<lambda>_. Alive) (\<lambda>_. Some 1) 7 (\<lambda>_. 0) (\<lambda>_. 0)) log_git True 9
       [''a'', ''b'', ''c''] ((None, write_lanes abc_ledger), []) = (Inr (order, merged, refused), (st', r')) \<and>
     r' = fold (\<lambda>i r. snd (git_merge log_git True (lane_branch i) r)) merged []"
proof -
  obtain f' where run: "merge_back_lanes (coord_ctx (\<lambda>_. Alive) (\<lambda>_. Some 1) 7 (\<lambda>_. 0) (\<lambda>_. 0)) log_git
      True 9 [''a'', ''b'', ''c''] ((None, write_lanes abc_ledger), []) =
     (Inr ([''a'', ''b'', ''c''], [''a'', ''c''], [''b'']), ((None, f'), [''lane/a'', ''lane/c'']))"
    using merge_back_run [OF read_write_lanes abc_merge_order] unfolding merge_order_def abc_order by blast
  have "\<And>b r out r1. git_merge log_git True b r = ((False, out), r1) \<Longrightarrow> git_merge_abort log_git r1 = r"
    by (auto simp: log_git_def split: if_splits)
  from refused_merge_leaves_no_trace [OF this read_write_lanes _ run] run show ?thesis by auto
qed

subsection \<open>The ledger lock is not reentrant\<close>

lemma own_lock_live:
  "ps me = Alive \<Longrightarrow> lock_live (coord_ctx ps ks me wall jit) (made_lock (coord_ctx ps ks me wall jit) n)"
  by (auto simp: lock_live_def made_lock_def write_lock_owner_def sees_stale_def stale_verdict_def
      read_lock_owner_def confirmed_dead_iff coord_ctx_def split: option.splits)

text \<open>
  The documented calling convention of \<open>merge_back_lanes\<close> (the caller holds the global lock,
  which is the directory the ledger writes lock) cannot succeed: the first item's branch is
  merged, or merged and aborted, then the ledger write waits for the lock its own process holds
  and raises \<open>TimeoutError\<close>. The repository keeps the landed merge while the ledger still calls
  the lane complete.
\<close>

theorem merge_back_deadlocks_under_held_lock:
  assumes "ps me = Alive" and "read_lanes f = Inr data"
    and "filter (has_status data LaneComplete) queue_ids = i # is"
  shows "merge_back_lanes (coord_ctx ps ks me wall jit) g no_ff now queue_ids
      ((made_lock (coord_ctx ps ks me wall jit) n, f), r) =
    (Inl LockTimeout, ((made_lock (coord_ctx ps ks me wall jit) n, f),
       snd (merge_lane_branch g no_ff (lane_branch i) r)))"
  using assms
  by (simp add: merge_back_lanes_def merge_order_def ledger_record_merge_def ledger_record_demotion_def
      mutate_lanes_held own_lock_live split: prod.splits)

theorem merge_back_deadlocks_under_held_lock_witness:
  "merge_back_lanes (coord_ctx (\<lambda>_. Alive) (\<lambda>_. Some 1) 7 (\<lambda>_. 0) (\<lambda>_. 0)) log_git True 9
      [''a'', ''b'', ''c'']
      ((made_lock (coord_ctx (\<lambda>_. Alive) (\<lambda>_. Some 1) 7 (\<lambda>_. 0) (\<lambda>_. 0)) 0, write_lanes abc_ledger), []) =
    (Inl LockTimeout, ((made_lock (coord_ctx (\<lambda>_. Alive) (\<lambda>_. Some 1) 7 (\<lambda>_. 0) (\<lambda>_. 0)) 0,
      write_lanes abc_ledger), [''lane/a'']))"
  using merge_back_deadlocks_under_held_lock [of "\<lambda>_. Alive" 7 "write_lanes abc_ledger" abc_ledger
      "[''a'', ''b'', ''c'']" "''a''" "[''b'', ''c'']" "\<lambda>_. Some 1" "\<lambda>_. 0" "\<lambda>_. 0" log_git True 9 0 "[]"]
    abc_order
  by (simp add: merge_lane_branch_def log_git_def lane_branch_def)

subsection \<open>Ledger invariant\<close>

text \<open>What one operation does to the ledger once it holds the lock.\<close>

datatype lane_op =
    ClaimOp string string string int
  | CompleteOp string int
  | MergeOp string int
  | DemoteOp string string int
  | ParkOp string string "string option" int

fun lane_step :: "lane_op \<Rightarrow> ledger \<Rightarrow> ledger" where
  "lane_step (ClaimOp i slot b now) = claim_lane i slot b now"
| "lane_step (CompleteOp i now) = complete_lane i now"
| "lane_step (MergeOp i now) = merge_lane i now"
| "lane_step (DemoteOp i reason now) = demote_lane i reason now"
| "lane_step (ParkOp i kind ported now) = park_lane i kind ported now"

definition entry_ok :: "string list \<Rightarrow> string \<Rightarrow> lane \<Rightarrow> bool" where
  "entry_ok order i l \<longleftrightarrow> status l \<noteq> None \<and>
     (\<forall>k. merge_index l = Some k \<longrightarrow> k < length order \<and> order ! k = i) \<and>
     (status l = Some Merged \<longrightarrow> merge_index l \<noteq> None)"

definition ledger_wf :: "ledger \<Rightarrow> bool" where
  "ledger_wf data \<longleftrightarrow> distinct (dkeys (lanes data)) \<and>
     (\<forall>i l. dget (lanes data) i = Some l \<longrightarrow> entry_ok (merged_order data) i l)"

lemma entry_ok_grow: "entry_ok order i l \<Longrightarrow> entry_ok (order @ [j]) i l"
  by (auto simp: entry_ok_def nth_append)

lemma ledger_wf_step:
  assumes "ledger_wf data"
  shows "ledger_wf (lane_step e data)"
proof -
  have entry: "\<And>i k. merge_index (lane_entry data i) = Some k \<Longrightarrow>
      k < length (merged_order data) \<and> merged_order data ! k = i"
    using assms by (auto simp: ledger_wf_def entry_ok_def lane_entry_def empty_lane_def split: option.splits)
  show ?thesis
  proof (cases e)
    case (MergeOp i now)
    have "distinct (dkeys (lanes (lane_step e data)))"
      using assms MergeOp by (simp add: ledger_wf_def merge_lane_def Let_def distinct_update)
    moreover have "entry_ok (merged_order data @ [i]) j l"
      if "dget (lanes (lane_step e data)) j = Some l" for j l
      using that assms MergeOp entry_ok_grow [of "merged_order data" j l i]
      by (auto simp: ledger_wf_def merge_lane_def Let_def dict_simps entry_ok_def split: if_splits)
    ultimately show ?thesis using MergeOp by (simp add: ledger_wf_def)
  qed (use assms entry in \<open>auto simp: ledger_wf_def entry_ok_def claim_lane_def complete_lane_def
      demote_lane_def park_lane_def empty_lane_def dict_simps distinct_update split: if_splits\<close>)
qed

lemma ledger_wf_run: "ledger_wf data \<Longrightarrow> ledger_wf (fold lane_step es data)"
  by (induction es arbitrary: data) (simp_all add: ledger_wf_step)

lemma ledger_wf_empty [simp]: "ledger_wf \<lparr>lanes = [], merged_order = []\<rparr>"
  by (simp add: ledger_wf_def)

lemma flush_loop_groups:
  "flush_loop ls out = out\<lparr>
     flush_demoted := flush_demoted out @ map fst (filter (\<lambda>(i, l). status l = Some Demoted) ls),
     flush_parked := flush_parked out @ map fst (filter (\<lambda>(i, l). status l = Some Parked) ls),
     flush_claimed := flush_claimed out @
       map fst (filter (\<lambda>(i, l). status l = Some Claimed \<or> status l = Some LaneComplete) ls)\<rparr>"
  by (induction ls out rule: flush_loop.induct) auto

text \<open>
  The end-of-run report accounts for every lane: after any sequence of ledger operations
  each lane appears in exactly one of the four groups, the group of its current status, and the
  recorded merge index of a lane is a position of its own id in the merge order.
\<close>

theorem flush_accounts_for_every_lane:
  assumes "ledger_wf data0" and "data = fold lane_step es data0" and "out = flush_summary data"
  shows "set (flush_merged out) \<union> set (flush_demoted out) \<union> set (flush_parked out) \<union>
      set (flush_claimed out) = set (dkeys (lanes data)) \<and>
    (\<forall>i. i \<in> set (flush_merged out) \<longleftrightarrow> has_status data Merged i) \<and>
    (\<forall>i. i \<in> set (flush_demoted out) \<longleftrightarrow> has_status data Demoted i) \<and>
    (\<forall>i. i \<in> set (flush_parked out) \<longleftrightarrow> has_status data Parked i) \<and>
    (\<forall>i. i \<in> set (flush_claimed out) \<longleftrightarrow> has_status data Claimed i \<or> has_status data LaneComplete i) \<and>
    (\<forall>i k. merge_index (lane_entry data i) = Some k \<longrightarrow> merged_order data ! k = i)"
proof -
  have wf: "ledger_wf data" using ledger_wf_run [OF assms(1)] assms(2) by simp
  have st: "has_status data x i \<longleftrightarrow> (\<exists>l. dget (lanes data) i = Some l \<and> status l = Some x)" for x i
    by (auto simp: has_status_def lane_entry_def empty_lane_def split: option.splits)
  have ent: "(i, l) \<in> set (lanes data) \<longleftrightarrow> dget (lanes data) i = Some l" for i l
    using wf by (simp add: ledger_wf_def)
  have merged_in: "has_status data Merged i \<Longrightarrow> i \<in> set (merged_order data)" for i
    using wf unfolding st ledger_wf_def entry_ok_def by (metis option.exhaust nth_mem)
  have m: "i \<in> set (flush_merged out) \<longleftrightarrow> has_status data Merged i" for i
    using merged_in by (auto simp: assms(3) flush_summary_def flush_loop_groups)
  have groups: "i \<in> set (flush_demoted out) \<longleftrightarrow> has_status data Demoted i"
    "i \<in> set (flush_parked out) \<longleftrightarrow> has_status data Parked i"
    "i \<in> set (flush_claimed out) \<longleftrightarrow> has_status data Claimed i \<or> has_status data LaneComplete i" for i
    by (auto simp: assms(3) flush_summary_def flush_loop_groups st ent image_iff)
  have "i \<in> set (dkeys (lanes data)) \<longleftrightarrow> (\<exists>l. dget (lanes data) i = Some l)" for i
    using map_of_eq_None_iff [of "lanes data" i] by auto
  moreover have "dget (lanes data) i = Some l \<Longrightarrow> \<exists>x. status l = Some x" for i l
    using wf by (simp add: ledger_wf_def entry_ok_def)
  ultimately have "i \<in> set (dkeys (lanes data)) \<longleftrightarrow> (\<exists>x. has_status data x i)" for i
    unfolding st by blast
  then have "i \<in> set (dkeys (lanes data)) \<longleftrightarrow> has_status data Merged i \<or> has_status data Demoted i \<or>
      has_status data Parked i \<or> has_status data Claimed i \<or> has_status data LaneComplete i" for i
    by (metis lane_status.exhaust)
  moreover have "merge_index (lane_entry data i) = Some k \<Longrightarrow> merged_order data ! k = i" for i k
    using wf by (auto simp: ledger_wf_def entry_ok_def lane_entry_def empty_lane_def split: option.splits)
  ultimately show ?thesis using m groups unfolding set_eq_iff Un_iff by blast
qed

theorem flush_accounts_for_every_lane_witness:
  "set (flush_claimed (flush_summary (fold lane_step [ClaimOp ''a'' ''wt-00'' ''lane/a'' 1,
       ClaimOp ''b'' ''wt-01'' ''lane/b'' 1, CompleteOp ''a'' 5, MergeOp ''a'' 6]
       \<lparr>lanes = [], merged_order = []\<rparr>))) = {''b''}"
proof -
  let ?d = "fold lane_step [ClaimOp ''a'' ''wt-00'' ''lane/a'' 1, ClaimOp ''b'' ''wt-01'' ''lane/b'' 1,
      CompleteOp ''a'' 5, MergeOp ''a'' 6] \<lparr>lanes = [], merged_order = []\<rparr>"
  from flush_accounts_for_every_lane [OF ledger_wf_empty refl refl, of
      "[ClaimOp ''a'' ''wt-00'' ''lane/a'' 1, ClaimOp ''b'' ''wt-01'' ''lane/b'' 1, CompleteOp ''a'' 5,
        MergeOp ''a'' 6]"]
  have "\<forall>i. i \<in> set (flush_claimed (flush_summary ?d)) \<longleftrightarrow>
      has_status ?d Claimed i \<or> has_status ?d LaneComplete i" by blast
  moreover have "(has_status ?d Claimed i \<or> has_status ?d LaneComplete i) = (i = ''b'')" for i
    by (simp add: ledger_eval merge_lane_def)
  ultimately show ?thesis by blast
qed

subsection \<open>Lane counts and budgets\<close>

lemma ceil_div: "0 < (n::int) \<Longrightarrow> m \<le> n * - (- m div n) \<and> n * - (- m div n) < m + n"
proof -
  assume n: "0 < n"
  have "n * - (- m div n) = m + - m mod n"
    using mult_div_mod_eq [of n "- m"] unfolding mult_minus_right by linarith
  with pos_mod_bound [OF n, of "- m"] pos_mod_sign [OF n, of "- m"] show ?thesis by linarith
qed

lemma ceil_div_exact: "0 < (n::int) \<Longrightarrow> m < n * - (- m div n) \<longleftrightarrow> \<not> n dvd m"
proof -
  assume n: "0 < n"
  have "n * - (- m div n) = m + - m mod n"
    using mult_div_mod_eq [of n "- m"] unfolding mult_minus_right by linarith
  moreover have "- m mod n = 0 \<longleftrightarrow> n dvd m" by (simp add: dvd_eq_mod_eq_0 [symmetric])
  ultimately show ?thesis using pos_mod_sign [OF n, of "- m"] by linarith
qed

text \<open>
  The budget slices bound the aggregate only up to rounding: a slice is never negative and
  never more than what the parent has left, and \<open>n\<close> slices together stay below \<open>max_cycles + n\<close>;
  but for a parent that has spent nothing they exceed \<open>max_cycles\<close> exactly when \<open>n\<close> does not
  divide it.
\<close>

theorem lane_budget_aggregate:
  assumes "0 < n" and "0 < max_cycles"
  shows "0 \<le> lane_budget_slice remaining max_cycles n \<and>
    lane_budget_slice remaining max_cycles n \<le> max 0 remaining \<and>
    n * lane_budget_slice remaining max_cycles n < max_cycles + n \<and>
    (max_cycles < n * lane_budget_slice max_cycles max_cycles n \<longleftrightarrow> \<not> n dvd max_cycles)"
proof -
  define share where "share = - (- max_cycles div n)"
  note ceil = ceil_div [OF assms(1), of max_cycles, folded share_def]
  have pos: "0 < share" using ceil assms by (smt (verit) mult_nonneg_nonpos)
  have le: "share \<le> max_cycles"
  proof (rule ccontr)
    assume "\<not> share \<le> max_cycles"
    then have "n * (max_cycles + 1) \<le> n * share" using assms(1) by simp
    moreover have "max_cycles \<le> n * max_cycles" using assms mult_le_cancel_right1 by auto
    ultimately show False using ceil by (simp add: algebra_simps)
  qed
  have slice: "lane_budget_slice r max_cycles n = (if r \<le> 0 then 0 else min r share)" for r
    using assms(1) pos by (simp add: lane_budget_slice_def share_def)
  have "n * min remaining share < max_cycles + n"
    using mult_left_mono [of "min remaining share" share n] assms(1) ceil by linarith
  with slice le pos ceil assms ceil_div_exact [OF assms(1), of max_cycles, folded share_def]
  show ?thesis by (simp add: min_absorb2)
qed

theorem lane_budget_aggregate_witness:
  "(10::int) < 3 * lane_budget_slice 10 10 3 \<and> 3 * lane_budget_slice 10 10 3 < 13"
  using lane_budget_aggregate [of 3 10 10] by simp

end
