(* ===== verification/Py_Json.thy ===== *)
theory Py_Json
  imports Prelude "HOL-Library.Char_ord" "HOL-Library.List_Lexorder" "HOL-Library.Sublist"
begin

text \<open>
  The Python values the queue plane handles: parsed JSON with truthiness, and the string methods
  it calls. A string is its UTF-8 byte sequence, whose lexicographic order is Python's order of
  strings; the whitespace of \<open>str.strip\<close> and of \<open>\s\<close> includes the multi-byte characters. Only
  ASCII digits are digits (Python's \<open>int\<close> also reads other scripts). A float carries its \<open>repr\<close>.
\<close>

subsection \<open>JSON\<close>

datatype json =
    JNull
  | JBool bool
  | JInt int
  | JFloat string
  | JStr string
  | JArr "json list"
  | JObj "(string, json) dict"

fun truthy :: "json \<Rightarrow> bool" where
  "truthy JNull = False"
| "truthy (JBool b) = b"
| "truthy (JInt n) = (n \<noteq> 0)"
| "truthy (JFloat r) = (r \<noteq> ''0.0'' \<and> r \<noteq> ''-0.0'')"
| "truthy (JStr s) = (s \<noteq> [])"
| "truthy (JArr xs) = (xs \<noteq> [])"
| "truthy (JObj d) = (d \<noteq> [])"

fun is_obj :: "json \<Rightarrow> bool" where
  "is_obj (JObj d) = True"
| "is_obj _ = False"

fun fields :: "json \<Rightarrow> (string, json) dict" where
  "fields (JObj d) = d"
| "fields _ = []"

fun is_str :: "json \<Rightarrow> bool" where
  "is_str (JStr s) = True"
| "is_str _ = False"

fun str_val :: "json \<Rightarrow> string" where
  "str_val (JStr s) = s"
| "str_val _ = []"

text \<open>Lists and dictionaries are unhashable.\<close>

fun hashable :: "json \<Rightarrow> bool" where
  "hashable (JArr xs) = False"
| "hashable (JObj d) = False"
| "hashable _ = True"

text \<open>\<open>e.get(k)\<close>, where an absent key and a stored null give the same \<open>None\<close>.\<close>

definition jget :: "json \<Rightarrow> string \<Rightarrow> json" where
  "jget e k = (case dget (fields e) k of None \<Rightarrow> JNull | Some v \<Rightarrow> v)"

definition jhas :: "json \<Rightarrow> string \<Rightarrow> bool" where
  "jhas e k = dhas (fields e) k"

definition jset :: "string \<Rightarrow> json \<Rightarrow> json \<Rightarrow> json" where
  "jset k v e = JObj (dset k v (fields e))"

definition jpop :: "string \<Rightarrow> json \<Rightarrow> json" where
  "jpop k e = JObj (ddel k (fields e))"

subsection \<open>Stripping and splitting\<close>

definition ascii_ws :: "char set" where
  "ascii_ws = set (map char_of [9::nat, 10, 11, 12, 13, 28, 29, 30, 31, 32])"

definition bytes :: "nat list \<Rightarrow> string" where
  "bytes = map char_of"

definition wide_ws :: "string list" where
  "wide_ws = map bytes ([[194, 133], [194, 160], [225, 154, 128], [226, 128, 168], [226, 128, 169],
     [226, 128, 175], [226, 129, 159], [227, 128, 128]] @ map (\<lambda>k. [226, 128, 128 + k]) [0..<11])"

text \<open>How many bytes of whitespace a string starts with; \<open>ws_tail\<close> reads the reversed string.\<close>

definition ws_head :: "string list \<Rightarrow> string \<Rightarrow> nat" where
  "ws_head wide s =
     (case s of
        [] \<Rightarrow> 0
      | c # cs \<Rightarrow> if c \<in> ascii_ws then 1
                  else case find (\<lambda>w. prefix w s) wide of None \<Rightarrow> 0 | Some w \<Rightarrow> length w)"

function drop_ws :: "string list \<Rightarrow> string \<Rightarrow> string" where
  "drop_ws wide s = (if s = [] \<or> ws_head wide s = 0 then s else drop_ws wide (drop (ws_head wide s) s))"
  by pat_completeness auto

termination
  by (relation "measure (length \<circ> snd)") auto

declare drop_ws.simps [simp del]

definition lstrip :: "string \<Rightarrow> string" where
  "lstrip s = drop_ws wide_ws s"

definition rstrip :: "string \<Rightarrow> string" where
  "rstrip s = rev (drop_ws (map rev wide_ws) (rev s))"

definition strip :: "string \<Rightarrow> string" where
  "strip s = rstrip (lstrip s)"

text \<open>\<open>s.split(sep)\<close> for a separator that is not empty.\<close>

function split_on :: "string \<Rightarrow> string \<Rightarrow> string \<Rightarrow> string list" where
  "split_on sep acc s =
     (if s = [] \<or> sep = [] then [rev acc @ s]
      else if prefix sep s then rev acc # split_on sep [] (drop (length sep) s)
      else split_on sep (hd s # acc) (tl s))"
  by pat_completeness auto

termination
  by (relation "measure (\<lambda>(sep, acc, s). length s)") auto

declare split_on.simps [simp del]

definition py_split :: "string \<Rightarrow> string \<Rightarrow> string list" where
  "py_split sep s = split_on sep [] s"

fun join :: "string \<Rightarrow> string list \<Rightarrow> string" where
  "join sep [] = []"
| "join sep [x] = x"
| "join sep (x # xs) = x @ sep @ join sep xs"

text \<open>The line terminators of \<open>str.splitlines\<close>; a carriage return takes a following newline along.\<close>

definition line_ends :: "string list" where
  "line_ends = map bytes [[13, 10], [10], [13], [11], [12], [28], [29], [30], [194, 133],
     [226, 128, 168], [226, 128, 169]]"

function split_lines :: "string \<Rightarrow> string \<Rightarrow> string list" where
  "split_lines acc s =
     (if s = [] then (if acc = [] then [] else [rev acc])
      else case find (\<lambda>t. t \<noteq> [] \<and> prefix t s) line_ends of
             Some t \<Rightarrow> rev acc # split_lines [] (drop (length t) s)
           | None \<Rightarrow> split_lines (hd s # acc) (tl s))"
  by pat_completeness auto

termination
  by (relation "measure (\<lambda>(acc, s). length s)") (auto simp: find_Some_iff)

declare split_lines.simps [simp del]

definition splitlines :: "string \<Rightarrow> string list" where
  "splitlines s = split_lines [] s"

definition to_lower :: "string \<Rightarrow> string" where
  "to_lower = map (\<lambda>c. if of_char c \<in> {65..90::nat} then char_of (of_char c + 32 :: nat) else c)"

text \<open>The code points of a string, and the slice \<open>s[:n]\<close>.\<close>

fun code_points :: "string \<Rightarrow> string list" where
  "code_points [] = []"
| "code_points (c # cs) =
     (case code_points cs of
        [] \<Rightarrow> [[c]]
      | w # ws \<Rightarrow> if (of_char (hd w) :: nat) div 64 = 2 then (c # w) # ws else [c] # w # ws)"

definition first_chars :: "nat \<Rightarrow> string \<Rightarrow> string" where
  "first_chars n s = concat (take n (code_points s))"

subsection \<open>Numbers and dates\<close>

definition is_digit :: "char \<Rightarrow> bool" where
  "is_digit c \<longleftrightarrow> of_char c \<in> {48..57::nat}"

definition digit_val :: "char \<Rightarrow> int" where
  "digit_val c = of_char c - 48"

text \<open>The digits of \<open>int(s)\<close>: single underscores may stand between two digits.\<close>

fun int_digits :: "string \<Rightarrow> bool \<Rightarrow> int \<Rightarrow> int option" where
  "int_digits [] prev acc = (if prev then Some acc else None)"
| "int_digits (c # cs) prev acc =
     (if is_digit c then int_digits cs True (acc * 10 + digit_val c)
      else if c = CHR ''_'' \<and> prev then int_digits cs False acc
      else None)"

definition py_int :: "string \<Rightarrow> int option" where
  "py_int s =
     (let t = strip s in
      if 4300 < length (filter is_digit t) then None
      else case t of
          [] \<Rightarrow> None
        | c # cs \<Rightarrow> if c = CHR ''-'' then map_option uminus (int_digits cs False 0)
                    else if c = CHR ''+'' then int_digits cs False 0
                    else int_digits t False 0)"

definition digits :: "string \<Rightarrow> int option" where
  "digits s = (if s \<noteq> [] \<and> list_all is_digit s
               then Some (foldl (\<lambda>a c. a * 10 + digit_val c) 0 s) else None)"

function decimal :: "int \<Rightarrow> string" where
  "decimal n = (if n < 0 then CHR ''-'' # decimal (- n)
     else if n < 10 then [char_of (48 + nat n)] else decimal (n div 10) @ [char_of (48 + nat (n mod 10))])"
  by pat_completeness auto

termination
  by (relation "measure (\<lambda>n. if n < 0 then 2 * nat (- n) + 1 else 2 * nat n)") auto

declare decimal.simps [simp del]

definition leap :: "int \<Rightarrow> bool" where
  "leap y \<longleftrightarrow> y mod 4 = 0 \<and> (y mod 100 \<noteq> 0 \<or> y mod 400 = 0)"

definition month_lengths :: "int \<Rightarrow> int list" where
  "month_lengths y = [31, if leap y then 29 else 28, 31, 30, 31, 30, 31, 31, 30, 31, 30, 31]"

text \<open>The proleptic Gregorian ordinal of \<open>date.toordinal\<close>.\<close>

definition year_start :: "int \<Rightarrow> int" where
  "year_start y = (y - 1) * 365 + (y - 1) div 4 - (y - 1) div 100 + (y - 1) div 400"

definition date_ordinal :: "int \<Rightarrow> int \<Rightarrow> int \<Rightarrow> int option" where
  "date_ordinal y m d =
     (if 1 \<le> y \<and> y \<le> 9999 \<and> 1 \<le> m \<and> m \<le> 12 \<and> 1 \<le> d \<and> d \<le> month_lengths y ! nat (m - 1)
      then Some (year_start y + sum_list (take (nat (m - 1)) (month_lengths y)) + d) else None)"

definition week_ordinal :: "int \<Rightarrow> int \<Rightarrow> int \<Rightarrow> int option" where
  "week_ordinal y w d =
     (let first = year_start y + 1;
          wd = (first + 6) mod 7;
          monday = (if wd > 3 then first - wd + 7 else first - wd);
          ord = monday + (w - 1) * 7 + d - 1
      in if 1 \<le> y \<and> y \<le> 9999 \<and> 1 \<le> d \<and> d \<le> 7 \<and>
            (1 \<le> w \<and> w \<le> 52 \<or> w = 53 \<and> (first mod 7 = 4 \<or> first mod 7 = 3 \<and> leap y)) \<and>
            1 \<le> ord \<and> ord \<le> year_start 10000
         then Some ord else None)"

text \<open>\<open>date.fromisoformat\<close>: \<open>YYYY-MM-DD\<close>, \<open>YYYYMMDD\<close> and the week dates, dashed or not.\<close>

definition ymd :: "string \<Rightarrow> string \<Rightarrow> string \<Rightarrow> int option" where
  "ymd y m d = (case (digits y, digits m, digits d) of
     (Some a, Some b, Some c) \<Rightarrow> date_ordinal a b c | _ \<Rightarrow> None)"

definition ywd :: "string \<Rightarrow> string \<Rightarrow> string \<Rightarrow> int option" where
  "ywd y w d = (case (digits y, digits w, digits d) of
     (Some a, Some b, Some c) \<Rightarrow> week_ordinal a b c | _ \<Rightarrow> None)"

definition iso_date :: "string \<Rightarrow> int option" where
  "iso_date s =
     (let y = take 4 s; r = drop 4 s in
      if length s = 10 \<and> s ! 4 = CHR ''-'' \<and> s ! 5 = CHR ''W'' \<and> s ! 8 = CHR ''-'' then
        ywd y (take 2 (drop 6 s)) (drop 9 s)
      else if length s = 10 \<and> s ! 4 = CHR ''-'' \<and> s ! 7 = CHR ''-'' then
        ymd y (take 2 (drop 5 s)) (drop 8 s)
      else if length s = 8 \<and> s ! 4 = CHR ''-'' \<and> s ! 5 = CHR ''W'' then ywd y (drop 6 s) ''1''
      else if length s = 8 \<and> s ! 4 = CHR ''W'' then ywd y (take 2 (drop 5 s)) (drop 7 s)
      else if length s = 8 then ymd y (take 2 r) (drop 2 r)
      else if length s = 7 \<and> s ! 4 = CHR ''W'' then ywd y (drop 5 s) ''1''
      else None)"

text \<open>
  \<open>date.fromisoformat(str(v).strip())\<close>: of the values that are not strings only an integer has a
  \<open>str\<close> that can be a date.
\<close>

definition json_date :: "json \<Rightarrow> int option" where
  "json_date v = (case v of JStr s \<Rightarrow> iso_date (strip s) | JInt n \<Rightarrow> iso_date (decimal n) | _ \<Rightarrow> None)"

subsection \<open>Facts\<close>

lemma jget_jset [dict_simps]: "jget (jset k v e) k' = (if k' = k then v else jget e k')"
  by (simp add: jget_def jset_def dict_simps)

lemma jget_jpop [dict_simps]: "jget (jpop k e) k' = (if k' = k then JNull else jget e k')"
  by (simp add: jget_def jpop_def dict_simps)

lemma jhas_jset [dict_simps]: "jhas (jset k v e) k' = (k' = k \<or> jhas e k')"
  by (simp add: jhas_def jset_def dict_simps)

lemma jhas_jpop [dict_simps]: "jhas (jpop k e) k' = (k' \<noteq> k \<and> jhas e k')"
  by (simp add: jhas_def jpop_def dict_simps)

lemma is_obj_jset [simp]: "is_obj (jset k v e)"
  by (simp add: jset_def)

lemma is_obj_jpop [simp]: "is_obj (jpop k e)"
  by (simp add: jpop_def)

lemma jget_not_has: "\<not> jhas e k \<Longrightarrow> jget e k = JNull"
  by (simp add: jhas_def jget_def)

lemma jget_not_obj: "\<not> is_obj e \<Longrightarrow> jget e k = JNull"
  by (cases e) (simp_all add: jget_def)

subsection \<open>Strings that need no stripping\<close>

definition plain_char :: "char \<Rightarrow> bool" where
  "plain_char c \<longleftrightarrow> 32 < (of_char c :: nat) \<and> (of_char c :: nat) < 128"

lemma ascii_ws_low: "c \<in> ascii_ws \<Longrightarrow> (of_char c :: nat) \<le> 32"
  by (auto simp: ascii_ws_def)

lemma wide_ws_high:
  "w \<in> set wide_ws \<Longrightarrow> w \<noteq> [] \<and> 128 \<le> (of_char (hd w) :: nat) \<and> 128 \<le> (of_char (last w) :: nat)"
  by (auto simp: wide_ws_def bytes_def)

lemma ws_head_plain:
  assumes "plain_char c" and "\<And>w. w \<in> set wide \<Longrightarrow> w \<noteq> [] \<and> 128 \<le> (of_char (hd w) :: nat)"
  shows "ws_head wide (c # s) = 0"
proof -
  have "\<not> prefix w (c # s)" if "w \<in> set wide" for w
    using assms(1) assms(2) [OF that] by (cases w) (auto simp: plain_char_def)
  then have "find (\<lambda>w. prefix w (c # s)) wide = None" by (simp add: find_None_iff)
  moreover have "c \<notin> ascii_ws" using assms(1) ascii_ws_low [of c] by (auto simp: plain_char_def)
  ultimately show ?thesis by (simp add: ws_head_def)
qed

lemma drop_ws_plain:
  "s \<noteq> [] \<Longrightarrow> plain_char (hd s) \<Longrightarrow> (\<And>w. w \<in> set wide \<Longrightarrow> w \<noteq> [] \<and> 128 \<le> (of_char (hd w) :: nat)) \<Longrightarrow>
    drop_ws wide s = s"
  using ws_head_plain [of "hd s" wide "tl s"] by (simp add: drop_ws.simps)

lemma lstrip_plain: "s \<noteq> [] \<Longrightarrow> plain_char (hd s) \<Longrightarrow> lstrip s = s"
  unfolding lstrip_def using wide_ws_high by (intro drop_ws_plain) auto

lemma rstrip_plain: "s \<noteq> [] \<Longrightarrow> plain_char (last s) \<Longrightarrow> rstrip s = s"
  unfolding rstrip_def using wide_ws_high by (subst drop_ws_plain) (auto simp: hd_rev)

lemma strip_plain: "s \<noteq> [] \<Longrightarrow> plain_char (hd s) \<Longrightarrow> plain_char (last s) \<Longrightarrow> strip s = s"
  by (simp add: strip_def lstrip_plain rstrip_plain)

lemma strip_Nil [simp]: "strip [] = []"
  by (simp add: strip_def lstrip_def rstrip_def drop_ws.simps)

lemmas date_eval = json_date_def iso_date_def ymd_def digits_def is_digit_def digit_val_def
  date_ordinal_def month_lengths_def leap_def year_start_def strip_plain plain_char_def

end
