(* ===== verification/Dep_Graph.thy ===== *)
theory Dep_Graph
  imports Py_Json
begin

text \<open>
  The dependency graph of a work queue (\<^verbatim>\<open>user/scripts/lazy_core/depdag.py\<close>): the id grammar, the
  \<open>deps\<close> field of an entry, cycle detection by Kahn's algorithm, load-time validation, the
  \<open>Depends on\<close> block of a specification, and the skip-ahead predicate. \<open>_die\<close> (print and exit
  with status 2) is an error value.
\<close>

datatype die =
    FileNotFound
  | InvalidJson
  | QueueNotArray
  | NotQueued string
  | BadPosition
  | BadDepMember
  | ReservedPrefix string
  | BadDepId string
  | DepsNotArray
  | DepCycle "string list"
  | SelfDep string
  | NoSpec
  | UnreadableSpec
  | BadTier
  | NoTier
  | BadSeverity

datatype py_error = Die die | AttributeError | PyTypeError | OutOfFuel

subsection \<open>Dependency ids\<close>

definition id_start :: "char \<Rightarrow> bool" where
  "id_start c \<longleftrightarrow> of_char c \<in> {97..122::nat} \<or> is_digit c"

definition id_char :: "char \<Rightarrow> bool" where
  "id_char c \<longleftrightarrow> id_start c \<or> c = CHR ''-''"

definition plain_id :: "string \<Rightarrow> bool" where
  "plain_id s \<longleftrightarrow> s \<noteq> [] \<and> id_start (hd s) \<and> list_all id_char (tl s)"

text \<open>
  The regular expression \<open>^[a-z0-9][a-z0-9-]*$\<close> under \<open>re.match\<close>: the dollar matches at the end
  and also before a final newline.
\<close>

definition dep_id_re :: "string \<Rightarrow> bool" where
  "dep_id_re s \<longleftrightarrow> plain_id s \<or> (s \<noteq> [] \<and> last s = char_of (10::nat) \<and> plain_id (butlast s))"

definition dep_ids :: "json \<Rightarrow> string list" where
  "dep_ids e = (case jget e ''deps'' of JArr xs \<Rightarrow> map str_val (filter is_str xs) | _ \<Rightarrow> [])"

subsection \<open>Cycle detection\<close>

definition has_str_id :: "json \<Rightarrow> bool" where
  "has_str_id e \<longleftrightarrow> is_obj e \<and> is_str (jget e ''id'')"

definition entry_id :: "json \<Rightarrow> string" where
  "entry_id e = str_val (jget e ''id'')"

definition queue_nodes :: "json list \<Rightarrow> string list" where
  "queue_nodes entries = remdups (map entry_id (filter has_str_id entries))"

text \<open>The edges \<open>(dep, dependent)\<close> the two nested loops add, in the order they add them.\<close>

definition dep_edges :: "json list \<Rightarrow> (string \<times> string) list" where
  "dep_edges entries =
     concat (map (\<lambda>e. map (\<lambda>d. (d, entry_id e))
                        (filter (\<lambda>d. d \<in> set (queue_nodes entries)) (dep_ids e)))
              (filter has_str_id entries))"

text \<open>The two dictionaries, total over the nodes, built edge by edge.\<close>

type_synonym indegrees = "string \<Rightarrow> int"
type_synonym adjacency = "string \<Rightarrow> string list"

fun add_edges :: "(string \<times> string) list \<Rightarrow> indegrees \<times> adjacency \<Rightarrow> indegrees \<times> adjacency" where
  "add_edges [] st = st"
| "add_edges ((d, e) # es) (ind, adj) = add_edges es (ind(e := ind e + 1), adj(d := adj d @ [e]))"

text \<open>The inner loop over the dependents of the node just popped.\<close>

fun relax :: "string list \<Rightarrow> indegrees \<Rightarrow> string list \<Rightarrow> indegrees \<times> string list" where
  "relax [] ind ready = (ind, ready)"
| "relax (e # es) ind ready =
     (let ind' = ind(e := ind e - 1) in
      relax es ind' (if ind' e = 0 then ready @ [e] else ready))"

text \<open>\<open>ready.pop()\<close> takes the last element; \<open>None\<close> is running out of fuel.\<close>

fun kahn :: "adjacency \<Rightarrow> nat \<Rightarrow> indegrees \<Rightarrow> string list \<Rightarrow> nat \<Rightarrow> (indegrees \<times> nat) option" where
  "kahn adj 0 ind ready processed = (if ready = [] then Some (ind, processed) else None)"
| "kahn adj (Suc fuel) ind ready processed =
     (if ready = [] then Some (ind, processed)
      else case relax (adj (last ready)) ind (butlast ready) of
             (ind', ready') \<Rightarrow> kahn adj fuel ind' ready' (Suc processed))"

definition detect_dep_cycle :: "json list \<Rightarrow> py_error + string list option" where
  "detect_dep_cycle entries =
     (if \<exists>e\<in>set entries. is_obj e \<and> \<not> hashable (jget e ''id'') then Inl PyTypeError
      else
        let nodes = queue_nodes entries;
            (ind, adj) = add_edges (dep_edges entries) (\<lambda>_. 0, \<lambda>_. []);
            ready = filter (\<lambda>n. ind n = 0) (sort nodes)
        in case kahn adj (length nodes) ind ready 0 of
             None \<Rightarrow> Inl OutOfFuel
           | Some (ind', processed) \<Rightarrow>
               if processed = length nodes then Inr None
               else Inr (Some (sort (filter (\<lambda>n. 0 < ind' n) nodes))))"

subsection \<open>Validation\<close>

definition reserved_prefix :: "string \<Rightarrow> bool" where
  "reserved_prefix d \<longleftrightarrow> prefix ''bug:'' d \<or> prefix ''feature:'' d"

fun validate_dep_id_list :: "json list \<Rightarrow> py_error + unit" where
  "validate_dep_id_list [] = Inr ()"
| "validate_dep_id_list (d # ds) =
     (if \<not> is_str d then Inl (Die BadDepMember)
      else if reserved_prefix (str_val d) then Inl (Die (ReservedPrefix (str_val d)))
      else if \<not> dep_id_re (str_val d) then Inl (Die (BadDepId (str_val d)))
      else validate_dep_id_list ds)"

text \<open>The scan of the entries; the flag is \<open>any_deps\<close>.\<close>

fun validate_entries :: "json list \<Rightarrow> bool \<Rightarrow> py_error + bool" where
  "validate_entries [] any_deps = Inr any_deps"
| "validate_entries (e # es) any_deps =
     (if \<not> is_obj e \<or> \<not> jhas e ''deps'' then validate_entries es any_deps
      else case jget e ''deps'' of
             JArr raw \<Rightarrow>
               (case validate_dep_id_list raw of
                  Inl x \<Rightarrow> Inl x
                | Inr _ \<Rightarrow> validate_entries es (any_deps \<or> raw \<noteq> []))
           | _ \<Rightarrow> Inl (Die DepsNotArray))"

definition validate_queue_deps :: "json list \<Rightarrow> py_error + unit" where
  "validate_queue_deps items =
     (case validate_entries items False of
        Inl x \<Rightarrow> Inl x
      | Inr any_deps \<Rightarrow>
          if \<not> any_deps then Inr ()
          else case detect_dep_cycle items of
                 Inl x \<Rightarrow> Inl x
               | Inr None \<Rightarrow> Inr ()
               | Inr (Some cycle) \<Rightarrow> Inl (Die (DepCycle cycle)))"

subsection \<open>The dependency block of a specification\<close>

record spec_dep =
  dep_feature :: string
  dep_kind :: string
  dep_reason :: string

definition dash_sep :: string where
  "dash_sep = bytes [32, 226, 128, 148, 32]"

definition dep_header :: string where
  "dep_header = ''**Depends on:**''"

text \<open>The expression \<open>^\*\*Depends on:\*\*\s*\(none\)\s*$\<close> on one line.\<close>

definition none_header :: "string \<Rightarrow> bool" where
  "none_header line \<longleftrightarrow> prefix dep_header line \<and>
     strip (drop (length dep_header) line) = ''(none)''"

text \<open>One list item; a line that is not a dependency contributes nothing.\<close>

definition parse_item :: "string \<Rightarrow> spec_dep list" where
  "parse_item payload =
     (let parts = py_split dash_sep payload in
      if 3 \<le> length parts then
        let feature = strip (parts ! 0); kind = strip (parts ! 1);
            reason = strip (join dash_sep (drop 2 parts))
        in if kind \<in> {''hard'', ''soft'', ''composes''} \<and> dep_id_re feature
           then [\<lparr>dep_feature = feature, dep_kind = kind, dep_reason = reason\<rparr>] else []
      else [])"

fun parse_items :: "string list \<Rightarrow> spec_dep list \<Rightarrow> spec_dep list" where
  "parse_items [] deps = deps"
| "parse_items (line # lines) deps =
     (let stripped = strip line in
      if stripped = [] then (if deps = [] then parse_items lines deps else deps)
      else if prefix ''# '' stripped \<or> prefix ''## '' stripped \<or> prefix ''---'' stripped then deps
      else if \<not> prefix ''- '' stripped then deps
      else parse_items lines (deps @ parse_item (drop 2 stripped)))"

fun parse_lines :: "string list \<Rightarrow> spec_dep list" where
  "parse_lines [] = []"
| "parse_lines (line # lines) =
     (if none_header line then []
      else if rstrip line = dep_header then parse_items lines []
      else parse_lines lines)"

definition parse_dep_block :: "string \<Rightarrow> spec_dep list" where
  "parse_dep_block text = parse_lines (splitlines text)"

definition skip_ahead_ready :: "spec_dep list \<Rightarrow> string set \<Rightarrow> bool \<Rightarrow> bool" where
  "skip_ahead_ready deps gated independent =
     (if \<exists>d\<in>set deps. dep_kind d = ''hard'' \<and> dep_feature d \<in> gated then False else independent)"

subsection \<open>Kahn's algorithm is exact\<close>

lemma add_edges_spec:
  "add_edges es (ind, adj) =
     (\<lambda>e. ind e + int (length (filter (\<lambda>p. snd p = e) es)), \<lambda>d. adj d @ map snd (filter (\<lambda>p. fst p = d) es))"
  by (induction es arbitrary: ind adj) (auto simp: fun_eq_iff)

definition indeg :: "(string \<times> string) list \<Rightarrow> string set \<Rightarrow> string \<Rightarrow> nat" where
  "indeg es P e = length (filter (\<lambda>p. snd p = e \<and> fst p \<notin> P) es)"

lemma count_adj:
  "count_list (map snd (filter (\<lambda>p. fst p = n) es)) e = length (filter (\<lambda>p. snd p = e \<and> fst p = n) es)"
  by (induction es) auto

lemma indeg_insert:
  "n \<notin> P \<Longrightarrow> indeg es P e =
     indeg es (insert n P) e + count_list (map snd (filter (\<lambda>p. fst p = n) es)) e"
  unfolding indeg_def count_adj by (induction es) auto

lemma indeg_0_iff: "indeg es P e = 0 \<longleftrightarrow> (\<forall>d. (d, e) \<in> set es \<longrightarrow> d \<in> P)"
  by (fastforce simp: indeg_def filter_empty_conv)

lemma relax_spec:
  assumes "relax ds ind ready = (ind', ready')" and "\<forall>e\<in>set ds. int (count_list ds e) \<le> ind e"
  shows "ind' = (\<lambda>e. ind e - int (count_list ds e)) \<and>
    (\<exists>hits. ready' = ready @ hits \<and> distinct hits \<and> set hits = {e \<in> set ds. ind e = int (count_list ds e)})"
  using assms
proof (induction ds arbitrary: ind ready)
  case Nil
  then show ?case by simp
next
  case (Cons e ds)
  let ?ind = "ind(e := ind e - 1)" and ?ready = "if ind e - 1 = 0 then ready @ [e] else ready"
  have rec: "relax ds ?ind ?ready = (ind', ready')"
    using Cons.prems(1) by (simp add: Let_def)
  have le: "\<forall>x\<in>set ds. int (count_list ds x) \<le> ?ind x" using Cons.prems(2) by auto
  from Cons.IH [OF rec le] obtain hits where h:
    "ind' = (\<lambda>x. ?ind x - int (count_list ds x))" "ready' = ?ready @ hits" "distinct hits"
    "set hits = {x \<in> set ds. ?ind x = int (count_list ds x)}" by blast
  have ind': "ind' = (\<lambda>x. ind x - int (count_list (e # ds) x))" using h(1) by auto
  show ?case
  proof (cases "ind e = 1")
    case True
    have "e \<notin> set ds"
    proof
      assume e: "e \<in> set ds"
      then have "0 < count_list ds e" by (simp add: count_list_0_iff neq0_conv [symmetric] del: neq0_conv)
      with le e True show False by fastforce
    qed
    with True h ind' show ?thesis
      by (intro conjI exI [of _ "e # hits"]) (auto simp: count_list_0_iff)
  next
    case False
    have "{x \<in> set ds. ?ind x = int (count_list ds x)} =
        {x \<in> set (e # ds). ind x = int (count_list (e # ds) x)}"
      using False by (auto simp: count_list_0_iff)
    with False h ind' show ?thesis by (intro conjI exI [of _ hits]) auto
  qed
qed

text \<open>What holds at the head of the outer loop, \<open>P\<close> being the nodes popped so far.\<close>

definition kahn_inv ::
  "string list \<Rightarrow> (string \<times> string) list \<Rightarrow> string list \<Rightarrow> indegrees \<Rightarrow> string list \<Rightarrow> bool" where
  "kahn_inv N es P ind ready \<longleftrightarrow>
     distinct (P @ ready) \<and> set (P @ ready) \<subseteq> set N \<and> ind = (\<lambda>e. int (indeg es (set P) e)) \<and>
     (\<forall>n\<in>set N. n \<in> set (P @ ready) \<longleftrightarrow> ind n = 0) \<and> set (P @ ready) \<subseteq> Wellfounded.acc (set es)"

lemma kahn_inv_step:
  assumes inv: "kahn_inv N es P ind (rs @ [n])"
    and adj: "adj = (\<lambda>d. map snd (filter (\<lambda>p. fst p = d) es))"
    and es: "snd ` set es \<subseteq> set N"
    and run: "relax (adj n) ind rs = (ind', ready')"
  shows "kahn_inv N es (n # P) ind' ready'"
proof -
  let ?c = "count_list (adj n)"
  have n: "n \<notin> set P" "n \<in> set N" "n \<notin> set rs" and dist: "distinct (P @ rs)"
    and ind: "ind = (\<lambda>e. int (indeg es (set P) e))"
    and zero: "\<And>m. m \<in> set N \<Longrightarrow> m \<in> set P \<or> m \<in> set rs \<or> m = n \<longleftrightarrow> ind m = 0"
    and acc: "set P \<union> set rs \<union> {n} \<subseteq> Wellfounded.acc (set es)" and sub: "set P \<union> set rs \<subseteq> set N"
    using inv by (auto simp: kahn_inv_def)
  have split: "ind e = int (indeg es (set (n # P)) e) + int (?c e)" for e
    using indeg_insert [OF n(1), of es e] by (simp add: ind adj)
  from relax_spec [OF run] split obtain hits where h:
    "ind' = (\<lambda>e. ind e - int (?c e))" "ready' = rs @ hits" "distinct hits"
    "set hits = {e \<in> set (adj n). ind e = int (?c e)}" by auto
  have ind': "ind' = (\<lambda>e. int (indeg es (set (n # P)) e))" using h(1) split by auto
  have hN: "set (adj n) \<subseteq> set N" using es by (auto simp: adj)
  have hit: "e \<in> set hits \<longleftrightarrow> e \<in> set N \<and> ind e \<noteq> 0 \<and> ind' e = 0" for e
  proof -
    have "e \<in> set (adj n) \<longleftrightarrow> ?c e \<noteq> 0" by (auto simp: count_list_0_iff)
    then show ?thesis using h(1,4) hN split [of e] by auto
  qed
  have new: "m \<in> set N \<Longrightarrow> m \<in> set (n # P) \<or> m \<in> set rs \<or> m \<in> set hits \<longleftrightarrow> ind' m = 0" for m
    using zero [of m] hit [of m] split [of m] h(1) by auto
  have "set hits \<inter> (set P \<union> set rs \<union> {n}) = {}" using hit zero by blast
  moreover have "e \<in> Wellfounded.acc (set es)" if "e \<in> set hits" for e
  proof (rule accI)
    fix d assume "(d, e) \<in> set es"
    moreover have "indeg es (set (n # P)) e = 0" using hit that ind' by simp
    ultimately have "d \<in> set (n # P)" by (simp only: indeg_0_iff)
    then show "d \<in> Wellfounded.acc (set es)" using acc by auto
  qed
  ultimately show ?thesis
    using dist n h(2,3) ind' new acc sub hit by (auto simp: kahn_inv_def)
qed

lemma kahn_run:
  assumes "kahn_inv N es P ind ready" and "distinct N" and "snd ` set es \<subseteq> set N"
    and adj: "adj = (\<lambda>d. map snd (filter (\<lambda>p. fst p = d) es))"
    and "length N \<le> fuel + length P"
  shows "\<exists>P' ind'. kahn adj fuel ind ready (length P) = Some (ind', length P') \<and> kahn_inv N es P' ind' []"
  using assms(1,5)
proof (induction fuel arbitrary: P ind ready)
  case 0
  have "length (P @ ready) \<le> length N"
    using 0(1) assms(2) unfolding kahn_inv_def
    by (metis card_mono distinct_card finite_set)
  with 0(2) have "ready = []" by (cases ready) auto
  with 0 show ?case by auto
next
  case (Suc fuel)
  show ?case
  proof (cases ready rule: rev_cases)
    case Nil
    with Suc.prems show ?thesis by auto
  next
    case (snoc rs n)
    obtain ind' ready' where r: "relax (adj n) ind rs = (ind', ready')" by fastforce
    from kahn_inv_step [OF Suc.prems(1) [unfolded snoc] adj assms(3) r]
    have "kahn_inv N es (n # P) ind' ready'" .
    from Suc.IH [OF this] Suc.prems(2) r snoc show ?thesis by simp
  qed
qed

lemma kahn_result:
  assumes "kahn_inv N es P ind []" and "fst ` set es \<subseteq> set N" and "distinct N"
  shows "length P = length N \<longleftrightarrow> set N \<subseteq> Wellfounded.acc (set es)"
    and "set (filter (\<lambda>n. 0 < ind n) N) = set N - Wellfounded.acc (set es)"
proof -
  have P: "distinct P" "set P \<subseteq> set N" "set P \<subseteq> Wellfounded.acc (set es)"
    and ind: "\<And>e. ind e = int (indeg es (set P) e)" and zero: "\<And>n. n \<in> set N \<Longrightarrow> n \<in> set P \<longleftrightarrow> ind n = 0"
    using assms(1) by (auto simp: kahn_inv_def)
  have popped: "x \<in> set N \<longrightarrow> x \<in> set P" if "x \<in> Wellfounded.acc (set es)" for x
    using that
  proof (induction rule: acc.induct)
    case (accI x)
    then have "x \<in> set N \<Longrightarrow> indeg es (set P) x = 0"
      using assms(2) by (fastforce simp: indeg_0_iff)
    then show ?case using zero ind by auto
  qed
  then have eq: "set P = set N \<inter> Wellfounded.acc (set es)" using P popped by blast
  have "length P = length N \<longleftrightarrow> set P = set N"
    using P(1,2) assms(3) by (metis card_subset_eq distinct_card finite_set)
  with eq show "length P = length N \<longleftrightarrow> set N \<subseteq> Wellfounded.acc (set es)" by auto
  show "set (filter (\<lambda>n. 0 < ind n) N) = set N - Wellfounded.acc (set es)"
  proof (intro equalityI subsetI)
    fix n assume "n \<in> set (filter (\<lambda>n. 0 < ind n) N)"
    then have "n \<in> set N" "ind n \<noteq> 0" by auto
    with zero eq show "n \<in> set N - Wellfounded.acc (set es)" by blast
  next
    fix n assume n: "n \<in> set N - Wellfounded.acc (set es)"
    then have "n \<notin> set P" using eq by blast
    with zero n have "ind n \<noteq> 0" by blast
    then have "0 < ind n" using ind [of n] by simp
    with n show "n \<in> set (filter (\<lambda>n. 0 < ind n) N)" by simp
  qed
qed

lemma dep_edges_nodes:
  "fst ` set (dep_edges entries) \<subseteq> set (queue_nodes entries)"
  "snd ` set (dep_edges entries) \<subseteq> set (queue_nodes entries)"
  by (auto simp: dep_edges_def queue_nodes_def)

lemma detect_dep_cycle_acc:
  assumes "\<forall>e\<in>set entries. is_obj e \<longrightarrow> hashable (jget e ''id'')"
  shows "\<exists>res. detect_dep_cycle entries = Inr res \<and>
    (res = None \<longleftrightarrow> set (queue_nodes entries) \<subseteq> Wellfounded.acc (set (dep_edges entries))) \<and>
    (\<forall>xs. res = Some xs \<longrightarrow> sorted xs \<and> distinct xs \<and>
       set xs = set (queue_nodes entries) - Wellfounded.acc (set (dep_edges entries)))"
proof -
  let ?N = "queue_nodes entries" and ?es = "dep_edges entries"
  let ?ind = "\<lambda>e. int (length (filter (\<lambda>p. snd p = e) ?es))"
  let ?adj = "\<lambda>d. map snd (filter (\<lambda>p. fst p = d) ?es)"
  let ?ready = "filter (\<lambda>n. ?ind n = 0) (sort ?N)"
  have dN: "distinct ?N" by (simp add: queue_nodes_def)
  have acc: "e \<in> Wellfounded.acc (set ?es)" if "?ind e = 0" for e
  proof (rule accI)
    fix d assume "(d, e) \<in> set ?es"
    with that show "d \<in> Wellfounded.acc (set ?es)" by (simp add: filter_empty_conv) force
  qed
  have "distinct ?ready" "set ?ready = {n \<in> set ?N. ?ind n = 0}" using dN by auto
  with acc have inv: "kahn_inv ?N ?es [] ?ind ?ready"
    unfolding kahn_inv_def indeg_def by (intro conjI) auto
  from kahn_run [OF inv dN dep_edges_nodes(2) refl, of "length ?N"]
  obtain P ind where run: "kahn ?adj (length ?N) ?ind ?ready 0 = Some (ind, length P)"
    and fin: "kahn_inv ?N ?es P ind []" by auto
  note res = kahn_result [OF fin dep_edges_nodes(1) dN]
  have "detect_dep_cycle entries = Inr (if length P = length ?N then None
      else Some (sort (filter (\<lambda>n. 0 < ind n) ?N)))"
    using assms run by (auto simp: detect_dep_cycle_def Let_def add_edges_spec)
  with res dN show ?thesis by auto
qed

lemma acc_no_cycle: "c \<in> Wellfounded.acc E \<Longrightarrow> (c, c) \<notin> E\<^sup>+"
proof (induction rule: acc.induct)
  case (accI c)
  show ?case
  proof
    assume "(c, c) \<in> E\<^sup>+"
    then obtain y where y: "(c, y) \<in> E\<^sup>*" "(y, c) \<in> E" by (meson tranclD2)
    then have "(y, y) \<in> E\<^sup>+" by (meson rtrancl_into_trancl2)
    with accI y show False by blast
  qed
qed

lemma not_acc_iff_cycle:
  assumes "finite E"
  shows "x \<notin> Wellfounded.acc E \<longleftrightarrow> (\<exists>c. (c, c) \<in> E\<^sup>+ \<and> (c, x) \<in> E\<^sup>*)"
proof
  assume x: "x \<notin> Wellfounded.acc E"
  let ?B = "{y. (y, x) \<in> E\<^sup>*}"
  let ?E = "E \<inter> (?B \<times> ?B)"
  show "\<exists>c. (c, c) \<in> E\<^sup>+ \<and> (c, x) \<in> E\<^sup>*"
  proof (rule ccontr)
    assume no: "\<not> ?thesis"
    have "acyclic ?E"
    proof (rule acyclicI, intro allI notI)
      fix c assume c: "(c, c) \<in> ?E\<^sup>+"
      then have "c \<in> ?B" by (meson IntD2 SigmaD1 tranclD)
      moreover have "(c, c) \<in> E\<^sup>+" using c by (meson Int_lower1 trancl_mono)
      ultimately show False using no by blast
    qed
    then have "wf ?E" using assms by (intro finite_acyclic_wf) auto
    then have "y \<in> ?B \<longrightarrow> y \<in> Wellfounded.acc E" for y
    proof (induction y rule: wf_induct_rule)
      case (less y)
      show ?case
      proof
        assume y: "y \<in> ?B"
        show "y \<in> Wellfounded.acc E"
        proof (rule accI)
          fix d assume d: "(d, y) \<in> E"
          then have "d \<in> ?B" using y by (simp add: converse_rtrancl_into_rtrancl)
          with less d y show "d \<in> Wellfounded.acc E" by blast
        qed
      qed
    qed
    with x show False by blast
  qed
next
  assume "\<exists>c. (c, c) \<in> E\<^sup>+ \<and> (c, x) \<in> E\<^sup>*"
  then obtain c where c: "(c, c) \<in> E\<^sup>+" "(c, x) \<in> E\<^sup>*" by blast
  show "x \<notin> Wellfounded.acc E"
  proof
    assume "x \<in> Wellfounded.acc E"
    then have "c \<in> Wellfounded.acc E" using c(2) by (rule acc_downwards)
    from acc_no_cycle [OF this] c(1) show False by contradiction
  qed
qed

definition dep_cyclic :: "json list \<Rightarrow> bool" where
  "dep_cyclic entries \<longleftrightarrow> \<not> acyclic (set (dep_edges entries))"

lemma nodes_acc_iff:
  "set (queue_nodes entries) \<subseteq> Wellfounded.acc (set (dep_edges entries)) \<longleftrightarrow> \<not> dep_cyclic entries"
proof -
  let ?E = "set (dep_edges entries)"
  have node: "c \<in> set (queue_nodes entries)" if "(c, c) \<in> ?E\<^sup>+" for c
    using tranclD [OF that] dep_edges_nodes(1) [of entries] by force
  have cycle: "x \<notin> Wellfounded.acc ?E \<longleftrightarrow> (\<exists>c. (c, c) \<in> ?E\<^sup>+ \<and> (c, x) \<in> ?E\<^sup>*)" for x
    by (rule not_acc_iff_cycle) simp
  show ?thesis
  proof
    assume acc: "set (queue_nodes entries) \<subseteq> Wellfounded.acc ?E"
    have "(c, c) \<notin> ?E\<^sup>+" for c
    proof
      assume c: "(c, c) \<in> ?E\<^sup>+"
      with node acc have "c \<in> Wellfounded.acc ?E" by blast
      from acc_no_cycle [OF this] c show False by contradiction
    qed
    then show "\<not> dep_cyclic entries" by (auto simp: dep_cyclic_def acyclic_def)
  next
    assume "\<not> dep_cyclic entries"
    then have "\<And>c. (c, c) \<notin> ?E\<^sup>+" by (simp add: dep_cyclic_def acyclic_def)
    with cycle show "set (queue_nodes entries) \<subseteq> Wellfounded.acc ?E" by blast
  qed
qed

subsection \<open>What the graph layer promises\<close>

text \<open>
  C31. Cycle detection is exact and total: on every queue whose ids are hashable \<open>detect_dep_cycle\<close>
  returns (Kahn's loop needs no more rounds than there are nodes), it returns \<open>None\<close> exactly when
  the dependency edges among queued ids are acyclic, and otherwise the sorted list, without
  repetition, of the queued ids that lie on a cycle or depend, directly or not, on an id that
  does.
\<close>

theorem detect_dep_cycle_exact:
  assumes "\<forall>e\<in>set entries. is_obj e \<longrightarrow> hashable (jget e ''id'')"
  shows "\<exists>res. detect_dep_cycle entries = Inr res \<and>
    (res = None \<longleftrightarrow> acyclic (set (dep_edges entries))) \<and>
    (\<forall>xs. res = Some xs \<longrightarrow> sorted xs \<and> distinct xs \<and>
       set xs = {x \<in> set (queue_nodes entries).
         \<exists>c. (c, c) \<in> (set (dep_edges entries))\<^sup>+ \<and> (c, x) \<in> (set (dep_edges entries))\<^sup>*})"
proof -
  let ?E = "set (dep_edges entries)"
  have "set (queue_nodes entries) - Wellfounded.acc ?E =
      {x \<in> set (queue_nodes entries). \<exists>c. (c, c) \<in> ?E\<^sup>+ \<and> (c, x) \<in> ?E\<^sup>*}"
    using not_acc_iff_cycle [of ?E] by blast
  with detect_dep_cycle_acc [OF assms] nodes_acc_iff [of entries] show ?thesis
    unfolding dep_cyclic_def by simp
qed

definition dep_entry :: "string \<Rightarrow> string list \<Rightarrow> json" where
  "dep_entry i ds = JObj [(''id'', JStr i), (''deps'', JArr (map JStr ds))]"

definition loop_queue :: "json list" where
  "loop_queue = [dep_entry ''a'' [''b''], dep_entry ''b'' [''a'', ''z''], dep_entry ''c'' [''b''], JNull]"

lemmas graph_eval = loop_queue_def dep_entry_def detect_dep_cycle_def queue_nodes_def dep_edges_def
  has_str_id_def entry_id_def jget_def jhas_def dep_ids_def

theorem detect_dep_cycle_exact_witness:
  "\<exists>res. detect_dep_cycle loop_queue = Inr res \<and> res \<noteq> None"
proof -
  have "(''a'', ''b'') \<in> set (dep_edges loop_queue)" "(''b'', ''a'') \<in> set (dep_edges loop_queue)"
    by (simp_all add: graph_eval)
  then have "\<not> acyclic (set (dep_edges loop_queue))"
    by (meson acyclic_def r_into_trancl trancl_into_trancl)
  moreover have "\<forall>e\<in>set loop_queue. is_obj e \<longrightarrow> hashable (jget e ''id'')"
    by (simp add: graph_eval)
  ultimately show ?thesis using detect_dep_cycle_exact by blast
qed

text \<open>
  The reported list is not the list of cycle members: \<open>c\<close> depends on \<open>b\<close>, and only \<open>a\<close> and \<open>b\<close>
  depend on each other, but \<open>c\<close> is reported with them.
\<close>

theorem cycle_report_names_bystander:
  "detect_dep_cycle loop_queue = Inr (Some [''a'', ''b'', ''c'']) \<and>
   (''c'', ''c'') \<notin> (set (dep_edges loop_queue))\<^sup>+"
proof
  show "detect_dep_cycle loop_queue = Inr (Some [''a'', ''b'', ''c''])" by code_simp
  have "set (dep_edges loop_queue) = {(''b'', ''a''), (''a'', ''b''), (''b'', ''c'')}"
    by (auto simp: graph_eval)
  then show "(''c'', ''c'') \<notin> (set (dep_edges loop_queue))\<^sup>+" by (auto dest: tranclD)
qed

subsection \<open>Validation is exact\<close>

lemma plain_id_chars: "plain_id s \<Longrightarrow> c \<in> set s \<Longrightarrow> id_char c"
  by (cases s) (auto simp: plain_id_def id_char_def list_all_iff)

lemma dep_id_re_iff:
  "dep_id_re s \<longleftrightarrow> plain_id s \<or> (\<exists>t. s = t @ [char_of (10::nat)] \<and> plain_id t)"
  unfolding dep_id_re_def by (metis append_butlast_last_id butlast_snoc last_snoc snoc_eq_iff_butlast)

lemma reserved_colon: "reserved_prefix d \<Longrightarrow> CHR '':'' \<in> set d"
  by (auto simp: reserved_prefix_def prefix_def)

lemma colon_no_id: "\<not> id_char (CHR '':'')" "char_of (10::nat) \<noteq> CHR '':''"
  by (simp add: id_char_def id_start_def is_digit_def, code_simp)

lemma dep_id_not_reserved: "dep_id_re d \<Longrightarrow> \<not> reserved_prefix d"
  using reserved_colon [of d] plain_id_chars colon_no_id by (fastforce simp: dep_id_re_iff)

definition dep_ok :: "json \<Rightarrow> bool" where
  "dep_ok d \<longleftrightarrow> is_str d \<and> dep_id_re (str_val d)"

lemma validate_list_iff: "validate_dep_id_list ds = Inr () \<longleftrightarrow> list_all dep_ok ds"
  by (induction ds) (auto simp: dep_ok_def dep_id_not_reserved)

definition deps_ok :: "json \<Rightarrow> bool" where
  "deps_ok e \<longleftrightarrow> (is_obj e \<and> jhas e ''deps'' \<longrightarrow>
     (case jget e ''deps'' of JArr raw \<Rightarrow> list_all dep_ok raw | _ \<Rightarrow> False))"

lemma validate_entries_Inr:
  "validate_entries es b = Inr c \<longleftrightarrow> list_all deps_ok es \<and>
     c = (b \<or> (\<exists>e\<in>set es. is_obj e \<and> jhas e ''deps'' \<and> jget e ''deps'' \<noteq> JArr []))"
proof (induction es arbitrary: b)
  case Nil
  then show ?case by auto
next
  case (Cons e es)
  show ?case
  proof (cases "is_obj e \<and> jhas e ''deps''")
    case False
    with Cons show ?thesis by (auto simp: deps_ok_def)
  next
    case True
    then show ?thesis
    proof (cases "jget e ''deps''")
      case (JArr raw)
      with True Cons [of "b \<or> raw \<noteq> []"] validate_list_iff [of raw] show ?thesis
        by (auto simp: deps_ok_def split: sum.splits)
    qed (simp_all add: deps_ok_def)
  qed
qed

definition hashable_ids :: "json list \<Rightarrow> bool" where
  "hashable_ids items \<longleftrightarrow> (\<forall>e\<in>set items. is_obj e \<longrightarrow> hashable (jget e ''id''))"

lemma no_deps_acyclic:
  assumes "\<And>e. e \<in> set items \<Longrightarrow> is_obj e \<Longrightarrow> jhas e ''deps'' \<Longrightarrow> jget e ''deps'' = JArr []"
  shows "\<not> dep_cyclic items"
proof -
  have "dep_ids e = []" if "e \<in> set items" "is_obj e" for e
    using assms [OF that] jget_not_has [of e "''deps''"] by (cases "jhas e ''deps''") (auto simp: dep_ids_def)
  then have "dep_edges items = []" by (auto simp: dep_edges_def has_str_id_def)
  then show ?thesis by (simp add: dep_cyclic_def acyclic_def)
qed

lemma detect_None_iff:
  "hashable_ids items \<Longrightarrow> detect_dep_cycle items = Inr None \<longleftrightarrow> \<not> dep_cyclic items"
  "hashable_ids items \<Longrightarrow> \<exists>res. detect_dep_cycle items = Inr res"
  using detect_dep_cycle_acc [of items] nodes_acc_iff [of items] unfolding hashable_ids_def by auto

lemma validate_queue_iff:
  assumes "hashable_ids items"
  shows "validate_queue_deps items = Inr () \<longleftrightarrow> list_all deps_ok items \<and> \<not> dep_cyclic items"
proof (cases "validate_entries items False")
  case (Inl x)
  then have "\<not> list_all deps_ok items" using validate_entries_Inr [of items False] by fastforce
  with Inl show ?thesis by (simp add: validate_queue_deps_def)
next
  case (Inr b)
  note b = Inr [unfolded validate_entries_Inr]
  show ?thesis
  proof (cases b)
    case True
    obtain res where "detect_dep_cycle items = Inr res" using detect_None_iff(2) [OF assms] by blast
    with Inr b True detect_None_iff(1) [OF assms] show ?thesis
      by (cases res) (auto simp: validate_queue_deps_def)
  next
    case False
    with b have "\<not> dep_cyclic items" by (intro no_deps_acyclic) auto
    with Inr b False show ?thesis by (simp add: validate_queue_deps_def)
  qed
qed

text \<open>
  The id grammar as it is enforced: \<open>validate_dep_id_list\<close> accepts exactly the lists of strings
  that are plain ids or plain ids followed by one newline, so the reserved-prefix test rejects
  nothing the grammar would let through, and the trailing newline is let through.
\<close>

theorem dep_id_grammar:
  "validate_dep_id_list ds = Inr () \<longleftrightarrow>
     (\<forall>d\<in>set ds. \<exists>s. d = JStr s \<and> (plain_id s \<or> (\<exists>t. s = t @ [char_of (10::nat)] \<and> plain_id t)))"
proof -
  have "dep_ok d \<longleftrightarrow> (\<exists>s. d = JStr s \<and> (plain_id s \<or> (\<exists>t. s = t @ [char_of (10::nat)] \<and> plain_id t)))" for d
    by (cases d) (simp_all add: dep_ok_def dep_id_re_iff)
  then show ?thesis by (simp add: validate_list_iff list_all_iff)
qed

theorem dep_id_grammar_witness:
  "validate_dep_id_list [JStr ''a-1'', JStr (''b'' @ [char_of (10::nat)])] = Inr ()"
proof -
  have "plain_id ''a-1''" "plain_id ''b''" by code_simp+
  then have "\<forall>d\<in>set [JStr ''a-1'', JStr (''b'' @ [char_of (10::nat)])].
      \<exists>s. d = JStr s \<and> (plain_id s \<or> (\<exists>t. s = t @ [char_of (10::nat)] \<and> plain_id t))"
    by simp
  then show ?thesis using dep_id_grammar by blast
qed

text \<open>
  Load-time validation accepts exactly the queues it should: with hashable ids,
  \<open>validate_queue_deps\<close> passes iff every \<open>deps\<close> field is an array of grammatical ids and the
  dependency edges are acyclic (the shortcut for queues without dependencies changes nothing).
\<close>

theorem validate_queue_exact:
  assumes "hashable_ids items"
  shows "validate_queue_deps items = Inr () \<longleftrightarrow>
    (\<forall>e\<in>set items. is_obj e \<and> jhas e ''deps'' \<longrightarrow>
       (\<exists>raw. jget e ''deps'' = JArr raw \<and> validate_dep_id_list raw = Inr ())) \<and>
    acyclic (set (dep_edges items))"
proof -
  have "deps_ok e \<longleftrightarrow> (is_obj e \<and> jhas e ''deps'' \<longrightarrow>
       (\<exists>raw. jget e ''deps'' = JArr raw \<and> validate_dep_id_list raw = Inr ()))" for e
    by (auto simp: deps_ok_def validate_list_iff split: json.splits)
  with validate_queue_iff [OF assms] show ?thesis by (simp add: list_all_iff dep_cyclic_def)
qed

theorem validate_queue_exact_witness:
  "validate_queue_deps [dep_entry ''a'' [''b''], dep_entry ''b'' [''ghost'']] = Inr ()"
proof -
  let ?q = "[dep_entry ''a'' [''b''], dep_entry ''b'' [''ghost'']]"
  have "set (dep_edges ?q) = {(''b'', ''a'')}" by (auto simp: graph_eval)
  then have "acyclic (set (dep_edges ?q))" by (auto simp: acyclic_def dest: tranclD tranclD2)
  moreover have "hashable_ids ?q" by (simp add: hashable_ids_def graph_eval)
  moreover have "validate_dep_id_list [JStr ''b''] = Inr ()" "validate_dep_id_list [JStr ''ghost''] = Inr ()"
    by code_simp+
  ultimately show ?thesis using validate_queue_exact [of ?q] by (simp add: dep_entry_def jget_def)
qed

end
