(* ===== verification/Merged_Priority.thy ===== *)
theory Merged_Priority
  imports Dep_Graph "HOL-Library.Product_Lexorder"
begin

text \<open>
  The merged ordering of the feature and the bug queue
  (\<^verbatim>\<open>user/scripts/lazy_core/depdag.py\<close>): effective priorities, age escalation, severity pins, the
  marker shown for a bug, the merged work list and its head, and the surgical repositioning of one
  entry. \<open>today\<close> is a day ordinal; lower priority numbers come first.
\<close>

subsection \<open>Ranks\<close>

datatype item_type = Feature | Bug

instantiation item_type :: linorder
begin

definition less_eq_item_type :: "item_type \<Rightarrow> item_type \<Rightarrow> bool" where
  "less_eq_item_type a b \<longleftrightarrow> a = Feature \<or> b = Bug"

definition less_item_type :: "item_type \<Rightarrow> item_type \<Rightarrow> bool" where
  "less_item_type a b \<longleftrightarrow> a = Feature \<and> b = Bug"

instance
proof
  fix x y z :: item_type
  show "x < y \<longleftrightarrow> x \<le> y \<and> \<not> y \<le> x" "x \<le> x" "x \<le> y \<or> y \<le> x"
    by (cases x; cases y; simp add: less_eq_item_type_def less_item_type_def)+
  show "x \<le> y \<Longrightarrow> y \<le> z \<Longrightarrow> x \<le> z" "x \<le> y \<Longrightarrow> y \<le> x \<Longrightarrow> x = y"
    by (cases x; cases y; cases z; simp add: less_eq_item_type_def)+
qed

end

definition severity_rank :: "(string, int) dict" where
  "severity_rank = [(''P0'', 0), (''P1'', 1), (''P2'', 2), (''Low'', 3)]"

definition tier_enum :: "(string, int) dict" where
  "tier_enum = [(''pre-release'', 1), (''commercialization'', 2), (''milestone'', 3),
     (''major-initiative'', 4), (''4a'', 4), (''4b'', 5), (''follow-up'', 6), (''non-audio'', 7)]"

definition priority_default :: int where
  "priority_default = 99"

definition resolve_tier_element :: "json \<Rightarrow> int option" where
  "resolve_tier_element v =
     (case v of
        JInt n \<Rightarrow> Some n
      | JStr s \<Rightarrow> (case dget tier_enum (strip s) of Some r \<Rightarrow> Some r | None \<Rightarrow> py_int (strip s))
      | _ \<Rightarrow> None)"

definition json_severity :: "json \<Rightarrow> int option" where
  "json_severity v = (case v of JStr s \<Rightarrow> dget severity_rank (strip s) | _ \<Rightarrow> None)"

subsection \<open>Aging and pins\<close>

definition age_escalated_rank :: "int \<Rightarrow> json \<Rightarrow> int \<Rightarrow> int" where
  "age_escalated_rank base discovered today =
     (if base \<le> 1 then base
      else if \<not> truthy discovered then base
      else case json_date discovered of
             None \<Rightarrow> base
           | Some d \<Rightarrow>
               let age_days = today - d in
               if age_days < 0 then base
               else let notches = age_days div 7 in max (base - notches) 1)"

definition pin_is_active :: "json \<Rightarrow> json \<Rightarrow> int \<Rightarrow> bool" where
  "pin_is_active pinned_at pinned_until today =
     (if \<not> truthy pinned_at then False
      else case json_date pinned_at of
             None \<Rightarrow> False
           | Some at \<Rightarrow>
               if truthy pinned_until then
                 (case json_date pinned_until of None \<Rightarrow> False | Some till \<Rightarrow> today \<le> till)
               else today - at < 90)"

subsection \<open>Effective priority\<close>

definition feature_priority :: "json \<Rightarrow> int" where
  "feature_priority tier =
     (case tier of
        JArr es \<Rightarrow>
          (let resolved = map the (filter (\<lambda>r. r \<noteq> None) (map resolve_tier_element es))
           in if resolved \<noteq> [] then Min (set resolved) else priority_default)
      | _ \<Rightarrow> (case resolve_tier_element tier of Some r \<Rightarrow> r | None \<Rightarrow> priority_default))"

definition bug_priority :: "json \<Rightarrow> int \<Rightarrow> int" where
  "bug_priority raw today =
     (case json_severity (jget raw ''severity'') of
        Some base \<Rightarrow> age_escalated_rank base (jget raw ''discovered'') today
      | None \<Rightarrow>
          let pinned_at = jget raw ''pinned_at'' in
          if truthy pinned_at \<and> \<not> pin_is_active pinned_at (jget raw ''pinned_until'') today then
            (case json_severity (jget raw ''spec_severity'') of
               Some base \<Rightarrow> age_escalated_rank base (jget raw ''discovered'') today
             | None \<Rightarrow> priority_default)
          else priority_default)"

definition merged_priority :: "item_type \<Rightarrow> json \<Rightarrow> int \<Rightarrow> int" where
  "merged_priority t raw today =
     (case t of Feature \<Rightarrow> feature_priority (jget raw ''tier'') | Bug \<Rightarrow> bug_priority raw today)"

text \<open>The marker of a bug row; \<open>None\<close> is an argument that is \<open>None\<close>.\<close>

definition json_opt :: "string option \<Rightarrow> json" where
  "json_opt v = (case v of None \<Rightarrow> JNull | Some s \<Rightarrow> JStr s)"

definition bug_priority_marker ::
  "string option \<Rightarrow> string option \<Rightarrow> string option \<Rightarrow> string option \<Rightarrow> string option \<Rightarrow> int \<Rightarrow> string" where
  "bug_priority_marker severity spec_severity discovered pinned_at pinned_until today =
     (let raw = JObj [(''severity'', json_opt severity), (''discovered'', json_opt discovered),
            (''spec_severity'', json_opt spec_severity), (''pinned_at'', json_opt pinned_at),
            (''pinned_until'', json_opt pinned_until)];
          declared = (if json_severity (json_opt severity) \<noteq> None then severity else spec_severity)
      in if truthy (json_opt pinned_at) \<and> pin_is_active (json_opt pinned_at) (json_opt pinned_until) today
         then bytes [240, 159, 147, 140] @ '' pinned '' @ the pinned_at
         else case json_severity (json_opt declared) of
                None \<Rightarrow> []
              | Some declared_rank \<Rightarrow>
                  if merged_priority Bug raw today < declared_rank
                  then bytes [226, 143, 171] @ '' escalated'' else [])"

subsection \<open>The merged work list\<close>

record work_item =
  item_id :: json
  work_type :: item_type
  repo_root :: string

type_synonym annotated = "int \<times> item_type \<times> nat \<times> work_item"

text \<open>
  One seeding loop. \<open>item_id in exclude\<close> hashes the id, so a list or dictionary raises; an entry
  that is not a dictionary has no \<open>get\<close>.
\<close>

fun annotate ::
  "item_type \<Rightarrow> string \<Rightarrow> int \<Rightarrow> string set \<Rightarrow> json list \<Rightarrow> nat \<Rightarrow> py_error + annotated list \<times> nat" where
  "annotate t root today exclude [] seq = Inr ([], seq)"
| "annotate t root today exclude (raw # raws) seq =
     (if \<not> is_obj raw then Inl AttributeError
      else
        let i = jget raw ''id'' in
        if \<not> truthy i then annotate t root today exclude raws seq
        else if \<not> hashable i then Inl PyTypeError
        else if is_str i \<and> str_val i \<in> exclude then annotate t root today exclude raws seq
        else case annotate t root today exclude raws (Suc seq) of
               Inl x \<Rightarrow> Inl x
             | Inr (anns, seq') \<Rightarrow>
                 Inr ((merged_priority t raw today, t, seq,
                       \<lparr>item_id = i, work_type = t, repo_root = root\<rparr>) # anns, seq'))"

definition merged_worklist ::
  "json list \<Rightarrow> json list \<Rightarrow> string \<Rightarrow> int \<Rightarrow> string set \<Rightarrow> py_error + work_item list" where
  "merged_worklist feature_items bug_items root today exclude =
     (case annotate Bug root today exclude bug_items 0 of
        Inl x \<Rightarrow> Inl x
      | Inr (bugs, seq) \<Rightarrow>
          (case annotate Feature root today exclude feature_items seq of
             Inl x \<Rightarrow> Inl x
           | Inr (features, seq') \<Rightarrow>
               Inr (map (\<lambda>(p, t, s, w). w)
                 (sort_key (\<lambda>(p, t, s, w). (p, t, s)) (bugs @ features)))))"

definition next_merged ::
  "json list \<Rightarrow> json list \<Rightarrow> string \<Rightarrow> int \<Rightarrow> string set \<Rightarrow> py_error + work_item option" where
  "next_merged feature_items bug_items root today exclude =
     (case merged_worklist feature_items bug_items root today exclude of
        Inl x \<Rightarrow> Inl x
      | Inr ws \<Rightarrow> Inr (if ws \<noteq> [] then Some (hd ws) else None))"

subsection \<open>Repositioning one entry\<close>

definition has_id :: "string \<Rightarrow> json \<Rightarrow> bool" where
  "has_id i e \<longleftrightarrow> is_obj e \<and> jget e ''id'' = JStr i"

text \<open>The scan for the first entry of lower priority; the argument \<open>i\<close> is the loop counter.\<close>

fun find_slot :: "item_type \<Rightarrow> int \<Rightarrow> int \<Rightarrow> json list \<Rightarrow> nat \<Rightarrow> py_error + nat" where
  "find_slot t today p [] i = Inr i"
| "find_slot t today p (other # others) i =
     (if \<not> is_obj other then Inl AttributeError
      else if p < merged_priority t other today then Inr i
      else find_slot t today p others (Suc i))"

definition reposition_by_priority ::
  "json list \<Rightarrow> string \<Rightarrow> item_type \<Rightarrow> int \<Rightarrow> py_error + (json list \<times> nat) option" where
  "reposition_by_priority items i t today =
     (case find_index (has_id i) items of
        None \<Rightarrow> Inr None
      | Some idx \<Rightarrow>
          let entry = items ! idx; rest = remove_at idx items in
          (case find_slot t today (merged_priority t entry today) rest 0 of
             Inl x \<Rightarrow> Inl x
           | Inr dest \<Rightarrow> Inr (Some (insert_at dest entry rest, dest))))"

subsection \<open>Escalation and pins\<close>

lemma severity_rank_range: "json_severity v = Some r \<Longrightarrow> 0 \<le> r \<and> r \<le> 3"
  by (auto simp: json_severity_def severity_rank_def split: json.splits if_splits)

lemma age_escalated_bounds:
  "age_escalated_rank base d today \<le> base \<and> (1 \<le> base \<longrightarrow> 1 \<le> age_escalated_rank base d today) \<and>
   (base \<le> 0 \<longrightarrow> age_escalated_rank base d today = base)"
  by (auto simp: age_escalated_rank_def Let_def pos_imp_zdiv_nonneg_iff split: option.splits)

lemma age_escalated_mono:
  assumes "today \<le> today'"
  shows "age_escalated_rank base d today' \<le> age_escalated_rank base d today"
proof (cases "json_date d")
  case None
  then show ?thesis by (simp add: age_escalated_rank_def)
next
  case (Some n)
  have "0 \<le> today - n \<Longrightarrow> (today - n) div 7 \<le> (today' - n) div 7"
    using assms by (intro zdiv_mono1) auto
  moreover have "0 \<le> today' - n \<Longrightarrow> 0 \<le> (today' - n) div 7" by (simp add: pos_imp_zdiv_nonneg_iff)
  ultimately show ?thesis using Some assms by (auto simp: age_escalated_rank_def Let_def)
qed

text \<open>
  No bug with a severity starves and none overtakes a P0: the effective priority of a bug with
  a recognised severity never gets worse as days pass, is its declared rank at least until the bug
  is dated, reaches the P1 level within two weeks of its discovery date for every rank, and is
  never 0 unless the declared severity is P0.
\<close>

theorem severity_aging:
  assumes "json_severity (jget raw ''severity'') = Some base"
  shows "(\<forall>today today'. today \<le> today' \<longrightarrow> merged_priority Bug raw today' \<le> merged_priority Bug raw today) \<and>
    (\<forall>today. merged_priority Bug raw today \<le> base) \<and>
    (\<forall>day today. truthy (jget raw ''discovered'') \<and> json_date (jget raw ''discovered'') = Some day \<and>
       day + 14 \<le> today \<longrightarrow> merged_priority Bug raw today = min base 1) \<and>
    (\<forall>today. merged_priority Bug raw today = 0 \<longleftrightarrow> base = 0)"
proof (intro conjI allI impI)
  fix today today' :: int
  have eq: "merged_priority Bug raw n = age_escalated_rank base (jget raw ''discovered'') n" for n
    using assms by (simp add: merged_priority_def bug_priority_def)
  note b = severity_rank_range [OF assms]
  show "today \<le> today' \<Longrightarrow> merged_priority Bug raw today' \<le> merged_priority Bug raw today"
    unfolding eq by (rule age_escalated_mono)
  show "merged_priority Bug raw today \<le> base"
    unfolding eq using age_escalated_bounds by blast
  show "merged_priority Bug raw today = 0 \<longleftrightarrow> base = 0"
    unfolding eq using age_escalated_bounds [of base "jget raw ''discovered''" today] b by auto
  fix day
  assume d: "truthy (jget raw ''discovered'') \<and> json_date (jget raw ''discovered'') = Some day \<and> day + 14 \<le> today"
  then have "2 \<le> (today - day) div 7" by linarith
  with d b show "merged_priority Bug raw today = min base 1"
    unfolding eq by (auto simp: age_escalated_rank_def Let_def)
qed

theorem severity_aging_witness:
  "merged_priority Bug (JObj [(''severity'', JStr ''Low''), (''discovered'', JStr ''2026-07-01'')]) 739814 = 1"
proof -
  let ?raw = "JObj [(''severity'', JStr ''Low''), (''discovered'', JStr ''2026-07-01'')]"
  have "json_severity (jget ?raw ''severity'') = Some 3"
    by (simp add: jget_def json_severity_def severity_rank_def strip_plain plain_char_def)
  moreover have "json_date (jget ?raw ''discovered'') = Some 739798" "truthy (jget ?raw ''discovered'')"
    by (simp_all add: jget_def date_eval)
  ultimately show ?thesis using severity_aging [of ?raw 3] by auto
qed

text \<open>
  A pin is never permanent: whatever was stored as its dates, from some day on it is inactive,
  and from then on the bug's priority is the one its specification's severity gives.
\<close>

theorem pin_expires:
  assumes "json_severity (jget raw ''severity'') = None" and "truthy (jget raw ''pinned_at'')"
  shows "\<exists>day. \<forall>today\<ge>day. \<not> pin_is_active (jget raw ''pinned_at'') (jget raw ''pinned_until'') today \<and>
    merged_priority Bug raw today = (case json_severity (jget raw ''spec_severity'') of
       None \<Rightarrow> 99 | Some base \<Rightarrow> age_escalated_rank base (jget raw ''discovered'') today)"
proof -
  let ?at = "jget raw ''pinned_at''" and ?until = "jget raw ''pinned_until''"
  have "\<exists>day. \<forall>today\<ge>day. \<not> pin_is_active ?at ?until today"
    using assms(2)
    by (cases "json_date ?at"; cases "truthy ?until"; cases "json_date ?until")
      (auto simp: pin_is_active_def intro: exI [of _ "the (json_date ?at) + 90"]
        exI [of _ "the (json_date ?until) + 1"])
  with assms show ?thesis
    by (auto simp: merged_priority_def bug_priority_def priority_default_def Let_def split: option.splits)
qed

theorem pin_expires_witness:
  "\<exists>day. \<forall>today\<ge>day. merged_priority Bug
     (JObj [(''severity'', JNull), (''pinned_at'', JStr ''2026-01-01''), (''spec_severity'', JStr ''P1'')]) today = 1"
proof -
  let ?raw = "JObj [(''severity'', JNull), (''pinned_at'', JStr ''2026-01-01''), (''spec_severity'', JStr ''P1'')]"
  have "json_severity (jget ?raw ''severity'') = None" "truthy (jget ?raw ''pinned_at'')"
    "json_severity (jget ?raw ''spec_severity'') = Some 1"
    by (simp_all add: jget_def json_severity_def severity_rank_def strip_plain plain_char_def)
  with pin_expires [of ?raw] show ?thesis by (auto simp: age_escalated_rank_def)
qed

subsection \<open>The work list against its reference\<close>

definition listed :: "string set \<Rightarrow> json \<Rightarrow> bool" where
  "listed exclude raw \<longleftrightarrow> truthy (jget raw ''id'') \<and>
     \<not> (is_str (jget raw ''id'') \<and> str_val (jget raw ''id'') \<in> exclude)"

definition to_item :: "item_type \<Rightarrow> string \<Rightarrow> json \<Rightarrow> work_item" where
  "to_item t root raw = \<lparr>item_id = jget raw ''id'', work_type = t, repo_root = root\<rparr>"

definition annotation :: "item_type \<Rightarrow> string \<Rightarrow> int \<Rightarrow> nat \<times> json \<Rightarrow> annotated" where
  "annotation t root today = (\<lambda>(s, raw). (merged_priority t raw today, t, s, to_item t root raw))"

lemma annotate_enumerate:
  "annotate t root today exclude raws n = Inr (anns, m) \<Longrightarrow>
    anns = map (annotation t root today) (enumerate n (filter (listed exclude) raws)) \<and>
    m = n + length (filter (listed exclude) raws)"
proof (induction raws arbitrary: n anns)
  case Nil
  then show ?case by simp
next
  case (Cons raw raws)
  show ?case
  proof (cases "listed exclude raw")
    case True
    with Cons.prems obtain anns' where rec: "annotate t root today exclude raws (Suc n) = Inr (anns', m)"
      and anns: "anns = annotation t root today (n, raw) # anns'"
      by (auto simp: Let_def listed_def annotation_def to_item_def split: if_splits sum.splits)
    from Cons.IH [OF rec] anns True show ?thesis by simp
  next
    case False
    with Cons.prems have "annotate t root today exclude raws n = Inr (anns, m)"
      by (auto simp: Let_def listed_def split: if_splits)
    from Cons.IH [OF this] False show ?thesis by simp
  qed
qed

text \<open>
  The reference: level by level in ascending priority, the features of that level in their listed
  order, then the bugs of that level in theirs.
\<close>

definition level :: "item_type \<Rightarrow> string \<Rightarrow> int \<Rightarrow> json list \<Rightarrow> int \<Rightarrow> work_item list" where
  "level t root today raws p =
     map (to_item t root) (filter (\<lambda>raw. merged_priority t raw today = p) raws)"

definition priorities :: "item_type \<Rightarrow> int \<Rightarrow> json list \<Rightarrow> int list" where
  "priorities t today raws = map (\<lambda>raw. merged_priority t raw today) raws"

definition reference_worklist ::
  "json list \<Rightarrow> json list \<Rightarrow> string \<Rightarrow> int \<Rightarrow> string set \<Rightarrow> work_item list" where
  "reference_worklist fs bs root today exclude =
     (let fs' = filter (listed exclude) fs; bs' = filter (listed exclude) bs in
      concat (map (\<lambda>p. level Feature root today fs' p @ level Bug root today bs' p)
        (sort (remdups (priorities Feature today fs' @ priorities Bug today bs')))))"

lemma mset_buckets:
  "distinct ps \<Longrightarrow>
    mset (concat (map (\<lambda>p. filter (\<lambda>x. k x = p) xs @ filter (\<lambda>x. k x = p) ys) ps)) =
    mset (filter (\<lambda>x. k x \<in> set ps) (xs @ ys))"
proof (induction ps)
  case Nil
  then show ?case by simp
next
  case (Cons p ps)
  have "mset (filter (\<lambda>x. k x = p \<or> k x \<in> set ps) zs) =
      mset (filter (\<lambda>x. k x = p) zs) + mset (filter (\<lambda>x. k x \<in> set ps) zs)" for zs
    using Cons.prems by (induction zs) auto
  with Cons show ?case by simp
qed

lemma mset_all_buckets:
  assumes "set (map k (xs @ ys)) = set ps" and "distinct ps"
  shows "mset (concat (map (\<lambda>p. filter (\<lambda>x. k x = p) xs @ filter (\<lambda>x. k x = p) ys) ps)) = mset (xs @ ys)"
proof -
  have "filter (\<lambda>x. k x \<in> set ps) (xs @ ys) = xs @ ys"
    using assms(1) by (intro filter_True) auto
  with mset_buckets [OF assms(2), of k xs ys] show ?thesis by (simp only:)
qed

lemma sorted_concat_levels:
  fixes f :: "'a \<Rightarrow> int \<times> ('b :: linorder)"
  assumes "sorted_wrt (<) ps" and "\<And>p. sorted (map f (b p))" and "\<And>p x. x \<in> set (b p) \<Longrightarrow> fst (f x) = p"
  shows "sorted (map f (concat (map b ps)))"
  using assms(1)
proof (induction ps)
  case Nil
  then show ?case by simp
next
  case (Cons p ps)
  have "f x \<le> f y" if "x \<in> set (b p)" "q \<in> set ps" "y \<in> set (b q)" for x y q
    using assms(3) [OF that(1)] assms(3) [OF that(3)] Cons.prems that(2) by (auto simp: less_eq_prod_def)
  with Cons assms(2) show ?case by (auto simp: sorted_append)
qed

definition ann_key :: "annotated \<Rightarrow> int \<times> item_type \<times> nat" where
  "ann_key = (\<lambda>(p, t, s, w). (p, t, s))"

definition ann_item :: "annotated \<Rightarrow> work_item" where
  "ann_item = (\<lambda>(p, t, s, w). w)"

lemma ann_item_level:
  "map ann_item (filter (\<lambda>x. fst x = p) (map (annotation t root today) (enumerate n raws))) =
    level t root today raws p"
  by (induction raws arbitrary: n) (auto simp: level_def annotation_def ann_item_def)

definition ann_seq :: "annotated \<Rightarrow> nat" where
  "ann_seq = (\<lambda>(p, t, s, w). s)"

lemma ann_seqs:
  "map ann_seq (map (annotation t root today) (enumerate n raws)) = [n..<n + length raws]"
proof -
  have "ann_seq \<circ> annotation t root today = fst"
    by (auto simp: annotation_def ann_seq_def fun_eq_iff)
  then show ?thesis by simp
qed

lemma ann_priorities:
  "map fst (map (annotation t root today) (enumerate n raws)) = priorities t today raws"
  by (induction raws arbitrary: n) (simp_all add: priorities_def annotation_def)

lemma ann_key_eq:
  "x \<in> set (map (annotation t root today) xs) \<Longrightarrow> ann_key x = (fst x, t, ann_seq x)"
  by (auto simp: annotation_def ann_key_def ann_seq_def)

lemma sorted_ann_level:
  "sorted (map ann_key (filter (\<lambda>x. fst x = p) (map (annotation t root today) (enumerate n raws))))"
proof -
  let ?as = "map (annotation t root today) (enumerate n raws)"
  have "sorted_wrt (\<lambda>x y. ann_seq x < ann_seq y) ?as"
    using ann_seqs [of t root today n raws] by (metis sorted_wrt_map sorted_wrt_upt)
  then have "sorted_wrt (\<lambda>x y. ann_seq x < ann_seq y) (filter (\<lambda>x. fst x = p) ?as)"
    by (rule sorted_wrt_filter)
  then have "sorted_wrt (\<lambda>x y. ann_key x \<le> ann_key y) (filter (\<lambda>x. fst x = p) ?as)"
    by (rule sorted_wrt_mono_rel [rotated])
      (use ann_key_eq [of _ t root today "enumerate n raws"] in \<open>simp add: less_eq_prod_def\<close>)
  then show ?thesis by (simp add: sorted_wrt_map)
qed

lemma worklist_is_reference:
  assumes "merged_worklist fs bs root today exclude = Inr ws"
  shows "ws = reference_worklist fs bs root today exclude"
proof -
  let ?fs = "filter (listed exclude) fs" and ?bs = "filter (listed exclude) bs"
  let ?ba = "map (annotation Bug root today) (enumerate 0 ?bs)"
  let ?fa = "map (annotation Feature root today) (enumerate (length ?bs) ?fs)"
  let ?ps = "sort (remdups (priorities Feature today ?fs @ priorities Bug today ?bs))"
  let ?b = "\<lambda>p. filter (\<lambda>x. fst x = p) ?fa @ filter (\<lambda>x. fst x = p) ?ba"
  have ws: "ws = map ann_item (sort_key ann_key (?ba @ ?fa))"
  proof -
    obtain bugs seq features seq' where r: "annotate Bug root today exclude bs 0 = Inr (bugs, seq)"
        "annotate Feature root today exclude fs seq = Inr (features, seq')"
        "ws = map ann_item (sort_key ann_key (bugs @ features))"
      using assms by (auto simp: merged_worklist_def ann_item_def ann_key_def split: sum.splits)
    from annotate_enumerate [OF r(1)] annotate_enumerate [OF r(2)] r(3) show ?thesis by simp
  qed
  have "sort_key ann_key (?ba @ ?fa) = concat (map ?b ?ps)"
  proof (rule sort_key_inj_key_eq)
    have "map fst (?fa @ ?ba) = priorities Feature today ?fs @ priorities Bug today ?bs"
      unfolding map_append ann_priorities ..
    then have "set (map fst (?fa @ ?ba)) = set ?ps" by (simp only: set_sort set_remdups)
    moreover have "distinct ?ps" by simp
    ultimately have "mset (concat (map ?b ?ps)) = mset (?fa @ ?ba)" by (rule mset_all_buckets)
    then show "mset (?ba @ ?fa) = mset (concat (map ?b ?ps))" by (simp only: mset_append add.commute)
    have "map ann_seq (?ba @ ?fa) = [0..<length ?bs + length ?fs]"
      unfolding map_append ann_seqs using upt_add_eq_append [of 0 "length ?bs" "length ?fs"] by simp
    then have "distinct (map ann_seq (?ba @ ?fa))" by (simp only: distinct_upt)
    then have "inj_on ann_seq (set (?ba @ ?fa))" unfolding distinct_map by (rule conjunct2)
    moreover have "ann_seq = (\<lambda>k. snd (snd k)) \<circ> ann_key"
      by (auto simp: ann_seq_def ann_key_def fun_eq_iff)
    ultimately have "inj_on ((\<lambda>k. snd (snd k)) \<circ> ann_key) (set (?ba @ ?fa))" by (simp only:)
    then show "inj_on ann_key (set (?ba @ ?fa))" by (rule inj_on_imageI2)
    show "sorted (map ann_key (concat (map ?b ?ps)))"
    proof (rule sorted_concat_levels)
      show "sorted_wrt (<) ?ps" by (simp add: strict_sorted_iff)
      fix p
      have "\<forall>x\<in>set (map ann_key (filter (\<lambda>x. fst x = p) ?fa)).
          \<forall>y\<in>set (map ann_key (filter (\<lambda>x. fst x = p) ?ba)). x \<le> y"
        by (auto simp: ann_key_def annotation_def less_eq_prod_def less_item_type_def)
      with sorted_ann_level show "sorted (map ann_key (?b p))"
        unfolding map_append sorted_append by blast
      show "\<And>x. x \<in> set (?b p) \<Longrightarrow> fst (ann_key x) = p"
        by (auto simp: ann_key_def case_prod_beta)
    qed
  qed
  then show ?thesis
    unfolding ws reference_worklist_def Let_def by (simp add: map_concat ann_item_level comp_def)
qed

text \<open>
  C38. The merged work list is the levels in order: whenever it is computed, it is the ascending
  list of priority levels with, in each, the listed features first and the listed bugs after
  them, each queue in its own order; \<open>next_merged\<close> is its head.
\<close>

theorem merged_worklist_is_reference:
  assumes "merged_worklist fs bs root today exclude = Inr ws"
  shows "ws = reference_worklist fs bs root today exclude \<and>
    next_merged fs bs root today exclude = Inr (if ws = [] then None else Some (hd ws))"
  using worklist_is_reference [OF assms] assms by (simp add: next_merged_def)

definition sample_features :: "json list" where
  "sample_features = [JObj [(''id'', JStr ''f2''), (''tier'', JInt 2)], JObj [(''tier'', JInt 0)],
     JObj [(''id'', JStr ''f1''), (''tier'', JInt 1)]]"

definition sample_bugs :: "json list" where
  "sample_bugs = [JObj [(''id'', JStr ''b1''), (''severity'', JStr ''P1'')],
     JObj [(''id'', JStr ''b0''), (''severity'', JStr ''P0'')], JObj [(''id'', JStr ''parked''), (''severity'', JStr ''P0'')]]"

lemmas priority_eval = merged_priority_def bug_priority_def feature_priority_def json_severity_def
  severity_rank_def tier_enum_def resolve_tier_element_def priority_default_def jget_def
  age_escalated_rank_def strip_plain plain_char_def

lemma sample_worklist:
  "merged_worklist sample_features sample_bugs ''r'' 739814 {''parked''} =
     Inr [to_item Bug ''r'' (sample_bugs ! 1), to_item Feature ''r'' (sample_features ! 2),
          to_item Bug ''r'' (sample_bugs ! 0), to_item Feature ''r'' (sample_features ! 0)]"
  by (simp add: merged_worklist_def sample_features_def sample_bugs_def to_item_def
      less_item_type_def less_eq_item_type_def priority_eval)

theorem merged_worklist_is_reference_witness:
  "reference_worklist sample_features sample_bugs ''r'' 739814 {''parked''} =
     [to_item Bug ''r'' (sample_bugs ! 1), to_item Feature ''r'' (sample_features ! 2),
      to_item Bug ''r'' (sample_bugs ! 0), to_item Feature ''r'' (sample_features ! 0)]"
  using merged_worklist_is_reference [OF sample_worklist] by simp

lemma bug_priority_0:
  assumes "merged_priority Bug raw today < 1"
  shows "json_severity (jget raw ''severity'') = Some 0 \<or>
    (json_severity (jget raw ''severity'') = None \<and> json_severity (jget raw ''spec_severity'') = Some 0)"
proof -
  have "age_escalated_rank base d today < 1 \<Longrightarrow> 0 \<le> base \<Longrightarrow> base = 0" for base d
    using age_escalated_bounds [of base d today] by (cases "1 \<le> base") auto
  then show ?thesis
    using assms severity_rank_range
    by (fastforce simp: merged_priority_def bug_priority_def Let_def priority_default_def
        split: option.splits if_splits)
qed

lemma hd_concat_levels:
  assumes "sorted_wrt (<) (ps :: int list)" and "concat (map b ps) \<noteq> []" and "p \<in> set ps" and "b p \<noteq> []"
  shows "\<exists>q\<le>p. q \<in> set ps \<and> b q \<noteq> [] \<and> hd (concat (map b ps)) = hd (b q)"
  using assms
proof (induction ps)
  case Nil
  then show ?case by simp
next
  case (Cons q ps)
  show ?case
  proof (cases "b q = []")
    case True
    with Cons.prems have "p \<noteq> q" by auto
    with Cons True show ?thesis by auto
  next
    case False
    with Cons.prems show ?thesis by (intro exI [of _ q]) auto
  qed
qed

text \<open>
  Only a P0 bug is worked before a P1 feature: if the head of the merged list is a bug while
  some listed feature has effective priority 1, that bug's severity is P0, in the queue entry or,
  after its pin expired, in its specification, however long any bug has aged.
\<close>

theorem only_p0_bug_before_p1_feature:
  assumes "next_merged fs bs root today exclude = Inr (Some w)" and "work_type w = Bug"
    and "f \<in> set fs" and "listed exclude f" and "merged_priority Feature f today = 1"
  shows "\<exists>raw\<in>set bs. listed exclude raw \<and> item_id w = jget raw ''id'' \<and>
    (json_severity (jget raw ''severity'') = Some 0 \<or>
     json_severity (jget raw ''severity'') = None \<and> json_severity (jget raw ''spec_severity'') = Some 0)"
proof -
  let ?fs = "filter (listed exclude) fs" and ?bs = "filter (listed exclude) bs"
  let ?ps = "sort (remdups (priorities Feature today ?fs @ priorities Bug today ?bs))"
  let ?b = "\<lambda>p. level Feature root today ?fs p @ level Bug root today ?bs p"
  obtain ws where ws: "merged_worklist fs bs root today exclude = Inr ws" "ws \<noteq> []" "w = hd ws"
    using assms(1) by (auto simp: next_merged_def split: sum.splits if_splits)
  have eq: "ws = concat (map ?b ?ps)"
    using worklist_is_reference [OF ws(1)] by (simp add: reference_worklist_def Let_def)
  have "1 \<in> set ?ps" using assms(3-5) by (force simp: priorities_def)
  moreover have one: "level Feature root today ?fs 1 \<noteq> []"
    using assms(3-5) by (auto simp: level_def filter_empty_conv)
  then have "?b 1 \<noteq> []" by simp
  moreover have "sorted_wrt (<) ?ps" by (simp add: strict_sorted_iff)
  ultimately obtain q where q: "q \<le> 1" "?b q \<noteq> []" "w = hd (?b q)"
    using hd_concat_levels [of ?ps ?b 1] ws(2,3) eq by auto
  have "level Feature root today ?fs q = []"
  proof (rule ccontr)
    assume ne: "level Feature root today ?fs q \<noteq> []"
    then have "w \<in> set (level Feature root today ?fs q)" using q(3) by simp
    then show False using assms(2) by (auto simp: level_def to_item_def)
  qed
  with q one have "w \<in> set (level Bug root today ?bs q)" "q < 1"
    by (auto simp: order_less_le)
  then obtain raw where "raw \<in> set bs" "listed exclude raw" "item_id w = jget raw ''id''"
      "merged_priority Bug raw today < 1"
    by (auto simp: level_def to_item_def)
  with bug_priority_0 show ?thesis by blast
qed

theorem only_p0_bug_before_p1_feature_witness:
  "\<exists>raw\<in>set sample_bugs. listed {''parked''} raw \<and> jget raw ''id'' = JStr ''b0'' \<and>
    (json_severity (jget raw ''severity'') = Some 0 \<or>
     json_severity (jget raw ''severity'') = None \<and> json_severity (jget raw ''spec_severity'') = Some 0)"
proof -
  have "next_merged sample_features sample_bugs ''r'' 739814 {''parked''} =
      Inr (Some (to_item Bug ''r'' (sample_bugs ! 1)))"
    by (simp add: next_merged_def sample_worklist)
  moreover have "work_type (to_item Bug ''r'' (sample_bugs ! 1)) = Bug"
    "item_id (to_item Bug ''r'' (sample_bugs ! 1)) = JStr ''b0''"
    by (simp_all add: to_item_def sample_bugs_def jget_def)
  moreover have "sample_features ! 2 \<in> set sample_features" "listed {''parked''} (sample_features ! 2)"
    "merged_priority Feature (sample_features ! 2) 739814 = 1"
    by (simp_all add: sample_features_def listed_def priority_eval)
  ultimately show ?thesis
    using only_p0_bug_before_p1_feature [of sample_features sample_bugs "''r''" 739814 "{''parked''}"]
    by fastforce
qed

subsection \<open>Repositioning\<close>

lemma find_slot_Inr:
  "find_slot t today p others i = Inr d \<Longrightarrow> i \<le> d \<and> d \<le> i + length others \<and>
    (\<forall>k. i + k < d \<longrightarrow> merged_priority t (others ! k) today \<le> p) \<and>
    (d < i + length others \<longrightarrow> p < merged_priority t (others ! (d - i)) today)"
proof (induction others arbitrary: i)
  case Nil
  then show ?case by simp
next
  case (Cons e es)
  show ?case
  proof (cases "p < merged_priority t e today")
    case True
    with Cons.prems show ?thesis by (auto split: if_splits)
  next
    case False
    with Cons.prems have "find_slot t today p es (Suc i) = Inr d" by (auto split: if_splits)
    note ih = Cons.IH [OF this]
    then have "d - i = Suc (d - Suc i)" by linarith
    with ih False show ?thesis by (auto simp: nth_Cons split: nat.splits)
  qed
qed

lemma reposition_cases:
  assumes "reposition_by_priority items i t today = Inr (Some (items', dest))"
  obtains idx where "find_index (has_id i) items = Some idx" "idx < length items"
    "find_slot t today (merged_priority t (items ! idx) today) (remove_at idx items) 0 = Inr dest"
    "dest \<le> length (remove_at idx items)" "items' = insert_at dest (items ! idx) (remove_at idx items)"
proof -
  from assms obtain idx where r: "find_index (has_id i) items = Some idx"
    "find_slot t today (merged_priority t (items ! idx) today) (remove_at idx items) 0 = Inr dest"
    "items' = insert_at dest (items ! idx) (remove_at idx items)"
    by (auto simp: reposition_by_priority_def Let_def split: option.splits sum.splits)
  with find_slot_Inr [OF r(2)] find_index_SomeD [OF r(1)] show thesis
    by (intro that [of idx]) auto
qed

lemma sorted_insert_at:
  fixes f :: "'a \<Rightarrow> int"
  assumes "sorted (map f xs)" and "d \<le> length xs"
    and "\<And>k. k < d \<Longrightarrow> f (xs ! k) \<le> f x" and "d < length xs \<Longrightarrow> f x < f (xs ! d)"
  shows "sorted (map f (insert_at d x xs))"
proof -
  have ys: "f y \<le> f x" if y: "y \<in> set (take d xs)" for y
  proof -
    obtain k where "k < d" "k < length xs" "y = xs ! k" using y by (auto simp: in_set_conv_nth)
    with assms(3) show ?thesis by simp
  qed
  have zs: "f x \<le> f y" if y: "y \<in> set (drop d xs)" for y
  proof -
    obtain k where k: "k < length xs - d" "y = xs ! (d + k)" using y by (auto simp: in_set_conv_nth)
    with assms(4) have "f x < f (xs ! d)" by simp
    also have "f (xs ! d) \<le> f y" using sorted_nth_mono [OF assms(1), of d "d + k"] k by simp
    finally show ?thesis by simp
  qed
  have "sorted (map f (take d xs))" "sorted (map f (drop d xs))"
    "\<forall>y\<in>set (take d xs). \<forall>z\<in>set (drop d xs). f y \<le> f z"
    using assms(1) append_take_drop_id [of d xs]
    by (metis map_append sorted_append, metis map_append sorted_append,
        metis (no_types, lifting) image_eqI list.set_map map_append sorted_append)
  with ys zs show ?thesis by (auto simp: insert_at_def sorted_append)
qed

lemma reposition_stable:
  assumes "reposition_by_priority items i t today = Inr (Some (items', dest))"
  shows "\<exists>idx. find_index (has_id i) items = Some idx \<and> dest < length items' \<and>
    items' ! dest = items ! idx \<and> remove_at dest items' = remove_at idx items \<and>
    (\<forall>k<dest. merged_priority t (items' ! k) today \<le> merged_priority t (items ! idx) today) \<and>
    (Suc dest < length items' \<longrightarrow>
       merged_priority t (items ! idx) today < merged_priority t (items' ! Suc dest) today) \<and>
    (sorted (map (\<lambda>e. merged_priority t e today) (remove_at idx items)) \<longrightarrow>
       sorted (map (\<lambda>e. merged_priority t e today) items'))"
proof -
  from assms obtain idx where r: "find_index (has_id i) items = Some idx" "idx < length items"
    "find_slot t today (merged_priority t (items ! idx) today) (remove_at idx items) 0 = Inr dest"
    "dest \<le> length (remove_at idx items)" "items' = insert_at dest (items ! idx) (remove_at idx items)"
    by (rule reposition_cases)
  note slot = find_slot_Inr [OF r(3)]
  have before: "items' ! k = remove_at idx items ! k" if "k < dest" for k
    using that r(4,5) by (simp add: insert_at_def nth_append)
  have after: "items' ! Suc dest = remove_at idx items ! dest" if "Suc dest < length items'"
    using that r(4,5) by (auto simp: insert_at_def nth_append)
  have "sorted (map (\<lambda>e. merged_priority t e today) (remove_at idx items)) \<Longrightarrow>
      sorted (map (\<lambda>e. merged_priority t e today) items')"
    unfolding r(5) using slot r(4) by (intro sorted_insert_at) auto
  with r slot before after show ?thesis
    by (intro exI [of _ idx]) (auto simp: move_simps)
qed

text \<open>
  Repositioning is a surgical, stable insertion: the entry found by its id is moved and every
  other entry keeps its relative order; nothing before its new position has a lower priority, the
  entry after it has a strictly lower one (so it queues behind its equals), and a queue whose
  other entries are in priority order ends up in priority order.
\<close>

theorem reposition_stable_insert:
  assumes "reposition_by_priority items i t today = Inr (Some (items', dest))"
  shows "\<exists>idx. find_index (has_id i) items = Some idx \<and> dest < length items' \<and>
    items' ! dest = items ! idx \<and> remove_at dest items' = remove_at idx items \<and>
    (\<forall>k<dest. merged_priority t (items' ! k) today \<le> merged_priority t (items ! idx) today) \<and>
    (Suc dest < length items' \<longrightarrow>
       merged_priority t (items ! idx) today < merged_priority t (items' ! Suc dest) today) \<and>
    (sorted (map (\<lambda>e. merged_priority t e today) (remove_at idx items)) \<longrightarrow>
       sorted (map (\<lambda>e. merged_priority t e today) items'))"
  using assms by (rule reposition_stable)

theorem reposition_stable_insert_witness:
  "\<exists>items' dest. reposition_by_priority sample_bugs ''b0'' Bug 739814 = Inr (Some (items', dest)) \<and>
     items' ! dest = sample_bugs ! 1 \<and> remove_at dest items' = remove_at 1 sample_bugs"
proof -
  have idx: "find_index (has_id ''b0'') sample_bugs = Some 1"
    by (simp add: sample_bugs_def has_id_def jget_def)
  have "\<exists>items' dest. reposition_by_priority sample_bugs ''b0'' Bug 739814 = Inr (Some (items', dest))"
    by (simp add: reposition_by_priority_def idx Let_def)
      (simp add: sample_bugs_def remove_at_def priority_eval)
  then obtain items' dest where "reposition_by_priority sample_bugs ''b0'' Bug 739814 = Inr (Some (items', dest))"
    by blast
  with reposition_stable_insert [OF this] idx show ?thesis by auto
qed

end
