(* ===== verification/Queue_Store.thy ===== *)
theory Queue_Store
  imports Merged_Priority
begin

text \<open>
  The mutators of \<open>queue.json\<close> in \<^verbatim>\<open>user/scripts/lazy_core/depdag.py\<close>: each loads the document,
  finds the entry, changes it in memory and writes the whole document back atomically, or exits
  (\<open>Die\<close>) or raises without writing. The state is the file; the specification a projection reads
  is an argument.
\<close>

type_synonym queue_file = "json jfile"
type_synonym 'a queue_op = "(queue_file, py_error, 'a) op"

subsection \<open>Loading and saving\<close>

definition queue_items :: "json \<Rightarrow> py_error + json list" where
  "queue_items data =
     (if \<not> is_obj data then Inl AttributeError
      else if \<not> jhas data ''queue'' then Inr []
      else case jget data ''queue'' of JArr items \<Rightarrow> Inr items | _ \<Rightarrow> Inl (Die QueueNotArray))"

definition load_queue_for_mutation :: "queue_file \<Rightarrow> py_error + json \<times> json list" where
  "load_queue_for_mutation f =
     (case f of
        Absent \<Rightarrow> Inl (Die FileNotFound)
      | Corrupt \<Rightarrow> Inl (Die InvalidJson)
      | Content data \<Rightarrow> (case queue_items data of Inl x \<Rightarrow> Inl x | Inr items \<Rightarrow> Inr (data, items)))"

definition save_queue :: "json \<Rightarrow> json list \<Rightarrow> queue_file" where
  "save_queue data items = Content (jset ''queue'' (JArr items) data)"

text \<open>The shared prologue: load, then find the entry.\<close>

definition find_entry :: "queue_file \<Rightarrow> string \<Rightarrow> py_error + json \<times> json list \<times> nat" where
  "find_entry f i =
     (case load_queue_for_mutation f of
        Inl x \<Rightarrow> Inl x
      | Inr (data, items) \<Rightarrow>
          (case find_index (has_id i) items of
             None \<Rightarrow> Inl (Die (NotQueued i))
           | Some idx \<Rightarrow> Inr (data, items, idx)))"

subsection \<open>Reordering\<close>

datatype position = ToInt int | ToStr string

datatype move = Tail | Head | Remove | Index int

definition parse_position :: "position \<Rightarrow> py_error + move" where
  "parse_position to =
     (case to of
        ToInt n \<Rightarrow> Inr (Index n)
      | ToStr s \<Rightarrow>
          (let t = to_lower (strip s) in
           if t = ''tail'' then Inr Tail
           else if t = ''head'' then Inr Head
           else if t = ''remove'' then Inr Remove
           else case py_int t of None \<Rightarrow> Inl (Die BadPosition) | Some n \<Rightarrow> Inr (Index n)))"

record reorder_result =
  reorder_noop :: bool
  operation :: move
  new_position :: "nat option"
  queue_length :: nat

definition destination :: "move \<Rightarrow> nat \<Rightarrow> nat" where
  "destination m n =
     (case m of
        Tail \<Rightarrow> n - 1
      | Head \<Rightarrow> 0
      | Remove \<Rightarrow> 0
      | Index k \<Rightarrow> nat (max 0 (min k (int n - 1))))"

definition reorder_queue :: "string \<Rightarrow> position \<Rightarrow> reorder_result queue_op" where
  "reorder_queue i to f =
     (case parse_position to of
        Inl x \<Rightarrow> (Inl x, f)
      | Inr m \<Rightarrow>
          (case find_entry f i of
             Inl x \<Rightarrow> (Inl x, f)
           | Inr (data, items, idx) \<Rightarrow>
               if m = Remove then
                 (let items' = remove_at idx items in
                  (Inr \<lparr>reorder_noop = False, operation = Remove, new_position = None,
                        queue_length = length items'\<rparr>, save_queue data items'))
               else
                 (let dest = destination m (length items) in
                  if dest = idx then
                    (Inr \<lparr>reorder_noop = True, operation = m, new_position = Some dest,
                          queue_length = length items\<rparr>, f)
                  else
                    (let items' = insert_at dest (items ! idx) (remove_at idx items) in
                     (Inr \<lparr>reorder_noop = False, operation = m, new_position = Some dest,
                           queue_length = length items'\<rparr>, save_queue data items')))))"

subsection \<open>Clearing the stub flag, setting the independence marker\<close>

definition clear_queue_stub :: "string \<Rightarrow> (bool \<times> nat) queue_op" where
  "clear_queue_stub i f =
     (case find_entry f i of
        Inl x \<Rightarrow> (Inl x, f)
      | Inr (data, items, idx) \<Rightarrow>
          if \<not> jhas (items ! idx) ''stub'' then (Inr (False, length items), f)
          else (Inr (True, length items), save_queue data (items[idx := jpop ''stub'' (items ! idx)])))"

text \<open>The result of the remaining mutators: whether nothing changed, the dependencies after.\<close>

record mutation =
  mut_noop :: bool
  mut_deps :: "json list"
  mut_length :: nat

definition set_independent_marker :: "string \<Rightarrow> bool \<Rightarrow> mutation queue_op" where
  "set_independent_marker i v f =
     (case find_entry f i of
        Inl x \<Rightarrow> (Inl x, f)
      | Inr (data, items, idx) \<Rightarrow>
          let entry = items ! idx;
              would_change = (if v then jget entry ''independent'' \<noteq> JBool True
                              else jhas entry ''independent'');
              res = \<lparr>mut_noop = \<not> would_change, mut_deps = [], mut_length = length items\<rparr>
          in if \<not> would_change then (Inr res, f)
             else let entry' = (if v then jset ''independent'' (JBool True) entry
                                else jpop ''independent'' entry)
                  in (Inr res, save_queue data (items[idx := entry'])))"

subsection \<open>Dependencies\<close>

text \<open>\<open>list(v)\<close> of a truthy value.\<close>

definition py_list :: "json \<Rightarrow> py_error + json list" where
  "py_list v =
     (if \<not> truthy v then Inr []
      else case v of
          JArr xs \<Rightarrow> Inr xs
        | JStr s \<Rightarrow> Inr (map JStr (code_points s))
        | JObj d \<Rightarrow> Inr (map JStr (dkeys d))
        | _ \<Rightarrow> Inl PyTypeError)"

fun add_missing :: "string list \<Rightarrow> json list \<Rightarrow> json list" where
  "add_missing [] current = current"
| "add_missing (d # ds) current =
     add_missing ds (if JStr d \<in> set current then current else current @ [JStr d])"

fun remove_present :: "string list \<Rightarrow> json list \<Rightarrow> json list" where
  "remove_present [] current = current"
| "remove_present (d # ds) current = remove_present ds (remove1 (JStr d) current)"

definition set_deps :: "json list \<Rightarrow> json \<Rightarrow> json" where
  "set_deps ds entry = (if ds \<noteq> [] then jset ''deps'' (JArr ds) entry else jpop ''deps'' entry)"

definition deps_change :: "json list \<Rightarrow> json \<Rightarrow> bool" where
  "deps_change ds entry =
     (if ds \<noteq> [] then jget entry ''deps'' \<noteq> JArr ds else jhas entry ''deps'')"

text \<open>The write with its cycle guard on the entries as they would be.\<close>

definition guarded_write ::
  "json \<Rightarrow> json list \<Rightarrow> nat \<Rightarrow> json list \<Rightarrow> mutation queue_op" where
  "guarded_write data items idx ds f =
     (let items' = items[idx := set_deps ds (items ! idx)] in
      case detect_dep_cycle items' of
        Inl x \<Rightarrow> (Inl x, f)
      | Inr (Some cycle) \<Rightarrow> (Inl (Die (DepCycle cycle)), f)
      | Inr None \<Rightarrow>
          (Inr \<lparr>mut_noop = False, mut_deps = ds, mut_length = length items\<rparr>, save_queue data items'))"

definition deps_request :: "string \<Rightarrow> string list \<Rightarrow> string list \<Rightarrow> json \<Rightarrow> py_error + json list" where
  "deps_request i add remove entry =
     (case py_list (jget entry ''deps'') of
        Inl x \<Rightarrow> Inl x
      | Inr current \<Rightarrow>
          if add = [] then Inr (remove_present remove current)
          else case validate_dep_id_list (map JStr add) of
                 Inl x \<Rightarrow> Inl x
               | Inr _ \<Rightarrow>
                   if i \<in> set add then Inl (Die (SelfDep i))
                   else Inr (remove_present remove (add_missing add current)))"

definition mutate_queue_deps :: "string \<Rightarrow> string list \<Rightarrow> string list \<Rightarrow> mutation queue_op" where
  "mutate_queue_deps i add remove f =
     (case find_entry f i of
        Inl x \<Rightarrow> (Inl x, f)
      | Inr (data, items, idx) \<Rightarrow>
          (case deps_request i add remove (items ! idx) of
             Inl x \<Rightarrow> (Inl x, f)
           | Inr new_deps \<Rightarrow>
               if \<not> deps_change new_deps (items ! idx) then
                 (Inr \<lparr>mut_noop = True, mut_deps = new_deps, mut_length = length items\<rparr>, f)
               else guarded_write data items idx new_deps f))"

text \<open>
  The projection of a specification's hard dependencies. \<open>read_spec dir\<close> is the \<open>SPEC.md\<close> of a
  directory: missing, unreadable, or its text.
\<close>

fun hard_deps :: "spec_dep list \<Rightarrow> string list \<Rightarrow> string list" where
  "hard_deps [] acc = acc"
| "hard_deps (d # ds) acc =
     hard_deps ds (if dep_kind d = ''hard'' \<and> dep_feature d \<notin> set acc then acc @ [dep_feature d] else acc)"

definition spec_dir :: "string \<Rightarrow> json \<Rightarrow> py_error + string" where
  "spec_dir i entry =
     (let v = jget entry ''spec_dir'' in
      if \<not> truthy v then Inr i else case v of JStr s \<Rightarrow> Inr s | _ \<Rightarrow> Inl PyTypeError)"

definition spec_hard_deps :: "(string \<Rightarrow> string jfile) \<Rightarrow> string \<Rightarrow> json \<Rightarrow> py_error + string list" where
  "spec_hard_deps read_spec i entry =
     (case spec_dir i entry of
        Inl x \<Rightarrow> Inl x
      | Inr dir \<Rightarrow>
          (case read_spec dir of
             Absent \<Rightarrow> Inl (Die NoSpec)
           | Corrupt \<Rightarrow> Inl (Die UnreadableSpec)
           | Content text \<Rightarrow>
               let hard = hard_deps (parse_dep_block text) [] in
               case validate_dep_id_list (map JStr hard) of
                 Inl x \<Rightarrow> Inl x
               | Inr _ \<Rightarrow> if i \<in> set hard then Inl (Die (SelfDep i)) else Inr hard))"

definition sync_deps :: "(string \<Rightarrow> string jfile) \<Rightarrow> string \<Rightarrow> mutation queue_op" where
  "sync_deps read_spec i f =
     (case find_entry f i of
        Inl x \<Rightarrow> (Inl x, f)
      | Inr (data, items, idx) \<Rightarrow>
          (case spec_hard_deps read_spec i (items ! idx) of
             Inl x \<Rightarrow> (Inl x, f)
           | Inr hard \<Rightarrow>
               if \<not> deps_change (map JStr hard) (items ! idx) then
                 (Inr \<lparr>mut_noop = True, mut_deps = map JStr hard, mut_length = length items\<rparr>, f)
               else guarded_write data items idx (map JStr hard) f))"

subsection \<open>Priorities\<close>

fun coerce_token :: "json \<Rightarrow> py_error + json" where
  "coerce_token (JBool b) = Inl (Die BadTier)"
| "coerce_token (JInt n) = Inr (JInt n)"
| "coerce_token (JStr s) =
     (let key = strip s in
      if dhas tier_enum key then Inr (JStr key)
      else case py_int key of None \<Rightarrow> Inl (Die BadTier) | Some n \<Rightarrow> Inr (JInt n))"
| "coerce_token _ = Inl (Die BadTier)"

fun coerce_tokens :: "json list \<Rightarrow> py_error + json list" where
  "coerce_tokens [] = Inr []"
| "coerce_tokens (t # ts) =
     (case coerce_token t of
        Inl x \<Rightarrow> Inl x
      | Inr v \<Rightarrow> (case coerce_tokens ts of Inl x \<Rightarrow> Inl x | Inr vs \<Rightarrow> Inr (v # vs)))"

definition tier_tokens :: "json \<Rightarrow> json list" where
  "tier_tokens v =
     (case v of
        JArr xs \<Rightarrow> xs
      | JStr s \<Rightarrow> if CHR '','' \<in> set s
                  then map (\<lambda>t. JStr (strip t)) (filter (\<lambda>t. strip t \<noteq> []) (py_split '','' s))
                  else [v]
      | _ \<Rightarrow> [v])"

definition coerce_set_tier_value :: "json \<Rightarrow> py_error + json" where
  "coerce_set_tier_value v =
     (case coerce_tokens (tier_tokens v) of
        Inl x \<Rightarrow> Inl x
      | Inr [] \<Rightarrow> Inl (Die NoTier)
      | Inr [x] \<Rightarrow> Inr x
      | Inr xs \<Rightarrow> Inr (JArr xs))"

definition set_priority_field :: "item_type \<Rightarrow> json \<Rightarrow> json \<Rightarrow> py_error + json" where
  "set_priority_field t v entry =
     (case t of
        Feature \<Rightarrow>
          (case coerce_set_tier_value v of
             Inl x \<Rightarrow> Inl x
           | Inr coerced \<Rightarrow> Inr (jset ''tier'' coerced entry))
      | Bug \<Rightarrow>
          (let sev = (case v of JStr s \<Rightarrow> strip s | _ \<Rightarrow> []) in
           if \<not> dhas severity_rank sev then Inl (Die BadSeverity)
           else Inr (jpop ''pin_reason'' (jpop ''pinned_until'' (jpop ''pinned_at''
                  (jset ''severity'' (JStr sev) entry))))))"

record priority_result =
  old_position :: nat
  moved_to :: "nat option"
  priority_length :: nat

definition set_queue_priority :: "string \<Rightarrow> item_type \<Rightarrow> json \<Rightarrow> int \<Rightarrow> priority_result queue_op" where
  "set_queue_priority i t v today f =
     (case find_entry f i of
        Inl x \<Rightarrow> (Inl x, f)
      | Inr (data, items, idx) \<Rightarrow>
          (case set_priority_field t v (items ! idx) of
             Inl x \<Rightarrow> (Inl x, f)
           | Inr entry' \<Rightarrow>
               (case reposition_by_priority (items[idx := entry']) i t today of
                  Inl x \<Rightarrow> (Inl x, f)
                | Inr None \<Rightarrow>
                    (Inr \<lparr>old_position = idx, moved_to = None, priority_length = length items\<rparr>,
                     save_queue data (items[idx := entry']))
                | Inr (Some (items', dest)) \<Rightarrow>
                    (Inr \<lparr>old_position = idx, moved_to = Some dest, priority_length = length items'\<rparr>,
                     save_queue data items'))))"

subsection \<open>What a graph check sees of an entry\<close>

definition graph_view :: "json \<Rightarrow> bool \<times> json \<times> bool \<times> json" where
  "graph_view e = (is_obj e, jget e ''id'', jhas e ''deps'', jget e ''deps'')"

definition queue_ok :: "json list \<Rightarrow> bool" where
  "queue_ok items \<longleftrightarrow> hashable_ids items \<and> list_all deps_ok items \<and> \<not> dep_cyclic items"

lemma queue_ok_validates: "queue_ok items \<longleftrightarrow> hashable_ids items \<and> validate_queue_deps items = Inr ()"
  using validate_queue_iff by (auto simp: queue_ok_def)

lemma graph_view_eq:
  assumes "graph_view e = graph_view e'"
  shows "is_obj e = is_obj e'" "has_str_id e = has_str_id e'" "entry_id e = entry_id e'"
    "dep_ids e = dep_ids e'" "deps_ok e = deps_ok e'" "jget e ''id'' = jget e' ''id''"
  using assms by (auto simp: graph_view_def has_str_id_def entry_id_def dep_ids_def deps_ok_def)

lemma set_queue_nodes: "set (queue_nodes items) = entry_id ` {e \<in> set items. has_str_id e}"
  by (simp add: queue_nodes_def)

lemma set_dep_edges:
  "set (dep_edges items) =
     {(d, entry_id e) | d e. e \<in> set items \<and> has_str_id e \<and> d \<in> set (dep_ids e) \<and>
        d \<in> set (queue_nodes items)}"
  by (auto simp: dep_edges_def)

lemma view_mem:
  assumes "graph_view ` set items' \<subseteq> graph_view ` set items" and "e \<in> set items'"
  obtains e0 where "e0 \<in> set items" "graph_view e = graph_view e0"
proof -
  have "graph_view e \<in> graph_view ` set items" using assms by blast
  then show thesis using that by auto
qed

lemma queue_ok_view:
  assumes sub: "graph_view ` set items' \<subseteq> graph_view ` set items" and ok: "queue_ok items"
  shows "queue_ok items'"
proof -
  have nodes: "set (queue_nodes items') \<subseteq> set (queue_nodes items)"
  proof
    fix x assume "x \<in> set (queue_nodes items')"
    then obtain e where e: "e \<in> set items'" "has_str_id e" "x = entry_id e"
      by (auto simp: set_queue_nodes)
    obtain e0 where "e0 \<in> set items" "graph_view e = graph_view e0" by (rule view_mem [OF sub e(1)])
    with e graph_view_eq [of e e0] show "x \<in> set (queue_nodes items)" by (auto simp: set_queue_nodes)
  qed
  have "set (dep_edges items') \<subseteq> set (dep_edges items)"
  proof
    fix p assume "p \<in> set (dep_edges items')"
    then obtain d e where e: "p = (d, entry_id e)" "e \<in> set items'" "has_str_id e" "d \<in> set (dep_ids e)"
        "d \<in> set (queue_nodes items')" by (auto simp: set_dep_edges)
    obtain e0 where "e0 \<in> set items" "graph_view e = graph_view e0" by (rule view_mem [OF sub e(2)])
    with e nodes graph_view_eq [of e e0] show "p \<in> set (dep_edges items)" by (auto simp: set_dep_edges)
  qed
  then have "\<not> dep_cyclic items'"
    using ok acyclic_subset by (auto simp: queue_ok_def dep_cyclic_def)
  moreover have "deps_ok e \<and> (is_obj e \<longrightarrow> hashable (jget e ''id''))" if e: "e \<in> set items'" for e
  proof -
    obtain e0 where "e0 \<in> set items" "graph_view e = graph_view e0" by (rule view_mem [OF sub e])
    with ok graph_view_eq [of e e0] show ?thesis
      by (auto simp: queue_ok_def list_all_iff hashable_ids_def)
  qed
  ultimately show ?thesis by (simp add: queue_ok_def list_all_iff hashable_ids_def)
qed

lemma queue_ok_subset: "set items' \<subseteq> set items \<Longrightarrow> queue_ok items \<Longrightarrow> queue_ok items'"
  by (rule queue_ok_view) auto

lemma queue_ok_update:
  "queue_ok items \<Longrightarrow> idx < length items \<Longrightarrow> graph_view e = graph_view (items ! idx) \<Longrightarrow>
    queue_ok (items[idx := e])"
proof (rule queue_ok_view)
  assume "idx < length items" "graph_view e = graph_view (items ! idx)"
  then show "graph_view ` set (items[idx := e]) \<subseteq> graph_view ` set items"
    using set_update_subset_insert [of items idx e] by (auto dest!: subsetD)
qed

lemma graph_view_set_pop [simp]:
  "is_obj e \<Longrightarrow> k \<noteq> ''id'' \<Longrightarrow> k \<noteq> ''deps'' \<Longrightarrow> graph_view (jset k v e) = graph_view e"
  "is_obj e \<Longrightarrow> k \<noteq> ''id'' \<Longrightarrow> k \<noteq> ''deps'' \<Longrightarrow> graph_view (jpop k e) = graph_view e"
  by (simp_all add: graph_view_def dict_simps)

subsection \<open>The contract of a mutator\<close>

text \<open>
  What the mutators share: an error leaves the file as it was; a success leaves it as it was or
  replaces the queue of the document it loaded; and a queue that validates is replaced by one
  that does.
\<close>

locale queue_mutator =
  fixes run :: "'r queue_op"
  assumes error_keeps: "run f = (Inl x, f') \<Longrightarrow> f' = f"
    and success: "run f = (Inr r, f') \<Longrightarrow>
      \<exists>data items. load_queue_for_mutation f = Inr (data, items) \<and>
        (f' = f \<or> (\<exists>items'. f' = save_queue data items' \<and> (queue_ok items \<longrightarrow> queue_ok items')))"
begin

lemma loads_again:
  assumes "run f = (Inr r, f')"
  shows "\<exists>data items items'. load_queue_for_mutation f = Inr (data, items) \<and>
    (\<exists>data'. load_queue_for_mutation f' = Inr (data', items') \<and>
       (\<forall>k. k \<noteq> ''queue'' \<longrightarrow> jget data' k = jget data k)) \<and> (queue_ok items \<longrightarrow> queue_ok items')"
proof -
  from success [OF assms] obtain data items where l: "load_queue_for_mutation f = Inr (data, items)"
    and f': "f' = f \<or> (\<exists>items'. f' = save_queue data items' \<and> (queue_ok items \<longrightarrow> queue_ok items'))"
    by blast
  have "load_queue_for_mutation (save_queue data items') = Inr (jset ''queue'' (JArr items') data, items')"
    for items'
    by (simp add: load_queue_for_mutation_def save_queue_def queue_items_def dict_simps)
  with l f' show ?thesis by (auto simp: dict_simps)
qed

lemma keeps_valid:
  "load_queue_for_mutation f = Inr (data, items) \<Longrightarrow> queue_ok items \<Longrightarrow> run f = (res, f') \<Longrightarrow>
    \<exists>data' items'. load_queue_for_mutation f' = Inr (data', items') \<and> queue_ok items'"
proof (cases res)
  case (Inl x)
  assume "load_queue_for_mutation f = Inr (data, items)" "queue_ok items" "run f = (res, f')"
  with Inl error_keeps show ?thesis by blast
next
  case (Inr r)
  assume "load_queue_for_mutation f = Inr (data, items)" "queue_ok items" "run f = (res, f')"
  with Inr loads_again [of f r f'] show ?thesis by fastforce
qed

end

subsection \<open>Every mutator keeps the contract\<close>

lemma find_entry_Inr:
  assumes "find_entry f i = Inr (data, items, idx)"
  shows "load_queue_for_mutation f = Inr (data, items)" "idx < length items" "is_obj (items ! idx)"
    "jget (items ! idx) ''id'' = JStr i" "find_index (has_id i) items = Some idx"
  using assms find_index_SomeD [of "has_id i" items idx]
  by (auto simp: find_entry_def has_id_def split: sum.splits option.splits)

lemma set_remove_insert: "idx < length items \<Longrightarrow> set (insert_at d (items ! idx) (remove_at idx items)) = set items"
  using mset_move [of idx items d] by (metis set_mset_mset)

lemma reorder_success:
  assumes "reorder_queue i to f = (Inr r, f')"
  obtains data items idx where "find_entry f i = Inr (data, items, idx)"
    "f' = f \<or> (\<exists>items'. f' = save_queue data items' \<and> set items' \<subseteq> set items)"
proof -
  from assms obtain m data items idx where m: "parse_position to = Inr m"
    "find_entry f i = Inr (data, items, idx)"
    by (auto simp: reorder_queue_def split: sum.splits)
  note e = find_entry_Inr [OF m(2)]
  have "f' = f \<or> (\<exists>items'. f' = save_queue data items' \<and> set items' \<subseteq> set items)"
    using assms m set_remove_at_subset [of idx items] set_remove_insert [OF e(2)]
    by (fastforce simp: reorder_queue_def Let_def split: if_splits)
  with m that show thesis by blast
qed

interpretation reorder: queue_mutator "reorder_queue i to" for i to
proof
  show "reorder_queue i to f = (Inl x, f') \<Longrightarrow> f' = f" for f x f'
    by (auto simp: reorder_queue_def Let_def split: sum.splits if_splits)
  fix f r f' assume run: "reorder_queue i to f = (Inr r, f')"
  obtain data items idx where "find_entry f i = Inr (data, items, idx)"
    "f' = f \<or> (\<exists>items'. f' = save_queue data items' \<and> set items' \<subseteq> set items)"
    by (rule reorder_success [OF run])
  with find_entry_Inr(1) [OF this(1)] queue_ok_subset
  show "\<exists>data items. load_queue_for_mutation f = Inr (data, items) \<and>
        (f' = f \<or> (\<exists>items'. f' = save_queue data items' \<and> (queue_ok items \<longrightarrow> queue_ok items')))"
    by blast
qed

lemma update_success:
  assumes "find_entry f i = Inr (data, items, idx)" and "graph_view e = graph_view (items ! idx)"
    and "f' = f \<or> f' = save_queue data (items[idx := e])"
  shows "\<exists>data items. load_queue_for_mutation f = Inr (data, items) \<and>
    (f' = f \<or> (\<exists>items'. f' = save_queue data items' \<and> (queue_ok items \<longrightarrow> queue_ok items')))"
  using assms find_entry_Inr(1,2) [OF assms(1)] queue_ok_update by blast

interpretation stub: queue_mutator "clear_queue_stub i" for i
proof
  show "clear_queue_stub i f = (Inl x, f') \<Longrightarrow> f' = f" for f x f'
    by (auto simp: clear_queue_stub_def split: sum.splits if_splits)
  fix f r f' assume "clear_queue_stub i f = (Inr r, f')"
  then obtain data items idx where r: "find_entry f i = Inr (data, items, idx)"
    "f' = f \<or> f' = save_queue data (items[idx := jpop ''stub'' (items ! idx)])"
    by (auto simp: clear_queue_stub_def split: sum.splits if_splits)
  show "\<exists>data items. load_queue_for_mutation f = Inr (data, items) \<and>
        (f' = f \<or> (\<exists>items'. f' = save_queue data items' \<and> (queue_ok items \<longrightarrow> queue_ok items')))"
    by (rule update_success [OF r(1) _ r(2)]) (simp add: find_entry_Inr(3) [OF r(1)])
qed

interpretation marker: queue_mutator "set_independent_marker i v" for i v
proof
  show "set_independent_marker i v f = (Inl x, f') \<Longrightarrow> f' = f" for f x f'
    by (auto simp: set_independent_marker_def Let_def split: sum.splits if_splits)
  fix f r f' assume "set_independent_marker i v f = (Inr r, f')"
  then obtain data items idx where r: "find_entry f i = Inr (data, items, idx)"
    "f' = f \<or> f' = save_queue data (items[idx := if v then jset ''independent'' (JBool True) (items ! idx)
       else jpop ''independent'' (items ! idx)])"
    by (auto simp: set_independent_marker_def Let_def split: sum.splits if_splits)
  show "\<exists>data items. load_queue_for_mutation f = Inr (data, items) \<and>
        (f' = f \<or> (\<exists>items'. f' = save_queue data items' \<and> (queue_ok items \<longrightarrow> queue_ok items')))"
    by (rule update_success [OF r(1) _ r(2)]) (simp add: find_entry_Inr(3) [OF r(1)])
qed

lemma set_priority_field_view:
  "set_priority_field t v e = Inr e' \<Longrightarrow> is_obj e \<Longrightarrow> graph_view e' = graph_view e"
  by (auto simp: set_priority_field_def Let_def split: item_type.splits sum.splits if_splits)

interpretation priority: queue_mutator "set_queue_priority i t v today" for i t v today
proof
  show "set_queue_priority i t v today f = (Inl x, f') \<Longrightarrow> f' = f" for f x f'
    by (auto simp: set_queue_priority_def split: sum.splits option.splits)
  fix f r f' assume "set_queue_priority i t v today f = (Inr r, f')"
  then obtain data items idx e res where r: "find_entry f i = Inr (data, items, idx)"
    "set_priority_field t v (items ! idx) = Inr e"
    "reposition_by_priority (items[idx := e]) i t today = Inr res"
    "f' = save_queue data (case res of None \<Rightarrow> items[idx := e] | Some (items', dest) \<Rightarrow> items')"
    by (auto simp: set_queue_priority_def split: sum.splits option.splits)
  note fe = find_entry_Inr [OF r(1)]
  have "set (case res of None \<Rightarrow> items[idx := e] | Some (items', dest) \<Rightarrow> items') = set (items[idx := e])"
    using r(3) set_remove_insert by (auto split: option.splits elim!: reposition_cases)
  moreover have "queue_ok items \<Longrightarrow> queue_ok (items[idx := e])"
    using queue_ok_update [OF _ fe(2)] set_priority_field_view [OF r(2) fe(3)] by blast
  ultimately have "queue_ok items \<Longrightarrow>
      queue_ok (case res of None \<Rightarrow> items[idx := e] | Some (items', dest) \<Rightarrow> items')"
    using queue_ok_subset by blast
  with fe(1) r(4) show "\<exists>data items. load_queue_for_mutation f = Inr (data, items) \<and>
        (f' = f \<or> (\<exists>items'. f' = save_queue data items' \<and> (queue_ok items \<longrightarrow> queue_ok items')))"
    by blast
qed

lemma guarded_write_cases:
  assumes "guarded_write data items idx ds f = (r, f')"
  obtains (refused) x where "r = Inl x" "f' = f"
  | (written) "r = Inr \<lparr>mut_noop = False, mut_deps = ds, mut_length = length items\<rparr>"
      "f' = save_queue data (items[idx := set_deps ds (items ! idx)])"
      "detect_dep_cycle (items[idx := set_deps ds (items ! idx)]) = Inr None"
  using assms by (auto simp: guarded_write_def Let_def split: sum.splits option.splits)

lemma set_deps_facts:
  assumes "is_obj e" and "list_all dep_ok ds"
  shows "jget (set_deps ds e) ''id'' = jget e ''id''" "is_obj (set_deps ds e)" "deps_ok (set_deps ds e)"
  using assms by (auto simp: set_deps_def deps_ok_def dict_simps)

lemma queue_ok_set_deps:
  assumes "queue_ok items" and "idx < length items" and "is_obj (items ! idx)" and "list_all dep_ok ds"
    and "detect_dep_cycle (items[idx := set_deps ds (items ! idx)]) = Inr None"
  shows "queue_ok (items[idx := set_deps ds (items ! idx)])"
proof -
  let ?items = "items[idx := set_deps ds (items ! idx)]"
  note new = set_deps_facts [OF assms(3,4)]
  have old: "items ! idx \<in> set items" using assms(2) by simp
  have "deps_ok e \<and> (is_obj e \<longrightarrow> hashable (jget e ''id''))" if "e \<in> set ?items" for e
    using set_update_subset_insert [of items idx] that assms(1,3) new old
    by (fastforce simp: queue_ok_def list_all_iff hashable_ids_def)
  then have "hashable_ids ?items" "list_all deps_ok ?items"
    by (auto simp: hashable_ids_def list_all_iff)
  with detect_None_iff(1) [of ?items] assms(5) show ?thesis by (simp add: queue_ok_def)
qed

lemma remove1_ok: "list_all dep_ok xs \<Longrightarrow> list_all dep_ok (remove_present ds xs)"
  by (induction ds arbitrary: xs) (auto simp: list_all_iff dest: in_set_remove1 set_remove1_subset [THEN subsetD])

lemma add_ok: "list_all dep_ok xs \<Longrightarrow> list_all dep_ok (map JStr ds) \<Longrightarrow> list_all dep_ok (add_missing ds xs)"
  by (induction ds arbitrary: xs) auto

lemma current_deps_ok:
  assumes "deps_ok e" and "is_obj e" and "py_list (jget e ''deps'') = Inr xs"
  shows "list_all dep_ok xs"
proof (cases "jhas e ''deps''")
  case True
  with assms show ?thesis by (auto simp: deps_ok_def py_list_def split: json.splits if_splits)
next
  case False
  with assms(3) jget_not_has [OF False] show ?thesis by (simp add: py_list_def)
qed

lemma deps_request_ok:
  assumes "deps_ok e" and "is_obj e" and "deps_request i add remove e = Inr ds"
  shows "list_all dep_ok ds"
proof -
  obtain xs where xs: "py_list (jget e ''deps'') = Inr xs"
    using assms(3) by (auto simp: deps_request_def split: sum.splits)
  note ok = current_deps_ok [OF assms(1,2) xs]
  from assms(3) xs have "ds = remove_present remove xs \<or>
      validate_dep_id_list (map JStr add) = Inr () \<and> ds = remove_present remove (add_missing add xs)"
    by (auto simp: deps_request_def split: sum.splits if_splits)
  with ok add_ok [OF ok] show ?thesis by (auto simp: validate_list_iff intro: remove1_ok)
qed

lemma guarded_success:
  assumes e: "find_entry f i = Inr (data, items, idx)"
    and ok: "deps_ok (items ! idx) \<Longrightarrow> list_all dep_ok ds"
    and f': "f' = f \<or> guarded_write data items idx ds f = (Inr r, f')"
  shows "\<exists>data items. load_queue_for_mutation f = Inr (data, items) \<and>
    (f' = f \<or> (\<exists>items'. f' = save_queue data items' \<and> (queue_ok items \<longrightarrow> queue_ok items')))"
proof -
  note fe = find_entry_Inr [OF e]
  have "queue_ok items \<Longrightarrow> deps_ok (items ! idx)"
    using fe(2) by (simp add: queue_ok_def list_all_length)
  with ok queue_ok_set_deps [OF _ fe(2,3)] fe(1) f' show ?thesis
    by (auto elim!: guarded_write_cases)
qed

interpretation deps: queue_mutator "mutate_queue_deps i add remove" for i add remove
proof
  show "mutate_queue_deps i add remove f = (Inl x, f') \<Longrightarrow> f' = f" for f x f'
    by (auto simp: mutate_queue_deps_def split: sum.splits if_splits elim: guarded_write_cases)
  fix f r f' assume "mutate_queue_deps i add remove f = (Inr r, f')"
  then obtain data items idx ds where e: "find_entry f i = Inr (data, items, idx)"
    "deps_request i add remove (items ! idx) = Inr ds"
    "f' = f \<or> guarded_write data items idx ds f = (Inr r, f')"
    by (auto simp: mutate_queue_deps_def split: sum.splits if_splits)
  show "\<exists>data items. load_queue_for_mutation f = Inr (data, items) \<and>
        (f' = f \<or> (\<exists>items'. f' = save_queue data items' \<and> (queue_ok items \<longrightarrow> queue_ok items')))"
    by (rule guarded_success [OF e(1) _ e(3)])
      (rule deps_request_ok [OF _ find_entry_Inr(3) [OF e(1)] e(2)])
qed

lemma spec_hard_deps_ok: "spec_hard_deps read_spec i e = Inr hard \<Longrightarrow> list_all dep_ok (map JStr hard)"
  by (auto simp: spec_hard_deps_def Let_def validate_list_iff [symmetric]
      split: sum.splits jfile.splits if_splits)

interpretation sync: queue_mutator "sync_deps read_spec i" for read_spec i
proof
  show "sync_deps read_spec i f = (Inl x, f') \<Longrightarrow> f' = f" for f x f'
    by (auto simp: sync_deps_def split: sum.splits if_splits elim: guarded_write_cases)
  fix f r f' assume "sync_deps read_spec i f = (Inr r, f')"
  then obtain data items idx hard where e: "find_entry f i = Inr (data, items, idx)"
    "spec_hard_deps read_spec i (items ! idx) = Inr hard"
    "f' = f \<or> guarded_write data items idx (map JStr hard) f = (Inr r, f')"
    by (auto simp: sync_deps_def split: sum.splits if_splits)
  show "\<exists>data items. load_queue_for_mutation f = Inr (data, items) \<and>
        (f' = f \<or> (\<exists>items'. f' = save_queue data items' \<and> (queue_ok items \<longrightarrow> queue_ok items')))"
    by (rule guarded_success [OF e(1) _ e(3)]) (rule spec_hard_deps_ok [OF e(2)])
qed

subsection \<open>Runs of queue commands\<close>

datatype queue_cmd =
    Reorder string position
  | ClearStub string
  | SetIndependent string bool
  | MutateDeps string "string list" "string list"
  | SyncDeps "string \<Rightarrow> string jfile" string
  | SetPriority string item_type json int

definition forget :: "(py_error + 'a) \<times> queue_file \<Rightarrow> (py_error + unit) \<times> queue_file" where
  "forget rf = (map_sum id (\<lambda>_. ()) (fst rf), snd rf)"

fun run_cmd :: "queue_cmd \<Rightarrow> unit queue_op" where
  "run_cmd (Reorder i to) = (\<lambda>f. forget (reorder_queue i to f))"
| "run_cmd (ClearStub i) = (\<lambda>f. forget (clear_queue_stub i f))"
| "run_cmd (SetIndependent i v) = (\<lambda>f. forget (set_independent_marker i v f))"
| "run_cmd (MutateDeps i add remove) = (\<lambda>f. forget (mutate_queue_deps i add remove f))"
| "run_cmd (SyncDeps read_spec i) = (\<lambda>f. forget (sync_deps read_spec i f))"
| "run_cmd (SetPriority i t v today) = (\<lambda>f. forget (set_queue_priority i t v today f))"

text \<open>Running commands one after the other, whether or not one of them exits with an error.\<close>

definition run_cmds :: "queue_cmd list \<Rightarrow> queue_file \<Rightarrow> queue_file" where
  "run_cmds cs f = fold (\<lambda>c f. snd (run_cmd c f)) cs f"

lemma forget_mutator:
  assumes "queue_mutator run"
  shows "queue_mutator (\<lambda>f. forget (run f))"
proof
  show "forget (run f) = (Inl x, f') \<Longrightarrow> f' = f" for f x f'
    using queue_mutator.error_keeps [OF assms, of f x f']
    by (cases "run f"; cases "fst (run f)") (auto simp: forget_def)
  show "\<exists>data items. load_queue_for_mutation f = Inr (data, items) \<and>
        (f' = f \<or> (\<exists>items'. f' = save_queue data items' \<and> (queue_ok items \<longrightarrow> queue_ok items')))"
    if "forget (run f) = (Inr r, f')" for f r f'
  proof -
    from that obtain r' where "run f = (Inr r', f')"
      by (cases "run f"; cases "fst (run f)") (auto simp: forget_def)
    then show ?thesis by (rule queue_mutator.success [OF assms])
  qed
qed

lemmas mutators = reorder.queue_mutator_axioms stub.queue_mutator_axioms marker.queue_mutator_axioms
  deps.queue_mutator_axioms sync.queue_mutator_axioms priority.queue_mutator_axioms

interpretation cmd: queue_mutator "run_cmd c" for c
  by (cases c) (simp_all add: forget_mutator [OF mutators(1)] forget_mutator [OF mutators(2)]
      forget_mutator [OF mutators(3)] forget_mutator [OF mutators(4)] forget_mutator [OF mutators(5)]
      forget_mutator [OF mutators(6)])

text \<open>
  C39. Zero mutation on error, and surgical success: a queue command that exits or raises leaves
  \<open>queue.json\<close> untouched, and one that succeeds changes nothing of the document but its
  \<open>queue\<close> key.
\<close>

theorem queue_command_atomic:
  "case run_cmd c f of
     (Inl x, f') \<Rightarrow> f' = f
   | (Inr u, f') \<Rightarrow> \<exists>data items data' items'. load_queue_for_mutation f = Inr (data, items) \<and>
       load_queue_for_mutation f' = Inr (data', items') \<and>
       (\<forall>k. k \<noteq> ''queue'' \<longrightarrow> jget data' k = jget data k)"
proof -
  obtain r f' where r: "run_cmd c f = (r, f')" by fastforce
  show ?thesis
  proof (cases r)
    case (Inl x)
    with r show ?thesis using cmd.error_keeps [of c f x f'] by simp
  next
    case (Inr u)
    with r cmd.loads_again [of c f u f'] show ?thesis by fastforce
  qed
qed

text \<open>
  C30. A validated queue stays validated: starting from a queue file with hashable ids that
  \<open>validate_queue_deps\<close> accepts, every sequence of queue commands (moves, removals, dependency edits,
  projections, priority changes, flags), failing ones included, ends in a file that loads and is
  accepted again; so no sequence of commands makes the next load fail.
\<close>

theorem commands_keep_queue_valid:
  assumes "load_queue_for_mutation f = Inr (data, items)" and "hashable_ids items"
    and "validate_queue_deps items = Inr ()"
  shows "\<exists>data' items'. load_queue_for_mutation (run_cmds cs f) = Inr (data', items') \<and>
    hashable_ids items' \<and> validate_queue_deps items' = Inr ()"
  using assms
proof (induction cs arbitrary: f data items)
  case Nil
  then show ?case by (simp add: run_cmds_def)
next
  case (Cons c cs)
  obtain r f' where r: "run_cmd c f = (r, f')" by fastforce
  with cmd.keeps_valid [OF Cons.prems(1) _ r] Cons.prems(2,3)
  obtain data' items' where "load_queue_for_mutation f' = Inr (data', items')" "queue_ok items'"
    by (auto simp: queue_ok_validates)
  with Cons.IH [of f' data' items'] r show ?case by (auto simp: queue_ok_validates run_cmds_def)
qed

lemma acyclic_rank:
  fixes f :: "'a \<Rightarrow> nat"
  assumes "\<And>x y. (x, y) \<in> r \<Longrightarrow> f x < f y"
  shows "acyclic r"
proof -
  have "r \<subseteq> measure f" using assms by auto
  then show ?thesis by (intro wf_acyclic wf_subset [OF wf_measure])
qed

definition sample_queue :: queue_file where
  "sample_queue = Content (JObj [(''version'', JInt 2), (''queue'', JArr
     [dep_entry ''a'' [''b''], dep_entry ''b'' [''c''], JObj [(''id'', JStr ''c'')]])])"

lemma sample_queue_loads:
  "load_queue_for_mutation sample_queue = Inr (JObj [(''version'', JInt 2), (''queue'', JArr
     [dep_entry ''a'' [''b''], dep_entry ''b'' [''c''], JObj [(''id'', JStr ''c'')]])],
     [dep_entry ''a'' [''b''], dep_entry ''b'' [''c''], JObj [(''id'', JStr ''c'')]])"
  by (simp add: sample_queue_def load_queue_for_mutation_def queue_items_def jget_def jhas_def)

lemma sample_queue_valid:
  "queue_ok [dep_entry ''a'' [''b''], dep_entry ''b'' [''c''], JObj [(''id'', JStr ''c'')]]"
proof -
  let ?q = "[dep_entry ''a'' [''b''], dep_entry ''b'' [''c''], JObj [(''id'', JStr ''c'')]]"
  have "set (dep_edges ?q) = {(''b'', ''a''), (''c'', ''b'')}" by (auto simp: graph_eval)
  then have "acyclic (set (dep_edges ?q))"
    by (intro acyclic_rank [where f = "\<lambda>i. if i = ''c'' then 0 else if i = ''b'' then 1 else 2"]) auto
  then show ?thesis
    by (simp add: queue_ok_def dep_cyclic_def hashable_ids_def deps_ok_def graph_eval dep_ok_def
        dep_id_re_def plain_id_def id_start_def)
qed

theorem commands_keep_queue_valid_witness:
  "\<exists>data items. load_queue_for_mutation (run_cmds [MutateDeps ''c'' [''a''] [], Reorder ''c'' (ToStr ''head''),
      MutateDeps ''a'' [] [''b'']] sample_queue) = Inr (data, items) \<and> validate_queue_deps items = Inr ()"
  using commands_keep_queue_valid [OF sample_queue_loads] sample_queue_valid
  unfolding queue_ok_validates by blast

subsection \<open>What the single commands do\<close>

lemma load_save [simp]:
  "load_queue_for_mutation (save_queue data items) = Inr (jset ''queue'' (JArr items) data, items)"
  by (simp add: load_queue_for_mutation_def save_queue_def queue_items_def dict_simps)

lemma destination_bound: "0 < n \<Longrightarrow> destination m n < n"
  by (cases m) (auto simp: destination_def)

text \<open>
  Reordering is exact: a successful \<open>reorder_queue\<close> drops the entry, or puts it at the tail,
  the head or the requested index clamped into range, with every other entry in its old relative
  order; it reports that position, and a no-op leaves the file byte for byte.
\<close>

theorem reorder_queue_exact:
  assumes "reorder_queue i to f = (Inr r, f')"
  shows "\<exists>m data items idx data' items'. parse_position to = Inr m \<and>
    load_queue_for_mutation f = Inr (data, items) \<and> find_index (has_id i) items = Some idx \<and>
    load_queue_for_mutation f' = Inr (data', items') \<and> queue_length r = length items' \<and>
    (reorder_noop r \<longrightarrow> f' = f) \<and>
    (if m = Remove then items' = remove_at idx items \<and> new_position r = None
     else \<exists>dest. new_position r = Some dest \<and>
       int dest = (case m of Tail \<Rightarrow> int (length items) - 1 | Head \<Rightarrow> 0 | Remove \<Rightarrow> 0
                   | Index k \<Rightarrow> max 0 (min k (int (length items) - 1))) \<and>
       dest < length items' \<and> items' ! dest = items ! idx \<and>
       remove_at dest items' = remove_at idx items \<and> mset items' = mset items)"
proof -
  from assms obtain m data items idx where m: "parse_position to = Inr m"
    "find_entry f i = Inr (data, items, idx)"
    by (auto simp: reorder_queue_def split: sum.splits)
  note e = find_entry_Inr [OF m(2)]
  show ?thesis
  proof (cases "m = Remove")
    case True
    with assms m e show ?thesis by (auto simp: reorder_queue_def Let_def)
  next
    case False
    let ?dest = "destination m (length items)"
    have dest: "?dest < length items" using e(2) by (intro destination_bound) linarith
    have int: "int ?dest = (case m of Tail \<Rightarrow> int (length items) - 1 | Head \<Rightarrow> 0 | Remove \<Rightarrow> 0
                   | Index k \<Rightarrow> max 0 (min k (int (length items) - 1)))"
      using e(2) by (auto simp: destination_def split: move.splits)
    let ?moved = "insert_at ?dest (items ! idx) (remove_at idx items)"
    have moved: "length ?moved = length items" "?moved ! ?dest = items ! idx"
      "remove_at ?dest ?moved = remove_at idx items" "mset ?moved = mset items"
      using dest e(2) by (simp_all add: move_simps)
    show ?thesis
    proof (cases "?dest = idx")
      case True
      with assms m e False have "r = \<lparr>reorder_noop = True, operation = m, new_position = Some ?dest,
          queue_length = length items\<rparr>" "f' = f"
        by (auto simp: reorder_queue_def Let_def)
      with m(1) e(1,5) False True dest int show ?thesis
        by (intro exI [of _ m] exI [of _ data] exI [of _ items] exI [of _ idx]) simp
    next
      case dest': False
      with assms m e False have r: "r = \<lparr>reorder_noop = False, operation = m, new_position = Some ?dest,
          queue_length = length ?moved\<rparr>" "f' = save_queue data ?moved"
        by (auto simp: reorder_queue_def Let_def)
      then have "load_queue_for_mutation f' = Inr (jset ''queue'' (JArr ?moved) data, ?moved)" by simp
      with m(1) e(1,5) False dest int moved r(1) show ?thesis
        by (intro exI [of _ m] exI [of _ data] exI [of _ items] exI [of _ idx]
            exI [of _ "jset ''queue'' (JArr ?moved) data"] exI [of _ ?moved]) simp
    qed
  qed
qed

lemma sample_find:
  "find_entry sample_queue ''c'' = Inr (JObj [(''version'', JInt 2), (''queue'', JArr
     [dep_entry ''a'' [''b''], dep_entry ''b'' [''c''], JObj [(''id'', JStr ''c'')]])],
     [dep_entry ''a'' [''b''], dep_entry ''b'' [''c''], JObj [(''id'', JStr ''c'')]], 2)"
  by (simp add: find_entry_def sample_queue_loads has_id_def dep_entry_def jget_def)

theorem queue_command_atomic_witness:
  "\<exists>f' data items. run_cmd (Reorder ''c'' (ToInt 0)) sample_queue = (Inr (), f') \<and>
     load_queue_for_mutation f' = Inr (data, items) \<and> jget data ''version'' = JInt 2"
proof -
  obtain f' where run: "run_cmd (Reorder ''c'' (ToInt 0)) sample_queue = (Inr (), f')"
    by (simp add: forget_def reorder_queue_def parse_position_def sample_find destination_def Let_def)
  have "jget (JObj [(''version'', JInt 2), (''queue'', JArr
     [dep_entry ''a'' [''b''], dep_entry ''b'' [''c''], JObj [(''id'', JStr ''c'')]])]) ''version'' = JInt 2"
    by (simp add: jget_def)
  with run queue_command_atomic [where c = "Reorder ''c'' (ToInt 0)" and f = sample_queue] show ?thesis
    by (auto simp: sample_queue_loads simp del: run_cmd.simps)
qed

theorem reorder_queue_exact_witness:
  "\<exists>r f' data' items'. reorder_queue ''c'' (ToInt (-7)) sample_queue = (Inr r, f') \<and>
     new_position r = Some 0 \<and> load_queue_for_mutation f' = Inr (data', items') \<and>
     items' ! 0 = JObj [(''id'', JStr ''c'')]"
proof -
  obtain r f' where run: "reorder_queue ''c'' (ToInt (-7)) sample_queue = (Inr r, f')"
    by (simp add: reorder_queue_def parse_position_def sample_find destination_def Let_def)
  have "find_index (has_id ''c'') [dep_entry ''a'' [''b''], dep_entry ''b'' [''c''],
      JObj [(''id'', JStr ''c'')]] = Some 2"
    using find_entry_Inr(5) [OF sample_find] .
  with reorder_queue_exact [OF run] run show ?thesis
    by (fastforce simp: parse_position_def sample_queue_loads)
qed

lemma find_index_update:
  "find_index p xs = Some n \<Longrightarrow> p y \<Longrightarrow> find_index p (xs[n := y]) = Some n"
  by (induction xs arbitrary: n) (auto split: if_splits)

lemma find_entry_again:
  assumes "find_entry f i = Inr (data, items, idx)" and "has_id i e"
  shows "find_entry (save_queue data (items[idx := e])) i =
    Inr (jset ''queue'' (JArr (items[idx := e])) data, items[idx := e], idx)"
  using find_index_update [of "has_id i" items idx e] find_entry_Inr(5) [OF assms(1)] assms(2)
  by (simp add: find_entry_def)

lemma has_id_set_deps: "find_entry f i = Inr (data, items, idx) \<Longrightarrow> has_id i (set_deps ds (items ! idx))"
  using find_entry_Inr(3,4) [of f i data items idx] by (simp add: has_id_def set_deps_def dict_simps)

lemma no_change_set_deps: "\<not> deps_change ds (set_deps ds e)"
  by (simp add: deps_change_def set_deps_def dict_simps)

text \<open>
  Projecting a specification is idempotent: after a successful \<open>sync_deps\<close> the same call is a
  no-op that leaves the file byte for byte and reports the same dependencies.
\<close>

theorem sync_deps_idempotent:
  assumes "sync_deps read_spec i f = (Inr r, f')"
  shows "\<exists>r'. sync_deps read_spec i f' = (Inr r', f') \<and> mut_noop r' \<and> mut_deps r' = mut_deps r"
proof -
  from assms obtain data items idx hard where e: "find_entry f i = Inr (data, items, idx)"
    "spec_hard_deps read_spec i (items ! idx) = Inr hard"
    by (auto simp: sync_deps_def split: sum.splits)
  show ?thesis
  proof (cases "deps_change (map JStr hard) (items ! idx)")
    case False
    with assms e show ?thesis by (auto simp: sync_deps_def)
  next
    case True
    let ?e = "set_deps (map JStr hard) (items ! idx)"
    from assms e True have "guarded_write data items idx (map JStr hard) f = (Inr r, f')"
      by (simp add: sync_deps_def)
    then have f': "f' = save_queue data (items[idx := ?e])" "mut_deps r = map JStr hard"
      by (auto elim: guarded_write_cases)
    have "spec_hard_deps read_spec i ?e = spec_hard_deps read_spec i (items ! idx)"
      by (simp add: spec_hard_deps_def spec_dir_def set_deps_def dict_simps)
    with find_entry_again [OF e(1) has_id_set_deps [OF e(1)], of "map JStr hard"] e find_entry_Inr(2) [OF e(1)] f'
    show ?thesis by (auto simp: sync_deps_def no_change_set_deps)
  qed
qed

theorem sync_deps_idempotent_witness:
  "\<exists>r f' r'. sync_deps (\<lambda>d. Content []) ''a'' sample_queue = (Inr r, f') \<and>
     sync_deps (\<lambda>d. Content []) ''a'' f' = (Inr r', f') \<and> mut_noop r'"
proof -
  have f: "find_entry sample_queue ''a'' = Inr (JObj [(''version'', JInt 2), (''queue'', JArr
     [dep_entry ''a'' [''b''], dep_entry ''b'' [''c''], JObj [(''id'', JStr ''c'')]])],
     [dep_entry ''a'' [''b''], dep_entry ''b'' [''c''], JObj [(''id'', JStr ''c'')]], 0)"
    by (simp add: find_entry_def sample_queue_loads has_id_def dep_entry_def jget_def)
  have p: "parse_dep_block [] = []"
    by (simp add: parse_dep_block_def splitlines_def split_lines.simps)
  have d: "detect_dep_cycle [set_deps [] (dep_entry ''a'' [''b'']), dep_entry ''b'' [''c''],
      JObj [(''id'', JStr ''c'')]] = Inr None" by code_simp
  have "\<exists>r f'. sync_deps (\<lambda>d. Content []) ''a'' sample_queue = (Inr r, f')"
    using d by (simp add: sync_deps_def f spec_hard_deps_def spec_dir_def p deps_change_def guarded_write_def
        dep_entry_def jget_def jhas_def)
  with sync_deps_idempotent show ?thesis by blast
qed

lemma remove_added:
  "distinct ds \<Longrightarrow> \<forall>d\<in>set ds. JStr d \<notin> set xs \<Longrightarrow>
    add_missing ds xs = xs @ map JStr ds \<and> remove_present ds (xs @ map JStr ds) = xs"
proof -
  have add: "distinct ds \<Longrightarrow> \<forall>d\<in>set ds. JStr d \<notin> set xs \<Longrightarrow> add_missing ds xs = xs @ map JStr ds" for xs ds
  proof (induction ds arbitrary: xs)
    case (Cons d ds)
    from Cons.IH [of "xs @ [JStr d]"] Cons.prems show ?case by auto
  qed simp
  have rem: "\<forall>d\<in>set ds. JStr d \<notin> set xs \<Longrightarrow> remove_present ds (xs @ map JStr ds) = xs" for xs ds
    by (induction ds arbitrary: xs) (auto simp: remove1_append)
  show "distinct ds \<Longrightarrow> \<forall>d\<in>set ds. JStr d \<notin> set xs \<Longrightarrow>
    add_missing ds xs = xs @ map JStr ds \<and> remove_present ds (xs @ map JStr ds) = xs"
    using add rem by blast
qed

lemma dset_dset: "dset k v (dset k v' d) = dset k v d"
  by (induction d) auto

lemma dset_same: "dget d k = Some v \<Longrightarrow> dset k v d = d"
  by (induction d) (auto split: if_splits)

lemma ddel_dset: "dget d k = None \<Longrightarrow> ddel k (dset k v d) = d"
  by (induction d) (auto split: if_splits simp: delete_notin_dom)

lemma set_deps_restore:
  assumes "is_obj e" and "if jhas e ''deps'' then xs \<noteq> [] \<and> jget e ''deps'' = JArr xs else xs = []" and "ys \<noteq> []"
  shows "set_deps xs (set_deps ys e) = e"
  using assms
  by (cases e) (auto simp: set_deps_def jset_def jpop_def jhas_def jget_def dset_dset dset_same ddel_dset
      split: if_splits)

lemma save_queue_restore:
  "is_obj data \<Longrightarrow> jhas data ''queue'' \<Longrightarrow> queue_items data = Inr items \<Longrightarrow>
    save_queue (jset ''queue'' (JArr items') data) items = Content data"
  by (cases data) (auto simp: save_queue_def queue_items_def jset_def jhas_def jget_def dset_dset dset_same
      split: json.splits)

text \<open>
  Adding and removing dependencies are inverse: in a valid queue, if adding fresh ids to an
  entry whose \<open>deps\<close> key is absent or a list that is not empty succeeds, removing the same ids
  succeeds and restores the file exactly, the key being dropped again where it was absent.
\<close>

theorem add_then_remove_deps:
  assumes "find_entry (Content data) i = Inr (data, items, idx)" and "jhas data ''queue''" and "queue_ok items"
    and "if jhas (items ! idx) ''deps'' then xs \<noteq> [] \<and> jget (items ! idx) ''deps'' = JArr xs else xs = []"
    and "ds \<noteq> []" and "distinct ds" and "\<forall>d\<in>set ds. JStr d \<notin> set xs"
    and "mutate_queue_deps i ds [] (Content data) = (Inr r, f')"
  shows "\<exists>r'. mutate_queue_deps i [] ds f' = (Inr r', Content data) \<and> \<not> mut_noop r' \<and> mut_deps r' = xs"
proof -
  note e = find_entry_Inr [OF assms(1)]
  have cur: "py_list (jget (items ! idx) ''deps'') = Inr xs"
    using assms(4) jget_not_has [of "items ! idx" "''deps''"] by (auto simp: py_list_def split: if_splits)
  note inv = remove_added [OF assms(6,7)]
  let ?new = "xs @ map JStr ds"
  let ?e = "set_deps ?new (items ! idx)"
  have "deps_request i ds [] (items ! idx) = Inr ?new"
    using assms(5,8) cur inv assms(1)
    by (auto simp: mutate_queue_deps_def deps_request_def split: sum.splits if_splits)
  moreover have change: "deps_change ?new (items ! idx)"
    using assms(4,5) jget_not_has [of "items ! idx" "''deps''"]
    by (auto simp: deps_change_def split: if_splits)
  ultimately have "guarded_write data items idx ?new (Content data) = (Inr r, f')"
    using assms(1,8) by (simp add: mutate_queue_deps_def)
  then have f': "f' = save_queue data (items[idx := ?e])" by (auto elim: guarded_write_cases)
  have new: "jget ?e ''deps'' = JArr ?new" using assms(5) by (simp add: set_deps_def dict_simps)
  have "deps_request i [] ds ?e = Inr xs"
    using inv new assms(5) by (simp add: deps_request_def py_list_def)
  moreover have "deps_change xs ?e"
    using assms(5) new by (auto simp: deps_change_def set_deps_def dict_simps)
  moreover have restore: "set_deps xs ?e = items ! idx"
    using set_deps_restore [OF e(3) assms(4)] assms(5) by simp
  then have "items[idx := ?e, idx := set_deps xs ?e] = items" by simp
  moreover have "detect_dep_cycle items = Inr None"
    using assms(3) detect_None_iff(1) by (simp add: queue_ok_def)
  moreover have "queue_items data = Inr items" "is_obj data"
    using e(1) by (auto simp: load_queue_for_mutation_def queue_items_def split: sum.splits if_splits)
  then have "save_queue (jset ''queue'' (JArr (items[idx := ?e])) data) items = Content data"
    using save_queue_restore assms(2) by blast
  ultimately show ?thesis
    using find_entry_again [OF assms(1) has_id_set_deps [OF assms(1)], of ?new] e(2) f'
    by (simp add: mutate_queue_deps_def guarded_write_def Let_def)
qed

theorem add_then_remove_deps_witness:
  "\<exists>f' r'. mutate_queue_deps ''c'' [] [''z'', ''y''] f' = (Inr r', sample_queue) \<and> \<not> mut_noop r'"
proof -
  let ?data = "JObj [(''version'', JInt 2), (''queue'', JArr
     [dep_entry ''a'' [''b''], dep_entry ''b'' [''c''], JObj [(''id'', JStr ''c'')]])]"
  let ?items = "[dep_entry ''a'' [''b''], dep_entry ''b'' [''c''], JObj [(''id'', JStr ''c'')]]"
  have e: "find_entry (Content ?data) ''c'' = Inr (?data, ?items, 2)"
    using sample_find unfolding sample_queue_def .
  have v: "validate_dep_id_list [JStr ''z'', JStr ''y''] = Inr ()"
    by (simp add: reserved_prefix_def dep_id_re_def plain_id_def id_start_def)
  have d: "detect_dep_cycle [dep_entry ''a'' [''b''], dep_entry ''b'' [''c''],
      set_deps [JStr ''z'', JStr ''y''] (JObj [(''id'', JStr ''c'')])] = Inr None" by code_simp
  have "\<exists>r f'. mutate_queue_deps ''c'' [''z'', ''y''] [] (Content ?data) = (Inr r, f')"
    using d v by (simp add: mutate_queue_deps_def e deps_request_def py_list_def deps_change_def
        guarded_write_def jget_def reserved_prefix_def dep_id_re_def plain_id_def id_start_def)
  then obtain r f' where run: "mutate_queue_deps ''c'' [''z'', ''y''] [] (Content ?data) = (Inr r, f')"
    by blast
  from add_then_remove_deps [OF e _ sample_queue_valid _ _ _ _ run, of "[]"]
  show ?thesis unfolding sample_queue_def by (auto simp: jhas_def)
qed

lemma remove_at_update [simp]: "remove_at idx (xs[idx := x]) = remove_at idx xs"
  by (simp add: remove_at_def)

lemma severity_key_plain: "dget severity_rank k = Some base \<Longrightarrow> json_severity (JStr k) = Some base"
  by (auto simp: json_severity_def severity_rank_def strip_plain plain_char_def split: if_splits)

text \<open>
  The listed order follows the priority: a successful \<open>--set-severity\<close> stores the severity,
  drops the pin fields, so that the effective priority is the aged rank of the severity just set,
  moves that entry only, and leaves the queue in priority order if the other entries were.
\<close>

theorem set_severity_listed_order:
  assumes "set_queue_priority i Bug (JStr sev) today f = (Inr r, f')"
  shows "\<exists>data items idx data' items' dest base.
    load_queue_for_mutation f = Inr (data, items) \<and> find_index (has_id i) items = Some idx \<and>
    load_queue_for_mutation f' = Inr (data', items') \<and> moved_to r = Some dest \<and>
    dget severity_rank (strip sev) = Some base \<and>
    jget (items' ! dest) ''severity'' = JStr (strip sev) \<and> jget (items' ! dest) ''id'' = JStr i \<and>
    (\<forall>k\<in>{''pinned_at'', ''pinned_until'', ''pin_reason''}. \<not> jhas (items' ! dest) k) \<and>
    merged_priority Bug (items' ! dest) today =
      age_escalated_rank base (jget (items ! idx) ''discovered'') today \<and>
    remove_at dest items' = remove_at idx items \<and>
    (sorted (map (\<lambda>e. merged_priority Bug e today) (remove_at idx items)) \<longrightarrow>
       sorted (map (\<lambda>e. merged_priority Bug e today) items'))"
proof -
  from assms obtain data items idx e res where run: "find_entry f i = Inr (data, items, idx)"
    "set_priority_field Bug (JStr sev) (items ! idx) = Inr e"
    "reposition_by_priority (items[idx := e]) i Bug today = Inr res"
    "f' = save_queue data (case res of None \<Rightarrow> items[idx := e] | Some (items', dest) \<Rightarrow> items')"
    "moved_to r = map_option snd res"
    by (auto simp: set_queue_priority_def split: sum.splits option.splits)
  note fe = find_entry_Inr [OF run(1)]
  obtain base where base: "dget severity_rank (strip sev) = Some base"
    using run(2) by (auto simp: set_priority_field_def Let_def split: if_splits)
  then have e: "e = jpop ''pin_reason'' (jpop ''pinned_until'' (jpop ''pinned_at''
      (jset ''severity'' (JStr (strip sev)) (items ! idx))))"
    using run(2) by (simp add: set_priority_field_def Let_def)
  have id_e: "has_id i e" using fe(4) by (simp add: e has_id_def dict_simps)
  have prio: "merged_priority Bug e today = age_escalated_rank base (jget (items ! idx) ''discovered'') today"
    by (simp add: e merged_priority_def bug_priority_def dict_simps severity_key_plain [OF base])
  have idx: "find_index (has_id i) (items[idx := e]) = Some idx"
    by (rule find_index_update [of _ items, OF fe(5) id_e])
  then obtain items' dest where res: "res = Some (items', dest)"
    using run(3) by (auto simp: reposition_by_priority_def Let_def split: sum.splits)
  from reposition_stable [OF run(3) [unfolded res]] idx fe(2)
  have "items' ! dest = e" "remove_at dest items' = remove_at idx items"
    "sorted (map (\<lambda>e. merged_priority Bug e today) (remove_at idx items)) \<longrightarrow>
       sorted (map (\<lambda>e. merged_priority Bug e today) items')"
    by auto
  with res run(4,5) fe(1,5) base prio id_e show ?thesis
    by (auto simp: e dict_simps has_id_def)
qed

theorem set_severity_listed_order_witness:
  "\<exists>r f' data' items' dest. set_queue_priority ''c'' Bug (JStr ''P0'') 739814 sample_queue = (Inr r, f') \<and>
     load_queue_for_mutation f' = Inr (data', items') \<and> moved_to r = Some dest \<and>
     jget (items' ! dest) ''severity'' = JStr ''P0''"
proof -
  have strip: "strip ''P0'' = ''P0''" by (simp add: strip_plain plain_char_def)
  have "\<exists>r f'. set_queue_priority ''c'' Bug (JStr ''P0'') 739814 sample_queue = (Inr r, f')"
    by (simp add: set_queue_priority_def sample_find set_priority_field_def strip reposition_by_priority_def
        has_id_def dep_entry_def remove_at_def jset_def jpop_def priority_eval split: option.splits)
  then obtain r f' where "set_queue_priority ''c'' Bug (JStr ''P0'') 739814 sample_queue = (Inr r, f')"
    by blast
  with set_severity_listed_order [OF this] strip show ?thesis by metis
qed

end
