(* ===== verification/Prompt_Registry.thy ===== *)
theory Prompt_Registry
  imports Py_Json Fencing
begin

text \<open>
  The prompt registry of \<^verbatim>\<open>user/scripts/lazy_core/dispatch.py\<close>: every dispatch prompt a state script
  emits is registered with a fresh nonce; the dispatch guard looks an emission up by the hash of
  the prompt or by its nonce and consumes the nonce, so that one emission pays for one dispatch.
  Times are in microseconds. SHA-256, Unicode NFC and the fresh nonce of \<open>uuid4\<close> are arguments;
  so is the run marker that a call reads.
\<close>

subsection \<open>Normalising and hashing a prompt\<close>

function replace_all :: "string \<Rightarrow> string \<Rightarrow> string \<Rightarrow> string" where
  "replace_all old new s =
     (if s = [] \<or> old = [] then s
      else if prefix old s then new @ replace_all old new (drop (length old) s)
      else hd s # replace_all old new (tl s))"
  by pat_completeness auto

termination
  by (relation "measure (\<lambda>(old, new, s). length s)") auto

declare replace_all.simps [simp del]

text \<open>The code points of \<open>_NORM_FOLD_TABLE\<close> as UTF-8, with what they are folded to.\<close>

definition fold_table :: "(string \<times> char) list" where
  "fold_table = map (\<lambda>(u, c). (bytes u, c))
     [([226, 128, 148], CHR ''-''), ([226, 128, 147], CHR ''-''), ([226, 128, 149], CHR ''-''),
      ([226, 128, 146], CHR ''-''), ([226, 128, 152], CHR 0x27), ([226, 128, 153], CHR 0x27),
      ([226, 128, 156], CHR 0x22), ([226, 128, 157], CHR 0x22), ([194, 160], CHR '' ''),
      ([226, 128, 175], CHR '' '')]"

function translate :: "string \<Rightarrow> string" where
  "translate s =
     (if s = [] then []
      else case find (\<lambda>p. fst p \<noteq> [] \<and> prefix (fst p) s) fold_table of
             Some p \<Rightarrow> snd p # translate (drop (length (fst p)) s)
           | None \<Rightarrow> hd s # translate (tl s))"
  by pat_completeness auto

termination
  by (relation "measure length") (auto simp: find_Some_iff)

declare translate.simps [simp del]

definition unify_newlines :: "string \<Rightarrow> string" where
  "unify_newlines s = replace_all [CHR 0x0D] [CHR 0x0A] (replace_all [CHR 0x0D, CHR 0x0A] [CHR 0x0A] s)"

definition normalize_prompt_for_hash :: "(string \<Rightarrow> string) \<Rightarrow> string \<Rightarrow> string" where
  "normalize_prompt_for_hash nfc prompt =
     translate (nfc (join [CHR 0x0A] (map rstrip (py_split [CHR 0x0A] (unify_newlines prompt)))))"

text \<open>The two library functions the hash rests on.\<close>

record hash_env =
  nfc :: "string \<Rightarrow> string"
  sha256 :: "string \<Rightarrow> string"

definition prompt_sha256 :: "hash_env \<Rightarrow> string \<Rightarrow> string" where
  "prompt_sha256 h prompt = sha256 h (normalize_prompt_for_hash (nfc h) prompt)"

subsection \<open>Entries\<close>

text \<open>
  \<open>None\<close> is an absent key; an absent \<open>consumed\<close> counts as consumed when an entry is dispatched and
  as not consumed when entries are counted or consumed, an absent \<open>emitted_at\<close> is time 0.
\<close>

record emission =
  nonce :: string
  prompt_sha :: string
  prompt_norm :: string
  prompt_raw :: string
  emitted_at :: "int option"
  emission_class :: string
  emission_item :: "string option"
  consumed :: "bool option"
  emission_model :: "string option"
  consumed_by :: "string option"

type_synonym registry_file = "emission list jfile"

text \<open>The marker of the active run, with the epoch of its \<open>started_at\<close> where that parses.\<close>

type_synonym run_marker = "int option"

definition registry_ttl :: int where
  "registry_ttl = 1800 * 1000000"

definition ring_cap :: nat where
  "ring_cap = 64"

definition load_registry :: "registry_file \<Rightarrow> emission list" where
  "load_registry f = (case f of Absent \<Rightarrow> [] | Corrupt \<Rightarrow> [] | Content es \<Rightarrow> es)"

definition save_registry :: "emission list \<Rightarrow> registry_file" where
  "save_registry es = Content es"

definition is_consumed :: "bool \<Rightarrow> emission \<Rightarrow> bool" where
  "is_consumed absent e = (case consumed e of None \<Rightarrow> absent | Some b \<Rightarrow> b)"

definition emitted :: "emission \<Rightarrow> int" where
  "emitted e = (case emitted_at e of None \<Rightarrow> 0 | Some t \<Rightarrow> t)"

subsection \<open>Counting\<close>

definition registry_summary :: "registry_file \<Rightarrow> (nat \<times> nat) option" where
  "registry_summary f =
     (let es = load_registry f in
      if es = [] then None
      else Some (length es, length (filter (\<lambda>e. \<not> is_consumed False e) es)))"

definition consumed_emission_count :: "string option \<Rightarrow> registry_file \<Rightarrow> nat" where
  "consumed_emission_count cls f =
     (case cls of
        Some c \<Rightarrow> length (filter (\<lambda>e. is_consumed False e \<and> emission_class e = c) (load_registry f))
      | None \<Rightarrow> length (filter (is_consumed False) (load_registry f)))"

subsection \<open>Registering\<close>

text \<open>\<open>while len(entries) > cap: entries.pop(0)\<close>\<close>

fun evict :: "nat \<Rightarrow> 'a list \<Rightarrow> 'a list" where
  "evict cap [] = []"
| "evict cap (e # es) = (if cap < length (e # es) then evict cap es else e # es)"

definition new_emission ::
  "hash_env \<Rightarrow> string \<Rightarrow> string \<Rightarrow> string option \<Rightarrow> int \<Rightarrow> string option \<Rightarrow> string \<Rightarrow> emission" where
  "new_emission h prompt cls item now model uid =
     \<lparr>nonce = uid, prompt_sha = prompt_sha256 h prompt,
      prompt_norm = normalize_prompt_for_hash (nfc h) prompt, prompt_raw = prompt,
      emitted_at = Some now, emission_class = cls, emission_item = item, consumed = Some False,
      emission_model = model, consumed_by = None\<rparr>"

definition register_emission ::
  "hash_env \<Rightarrow> string \<Rightarrow> string \<Rightarrow> string option \<Rightarrow> int \<Rightarrow> string option \<Rightarrow> string \<Rightarrow>
   registry_file \<Rightarrow> emission \<times> registry_file" where
  "register_emission h prompt cls item now model uid f =
     (let entry = new_emission h prompt cls item now model uid in
      (entry, save_registry (evict ring_cap (load_registry f @ [entry]))))"

definition register_emission_if_marked ::
  "hash_env \<Rightarrow> run_marker option \<Rightarrow> string \<Rightarrow> string \<Rightarrow> string option \<Rightarrow> int \<Rightarrow> string option \<Rightarrow> string \<Rightarrow>
   registry_file \<Rightarrow> emission option \<times> registry_file" where
  "register_emission_if_marked h marker prompt cls item now model uid f =
     (case marker of
        None \<Rightarrow> (None, f)
      | Some _ \<Rightarrow> (case register_emission h prompt cls item now model uid f of (e, f') \<Rightarrow> (Some e, f')))"

subsection \<open>Looking up\<close>

text \<open>The epoch of the run-start gate: none without a marker, or when its start does not parse.\<close>

definition run_started_epoch :: "run_marker option \<Rightarrow> int option" where
  "run_started_epoch marker = (case marker of None \<Rightarrow> None | Some started \<Rightarrow> started)"

definition fresh :: "run_marker option \<Rightarrow> int \<Rightarrow> emission \<Rightarrow> bool" where
  "fresh marker now e \<longleftrightarrow>
     \<not> registry_ttl < now - emitted e \<and>
     (case run_started_epoch marker of None \<Rightarrow> True | Some start \<Rightarrow> \<not> emitted e < start)"

fun lookup_loop :: "string \<Rightarrow> run_marker option \<Rightarrow> int \<Rightarrow> emission list \<Rightarrow> emission option" where
  "lookup_loop sha marker now [] = None"
| "lookup_loop sha marker now (e # es) =
     (if prompt_sha e \<noteq> sha then lookup_loop sha marker now es
      else if is_consumed True e then lookup_loop sha marker now es
      else if \<not> fresh marker now e then lookup_loop sha marker now es
      else Some e)"

definition lookup_emission ::
  "hash_env \<Rightarrow> run_marker option \<Rightarrow> string \<Rightarrow> int \<Rightarrow> registry_file \<Rightarrow> emission option" where
  "lookup_emission h marker prompt now f =
     lookup_loop (prompt_sha256 h prompt) marker now (load_registry f)"

definition resolve_emission_by_nonce ::
  "run_marker option \<Rightarrow> string \<Rightarrow> int \<Rightarrow> registry_file \<Rightarrow> emission option" where
  "resolve_emission_by_nonce marker n now f =
     (case find (\<lambda>e. nonce e = n) (load_registry f) of
        None \<Rightarrow> None
      | Some e \<Rightarrow>
          if is_consumed True e then None
          else if \<not> fresh marker now e then None
          else Some e)"

text \<open>An empty \<open>prompt_raw\<close> is falsy, so the normalised text is returned instead.\<close>

definition resolve_consumed_emission_by_nonce ::
  "run_marker option \<Rightarrow> string \<Rightarrow> int \<Rightarrow> registry_file \<Rightarrow> string option" where
  "resolve_consumed_emission_by_nonce marker n now f =
     (case find (\<lambda>e. nonce e = n) (load_registry f) of
        None \<Rightarrow> None
      | Some e \<Rightarrow>
          if \<not> is_consumed False e then None
          else if \<not> fresh marker now e then None
          else Some (if prompt_raw e \<noteq> [] then prompt_raw e else prompt_norm e))"

definition emission_consumed_by_nonce :: "string \<Rightarrow> registry_file \<Rightarrow> bool" where
  "emission_consumed_by_nonce n f =
     (if n = [] then False
      else case find (\<lambda>e. nonce e = n) (load_registry f) of
             None \<Rightarrow> False | Some e \<Rightarrow> is_consumed False e)"

subsection \<open>Consuming\<close>

text \<open>The scan: \<open>None\<close> when the nonce is absent or already consumed.\<close>

fun consume_loop :: "string \<Rightarrow> string option \<Rightarrow> emission list \<Rightarrow> emission list option" where
  "consume_loop n consumer [] = None"
| "consume_loop n consumer (e # es) =
     (if nonce e = n then
        (if is_consumed False e then None
         else Some (e\<lparr>consumed := Some True,
                consumed_by := (case consumer of None \<Rightarrow> consumed_by e | Some c \<Rightarrow> Some c)\<rparr> # es))
      else map_option (\<lambda>es'. e # es') (consume_loop n consumer es))"

definition consume_nonce :: "string \<Rightarrow> string option \<Rightarrow> registry_file \<Rightarrow> bool \<times> registry_file" where
  "consume_nonce n consumer f =
     (case consume_loop n consumer (load_registry f) of
        None \<Rightarrow> (False, f)
      | Some es \<Rightarrow> (True, save_registry es))"

subsection \<open>Using a token once\<close>

text \<open>
  The interface: a step may use up one token; a token in use was not spent before, is spent after,
  and stays spent as long as every step is admissible.
\<close>

fun all_admissible :: "('e \<Rightarrow> 's \<Rightarrow> 'k option \<times> 's) \<Rightarrow> ('e \<Rightarrow> 's \<Rightarrow> bool) \<Rightarrow> 'e list \<Rightarrow> 's \<Rightarrow> bool" where
  "all_admissible step admissible [] s = True"
| "all_admissible step admissible (e # es) s =
     (admissible e s \<and> all_admissible step admissible es (snd (step e s)))"

locale one_shot =
  fixes step :: "'e \<Rightarrow> 's \<Rightarrow> 'k option \<times> 's"
    and admissible :: "'e \<Rightarrow> 's \<Rightarrow> bool"
    and inv :: "'s \<Rightarrow> bool"
    and spent :: "'s \<Rightarrow> 'k \<Rightarrow> bool"
  assumes inv_step: "inv s \<Longrightarrow> admissible e s \<Longrightarrow> step e s = (g, s') \<Longrightarrow> inv s'"
    and used: "inv s \<Longrightarrow> admissible e s \<Longrightarrow> step e s = (Some k, s') \<Longrightarrow> \<not> spent s k \<and> spent s' k"
    and stays_spent: "inv s \<Longrightarrow> admissible e s \<Longrightarrow> step e s = (g, s') \<Longrightarrow> spent s k \<Longrightarrow> spent s' k"
begin

lemma uses_spent:
  "inv s \<Longrightarrow> all_admissible step admissible es s \<Longrightarrow> run_grants step es s = (ks, s') \<Longrightarrow>
    inv s' \<and> distinct ks \<and> (\<forall>k. spent s k \<longrightarrow> spent s' k \<and> k \<notin> set ks) \<and> (\<forall>k\<in>set ks. spent s' k)"
proof (induction es arbitrary: s ks)
  case Nil
  then show ?case by simp
next
  case (Cons e es)
  obtain g s1 where step: "step e s = (g, s1)" by fastforce
  obtain ks1 where run: "run_grants step es s1 = (ks1, s')" "ks = (case g of None \<Rightarrow> ks1 | Some k \<Rightarrow> k # ks1)"
    using Cons.prems(3) step by (auto split: prod.splits)
  have adm: "admissible e s" "all_admissible step admissible es s1" using Cons.prems(2) step by auto
  note ih = Cons.IH [OF inv_step [OF Cons.prems(1) adm(1) step] adm(2) run(1)]
  note mono = stays_spent [OF Cons.prems(1) adm(1) step]
  show ?case
  proof (cases g)
    case None
    with ih mono run(2) show ?thesis by auto
  next
    case (Some k)
    note use = used [OF Cons.prems(1) adm(1) step [unfolded Some]]
    with ih mono run(2) Some show ?thesis by auto
  qed
qed

end

subsection \<open>Runs of the registry\<close>

datatype registry_event =
    Register string string "string option" int "string option" string
  | Consume string "string option"

text \<open>The nonces issued so far, kept beside the file; \<open>uuid4\<close> never repeats one.\<close>

type_synonym registry_state = "string set \<times> registry_file"

fun registry_step :: "hash_env \<Rightarrow> registry_event \<Rightarrow> registry_state \<Rightarrow> string option \<times> registry_state" where
  "registry_step h (Register prompt cls item now model uid) (issued, f) =
     (None, (insert uid issued, snd (register_emission h prompt cls item now model uid f)))"
| "registry_step h (Consume n consumer) (issued, f) =
     (case consume_nonce n consumer f of (ok, f') \<Rightarrow> (if ok then Some n else None, (issued, f')))"

fun fresh_nonce :: "registry_event \<Rightarrow> registry_state \<Rightarrow> bool" where
  "fresh_nonce (Register prompt cls item now model uid) (issued, f) = (uid \<notin> issued)"
| "fresh_nonce (Consume n consumer) s = True"

definition registry_inv :: "registry_state \<Rightarrow> bool" where
  "registry_inv s \<longleftrightarrow> distinct (map nonce (load_registry (snd s))) \<and>
     nonce ` set (load_registry (snd s)) \<subseteq> fst s"

definition nonce_spent :: "registry_state \<Rightarrow> string \<Rightarrow> bool" where
  "nonce_spent s n \<longleftrightarrow> n \<in> fst s \<and>
     (\<forall>e\<in>set (load_registry (snd s)). nonce e = n \<longrightarrow> consumed e = Some True)"

lemma load_save_registry [simp]: "load_registry (save_registry es) = es"
  by (simp add: load_registry_def save_registry_def)

lemma evict_drop: "evict cap es = drop (length es - cap) es"
  by (induction es) (auto simp: Suc_diff_le)

lemma register_entries:
  "load_registry (snd (register_emission h prompt cls item now model uid f)) =
     drop (Suc (length (load_registry f)) - ring_cap) (load_registry f @ [new_emission h prompt cls item now model uid])"
  by (simp add: register_emission_def Let_def evict_drop)

lemma new_emission_simps [simp]:
  "nonce (new_emission h prompt cls item now model uid) = uid"
  "consumed (new_emission h prompt cls item now model uid) = Some False"
  "prompt_raw (new_emission h prompt cls item now model uid) = prompt"
  "prompt_sha (new_emission h prompt cls item now model uid) = prompt_sha256 h prompt"
  "emitted_at (new_emission h prompt cls item now model uid) = Some now"
  by (simp_all add: new_emission_def)

lemma register_inv:
  assumes "registry_inv (issued, f)" and "uid \<notin> issued"
  shows "registry_inv (insert uid issued, snd (register_emission h prompt cls item now model uid f))"
proof -
  let ?es = "load_registry f @ [new_emission h prompt cls item now model uid]"
  let ?es' = "load_registry (snd (register_emission h prompt cls item now model uid f))"
  have "distinct (map nonce ?es)" "nonce ` set ?es \<subseteq> insert uid issued"
    using assms by (auto simp: registry_inv_def)
  moreover have "?es' = drop (Suc (length (load_registry f)) - ring_cap) ?es" by (rule register_entries)
  then have "map nonce ?es' = drop (Suc (length (load_registry f)) - ring_cap) (map nonce ?es)"
    "set ?es' \<subseteq> set ?es"
    by (simp_all only: drop_map set_drop_subset)
  ultimately show ?thesis unfolding registry_inv_def fst_conv snd_conv
    by (metis (no_types) distinct_drop image_mono order_trans)
qed

lemma consume_loop_Some:
  "consume_loop n c es = Some es' \<Longrightarrow>
    map nonce es' = map nonce es \<and> map prompt_sha es' = map prompt_sha es \<and>
    (\<exists>e\<in>set es. nonce e = n \<and> consumed e \<noteq> Some True) \<and>
    (\<exists>e\<in>set es'. nonce e = n \<and> consumed e = Some True) \<and>
    (\<forall>e\<in>set es'. nonce e \<noteq> n \<longrightarrow> e \<in> set es)"
proof (induction es arbitrary: es')
  case Nil
  then show ?case by simp
next
  case (Cons e es)
  show ?case
  proof (cases "nonce e = n")
    case True
    with Cons.prems show ?thesis
      by (auto simp: is_consumed_def split: if_splits option.splits)
  next
    case False
    with Cons.prems obtain es1 where "consume_loop n c es = Some es1" "es' = e # es1" by auto
    with Cons.IH [of es1] False show ?thesis by auto
  qed
qed

lemma distinct_nonce_eq:
  "distinct (map nonce es) \<Longrightarrow> e \<in> set es \<Longrightarrow> e' \<in> set es \<Longrightarrow> nonce e = nonce e' \<Longrightarrow> e = e'"
  by (auto simp: distinct_map inj_on_def)

lemma consume_cases:
  assumes "consume_nonce n c f = (ok, f')"
  obtains (refused) "ok = False" "f' = f"
  | (taken) es' where "ok = True" "consume_loop n c (load_registry f) = Some es'" "f' = save_registry es'"
  using assms by (auto simp: consume_nonce_def split: option.splits)

interpretation registry: one_shot "registry_step h" fresh_nonce registry_inv nonce_spent for h
proof
  fix s e g s'
  assume inv: "registry_inv s" and fresh: "fresh_nonce e s" and step: "registry_step h e s = (g, s')"
  obtain issued f where s: "s = (issued, f)" by (cases s)
  show "registry_inv s'"
  proof (cases e)
    case (Register prompt cls item now model uid)
    with inv fresh step s register_inv show ?thesis by auto
  next
    case (Consume n c)
    with step s obtain ok f' where c: "consume_nonce n c f = (ok, f')" "s' = (issued, f')"
      by (auto split: prod.splits)
    show ?thesis
    proof (cases rule: consume_cases [OF c(1)])
      case 1
      with inv s c show ?thesis by simp
    next
      case (2 es')
      with consume_loop_Some [OF 2(2)] inv s c show ?thesis
        by (auto simp: registry_inv_def simp flip: set_map)
    qed
  qed
  show "nonce_spent s k \<Longrightarrow> nonce_spent s' k" for k
  proof (cases e)
    case (Register prompt cls item now model uid)
    assume "nonce_spent s k"
    with fresh step s Register show ?thesis
      by (auto simp: nonce_spent_def register_entries simp del: drop_append dest!: in_set_dropD)
  next
    case (Consume n c)
    assume sp: "nonce_spent s k"
    from Consume step s obtain ok f' where c: "consume_nonce n c f = (ok, f')" "s' = (issued, f')"
      by (auto split: prod.splits)
    show ?thesis
    proof (cases rule: consume_cases [OF c(1)])
      case 1
      with sp s c show ?thesis by simp
    next
      case (2 es')
      note l = consume_loop_Some [OF 2(2)]
      with sp s have "k \<noteq> n" by (auto simp: nonce_spent_def)
      with l sp s c 2(3) show ?thesis by (auto simp: nonce_spent_def)
    qed
  qed
next
  fix s e k s'
  assume inv: "registry_inv s" and step: "registry_step h e s = (Some k, s')"
  obtain issued f where s: "s = (issued, f)" by (cases s)
  obtain c f' where e: "e = Consume k c" "consume_nonce k c f = (True, f')" "s' = (issued, f')"
    using step s by (cases e) (auto split: prod.splits if_splits)
  then obtain es' where c: "consume_loop k c (load_registry f) = Some es'" "f' = save_registry es'"
    by (auto elim: consume_cases)
  note l = consume_loop_Some [OF c(1)]
  have "distinct (map nonce es')" using l inv s by (simp add: registry_inv_def)
  with l have "\<forall>x\<in>set es'. nonce x = k \<longrightarrow> consumed x = Some True"
    using distinct_nonce_eq by metis
  with l inv s e(3) c(2) show "\<not> nonce_spent s k \<and> nonce_spent s' k"
    by (auto simp: nonce_spent_def registry_inv_def)
qed

subsection \<open>What the registry promises\<close>

lemma find_SomeD: "find p xs = Some x \<Longrightarrow> x \<in> set xs \<and> p x"
  by (auto simp: find_Some_iff)

lemma lookup_loop_Some:
  "lookup_loop sha marker now es = Some e \<Longrightarrow>
    e \<in> set es \<and> prompt_sha e = sha \<and> \<not> is_consumed True e \<and> fresh marker now e"
  by (induction es) (auto split: if_splits)

lemma consume_loop_spent:
  "\<forall>e\<in>set es. nonce e = n \<longrightarrow> consumed e = Some True \<Longrightarrow> consume_loop n c es = None"
  by (induction es) (auto simp: is_consumed_def)

text \<open>
  One dispatch per emission: over any run of registrations with fresh nonces and of
  consumptions, in any order, each nonce is consumed successfully at most once, and once it has
  been, it is dead for every later dispatch: neither \<open>resolve_emission_by_nonce\<close> nor
  \<open>lookup_emission\<close> returns its entry, whatever the marker and the time, and consuming it again is
  refused without a write.
\<close>

theorem one_dispatch_per_emission:
  assumes "registry_inv s" and "all_admissible (registry_step h) fresh_nonce es s"
    and "run_grants (registry_step h) es s = (ks, s')"
  shows "distinct ks \<and> (\<forall>n\<in>set ks. \<forall>marker now prompt c.
    resolve_emission_by_nonce marker n now (snd s') = None \<and>
    (\<forall>e. lookup_emission h' marker prompt now (snd s') = Some e \<longrightarrow> nonce e \<noteq> n) \<and>
    consume_nonce n c (snd s') = (False, snd s'))"
proof -
  note run = registry.uses_spent [OF assms]
  have "resolve_emission_by_nonce marker n now (snd s') = None \<and>
    (\<forall>e. lookup_emission h' marker prompt now (snd s') = Some e \<longrightarrow> nonce e \<noteq> n) \<and>
    consume_nonce n c (snd s') = (False, snd s')" if "n \<in> set ks" for n marker now prompt c
  proof -
    have spent: "\<forall>e\<in>set (load_registry (snd s')). nonce e = n \<longrightarrow> consumed e = Some True"
      using run that by (auto simp: nonce_spent_def)
    then have "resolve_emission_by_nonce marker n now (snd s') = None"
      by (auto simp: resolve_emission_by_nonce_def is_consumed_def split: option.splits dest!: find_SomeD)
    moreover have "lookup_emission h' marker prompt now (snd s') = Some e \<Longrightarrow> nonce e \<noteq> n" for e
      using spent lookup_loop_Some by (fastforce simp: lookup_emission_def is_consumed_def)
    moreover have "consume_nonce n c (snd s') = (False, snd s')"
      using consume_loop_spent [OF spent] by (simp add: consume_nonce_def)
    ultimately show ?thesis by blast
  qed
  with run show ?thesis by blast
qed

definition plain_hash :: hash_env where
  "plain_hash = \<lparr>nfc = (\<lambda>s. s), sha256 = (\<lambda>s. s)\<rparr>"

definition sample_events :: "registry_event list" where
  "sample_events = [Register ''go'' ''cycle'' None 5 None ''n1'', Consume ''n1'' (Some ''t1''),
     Consume ''n1'' (Some ''t2''), Register ''go'' ''cycle'' None 6 None ''n2'', Consume ''n2'' None]"

theorem one_dispatch_per_emission_witness:
  "fst (run_grants (registry_step plain_hash) sample_events ({}, Absent)) = [''n1'', ''n2''] \<and>
   resolve_emission_by_nonce None ''n1'' 7 (snd (snd (run_grants (registry_step plain_hash) sample_events ({}, Absent)))) = None"
proof -
  let ?run = "run_grants (registry_step plain_hash) sample_events ({}, Absent)"
  have inv: "registry_inv ({}, Absent)" by (simp add: registry_inv_def load_registry_def)
  have adm: "all_admissible (registry_step plain_hash) fresh_nonce sample_events ({}, Absent)"
    by (simp add: sample_events_def consume_nonce_def register_emission_def new_emission_def ring_cap_def
        load_registry_def save_registry_def is_consumed_def Let_def)
  have run: "fst ?run = [''n1'', ''n2'']"
    by (simp add: sample_events_def consume_nonce_def register_emission_def new_emission_def ring_cap_def
        load_registry_def save_registry_def is_consumed_def Let_def)
  from one_dispatch_per_emission [OF inv adm prod.collapse [symmetric]] run show ?thesis by simp
qed

text \<open>
  Lookups are exact: \<open>lookup_emission\<close> returns an entry exactly if the registry holds one with
  the prompt's hash that is explicitly not consumed, at most 1800 seconds old and not older than
  the start of the marked run, and what it returns is such an entry.
\<close>

theorem lookup_emission_exact:
  "case lookup_emission h marker prompt now f of
     Some e \<Rightarrow> e \<in> set (load_registry f) \<and> prompt_sha e = prompt_sha256 h prompt \<and>
       consumed e = Some False \<and> now - emitted e \<le> 1800 * 1000000 \<and>
       (\<forall>start. marker = Some (Some start) \<longrightarrow> start \<le> emitted e)
   | None \<Rightarrow> \<forall>e\<in>set (load_registry f). \<not> (prompt_sha e = prompt_sha256 h prompt \<and>
       consumed e = Some False \<and> now - emitted e \<le> 1800 * 1000000 \<and>
       (\<forall>start. marker = Some (Some start) \<longrightarrow> start \<le> emitted e))"
proof -
  have ok: "\<not> is_consumed True e \<and> fresh marker now e \<longleftrightarrow>
      consumed e = Some False \<and> now - emitted e \<le> 1800 * 1000000 \<and>
      (\<forall>start. marker = Some (Some start) \<longrightarrow> start \<le> emitted e)" for e
    by (auto simp: is_consumed_def fresh_def registry_ttl_def run_started_epoch_def split: option.splits)
  have none: "lookup_loop sha marker now es = None \<longleftrightarrow>
      (\<forall>e\<in>set es. \<not> (prompt_sha e = sha \<and> \<not> is_consumed True e \<and> fresh marker now e))" for sha es
    by (induction es) auto
  show ?thesis
  proof (cases "lookup_emission h marker prompt now f")
    case None
    then have "lookup_loop (prompt_sha256 h prompt) marker now (load_registry f) = None"
      by (simp only: lookup_emission_def)
    then have "\<forall>e\<in>set (load_registry f). \<not> (prompt_sha e = prompt_sha256 h prompt \<and>
        \<not> is_consumed True e \<and> fresh marker now e)"
      by (simp only: none)
    then show ?thesis unfolding None option.case(1) ok .
  next
    case (Some e)
    with lookup_loop_Some [of _ marker now _ e] ok show ?thesis by (fastforce simp: lookup_emission_def)
  qed
qed

theorem lookup_emission_exact_witness:
  "case lookup_emission plain_hash (Some (Some 9)) ''go'' 10 (Content [new_emission plain_hash ''go'' ''cycle'' None 5 None ''n1'']) of
     Some e \<Rightarrow> 9 \<le> emitted e | None \<Rightarrow> True"
  using lookup_emission_exact [where h = plain_hash and marker = "Some (Some 9)" and prompt = "''go''"
      and now = 10 and f = "Content [new_emission plain_hash ''go'' ''cycle'' None 5 None ''n1'']"]
  by (auto split: option.splits)

lemma lookup_loop_finds:
  "e \<in> set es \<Longrightarrow> prompt_sha e = sha \<Longrightarrow> \<not> is_consumed True e \<Longrightarrow> fresh marker now e \<Longrightarrow>
    \<exists>e'. lookup_loop sha marker now es = Some e'"
  by (induction es) auto

lemma find_distinct_nonce:
  "distinct (map nonce es) \<Longrightarrow> e \<in> set es \<Longrightarrow> find (\<lambda>x. nonce x = nonce e) es = Some e"
  by (induction es) (auto simp: image_iff)

text \<open>
  Emit, then dispatch: right after \<open>register_emission\<close>, and for as long as the entry has neither
  been evicted nor consumed, is at most 1800 seconds old and was emitted in the marked run, the
  nonce resolves to that entry with the prompt byte for byte as it was emitted, and looking up the
  prompt by hash finds a dispatchable entry. The registry never exceeds 64 entries and keeps the
  newest ones in order.
\<close>

theorem register_then_dispatch:
  assumes "register_emission h prompt cls item now model uid f = (e, f')"
    and "registry_inv (issued, f)" and "uid \<notin> issued"
    and "0 \<le> later - now" and "later - now \<le> 1800 * 1000000"
    and "case run_started_epoch marker of None \<Rightarrow> True | Some start \<Rightarrow> start \<le> now"
  shows "resolve_emission_by_nonce marker uid later f' = Some e \<and> prompt_raw e = prompt \<and>
    (\<exists>e'. lookup_emission h marker prompt later f' = Some e') \<and>
    length (load_registry f') = min 64 (length (load_registry f) + 1) \<and>
    (\<exists>dropped. load_registry f @ [e] = dropped @ load_registry f')"
proof -
  have e: "e = new_emission h prompt cls item now model uid"
    and f': "f' = snd (register_emission h prompt cls item now model uid f)"
    using assms(1) by (auto simp: register_emission_def Let_def)
  let ?all = "load_registry f @ [e]"
  have entries: "load_registry f' = drop (Suc (length (load_registry f)) - ring_cap) ?all"
    unfolding f' e by (rule register_entries)
  have len: "length (load_registry f') = min 64 (length (load_registry f) + 1)"
    unfolding entries by (simp add: ring_cap_def)
  then have "load_registry f' \<noteq> []" by auto
  moreover have "last (load_registry f') = e"
    using calculation unfolding entries by (metis drop_eq_Nil last_drop last_snoc not_le)
  ultimately have mem: "e \<in> set (load_registry f')" by (metis last_in_set)
  have "distinct (map nonce (load_registry f'))"
    using register_inv [OF assms(2,3)] unfolding f' registry_inv_def by simp
  from find_distinct_nonce [OF this mem] have "find (\<lambda>x. nonce x = uid) (load_registry f') = Some e"
    by (simp add: e)
  moreover have ok: "\<not> is_consumed True e" "fresh marker later e"
    using assms(4-6) by (auto simp: e is_consumed_def fresh_def registry_ttl_def emitted_def split: option.splits)
  ultimately have "resolve_emission_by_nonce marker uid later f' = Some e"
    by (simp add: resolve_emission_by_nonce_def)
  moreover have "\<exists>e'. lookup_emission h marker prompt later f' = Some e'"
    unfolding lookup_emission_def by (rule lookup_loop_finds [OF mem _ ok]) (simp add: e)
  moreover have "?all = take (Suc (length (load_registry f)) - ring_cap) ?all @ load_registry f'"
    unfolding entries by (rule append_take_drop_id [symmetric])
  ultimately show ?thesis using len e by (metis new_emission_simps(3))
qed

theorem register_then_dispatch_witness:
  "\<exists>e f'. register_emission plain_hash ''go'' ''cycle'' None 5 None ''n1'' Absent = (e, f') \<and>
     resolve_emission_by_nonce (Some (Some 4)) ''n1'' 9 f' = Some e"
proof -
  obtain e f' where r: "register_emission plain_hash ''go'' ''cycle'' None 5 None ''n1'' Absent = (e, f')"
    by fastforce
  have inv: "registry_inv ({}, Absent)" by (simp add: registry_inv_def load_registry_def)
  from register_then_dispatch [OF r inv, of 9 "Some (Some 4)"] r show ?thesis
    by (simp add: run_started_epoch_def)
qed

lemma replace_absent: "CHR 0x0D \<notin> set s \<Longrightarrow> replace_all [CHR 0x0D, CHR 0x0A] new s = s \<and> replace_all [CHR 0x0D] new s = s"
proof (induction s)
  case Nil
  then show ?case by (simp add: replace_all.simps)
next
  case (Cons c s)
  then show ?case by (simp add: replace_all.simps [of _ _ "c # s"])
qed

definition with_ending :: "string \<Rightarrow> string \<Rightarrow> string" where
  "with_ending eol s = concat (map (\<lambda>c. if c = CHR 0x0A then eol else [c]) s)"

lemma replace_crlf:
  "CHR 0x0D \<notin> set s \<Longrightarrow>
    replace_all [CHR 0x0D, CHR 0x0A] [CHR 0x0A] (with_ending [CHR 0x0D, CHR 0x0A] s) = s"
proof (induction s)
  case Nil
  then show ?case by (simp add: with_ending_def replace_all.simps)
next
  case (Cons c s)
  then show ?case
    by (auto simp: with_ending_def replace_all.simps [of _ _ "_ # _"])
qed

lemma replace_lone_cr:
  "CHR 0x0D \<notin> set s \<Longrightarrow>
    replace_all [CHR 0x0D, CHR 0x0A] [CHR 0x0A] (with_ending [CHR 0x0D] s) = with_ending [CHR 0x0D] s \<and>
    replace_all [CHR 0x0D] [CHR 0x0A] (with_ending [CHR 0x0D] s) = s"
proof (induction s)
  case Nil
  then show ?case by (simp add: with_ending_def replace_all.simps)
next
  case (Cons c s)
  have "\<not> prefix [CHR 0x0A] (with_ending [CHR 0x0D] t)" for t
    by (cases t) (auto simp: with_ending_def)
  then show ?case using Cons
    by (auto simp: with_ending_def replace_all.simps [of _ _ "_ # _"])
qed

text \<open>
  Line endings cannot defeat the match: a prompt without carriage returns and the same prompt
  with every newline turned into a carriage return and a newline, or into a lone carriage return,
  have the same hash.
\<close>

theorem line_endings_hash_equal:
  assumes "CHR 0x0D \<notin> set prompt"
  shows "prompt_sha256 h (with_ending [CHR 0x0D, CHR 0x0A] prompt) = prompt_sha256 h prompt \<and>
    prompt_sha256 h (with_ending [CHR 0x0D] prompt) = prompt_sha256 h prompt"
  using assms replace_absent [OF assms] replace_crlf [OF assms] replace_lone_cr [OF assms]
  by (simp add: prompt_sha256_def normalize_prompt_for_hash_def unify_newlines_def)

theorem line_endings_hash_equal_witness:
  "prompt_sha256 plain_hash [CHR ''a'', CHR 0x0D, CHR 0x0A, CHR ''b''] =
   prompt_sha256 plain_hash [CHR ''a'', CHR 0x0A, CHR ''b'']"
  using line_endings_hash_equal [of "[CHR ''a'', CHR 0x0A, CHR ''b'']" plain_hash]
  by (simp add: with_ending_def)

end
