(* ===== verification/Run_Marker.thy ===== *)
theory Run_Marker
  imports Prompt_Registry
begin

text \<open>
  The run marker of \<^verbatim>\<open>user/scripts/lazy_core/markers.py\<close>: the file that says that a run is
  active, its staleness rules, its owner, and the operations that change one facet of it in place.
  The state is the file. A marker is a record with one field per key; \<open>None\<close> stands for a key that
  is absent or null, or whose value is not of the kind the code asks for. An ISO time stamp is the
  number of seconds it denotes, and \<open>None\<close> if it does not parse; the clock counts microseconds.
\<close>

subsection \<open>The marker\<close>

text \<open>What a probe reports: the item, the skill to run next with its arguments, and the step.\<close>

record probe =
  feature_id :: "string option"
  sub_skill :: "string option"
  sub_skill_args :: "string option"
  current_step :: "string option"

type_synonym step_key = "string option \<times> string option"
type_synonym state_key = "string option \<times> string option \<times> string option"

record obligation =
  owed_item :: "string option"
  owed_kind :: string
  cycle_commit_sha :: string
  cycle_summary :: string

record marker =
  pipeline :: string
  cloud :: bool
  repo_root :: "string option"
  session_id :: "string option"
  started_at :: "int option"
  max_cycles :: "int option"
  nonce_seed :: "string option"
  forward_cycles :: "int option"
  meta_cycles :: "int option"
  per_feature_forward :: "(string, int) dict option"
  per_feature_corrective :: "(string, int) dict option"
  last_advance_consume_count :: "int option"
  attended :: "bool option"
  work_branch :: "string option"
  parent_run :: "(string \<times> string) option"
  park_needs_input :: "bool option"
  park_blocked :: "bool option"
  park_provisional :: "bool option"
  last_advance_state_key :: "state_key option"
  last_resolution_step_key :: "step_key option"
  audit_obligation :: "obligation option"

type_synonym marker_file = "marker jfile"
type_synonym 'r marker_op = "int \<Rightarrow> marker_file \<Rightarrow> 'r \<times> marker_file"

record run_args =
  arg_pipeline :: string
  arg_cloud :: bool
  arg_repo_root :: string
  arg_max_cycles :: "int option"
  arg_session_id :: "string option"
  arg_nonce_seed :: "string option"
  arg_attended :: bool
  arg_parent_run :: "(string \<times> string) option"
  arg_park_needs_input :: bool
  arg_park_blocked :: bool
  arg_park_provisional :: bool

text \<open>\<open>branch\<close> is the branch that git reports at run start.\<close>

definition new_marker :: "run_args \<Rightarrow> string \<Rightarrow> int \<Rightarrow> marker" where
  "new_marker a branch now =
     \<lparr>pipeline = arg_pipeline a, cloud = arg_cloud a, repo_root = Some (arg_repo_root a),
      session_id = arg_session_id a, started_at = Some (now div 1000000),
      max_cycles = arg_max_cycles a, nonce_seed = arg_nonce_seed a,
      forward_cycles = Some 0, meta_cycles = Some 0,
      per_feature_forward = Some [], per_feature_corrective = Some [],
      last_advance_consume_count = Some 0, attended = Some (arg_attended a),
      work_branch = Some branch, parent_run = arg_parent_run a,
      park_needs_input = Some (arg_park_needs_input a), park_blocked = Some (arg_park_blocked a),
      park_provisional = Some (arg_park_provisional a),
      last_advance_state_key = None, last_resolution_step_key = None, audit_obligation = None\<rparr>"

definition write_run_marker :: "run_args \<Rightarrow> string \<Rightarrow> marker marker_op" where
  "write_run_marker a branch now f = (let m = new_marker a branch now in (m, Content m))"

subsection \<open>Reading\<close>

definition marker_stale_seconds :: int where
  "marker_stale_seconds = 24 * 3600"

definition started_epoch :: "marker \<Rightarrow> int" where
  "started_epoch m = (case started_at m of None \<Rightarrow> 0 | Some t \<Rightarrow> t)"

definition age_stale :: "int \<Rightarrow> marker \<Rightarrow> bool" where
  "age_stale now m \<longleftrightarrow> now - 1000000 * started_epoch m > 1000000 * marker_stale_seconds"

text \<open>A marker that is too old or corrupt is deleted on the way; a foreign one is left alone.\<close>

definition read_run_marker :: "string option \<Rightarrow> marker option marker_op" where
  "read_run_marker session now f =
     (case f of
        Absent \<Rightarrow> (None, Absent)
      | Corrupt \<Rightarrow> (None, Absent)
      | Content m \<Rightarrow>
          if age_stale now m then (None, Absent)
          else (case (session, session_id m) of
                  (Some s, Some t) \<Rightarrow> if s \<noteq> t then (None, f) else (Some m, f)
                | _ \<Rightarrow> (Some m, f)))"

text \<open>The shape of the operations below: without a live marker nothing is written.\<close>

definition with_marker :: "'r \<Rightarrow> (marker \<Rightarrow> 'r \<times> marker option) \<Rightarrow> 'r marker_op" where
  "with_marker none act now f =
     (case read_run_marker None now f of
        (None, f') \<Rightarrow> (none, f')
      | (Some m, f') \<Rightarrow> (case act m of (r, None) \<Rightarrow> (r, f') | (r, Some m') \<Rightarrow> (r, Content m')))"

definition marker_work_branch :: "string option \<Rightarrow> string option marker_op" where
  "marker_work_branch session now f =
     (case read_run_marker session now f of
        (None, f') \<Rightarrow> (None, f')
      | (Some m, f') \<Rightarrow>
          (case work_branch m of Some b \<Rightarrow> (if b \<noteq> [] then (Some b, f') else (None, f')) | None \<Rightarrow> (None, f')))"

subsection \<open>The owner of the slot\<close>

datatype owner_status = OwnerAbsent | OwnedByMe | ForeignStamped

definition bind_marker_session :: "string \<Rightarrow> bool marker_op" where
  "bind_marker_session session = with_marker False
     (\<lambda>m. if session_id m \<noteq> None then (False, None) else (True, Some (m\<lparr>session_id := Some session\<rparr>)))"

definition marker_owner_status :: "string \<Rightarrow> owner_status marker_op" where
  "marker_owner_status session = with_marker OwnerAbsent
     (\<lambda>m. if session_id m = None \<or> session_id m = Some session then (OwnedByMe, None)
          else (ForeignStamped, None))"

definition reassert_marker_owner :: "string \<Rightarrow> bool marker_op" where
  "reassert_marker_owner session now f =
     (case marker_owner_status session now f of
        (st, f') \<Rightarrow>
          if st \<noteq> ForeignStamped then (False, f')
          else with_marker False (\<lambda>m. (True, Some (m\<lparr>session_id := Some session\<rparr>))) now f')"

subsection \<open>Budget and park mode in mid run\<close>

definition set_marker_max_cycles :: "int \<Rightarrow> (int \<times> int option) option marker_op" where
  "set_marker_max_cycles n = with_marker None
     (\<lambda>m. (Some (n, max_cycles m), Some (m\<lparr>max_cycles := Some n\<rparr>)))"

datatype park_result = ParkNoMarker | ParkRefused | ParkState bool bool bool

definition set_marker_park :: "bool option \<Rightarrow> bool option \<Rightarrow> bool option \<Rightarrow> park_result marker_op" where
  "set_marker_park ni bl pv = with_marker ParkNoMarker
     (\<lambda>m. let old = (\<lambda>x. x = Some True);
              ni' = (case ni of None \<Rightarrow> old (park_needs_input m) | Some b \<Rightarrow> b);
              bl' = (case bl of None \<Rightarrow> old (park_blocked m) | Some b \<Rightarrow> b);
              pv' = (case pv of None \<Rightarrow> old (park_provisional m) | Some b \<Rightarrow> b)
          in if pv' \<and> \<not> ni' then (ParkRefused, None)
             else (ParkState ni' bl' pv',
                   Some (m\<lparr>park_needs_input := Some ni', park_blocked := Some bl', park_provisional := Some pv'\<rparr>)))"

definition fold_park_flags :: "bool \<Rightarrow> bool \<Rightarrow> bool \<Rightarrow> marker option \<Rightarrow> bool \<times> bool \<times> bool" where
  "fold_park_flags ni bl pv m =
     (case m of
        Some m' \<Rightarrow>
          (case park_needs_input m' of
             Some b \<Rightarrow> (b, park_blocked m' = Some True, park_provisional m' = Some True)
           | None \<Rightarrow> (ni, bl, pv))
      | None \<Rightarrow> (ni, bl, pv))"

definition fold_max_cycles :: "int option \<Rightarrow> marker option \<Rightarrow> int option" where
  "fold_max_cycles flag m = (case m of Some m' \<Rightarrow> max_cycles m' | None \<Rightarrow> flag)"

definition fold_run_counters ::
  "int option \<Rightarrow> int option \<Rightarrow> marker option \<Rightarrow> int option \<times> int option" where
  "fold_run_counters forward_flag meta_flag m =
     (case m of
        Some m' \<Rightarrow> (case forward_flag of None \<Rightarrow> forward_cycles m' | Some n \<Rightarrow> Some n,
                    case meta_flag of None \<Rightarrow> meta_cycles m' | Some n \<Rightarrow> Some n)
      | None \<Rightarrow> (forward_flag, meta_flag))"

text \<open>The end of a run; the registry goes with the marker when \<open>clear\<close> is set.\<close>

definition delete_run_marker :: "bool \<Rightarrow> marker_file \<times> registry_file \<Rightarrow> bool \<times> marker_file \<times> registry_file" where
  "delete_run_marker clear fr =
     (fst fr \<noteq> Absent, Absent, if clear then Absent else snd fr)"

end
