(* ===== verification/Run_Counters.thy ===== *)
theory Run_Counters
  imports Run_Marker
begin

text \<open>
  The operations that count on the run marker of \<^verbatim>\<open>user/scripts/lazy_core/markers.py\<close>: forward and
  meta cycles, the per-feature maps, the budget trip, the one-shot resolution signal and the audit
  obligation, and the cycle bracket that drives them. The interface \<open>marker_mutator\<close> states what
  every operation on a live marker promises; all of them are interpretations of it.
\<close>

subsection \<open>Counting\<close>

definition count_of :: "int option \<Rightarrow> int" where
  "count_of c = (case c of None \<Rightarrow> 0 | Some n \<Rightarrow> n)"

definition map_of_counts :: "(string, int) dict option \<Rightarrow> (string, int) dict" where
  "map_of_counts d = (case d of None \<Rightarrow> [] | Some d' \<Rightarrow> d')"

definition bump :: "string \<Rightarrow> (string, int) dict \<Rightarrow> (string, int) dict" where
  "bump k d = dset k ((case dget d k of None \<Rightarrow> 0 | Some n \<Rightarrow> n) + 1) d"

definition bump_per_feature_forward :: "string option \<Rightarrow> marker \<Rightarrow> marker" where
  "bump_per_feature_forward i m =
     (case i of
        None \<Rightarrow> m
      | Some k \<Rightarrow> if k = [] then m
                  else m\<lparr>per_feature_forward := Some (bump k (map_of_counts (per_feature_forward m)))\<rparr>)"

definition record_corrective_cycle :: "string option \<Rightarrow> marker \<Rightarrow> marker" where
  "record_corrective_cycle i m =
     (case i of
        None \<Rightarrow> m
      | Some k \<Rightarrow> if k = [] then m
                  else m\<lparr>per_feature_corrective := Some (bump k (map_of_counts (per_feature_corrective m)))\<rparr>)"

definition read_per_feature_forward_cycles :: "marker option \<Rightarrow> (string, int) dict" where
  "read_per_feature_forward_cycles m = (case m of None \<Rightarrow> [] | Some m' \<Rightarrow> map_of_counts (per_feature_forward m'))"

definition count_validation_corrective_cycles :: "marker option \<Rightarrow> string \<Rightarrow> int" where
  "count_validation_corrective_cycles m i =
     (case m of
        None \<Rightarrow> 0
      | Some m' \<Rightarrow> (case dget (map_of_counts (per_feature_corrective m')) i of None \<Rightarrow> 0 | Some n \<Rightarrow> n))"

definition add_forward :: "string option \<Rightarrow> marker \<Rightarrow> marker" where
  "add_forward i m =
     bump_per_feature_forward i (m\<lparr>forward_cycles := Some (count_of (forward_cycles m) + 1)\<rparr>)"

definition add_meta :: "marker \<Rightarrow> marker" where
  "add_meta m = m\<lparr>meta_cycles := Some (count_of (meta_cycles m) + 1)\<rparr>"

subsection \<open>The budget trip\<close>

definition compute_per_feature_ceiling :: "int \<Rightarrow> int \<Rightarrow> int option \<Rightarrow> int option" where
  "compute_per_feature_ceiling budget depth override = override"

datatype trip_reason = NearCompleteGrace | CorrectiveDiscount | UnderCeiling | OverCeiling

definition budget_trip_signals :: "int \<Rightarrow> int \<Rightarrow> int \<Rightarrow> bool \<Rightarrow> bool \<times> int \<times> trip_reason" where
  "budget_trip_signals fwd corr ceiling near_complete =
     (let effective = max 0 (fwd - corr); over = ceiling \<le> effective in
      if near_complete \<and> over then (False, effective, NearCompleteGrace)
      else if \<not> over then
        (False, effective, if 0 < corr \<and> ceiling \<le> fwd then CorrectiveDiscount else UnderCeiling)
      else (True, effective, OverCeiling))"

subsection \<open>The four ways to advance\<close>

definition real_skill :: "string option \<Rightarrow> bool" where
  "real_skill s = (case s of None \<Rightarrow> False | Some k \<Rightarrow> k \<noteq> [] \<and> \<not> prefix ''__'' k)"

definition forward_advancing_pseudo_skills :: "string list" where
  "forward_advancing_pseudo_skills =
     [''__mark_complete__'', ''__mark_fixed__'', ''__write_validated_from_skip__'',
      ''__write_validated_from_results__'', ''__grant_skip_no_mcp_surface__'',
      ''__flip_plan_complete_cloud_saturated__'']"

text \<open>\<open>census\<close> is \<open>consumed_emission_count()\<close>; a watermark above it is clamped below it.\<close>

definition watermark :: "int \<Rightarrow> marker \<Rightarrow> int" where
  "watermark census m =
     (let prior = count_of (last_advance_consume_count m) in
      if census < prior then census - 1 else prior)"

definition advance_run_counters :: "registry_file \<Rightarrow> probe \<Rightarrow> marker option marker_op" where
  "advance_run_counters reg p = with_marker None
     (\<lambda>m. let census = int (consumed_emission_count None reg) in
          if census \<le> watermark census m then (Some m, None)
          else let m1 = (if real_skill (sub_skill p) then add_forward (feature_id p) m else add_meta m);
                   m2 = m1\<lparr>last_advance_consume_count := Some census\<rparr>
               in (Some m2, Some m2))"

definition advance_meta_cycle :: "registry_file \<Rightarrow> marker option marker_op" where
  "advance_meta_cycle reg = with_marker None
     (\<lambda>m. let m' = (add_meta m)\<lparr>last_advance_consume_count := Some (int (consumed_emission_count None reg) + 1)\<rparr>
          in (Some m', Some m'))"

definition advance_forward_cycle :: "probe \<Rightarrow> marker option marker_op" where
  "advance_forward_cycle p = with_marker None
     (\<lambda>m. let key = (feature_id p, current_step p, sub_skill p) in
          if last_advance_state_key m = Some key then (Some m, None)
          else let m1 = (if real_skill (sub_skill p) \<or> sub_skill p \<in> Some ` set forward_advancing_pseudo_skills
                         then add_forward (feature_id p) m else add_meta m);
                   m2 = m1\<lparr>last_advance_state_key := Some key\<rparr>
               in (Some m2, Some m2))"

text \<open>The marker of the dispatch in flight.\<close>

record cycle_marker =
  cycle_feature :: "string option"
  cycle_nonce :: "string option"
  cycle_kind :: "string option"
  cycle_started_at :: "int option"
  cycle_session :: "string option"
  commit_tally :: int
  run_started_at :: "int option"
  begin_head_sha :: "string option"
  cycle_sub_skill :: "string option"
  cycle_sub_skill_args :: "string option"
  subagent_model :: bool

type_synonym cycle_file = "cycle_marker jfile"

definition advance_cycle_bracket_counter :: "cycle_marker option \<Rightarrow> marker option marker_op" where
  "advance_cycle_bracket_counter c = with_marker None
     (\<lambda>m. case c of
            None \<Rightarrow> (None, None)
          | Some c' \<Rightarrow>
              if cycle_kind c' = Some ''real'' then
                (let m' = add_forward (cycle_feature c') m in (Some m', Some m'))
              else if cycle_kind c' = Some ''meta'' then (let m' = add_meta m in (Some m', Some m'))
              else (None, None))"

subsection \<open>Signals\<close>

definition record_resolution_signal :: "probe \<Rightarrow> marker option marker_op" where
  "record_resolution_signal p = with_marker None
     (\<lambda>m. let m' = m\<lparr>last_resolution_step_key := Some (feature_id p, current_step p)\<rparr> in (Some m', Some m'))"

text \<open>\<open>resolve\<close> is \<open>Path.resolve\<close>.\<close>

definition same_repo :: "(string \<Rightarrow> string) \<Rightarrow> string \<Rightarrow> marker \<Rightarrow> bool" where
  "same_repo resolve root m = (case repo_root m of None \<Rightarrow> False | Some r \<Rightarrow> resolve r = resolve root)"

definition consume_resolution_signal ::
  "(string \<Rightarrow> string) \<Rightarrow> string \<Rightarrow> step_key \<Rightarrow> bool marker_op" where
  "consume_resolution_signal resolve root key = with_marker False
     (\<lambda>m. if \<not> same_repo resolve root m \<or> last_resolution_step_key m \<noteq> Some key then (False, None)
          else (True, Some (m\<lparr>last_resolution_step_key := None\<rparr>)))"

definition audited_cycle_kinds :: "string list" where
  "audited_cycle_kinds = [''spec'', ''plan-feature'', ''spec-bug'', ''spec-phases'']"

definition record_audit_obligation ::
  "string option \<Rightarrow> string option \<Rightarrow> string option \<Rightarrow> string option \<Rightarrow> string option \<Rightarrow> marker option marker_op" where
  "record_audit_obligation item kind begin_sha end_sha summary = with_marker None
     (\<lambda>m. case kind of
            None \<Rightarrow> (Some m, None)
          | Some k \<Rightarrow>
              if k \<notin> set audited_cycle_kinds then (Some m, None)
              else case end_sha of
                     None \<Rightarrow> (Some m, None)
                   | Some sha \<Rightarrow>
                       if sha = [] \<or> end_sha = begin_sha then (Some m, None)
                       else let m' = m\<lparr>audit_obligation := Some
                              \<lparr>owed_item = item, owed_kind = k, cycle_commit_sha = sha,
                               cycle_summary = (case summary of None \<Rightarrow> [] | Some s \<Rightarrow> s)\<rparr>\<rparr>
                            in (Some m', Some m'))"

definition pending_audit_obligation :: "obligation option marker_op" where
  "pending_audit_obligation = with_marker None (\<lambda>m. (audit_obligation m, None))"

definition discharge_audit_obligation :: "bool marker_op" where
  "discharge_audit_obligation = with_marker False
     (\<lambda>m. if audit_obligation m = None then (False, None) else (True, Some (m\<lparr>audit_obligation := None\<rparr>)))"

subsection \<open>The cycle bracket\<close>

text \<open>Newest first: the emission of the cycle that is about to be dispatched.\<close>

definition resolve_cycle_worker_nonce :: "registry_file \<Rightarrow> string option \<Rightarrow> string option" where
  "resolve_cycle_worker_nonce reg passed =
     (let es = load_registry reg in
      if \<exists>e\<in>set es. Some (nonce e) = passed then passed
      else case find (\<lambda>e. emission_class e = ''cycle'' \<and> \<not> is_consumed False e) (rev es) of
             None \<Rightarrow> passed
           | Some e \<Rightarrow> (if nonce e = [] then passed else Some (nonce e)))"

record cycle_args =
  c_feature :: "string option"
  c_nonce :: "string option"
  c_kind :: "string option"
  c_session :: "string option"
  c_run_started_at :: "int option"
  c_head :: "string option"
  c_sub_skill :: "string option"
  c_sub_skill_args :: "string option"

text \<open>
  \<open>declared\<close> is the \<open>subagent-model\<close> declaration of the skill, passed in or read from its front
  matter; \<open>env_session\<close> is the session id of the environment.
\<close>

definition write_cycle_marker ::
  "bool \<Rightarrow> string option \<Rightarrow> registry_file \<Rightarrow> cycle_args \<Rightarrow> int \<Rightarrow> cycle_file \<Rightarrow> cycle_marker \<times> cycle_file" where
  "write_cycle_marker declared env_session reg a now f =
     (let c = \<lparr>cycle_feature = c_feature a,
               cycle_nonce = (if declared then resolve_cycle_worker_nonce reg (c_nonce a) else c_nonce a),
               cycle_kind = c_kind a, cycle_started_at = Some (now div 1000000),
               cycle_session = (case c_session a of None \<Rightarrow> env_session | Some s \<Rightarrow> Some s),
               commit_tally = 0, run_started_at = c_run_started_at a, begin_head_sha = c_head a,
               cycle_sub_skill = c_sub_skill a, cycle_sub_skill_args = c_sub_skill_args a,
               subagent_model = declared\<rparr>
      in (c, Content c))"

definition read_cycle_marker :: "cycle_file \<Rightarrow> cycle_marker option" where
  "read_cycle_marker f = (case f of Absent \<Rightarrow> None | Corrupt \<Rightarrow> None | Content c \<Rightarrow> Some c)"

definition clear_cycle_marker :: "cycle_file \<Rightarrow> bool \<times> cycle_file" where
  "clear_cycle_marker f = (f \<noteq> Absent, Absent)"

subsection \<open>What every operation on a live marker promises\<close>

definition forward_total :: "marker \<Rightarrow> int" where
  "forward_total m = count_of (forward_cycles m)"

definition feature_total :: "marker \<Rightarrow> int" where
  "feature_total m = sum_list (map snd (map_of_counts (per_feature_forward m)))"

definition park_ok :: "marker \<Rightarrow> bool" where
  "park_ok m \<longleftrightarrow> (park_provisional m = Some True \<longrightarrow> park_needs_input m = Some True)"

text \<open>The same run goes on: its identity is kept and no counter goes back.\<close>

definition continues :: "marker \<Rightarrow> marker \<Rightarrow> bool" where
  "continues m m' \<longleftrightarrow>
     started_at m' = started_at m \<and> repo_root m' = repo_root m \<and> pipeline m' = pipeline m \<and>
     cloud m' = cloud m \<and> attended m' = attended m \<and> parent_run m' = parent_run m \<and>
     work_branch m' = work_branch m \<and>
     forward_total m \<le> forward_total m' \<and> count_of (meta_cycles m) \<le> count_of (meta_cycles m') \<and>
     feature_total m' - feature_total m \<le> forward_total m' - forward_total m \<and>
     (park_ok m \<longrightarrow> park_ok m')"

lemma continues_refl [simp]: "continues m m"
  by (simp add: continues_def)

lemma continues_trans: "continues m m' \<Longrightarrow> continues m' m'' \<Longrightarrow> continues m m''"
  by (simp add: continues_def)

lemma age_stale_continues: "continues m m' \<Longrightarrow> age_stale now m' = age_stale now m"
  by (simp add: continues_def age_stale_def started_epoch_def)

lemma read_live [simp]: "\<not> age_stale now m \<Longrightarrow> read_run_marker None now (Content m) = (Some m, Content m)"
  by (simp add: read_run_marker_def)

locale marker_mutator =
  fixes run :: "int \<Rightarrow> marker_file \<Rightarrow> 'r \<times> marker_file"
  assumes dead: "fst (read_run_marker None now f) = None \<Longrightarrow>
      snd (run now f) = snd (read_run_marker None now f)"
    and live: "\<not> age_stale now m \<Longrightarrow> \<exists>m'. snd (run now (Content m)) = Content m' \<and> continues m m'"
begin

lemma never_arms:
  "fst (read_run_marker None now f) = None \<Longrightarrow> snd (run now f) = Absent"
  using dead [of now f] by (auto simp: read_run_marker_def split: jfile.splits if_splits)

end

lemma with_marker_mutator:
  assumes "\<And>m r m'. act m = (r, Some m') \<Longrightarrow> continues m m'"
  shows "marker_mutator (with_marker none act)"
proof
  show "fst (read_run_marker None now f) = None \<Longrightarrow>
      snd (with_marker none act now f) = snd (read_run_marker None now f)" for now f
    by (cases "read_run_marker None now f") (simp add: with_marker_def)
  show "\<not> age_stale now m \<Longrightarrow> \<exists>m'. snd (with_marker none act now (Content m)) = Content m' \<and> continues m m'"
    for now m
    using assms [of m] by (auto simp: with_marker_def split: prod.split option.split)
qed

lemma sum_update: "sum_list (map snd (dset k v d)) =
    sum_list (map snd d) - (case dget d k of None \<Rightarrow> 0 | Some n \<Rightarrow> n) + (v :: int)"
  by (induction d) auto

lemma sum_bump: "sum_list (map snd (bump k d)) = sum_list (map snd d) + 1"
  by (simp add: bump_def sum_update split: option.split)

lemma continues_forward: "continues m (add_forward i m)"
  by (auto simp: continues_def add_forward_def bump_per_feature_forward_def forward_total_def
      feature_total_def count_of_def map_of_counts_def sum_bump park_ok_def split: option.splits)

lemma continues_meta: "continues m (add_meta m)"
  by (simp add: continues_def add_meta_def forward_total_def feature_total_def count_of_def park_ok_def)

lemma continues_fields [simp]:
  "continues m (m'\<lparr>last_advance_consume_count := w\<rparr>) = continues m m'"
  "continues m (m'\<lparr>last_advance_state_key := k\<rparr>) = continues m m'"
  "continues m (m'\<lparr>last_resolution_step_key := s\<rparr>) = continues m m'"
  "continues m (m'\<lparr>audit_obligation := ob\<rparr>) = continues m m'"
  "continues m (m'\<lparr>session_id := sid\<rparr>) = continues m m'"
  "continues m (m'\<lparr>max_cycles := n\<rparr>) = continues m m'"
  by (simp_all add: continues_def forward_total_def feature_total_def park_ok_def)

lemma continues_park:
  "park_ok (m\<lparr>park_needs_input := a, park_blocked := b, park_provisional := c\<rparr>) \<Longrightarrow>
    continues m (m\<lparr>park_needs_input := a, park_blocked := b, park_provisional := c\<rparr>)"
  by (simp add: continues_def forward_total_def feature_total_def)

lemmas counting = continues_forward continues_meta

interpretation bind: marker_mutator "bind_marker_session session" for session
  unfolding bind_marker_session_def by (rule with_marker_mutator) (auto split: if_splits)

interpretation set_max: marker_mutator "set_marker_max_cycles n" for n
  unfolding set_marker_max_cycles_def by (rule with_marker_mutator) auto

interpretation set_park: marker_mutator "set_marker_park ni bl pv" for ni bl pv
  unfolding set_marker_park_def
  by (rule with_marker_mutator)
    (auto simp: Let_def park_ok_def split: if_splits intro!: continues_park)

interpretation advance: marker_mutator "advance_run_counters reg p" for reg p
  unfolding advance_run_counters_def
  by (rule with_marker_mutator) (auto simp: Let_def counting split: if_splits)

interpretation meta: marker_mutator "advance_meta_cycle reg" for reg
  unfolding advance_meta_cycle_def by (rule with_marker_mutator) (auto simp: Let_def counting)

interpretation forward: marker_mutator "advance_forward_cycle p" for p
  unfolding advance_forward_cycle_def
  by (rule with_marker_mutator) (auto simp: Let_def counting split: if_splits)

interpretation bracket: marker_mutator "advance_cycle_bracket_counter c" for c
  unfolding advance_cycle_bracket_counter_def
  by (rule with_marker_mutator) (auto simp: Let_def counting split: if_splits option.splits)

interpretation resolution: marker_mutator "record_resolution_signal p" for p
  unfolding record_resolution_signal_def by (rule with_marker_mutator) (auto simp: Let_def)

interpretation resolved: marker_mutator "consume_resolution_signal resolve root key" for resolve root key
  unfolding consume_resolution_signal_def by (rule with_marker_mutator) (auto split: if_splits)

interpretation audit: marker_mutator "record_audit_obligation item kind b e summary" for item kind b e summary
  unfolding record_audit_obligation_def
  by (rule with_marker_mutator) (auto simp: Let_def split: if_splits option.splits)

interpretation discharge: marker_mutator discharge_audit_obligation
  unfolding discharge_audit_obligation_def by (rule with_marker_mutator) (auto split: if_splits)

interpretation owner: marker_mutator "marker_owner_status session" for session
  unfolding marker_owner_status_def by (rule with_marker_mutator) (auto split: if_splits)

interpretation reassert: marker_mutator "reassert_marker_owner session" for session
proof
  show "fst (read_run_marker None now f) = None \<Longrightarrow>
      snd (reassert_marker_owner session now f) = snd (read_run_marker None now f)" for now f
    using owner.dead [of now f session]
    by (cases "read_run_marker None now f")
      (simp add: reassert_marker_owner_def marker_owner_status_def with_marker_def)
  show "\<not> age_stale now m \<Longrightarrow>
      \<exists>m'. snd (reassert_marker_owner session now (Content m)) = Content m' \<and> continues m m'" for now m
    by (simp add: reassert_marker_owner_def marker_owner_status_def with_marker_def)
qed

subsection \<open>Runs of marker operations\<close>

datatype marker_cmd =
    Look "string option"
  | Bind string
  | Reassert string
  | SetMax int
  | SetPark "bool option" "bool option" "bool option"
  | AdvanceRun registry_file probe
  | AdvanceMeta registry_file
  | AdvanceForward probe
  | EndBracket "cycle_marker option"
  | Resolution probe
  | TakeResolution "string \<Rightarrow> string" string step_key
  | Audit "string option" "string option" "string option" "string option" "string option"
  | Discharge

fun exec_marker :: "marker_cmd \<Rightarrow> int \<Rightarrow> marker_file \<Rightarrow> marker_file" where
  "exec_marker (Look session) now f = snd (read_run_marker session now f)"
| "exec_marker (Bind session) now f = snd (bind_marker_session session now f)"
| "exec_marker (Reassert session) now f = snd (reassert_marker_owner session now f)"
| "exec_marker (SetMax n) now f = snd (set_marker_max_cycles n now f)"
| "exec_marker (SetPark ni bl pv) now f = snd (set_marker_park ni bl pv now f)"
| "exec_marker (AdvanceRun reg p) now f = snd (advance_run_counters reg p now f)"
| "exec_marker (AdvanceMeta reg) now f = snd (advance_meta_cycle reg now f)"
| "exec_marker (AdvanceForward p) now f = snd (advance_forward_cycle p now f)"
| "exec_marker (EndBracket c) now f = snd (advance_cycle_bracket_counter c now f)"
| "exec_marker (Resolution p) now f = snd (record_resolution_signal p now f)"
| "exec_marker (TakeResolution resolve root key) now f = snd (consume_resolution_signal resolve root key now f)"
| "exec_marker (Audit item kind b e summary) now f = snd (record_audit_obligation item kind b e summary now f)"
| "exec_marker Discharge now f = snd (discharge_audit_obligation now f)"

definition exec_markers :: "(int \<times> marker_cmd) list \<Rightarrow> marker_file \<Rightarrow> marker_file" where
  "exec_markers cs f = fold (\<lambda>(now, c). exec_marker c now) cs f"

lemma read_any_live: "\<not> age_stale now m \<Longrightarrow> snd (read_run_marker session now (Content m)) = Content m"
  by (simp add: read_run_marker_def split: option.splits)

lemma exec_live: "\<not> age_stale now m \<Longrightarrow> \<exists>m'. exec_marker c now (Content m) = Content m' \<and> continues m m'"
  by (cases c) (simp_all add: read_any_live bind.live reassert.live set_max.live set_park.live
      advance.live meta.live forward.live bracket.live resolution.live resolved.live audit.live discharge.live)

lemma exec_dead:
  assumes "fst (read_run_marker None now f) = None"
  shows "exec_marker c now f = Absent"
proof -
  have "snd (read_run_marker session now f) = Absent" for session
    using assms by (auto simp: read_run_marker_def split: jfile.splits if_splits)
  with assms show ?thesis
    by (cases c) (simp_all add: bind.never_arms reassert.never_arms set_max.never_arms
        set_park.never_arms advance.never_arms meta.never_arms forward.never_arms bracket.never_arms
        resolution.never_arms resolved.never_arms audit.never_arms discharge.never_arms)
qed

lemma exec_markers_Absent: "exec_markers cs Absent = Absent"
  unfolding exec_markers_def
  by (induction cs) (auto simp: exec_dead read_run_marker_def)

lemma exec_markers_live:
  "(\<forall>(now, c)\<in>set cs. \<not> age_stale now m) \<Longrightarrow>
    \<exists>m'. exec_markers cs (Content m) = Content m' \<and> continues m m'"
proof (induction cs arbitrary: m)
  case Nil
  then show ?case by (simp add: exec_markers_def)
next
  case (Cons nc cs)
  obtain now c where nc: "nc = (now, c)" by (cases nc)
  with Cons.prems obtain m1 where m1: "exec_marker c now (Content m) = Content m1" "continues m m1"
    using exec_live [of now m c] by auto
  from Cons.prems m1(2) have "\<forall>(now, c)\<in>set cs. \<not> age_stale now m1"
    by (auto simp: age_stale_continues)
  from Cons.IH [OF this] m1 nc show ?case
    by (auto simp: exec_markers_def intro: continues_trans)
qed

text \<open>
  The counters of a run are monotone and its identity is stable: while the marker is younger
  than 24 hours, any sequence of reads by any session and of marker operations leaves the marker on
  disk with the same start, repository, pipeline and branch, neither cycle counter ever goes back,
  the per-feature counts never grow by more than the run's forward count, and a marker whose
  provisional park flag implies park mode keeps that. Once the marker is gone, or too old, no
  operation brings it back.
\<close>

theorem run_counters_monotone:
  assumes "\<forall>(now, c)\<in>set cs. \<not> age_stale now m"
  shows "(\<exists>m'. exec_markers cs (Content m) = Content m' \<and>
      started_at m' = started_at m \<and> repo_root m' = repo_root m \<and> pipeline m' = pipeline m \<and>
      work_branch m' = work_branch m \<and>
      forward_total m \<le> forward_total m' \<and> count_of (meta_cycles m) \<le> count_of (meta_cycles m') \<and>
      feature_total m' - feature_total m \<le> forward_total m' - forward_total m \<and>
      (park_ok m \<longrightarrow> park_ok m')) \<and>
    (age_stale late m \<longrightarrow> exec_markers ((late, c) # cs') (Content m) = Absent)"
proof
  show "age_stale late m \<longrightarrow> exec_markers ((late, c) # cs') (Content m) = Absent"
    using exec_dead [of late "Content m" c] exec_markers_Absent [of cs']
    by (simp add: exec_markers_def read_run_marker_def)
qed (use exec_markers_live [OF assms] in \<open>auto simp: continues_def\<close>)

definition sample_args :: run_args where
  "sample_args = \<lparr>arg_pipeline = ''feature'', arg_cloud = False, arg_repo_root = ''/r'',
     arg_max_cycles = Some 25, arg_session_id = None, arg_nonce_seed = None, arg_attended = True,
     arg_parent_run = None, arg_park_needs_input = False, arg_park_blocked = False,
     arg_park_provisional = False\<rparr>"

definition sample_probe :: probe where
  "sample_probe = \<lparr>feature_id = Some ''f1'', sub_skill = Some ''execute-plan'',
     sub_skill_args = Some ''part-1.md'', current_step = Some ''Step 7a''\<rparr>"

theorem run_counters_monotone_witness:
  "\<exists>m'. exec_markers [(5000000, Bind ''s1''), (6000000, AdvanceForward sample_probe),
       (7000000, Look (Some ''other''))] (Content (new_marker sample_args ''main'' 3000000)) = Content m' \<and>
     started_at m' = Some 3 \<and> 0 \<le> forward_total m'"
proof -
  let ?m = "new_marker sample_args ''main'' 3000000"
  have "\<forall>(now, c)\<in>set [(5000000, Bind ''s1''), (6000000, AdvanceForward sample_probe),
       (7000000, Look (Some ''other''))]. \<not> age_stale now ?m"
    by (simp add: age_stale_def started_epoch_def marker_stale_seconds_def new_marker_def)
  note run_counters_monotone [OF this, THEN conjunct1]
  moreover have "started_at ?m = Some 3" "forward_total ?m = 0"
    by (simp_all add: new_marker_def forward_total_def count_of_def)
  ultimately show ?thesis by metis
qed

subsection \<open>What the single operations do\<close>

lemma with_marker_live:
  "\<not> age_stale now m \<Longrightarrow> with_marker none act now (Content m) =
    (case act m of (r, None) \<Rightarrow> (r, Content m) | (r, Some m') \<Rightarrow> (r, Content m'))"
  by (simp add: with_marker_def)

text \<open>
  A foreign session neither sees nor harms a live run: reading with another session id yields
  no marker and leaves the file as it is, the owner still reads it; the foreign session is told that
  the slot is taken, also without a write; and re-asserting ownership is the one operation that
  takes the slot over, once.
\<close>

theorem foreign_session_harmless:
  assumes "\<not> age_stale now m" and "session_id m = Some own" and "other \<noteq> own"
  shows "read_run_marker (Some other) now (Content m) = (None, Content m) \<and>
    read_run_marker (Some own) now (Content m) = (Some m, Content m) \<and>
    marker_owner_status other now (Content m) = (ForeignStamped, Content m) \<and>
    bind_marker_session other now (Content m) = (False, Content m) \<and>
    reassert_marker_owner other now (Content m) = (True, Content (m\<lparr>session_id := Some other\<rparr>)) \<and>
    reassert_marker_owner other now (Content (m\<lparr>session_id := Some other\<rparr>)) =
      (False, Content (m\<lparr>session_id := Some other\<rparr>))"
proof -
  have "\<not> age_stale now (m\<lparr>session_id := Some other\<rparr>)"
    using assms(1) by (simp add: age_stale_def started_epoch_def)
  with assms show ?thesis
    by (simp add: read_run_marker_def marker_owner_status_def bind_marker_session_def
        reassert_marker_owner_def with_marker_live)
qed

theorem foreign_session_harmless_witness:
  "fst (read_run_marker (Some ''s2'') 4000000
     (Content ((new_marker sample_args ''main'' 3000000)\<lparr>session_id := Some ''s1''\<rparr>))) = None"
proof -
  let ?m = "(new_marker sample_args ''main'' 3000000)\<lparr>session_id := Some ''s1''\<rparr>"
  have "\<not> age_stale 4000000 ?m"
    by (simp add: age_stale_def started_epoch_def marker_stale_seconds_def new_marker_def)
  from foreign_session_harmless [OF this, of "''s1''" "''s2''"] show ?thesis by simp
qed

text \<open>Reference: how often the census differs from the one at the advance before.\<close>

definition census_moves :: "int \<Rightarrow> int list \<Rightarrow> int" where
  "census_moves w cs = int (length (remdups_adj (w # cs))) - 1"

definition cycle_total :: "marker \<Rightarrow> int" where
  "cycle_total m = forward_total m + count_of (meta_cycles m)"

lemma cycle_total_step [simp]:
  "cycle_total (add_forward i m) = cycle_total m + 1" "cycle_total (add_meta m) = cycle_total m + 1"
  "cycle_total (m\<lparr>last_advance_consume_count := w\<rparr>) = cycle_total m"
  by (simp_all add: cycle_total_def add_forward_def add_meta_def bump_per_feature_forward_def
      forward_total_def count_of_def split: option.split)

lemma advance_run_counters_live:
  assumes "\<not> age_stale now m"
  shows "\<exists>m'. snd (advance_run_counters reg p now (Content m)) = Content m' \<and> continues m m' \<and>
    count_of (last_advance_consume_count m') = int (consumed_emission_count None reg) \<and>
    cycle_total m' = cycle_total m +
      (if int (consumed_emission_count None reg) = count_of (last_advance_consume_count m) then 0 else 1)"
proof -
  let ?c = "int (consumed_emission_count None reg)"
  have iff: "?c \<le> watermark ?c m \<longleftrightarrow> ?c = count_of (last_advance_consume_count m)"
    by (auto simp: watermark_def Let_def)
  let ?m' = "(if real_skill (sub_skill p) then add_forward (feature_id p) m else add_meta m)
    \<lparr>last_advance_consume_count := Some ?c\<rparr>"
  have "continues m ?m'" "count_of (last_advance_consume_count ?m') = ?c" "cycle_total ?m' = cycle_total m + 1"
    by (simp_all add: counting count_of_def)
  with assms iff show ?thesis
    by (auto simp: advance_run_counters_def with_marker_live Let_def)
qed

text \<open>
  The probe-path counter moves with the registry, never with the probe: over any sequence of
  \<open>advance_run_counters\<close> calls the forward and meta counts together grow by exactly the number of
  times the consumed census differs from the one before, so re-probing without a change never counts.
\<close>

theorem probe_counter_follows_census:
  assumes "\<forall>(now, reg, p)\<in>set calls. \<not> age_stale now m"
  shows "\<exists>m'. fold (\<lambda>(now, reg, p) f. snd (advance_run_counters reg p now f)) calls (Content m) = Content m' \<and>
    cycle_total m' = cycle_total m + census_moves (count_of (last_advance_consume_count m))
      (map (\<lambda>(now, reg, p). int (consumed_emission_count None reg)) calls)"
  using assms
proof (induction calls arbitrary: m)
  case Nil
  then show ?case by (simp add: census_moves_def)
next
  case (Cons call calls)
  obtain now reg p where call: "call = (now, reg, p)" by (cases call)
  with Cons.prems advance_run_counters_live [of now m reg p] obtain m1 where m1:
    "snd (advance_run_counters reg p now (Content m)) = Content m1" "continues m m1"
    "count_of (last_advance_consume_count m1) = int (consumed_emission_count None reg)"
    "cycle_total m1 = cycle_total m +
      (if int (consumed_emission_count None reg) = count_of (last_advance_consume_count m) then 0 else 1)"
    by auto
  from Cons.prems m1(2) have "\<forall>(now, reg, p)\<in>set calls. \<not> age_stale now m1"
    by (auto simp: age_stale_continues)
  from Cons.IH [OF this] m1 call show ?case
    by (auto simp: census_moves_def split: if_splits)
qed

definition call_registry :: "nat \<Rightarrow> registry_file" where
  "call_registry n = Content (replicate n \<lparr>nonce = ''n'', prompt_sha = '''', prompt_norm = '''',
     prompt_raw = '''', emitted_at = Some 0, emission_class = ''cycle'', emission_item = None,
     consumed = Some True, emission_model = None, consumed_by = None\<rparr>)"

lemma call_registry_count [simp]: "consumed_emission_count None (call_registry n) = n"
  by (simp add: call_registry_def consumed_emission_count_def load_registry_def is_consumed_def
      filter_replicate)

theorem probe_counter_follows_census_witness:
  "\<exists>m'. fold (\<lambda>(now, reg, p) f. snd (advance_run_counters reg p now f))
       (map (\<lambda>n. (4000000, call_registry n, sample_probe)) [0, 1, 1, 2, 2])
       (Content (new_marker sample_args ''main'' 3000000)) = Content m' \<and> cycle_total m' = 2"
proof -
  let ?m = "new_marker sample_args ''main'' 3000000"
  let ?calls = "map (\<lambda>n. (4000000 :: int, call_registry n, sample_probe)) [0, 1, 1, 2, 2]"
  have "\<forall>(now, reg, p)\<in>set ?calls. \<not> age_stale now ?m"
    by (simp add: age_stale_def started_epoch_def marker_stale_seconds_def new_marker_def)
  note probe_counter_follows_census [OF this]
  moreover have "cycle_total ?m = 0" "count_of (last_advance_consume_count ?m) = 0"
    by (simp_all add: cycle_total_def forward_total_def count_of_def new_marker_def)
  ultimately show ?thesis by (simp add: census_moves_def)
qed

text \<open>The forward count of one feature.\<close>

definition feature_count :: "string \<Rightarrow> marker \<Rightarrow> int" where
  "feature_count i m = (case dget (map_of_counts (per_feature_forward m)) i of None \<Rightarrow> 0 | Some n \<Rightarrow> n)"

definition kind_is :: "string \<Rightarrow> cycle_marker option \<Rightarrow> bool" where
  "kind_is k c \<longleftrightarrow> (case c of None \<Rightarrow> False | Some c' \<Rightarrow> cycle_kind c' = Some k)"

definition real_for :: "string \<Rightarrow> cycle_marker option \<Rightarrow> bool" where
  "real_for i c \<longleftrightarrow> kind_is ''real'' c \<and> (\<exists>c'. c = Some c' \<and> cycle_feature c' = Some i)"

lemma feature_count_forward: "i \<noteq> [] \<Longrightarrow> feature_count i (add_forward j m) = feature_count i m + (if j = Some i then 1 else 0)"
  by (auto simp: feature_count_def add_forward_def bump_per_feature_forward_def bump_def dget_dset
      map_of_counts_def split: option.split)

lemma add_forward_counts [simp]:
  "forward_total (add_forward i m) = forward_total m + 1" "forward_total (add_meta m) = forward_total m"
  "count_of (meta_cycles (add_forward i m)) = count_of (meta_cycles m)"
  "count_of (meta_cycles (add_meta m)) = count_of (meta_cycles m) + 1"
  "feature_count j (add_meta m) = feature_count j m"
  by (simp_all add: forward_total_def count_of_def add_forward_def add_meta_def
      bump_per_feature_forward_def feature_count_def split: option.split)

lemma bracket_step:
  assumes "\<not> age_stale now m" and "i \<noteq> []"
  shows "\<exists>m'. snd (advance_cycle_bracket_counter c now (Content m)) = Content m' \<and> continues m m' \<and>
    forward_total m' = forward_total m + (if kind_is ''real'' c then 1 else 0) \<and>
    count_of (meta_cycles m') = count_of (meta_cycles m) + (if kind_is ''meta'' c then 1 else 0) \<and>
    feature_count i m' = feature_count i m + (if real_for i c then 1 else 0)"
  using assms
  by (auto simp: advance_cycle_bracket_counter_def with_marker_live Let_def kind_is_def real_for_def
      counting feature_count_forward split: option.splits if_splits)

text \<open>
  The budget counts dispatches: over any sequence of completed cycle brackets of a live run the
  forward count grows by the number of real brackets, the meta count by the number of meta ones, and
  the count of a feature by the number of real brackets for it; anything else counts nothing.
\<close>

theorem bracket_budget_exact:
  assumes "\<forall>(now, c)\<in>set bs. \<not> age_stale now m" and "i \<noteq> []"
  shows "\<exists>m'. fold (\<lambda>(now, c) f. snd (advance_cycle_bracket_counter c now f)) bs (Content m) = Content m' \<and>
    forward_total m' = forward_total m + int (length (filter (kind_is ''real'' \<circ> snd) bs)) \<and>
    count_of (meta_cycles m') = count_of (meta_cycles m) + int (length (filter (kind_is ''meta'' \<circ> snd) bs)) \<and>
    feature_count i m' = feature_count i m + int (length (filter (real_for i \<circ> snd) bs))"
  using assms(1)
proof (induction bs arbitrary: m)
  case Nil
  then show ?case by simp
next
  case (Cons b bs)
  obtain now c where b: "b = (now, c)" by (cases b)
  with Cons.prems bracket_step [of now m i c] assms(2) obtain m1 where m1:
    "snd (advance_cycle_bracket_counter c now (Content m)) = Content m1" "continues m m1"
    "forward_total m1 = forward_total m + (if kind_is ''real'' c then 1 else 0)"
    "count_of (meta_cycles m1) = count_of (meta_cycles m) + (if kind_is ''meta'' c then 1 else 0)"
    "feature_count i m1 = feature_count i m + (if real_for i c then 1 else 0)"
    by auto
  from Cons.prems m1(2) have "\<forall>(now, c)\<in>set bs. \<not> age_stale now m1"
    by (auto simp: age_stale_continues)
  from Cons.IH [OF this] m1 b show ?case by (auto split: if_splits)
qed

definition sample_bracket :: "string \<Rightarrow> cycle_marker option" where
  "sample_bracket kind = Some (fst (write_cycle_marker False None Absent
     \<lparr>c_feature = Some ''f1'', c_nonce = Some ''ab'', c_kind = Some kind, c_session = None,
      c_run_started_at = Some 3, c_head = None, c_sub_skill = None, c_sub_skill_args = None\<rparr> 4000000 Absent))"

lemma sample_bracket_kind [simp]:
  "kind_is k (sample_bracket k') \<longleftrightarrow> k' = k" "\<not> kind_is k None"
  "real_for i (sample_bracket k') \<longleftrightarrow> k' = ''real'' \<and> i = ''f1''" "\<not> real_for i None"
  by (auto simp: kind_is_def real_for_def sample_bracket_def write_cycle_marker_def Let_def)

theorem bracket_budget_exact_witness:
  "\<exists>m'. fold (\<lambda>(now, c) f. snd (advance_cycle_bracket_counter c now f))
       [(4000000, sample_bracket ''real''), (4000000, sample_bracket ''meta''),
        (4000000, sample_bracket ''real''), (4000000, None)]
       (Content (new_marker sample_args ''main'' 3000000)) = Content m' \<and>
     forward_total m' = 2 \<and> count_of (meta_cycles m') = 1 \<and> feature_count ''f1'' m' = 2"
proof -
  let ?m = "new_marker sample_args ''main'' 3000000"
  let ?bs = "[(4000000 :: int, sample_bracket ''real''), (4000000, sample_bracket ''meta''),
        (4000000, sample_bracket ''real''), (4000000, None)]"
  have "\<forall>(now, c)\<in>set ?bs. \<not> age_stale now ?m"
    by (simp add: age_stale_def started_epoch_def marker_stale_seconds_def new_marker_def)
  note bracket_budget_exact [OF this, of "''f1''"]
  moreover have "forward_total ?m = 0" "count_of (meta_cycles ?m) = 0" "feature_count ''f1'' ?m = 0"
    by (simp_all add: forward_total_def count_of_def feature_count_def map_of_counts_def new_marker_def)
  ultimately show ?thesis by simp
qed

text \<open>
  The trip decision: only a feature that is not near complete and whose forward cycles, less the
  corrective ones, have reached the ceiling is deferred; more corrective work never makes it trip.
\<close>

lemma budget_trip_iff:
  "fst (budget_trip_signals fwd corr ceiling near) \<longleftrightarrow> \<not> near \<and> ceiling \<le> max 0 (fwd - corr)"
  by (simp add: budget_trip_signals_def Let_def)

lemma budget_trip_corrective_mono:
  "corr \<le> corr' \<Longrightarrow> fst (budget_trip_signals fwd corr' ceiling near) \<Longrightarrow>
    fst (budget_trip_signals fwd corr ceiling near)"
  by (auto simp: budget_trip_iff)

text \<open>
  A registered emission whose registration drops a consumed entry from the full ring moves the census
  down, and the next \<open>advance_run_counters\<close> counts a cycle although nothing was dispatched.
\<close>

lemma eviction_counts_without_dispatch:
  assumes "\<not> age_stale now m" and "last_advance_consume_count m = Some 64"
  shows "\<exists>e reg m'. register_emission h prompt ''cycle'' item now model uid (call_registry 64) = (e, reg) \<and>
    snd (advance_run_counters reg p now (Content m)) = Content m' \<and> cycle_total m' = cycle_total m + 1"
proof -
  obtain e reg where r: "register_emission h prompt ''cycle'' item now model uid (call_registry 64) = (e, reg)"
    by fastforce
  then have "consumed_emission_count None reg = 63"
    by (auto simp: register_emission_def new_emission_def call_registry_def load_registry_def
        save_registry_def consumed_emission_count_def is_consumed_def ring_cap_def Let_def
        numeral_eq_Suc filter_replicate)
  with r advance_run_counters_live [OF assms(1), of reg p] assms(2) show ?thesis
    by (auto simp: count_of_def)
qed

end
