(* ===== verification/Deny_Ledger.thy ===== *)
theory Deny_Ledger
  imports Run_Counters
begin

text \<open>
  The deny ledger of \<^verbatim>\<open>user/scripts/lazy_core/ledgers.py\<close>: one line of JSON for every dispatch the
  guard denies and for every process friction found at the end of a cycle, each owing one hardening
  round, and the ways to retire such a debt. Entries are
  scoped to a run by the \<open>started_at\<close> of the marker on disk, read without any staleness rule.
\<close>

subsection \<open>The ledger file\<close>

datatype ack_note = Note string | DedupNote int string

text \<open>What the guard notes about a dispatch that it lets through on a special path.\<close>

datatype audit_event =
    AutoReadmit string string "string option"
  | DispatchByReference string string "string option"
  | WorkerEvent string "string option" "string option"
  | GuideEvent string "string option" "string option"

record deny_entry =
  deny_ts :: int
  deny_kind :: "string option"
  tool_use_id :: "string option"
  denied_sha12 :: "string option"
  reason_head :: "string option"
  prompt_head :: "string option"
  deny_detail :: "string option"
  acked :: bool
  deny_run :: "int option"
  acked_ts :: "int option"
  ack_method :: "string option"
  resolution :: "ack_note option"
  audit :: "audit_event option"

text \<open>
  A JSONL file as its lines, \<open>None\<close> for a line that \<open>json.loads\<close> rejects. An append that was cut off
  leaves a last line without its newline (\<open>torn\<close>): whatever is appended next goes onto that line.
\<close>

record 'e jsonl =
  ledger_lines :: "'e option list"
  torn :: bool

type_synonym ledger = "deny_entry jsonl"

text \<open>Two objects on one line are no JSON document.\<close>

definition append_line :: "'e \<Rightarrow> 'e jsonl \<Rightarrow> 'e jsonl" where
  "append_line e l =
     (if torn l then \<lparr>ledger_lines = butlast (ledger_lines l) @ [None], torn = False\<rparr>
      else l\<lparr>ledger_lines := ledger_lines l @ [Some e]\<rparr>)"

text \<open>
  An append that dies part way: what it wrote is no document (\<open>None\<close>), or the whole document without its
  newline (\<open>Some e\<close>); on a line that was torn before, it is no document in any case.
\<close>

definition cut_append :: "'e option \<Rightarrow> 'e jsonl \<Rightarrow> 'e jsonl" where
  "cut_append x l =
     (if torn l then l\<lparr>ledger_lines := butlast (ledger_lines l) @ [None]\<rparr>
      else \<lparr>ledger_lines = ledger_lines l @ [x], torn = True\<rparr>)"

definition read_lines :: "'e jsonl \<Rightarrow> 'e list" where
  "read_lines l = map the (filter (\<lambda>x. x \<noteq> None) (ledger_lines l))"

definition ledger_head_chars :: nat where
  "ledger_head_chars = 200"

text \<open>The run on disk: \<open>_raw_marker_started_at\<close>.\<close>

definition raw_started :: "marker_file \<Rightarrow> int option" where
  "raw_started f = (case f of Content m \<Rightarrow> started_at m | _ \<Rightarrow> None)"

definition append_deny_ledger_entry ::
  "marker_file \<Rightarrow> string \<Rightarrow> string \<Rightarrow> string \<Rightarrow> string \<Rightarrow> int \<Rightarrow> ledger \<Rightarrow> ledger" where
  "append_deny_ledger_entry f tool sha reason prompt now =
     append_line
       \<lparr>deny_ts = now, deny_kind = None, tool_use_id = Some tool, denied_sha12 = Some sha,
        reason_head = Some (first_chars ledger_head_chars reason),
        prompt_head = Some (first_chars ledger_head_chars prompt), deny_detail = None, acked = False,
        deny_run = raw_started f, acked_ts = None, ack_method = None, resolution = None, audit = None\<rparr>"

definition append_friction_ledger_entry :: "marker_file \<Rightarrow> string \<Rightarrow> string \<Rightarrow> int \<Rightarrow> ledger \<Rightarrow> ledger" where
  "append_friction_ledger_entry f reason detail now =
     append_line
       \<lparr>deny_ts = now, deny_kind = Some ''process-friction'', tool_use_id = None, denied_sha12 = None,
        reason_head = Some (first_chars ledger_head_chars reason), prompt_head = None,
        deny_detail = Some (first_chars ledger_head_chars detail), acked = False,
        deny_run = raw_started f, acked_ts = None, ack_method = None, resolution = None, audit = None\<rparr>"

definition read_deny_ledger :: "ledger \<Rightarrow> deny_entry list" where
  "read_deny_ledger l = read_lines l"

definition rewrite_ledger :: "deny_entry list \<Rightarrow> ledger" where
  "rewrite_ledger es = \<lparr>ledger_lines = map Some es, torn = False\<rparr>"

subsection \<open>The debt\<close>

definition unacked :: "ledger \<Rightarrow> deny_entry list" where
  "unacked l = filter (\<lambda>e. \<not> acked e) (read_deny_ledger l)"

text \<open>With a run on disk only its own entries are owed.\<close>

definition owed_by :: "int option \<Rightarrow> deny_entry \<Rightarrow> bool" where
  "owed_by run e \<longleftrightarrow> run = None \<or> deny_run e = run"

definition pending_hardening :: "bool \<Rightarrow> marker_file \<Rightarrow> ledger \<Rightarrow> nat" where
  "pending_hardening current_run_only f l =
     (if current_run_only then length (filter (owed_by (raw_started f)) (unacked l)) else length (unacked l))"

definition pending_denial_reasons :: "bool \<Rightarrow> marker_file \<Rightarrow> ledger \<Rightarrow> string list" where
  "pending_denial_reasons current_run_only f l =
     map (\<lambda>e. case reason_head e of None \<Rightarrow> [] | Some r \<Rightarrow> r)
       (if current_run_only then filter (owed_by (raw_started f)) (unacked l) else unacked l)"

definition prior_run_pending_hardening :: "marker_file \<Rightarrow> ledger \<Rightarrow> nat" where
  "prior_run_pending_hardening f l =
     (case raw_started f of
        None \<Rightarrow> 0
      | Some r \<Rightarrow> length (filter (\<lambda>e. \<not> acked e \<and> deny_run e \<noteq> Some r) (read_deny_ledger l)))"

definition oldest_unacked_deny :: "bool \<Rightarrow> marker_file \<Rightarrow> ledger \<Rightarrow> deny_entry option" where
  "oldest_unacked_deny current_run_only f l =
     find (\<lambda>e. \<not> acked e \<and> owed_by (if current_run_only then raw_started f else None) e) (read_deny_ledger l)"

subsection \<open>Retiring it\<close>

definition ack_entry :: "int \<Rightarrow> deny_entry \<Rightarrow> deny_entry" where
  "ack_entry now e = e\<lparr>acked := True, acked_ts := Some now\<rparr>"

definition ack_oldest_deny :: "int \<Rightarrow> ledger \<Rightarrow> deny_entry option \<times> ledger" where
  "ack_oldest_deny now l =
     (let es = read_deny_ledger l
      in case find_index (\<lambda>e. \<not> acked e) es of
           None \<Rightarrow> (None, l)
         | Some i \<Rightarrow> let e = ack_entry now (es ! i) in (Some e, rewrite_ledger (es[i := e])))"

definition ack_all_unacked_denies :: "int \<Rightarrow> ledger \<Rightarrow> nat \<times> ledger" where
  "ack_all_unacked_denies now l =
     (let es = read_deny_ledger l; n = length (filter (\<lambda>e. \<not> acked e) es)
      in if n = 0 then (0, l)
         else (n, rewrite_ledger (map (\<lambda>e. if acked e then e else ack_entry now e) es)))"

datatype cause = SameSha string | SameReason "string option" string

definition same_cause_key :: "deny_entry \<Rightarrow> cause option" where
  "same_cause_key e =
     (case denied_sha12 e of
        Some (c # s) \<Rightarrow> Some (SameSha (c # s))
      | _ \<Rightarrow> (case reason_head e of Some (c # s) \<Rightarrow> Some (SameReason (deny_kind e) (c # s)) | _ \<Rightarrow> None))"

definition selected :: "string \<Rightarrow> deny_entry \<Rightarrow> bool" where
  "selected sel e \<longleftrightarrow> \<not> acked e \<and>
     (sel = ''oldest'' \<or>
      (case denied_sha12 e of
         Some (c # s) \<Rightarrow> prefix (to_lower (strip sel)) (to_lower (c # s))
       | _ \<Rightarrow> False))"

datatype ack_error = BlankResolution | NoMatch string

definition manual_ack :: "int \<Rightarrow> string \<Rightarrow> ack_note \<Rightarrow> deny_entry \<Rightarrow> deny_entry" where
  "manual_ack now how n e =
     e\<lparr>acked := True, acked_ts := Some now, ack_method := Some how, resolution := Some n\<rparr>"

text \<open>The entry selected, and the others of the same cause that are still open.\<close>

definition same_cause_sibling :: "deny_entry \<Rightarrow> deny_entry \<Rightarrow> bool" where
  "same_cause_sibling target e \<longleftrightarrow>
     \<not> acked e \<and> same_cause_key target \<noteq> None \<and> same_cause_key e = same_cause_key target"

definition ack_deny_by_selector ::
  "string \<Rightarrow> string \<Rightarrow> int \<Rightarrow> ledger \<Rightarrow> (ack_error + deny_entry \<times> deny_entry list) \<times> ledger" where
  "ack_deny_by_selector sel txt now l =
     (if strip txt = [] then (Inl BlankResolution, l)
      else let es = read_deny_ledger l
           in case find_index (selected sel) es of
                None \<Rightarrow> (Inl (NoMatch sel), l)
              | Some i \<Rightarrow>
                  let target = manual_ack now ''manual-ack'' (Note (strip txt)) (es ! i);
                      dedup = manual_ack now ''manual-ack-dedup'' (DedupNote now (strip txt));
                      others = es[i := target]
                  in (Inr (target, map dedup (filter (same_cause_sibling target) others)),
                      rewrite_ledger (map (\<lambda>e. if same_cause_sibling target e then dedup e else e) others)))"

text \<open>The guard pays one unit when it lets a fresh hardening dispatch through.\<close>

definition ack_if_hardening :: "string \<Rightarrow> int \<Rightarrow> ledger \<Rightarrow> ledger" where
  "ack_if_hardening cls now l = (if cls = ''hardening'' then snd (ack_oldest_deny now l) else l)"

subsection \<open>What every way of retiring promises\<close>

text \<open>An entry stays as it is, or it was open and is closed, its identity kept.\<close>

definition retired :: "deny_entry \<Rightarrow> deny_entry \<Rightarrow> bool" where
  "retired e e' \<longleftrightarrow> e' = e \<or>
     (\<not> acked e \<and> acked e' \<and> deny_ts e' = deny_ts e \<and> deny_run e' = deny_run e \<and> deny_kind e' = deny_kind e \<and>
      denied_sha12 e' = denied_sha12 e \<and> reason_head e' = reason_head e)"

lemma retired_refl [simp, intro]: "retired e e"
  by (simp add: retired_def)

lemma retired_cause: "retired e e' \<Longrightarrow> same_cause_key e' = same_cause_key e"
  by (auto simp: retired_def same_cause_key_def cong: option.case_cong list.case_cong)

lemma retired_trans: "retired e e' \<Longrightarrow> retired e' e'' \<Longrightarrow> retired e e''"
  by (auto simp: retired_def)

lemma retired_acks [simp, intro]:
  "\<not> acked e \<Longrightarrow> retired e (ack_entry now e)" "\<not> acked e \<Longrightarrow> retired e (manual_ack now how n e)"
  by (simp_all add: retired_def ack_entry_def manual_ack_def)

lemma acked_acks [simp]: "acked (ack_entry now e)" "acked (manual_ack now how n e)"
  by (simp_all add: ack_entry_def manual_ack_def)

lemma list_all2_retired_refl [simp, intro]: "list_all2 retired es es"
  by (simp add: list_all2_refl)

lemma list_all2_retired_trans:
  "list_all2 retired xs ys \<Longrightarrow> list_all2 retired ys zs \<Longrightarrow> list_all2 retired xs zs"
  by (rule list_all2_trans [where ?P1.0 = retired and ?P2.0 = retired]) (auto intro: retired_trans)

lemma list_all2_retired_update:
  "i < length es \<Longrightarrow> retired (es ! i) e \<Longrightarrow> list_all2 retired es (es[i := e])"
  by (auto simp: list_all2_conv_all_nth nth_list_update)

locale ledger_ack =
  fixes ack :: "ledger \<Rightarrow> ledger"
  assumes retires: "list_all2 retired (read_deny_ledger l) (read_deny_ledger (ack l))"
begin

lemma keeps_length: "length (read_deny_ledger (ack l)) = length (read_deny_ledger l)"
  using retires [of l] by (simp add: list_all2_lengthD)

lemma filter_le:
  assumes "\<And>e e'. retired e e' \<Longrightarrow> P e' \<Longrightarrow> P e"
  shows "length (filter P (read_deny_ledger (ack l))) \<le> length (filter P (read_deny_ledger l))"
proof -
  have "list_all2 retired es es' \<Longrightarrow> length (filter P es') \<le> length (filter P es)" for es es'
    by (induction es es' rule: list_all2_induct) (auto dest: assms)
  then show ?thesis using retires .
qed

lemma debt_never_grows: "pending_hardening c f (ack l) \<le> pending_hardening c f l"
  by (auto simp: pending_hardening_def unacked_def retired_def owed_by_def intro!: filter_le)

lemma prior_debt_never_grows: "prior_run_pending_hardening f (ack l) \<le> prior_run_pending_hardening f l"
  by (auto simp: prior_run_pending_hardening_def retired_def intro!: filter_le split: option.split)

end

lemma read_rewrite [simp]: "read_deny_ledger (rewrite_ledger es) = es"
  by (induction es) (simp_all add: read_deny_ledger_def read_lines_def rewrite_ledger_def)

lemma map_retired: "(\<And>e. retired e (h e)) \<Longrightarrow> list_all2 retired es (map h es)"
  by (induction es) auto

interpretation oldest: ledger_ack "\<lambda>l. snd (ack_oldest_deny now l)" for now
proof
  fix l
  show "list_all2 retired (read_deny_ledger l) (read_deny_ledger (snd (ack_oldest_deny now l)))"
    by (auto simp: ack_oldest_deny_def Let_def split: option.split dest!: find_index_SomeD
        intro!: list_all2_retired_update)
qed

interpretation blanket: ledger_ack "\<lambda>l. snd (ack_all_unacked_denies now l)" for now
  by standard (auto simp: ack_all_unacked_denies_def Let_def intro!: map_retired)

interpretation guard: ledger_ack "ack_if_hardening k now" for k now
  by standard (auto simp: ack_if_hardening_def oldest.retires)

interpretation selector: ledger_ack "\<lambda>l. snd (ack_deny_by_selector sel txt now l)" for sel txt now
proof
  fix l
  have step: "list_all2 retired es (map (\<lambda>e. if same_cause_sibling t e then manual_ack now how n e else e) (es[i := t]))"
    if "i < length es" "retired (es ! i) t" for es i t how n
    by (rule list_all2_retired_trans [OF list_all2_retired_update [OF that]])
       (auto simp: same_cause_sibling_def intro!: map_retired)
  show "list_all2 retired (read_deny_ledger l) (read_deny_ledger (snd (ack_deny_by_selector sel txt now l)))"
    by (auto simp: ack_deny_by_selector_def Let_def selected_def split: option.split
        dest!: find_index_SomeD intro!: step)
qed

subsection \<open>The ledger is an audit trail\<close>

text \<open>
  A run of ledger operations, the deaths of appending processes included. An entry is sealed when its line
  has its newline.
\<close>

datatype ledger_cmd =
    Deny marker_file string string string string
  | Friction marker_file string string
  | CutOff "deny_entry option"
  | PayOldest
  | PayAll
  | PaySelected string string
  | Allow string

fun exec_ledger :: "ledger_cmd \<Rightarrow> int \<Rightarrow> ledger \<Rightarrow> ledger" where
  "exec_ledger (Deny f tool sha reason prompt) now l = append_deny_ledger_entry f tool sha reason prompt now l"
| "exec_ledger (Friction f reason detail) now l = append_friction_ledger_entry f reason detail now l"
| "exec_ledger (CutOff x) now l = cut_append x l"
| "exec_ledger PayOldest now l = snd (ack_oldest_deny now l)"
| "exec_ledger PayAll now l = snd (ack_all_unacked_denies now l)"
| "exec_ledger (PaySelected sel txt) now l = snd (ack_deny_by_selector sel txt now l)"
| "exec_ledger (Allow cls) now l = ack_if_hardening cls now l"

definition exec_ledgers :: "(int \<times> ledger_cmd) list \<Rightarrow> ledger \<Rightarrow> ledger" where
  "exec_ledgers cs l = fold (\<lambda>(now, c). exec_ledger c now) cs l"

definition sealed :: "ledger \<Rightarrow> deny_entry list" where
  "sealed l = map the (filter (\<lambda>x. x \<noteq> None) (if torn l then butlast (ledger_lines l) else ledger_lines l))"

lemma sealed_read: "\<exists>last. read_deny_ledger l = sealed l @ last"
proof (cases "torn l \<and> ledger_lines l \<noteq> []")
  case True
  then obtain xs x where "ledger_lines l = xs @ [x]" by (metis append_butlast_last_id)
  with True show ?thesis by (simp add: sealed_def read_deny_ledger_def read_lines_def)
qed (auto simp: sealed_def read_deny_ledger_def read_lines_def)

lemma sealed_nth: "i < length (sealed l) \<Longrightarrow> read_deny_ledger l ! i = sealed l ! i"
  using sealed_read [of l] by (auto simp: nth_append)

lemma sealed_append: "sealed (append_line e l) = sealed l @ (if torn l then [] else [e])"
  by (simp add: sealed_def append_line_def)

lemma sealed_cut: "sealed (cut_append x l) = sealed l"
  by (simp add: sealed_def cut_append_def)

lemma sealed_whole: "\<not> torn l \<Longrightarrow> sealed l = read_deny_ledger l"
  by (simp add: sealed_def read_deny_ledger_def read_lines_def)

lemma acks_rewrite:
  "snd (ack_oldest_deny now l) = l \<or> \<not> torn (snd (ack_oldest_deny now l))"
  "snd (ack_all_unacked_denies now l) = l \<or> \<not> torn (snd (ack_all_unacked_denies now l))"
  "snd (ack_deny_by_selector sel txt now l) = l \<or> \<not> torn (snd (ack_deny_by_selector sel txt now l))"
  "ack_if_hardening cls now l = l \<or> \<not> torn (ack_if_hardening cls now l)"
  by (simp_all add: ack_oldest_deny_def ack_all_unacked_denies_def ack_deny_by_selector_def ack_if_hardening_def
      rewrite_ledger_def Let_def split: option.split)

definition grows :: "ledger \<Rightarrow> ledger \<Rightarrow> bool" where
  "grows l l' \<longleftrightarrow> (\<exists>new. list_all2 retired (sealed l @ new) (sealed l'))"

lemma grows_refl [simp, intro]: "grows l l"
  by (auto simp: grows_def intro: exI [of _ "[]"])

lemma grows_trans: "grows l l' \<Longrightarrow> grows l' l'' \<Longrightarrow> grows l l''"
  unfolding grows_def
proof (elim exE)
  fix new new'
  assume "list_all2 retired (sealed l @ new) (sealed l')" and *: "list_all2 retired (sealed l' @ new') (sealed l'')"
  then have "list_all2 retired ((sealed l @ new) @ new') (sealed l' @ new')"
    by (intro list_all2_appendI) auto
  from list_all2_retired_trans [OF this *]
  show "\<exists>n. list_all2 retired (sealed l @ n) (sealed l'')" by auto
qed

lemma grows_same: "sealed l' = sealed l @ new \<Longrightarrow> grows l l'"
  by (auto simp: grows_def intro: exI [of _ new])

lemma grows_ack:
  assumes "list_all2 retired (read_deny_ledger l) (read_deny_ledger l')" and "l' = l \<or> \<not> torn l'"
  shows "grows l l'"
proof (cases "l' = l")
  case False
  then show ?thesis using assms sealed_read [of l] sealed_whole [of l'] by (auto simp: grows_def)
qed simp

lemma grows_step: "grows l (exec_ledger c now l)"
  by (cases c)
    (simp_all add: append_deny_ledger_entry_def append_friction_ledger_entry_def sealed_append sealed_cut grows_same
      grows_ack oldest.retires blanket.retires selector.retires guard.retires acks_rewrite)

lemma grows_run: "grows l (exec_ledgers cs l)"
  unfolding exec_ledgers_def by (induction cs arbitrary: l) (auto intro: grows_trans [OF grows_step])

text \<open>
  C34. The ledger is an audit trail: over any sequence of denials, friction entries, appends that die at any
  point and acknowledgements of every kind, an entry whose line was completed stays readable, at its place, with
  its run, cause and time; once acknowledged it is never opened again or changed. (An append that dies just before
  its newline leaves an entry that can be read and that the next append destroys, see below.)
\<close>

theorem ledger_audit_trail:
  assumes "i < length (sealed l)"
  shows "i < length (sealed (exec_ledgers cs l)) \<and>
    (let e = read_deny_ledger l ! i; e' = read_deny_ledger (exec_ledgers cs l) ! i
     in deny_ts e' = deny_ts e \<and> deny_run e' = deny_run e \<and> same_cause_key e' = same_cause_key e \<and>
        (acked e \<longrightarrow> e' = e))"
proof -
  obtain new where *: "list_all2 retired (sealed l @ new) (sealed (exec_ledgers cs l))"
    using grows_run [of l cs] by (auto simp: grows_def)
  then have i: "i < length (sealed (exec_ledgers cs l))" using assms list_all2_lengthD [OF *] by simp
  have "retired (read_deny_ledger l ! i) (read_deny_ledger (exec_ledgers cs l) ! i)"
    using assms i list_all2_nthD [OF *, of i] by (simp add: nth_append sealed_nth)
  with i retired_cause [OF this] show ?thesis by (auto simp: Let_def retired_def)
qed

definition deny_at :: "int option \<Rightarrow> bool \<Rightarrow> deny_entry" where
  "deny_at run done = \<lparr>deny_ts = 5, deny_kind = None, tool_use_id = Some [], denied_sha12 = Some ''ab'',
     reason_head = Some ''unregistered'', prompt_head = Some [], deny_detail = None, acked = done,
     deny_run = run, acked_ts = None, ack_method = None, resolution = None, audit = None\<rparr>"

definition sample_ledger :: ledger where
  "sample_ledger = \<lparr>ledger_lines = [Some (deny_at (Some 1) True), Some (deny_at (Some 2) False)], torn = False\<rparr>"

lemma read_sample: "read_deny_ledger sample_ledger = [deny_at (Some 1) True, deny_at (Some 2) False]"
  by (simp add: read_deny_ledger_def read_lines_def sample_ledger_def)

lemma sealed_sample: "sealed sample_ledger = [deny_at (Some 1) True, deny_at (Some 2) False]"
  by (simp add: sealed_def sample_ledger_def)

theorem ledger_audit_trail_witness:
  "deny_run (read_deny_ledger (exec_ledgers [(7, CutOff None), (8, PayAll)] sample_ledger) ! 1) = Some 2"
  using ledger_audit_trail [of 1 sample_ledger "[(7, CutOff None), (8, PayAll)]"]
  by (simp add: read_sample sealed_sample Let_def deny_at_def)

subsection \<open>Paying the debt\<close>

lemma filter_update_first:
  "find_index P xs = Some i \<Longrightarrow> \<not> P y \<Longrightarrow> filter P (xs[i := y]) = tl (filter P xs)"
proof (induction xs arbitrary: i)
  case Nil
  then show ?case by simp
next
  case (Cons x xs)
  then show ?case by (cases "P x") auto
qed

lemma unacked_rewrite [simp]: "unacked (rewrite_ledger es) = filter (\<lambda>e. \<not> acked e) es"
  by (simp add: unacked_def)

lemma unacked_oldest: "unacked (snd (ack_oldest_deny now l)) = tl (unacked l)"
proof (cases "find_index (\<lambda>e. \<not> acked e) (read_deny_ledger l)")
  case None
  then have "unacked l = []" by (auto simp: find_index_None_iff unacked_def filter_empty_conv)
  with None show ?thesis by (simp add: ack_oldest_deny_def)
next
  case (Some i)
  with filter_update_first [OF Some, of "ack_entry now (read_deny_ledger l ! i)"] show ?thesis
    by (simp add: ack_oldest_deny_def Let_def unacked_def [of l])
qed

lemma unacked_all: "unacked (snd (ack_all_unacked_denies now l)) = []"
  by (auto simp: ack_all_unacked_denies_def Let_def filter_empty_conv unacked_def)

lemma unacked_dispatches:
  "unacked (fold (ack_if_hardening ''hardening'') ts l) = drop (length ts) (unacked l)"
  by (induction ts arbitrary: l) (simp_all add: ack_if_hardening_def unacked_oldest drop_Suc)

text \<open>
  Hardening dispatches pay first in, first out, over the whole ledger: after n of them the open
  entries are the old ones without the first n, so the debt of the current run is the number of its
  entries among the rest. It reaches zero exactly when the last entry of this run is among the first
  n, whichever runs the others belong to; a dispatch of another class pays nothing.
\<close>

theorem hardening_pays_fifo:
  "unacked (fold (ack_if_hardening ''hardening'') ts l) = drop (length ts) (unacked l) \<and>
   pending_hardening True f (fold (ack_if_hardening ''hardening'') ts l) =
     length (filter (owed_by (raw_started f)) (drop (length ts) (unacked l))) \<and>
   fold (ack_if_hardening ''cycle'') ts l = l"
proof (intro conjI)
  show "fold (ack_if_hardening ''cycle'') ts l = l"
    by (induction ts) (simp_all add: ack_if_hardening_def)
qed (simp_all add: pending_hardening_def unacked_dispatches)

lemma find_filter_hd: "find P (xs :: 'a list) = (case filter P xs of [] \<Rightarrow> None | x # _ \<Rightarrow> Some x)"
  by (induction xs) auto

lemma oldest_unacked: "oldest_unacked_deny True f l = find (owed_by (raw_started f)) (unacked l)"
  by (simp add: oldest_unacked_deny_def unacked_def find_filter_hd conj_commute flip: filter_filter)

text \<open>
  The dispatch is composed for one entry and pays another: while an entry of an earlier run is
  open and older, the hardening dispatch that the probe composes for the oldest entry of the current
  run acknowledges the foreign entry instead; the current run's debt and the entry to harden next
  stay exactly as they were.
\<close>

theorem hardening_pays_foreign_debt:
  assumes "unacked l = old # rest" and "\<not> owed_by (raw_started f) old"
  shows "pending_hardening True f (ack_if_hardening ''hardening'' now l) = pending_hardening True f l \<and>
    oldest_unacked_deny True f (ack_if_hardening ''hardening'' now l) = oldest_unacked_deny True f l \<and>
    prior_run_pending_hardening f (ack_if_hardening ''hardening'' now l) + 1 = prior_run_pending_hardening f l"
proof -
  have prior: "prior_run_pending_hardening f l' = length (filter (\<lambda>e. \<not> owed_by (raw_started f) e) (unacked l'))"
    for l'
    by (cases "raw_started f")
       (auto simp: prior_run_pending_hardening_def owed_by_def unacked_def conj_commute
         intro!: arg_cong [where f = length] filter_cong)
  show ?thesis
    using assms by (simp add: pending_hardening_def oldest_unacked prior ack_if_hardening_def unacked_oldest)
qed

definition run_2 :: marker_file where
  "run_2 = Content (new_marker sample_args ''main'' 2000000)"

lemma raw_run_2 [simp]: "raw_started run_2 = Some 2"
  by (simp add: run_2_def raw_started_def new_marker_def)

definition mixed_ledger :: ledger where
  "mixed_ledger = rewrite_ledger [deny_at (Some 1) False, deny_at (Some 2) False]"

lemma unacked_mixed: "unacked mixed_ledger = [deny_at (Some 1) False, deny_at (Some 2) False]"
  by (simp add: mixed_ledger_def deny_at_def)

theorem hardening_pays_foreign_debt_witness:
  "pending_hardening True run_2 mixed_ledger = 1 \<and>
   pending_hardening True run_2 (ack_if_hardening ''hardening'' 9 mixed_ledger) = 1"
  using hardening_pays_foreign_debt [OF unacked_mixed, of run_2 9]
  by (simp add: pending_hardening_def unacked_mixed owed_by_def deny_at_def)

text \<open>
  A torn line swallows the next denial: after an append that was cut off, the next denial is
  written onto the same line and is never read: the entries and the debt stay what they were, although
  the guard denied a dispatch. From then on appends are read again.
\<close>

theorem torn_append_swallows_next:
  assumes "\<not> torn l"
  shows "let l1 = append_deny_ledger_entry f tool sha reason prompt now (exec_ledger (CutOff None) t l)
    in read_deny_ledger l1 = read_deny_ledger l \<and>
       pending_hardening c f l1 = pending_hardening c f l \<and>
       length (read_deny_ledger (append_deny_ledger_entry f tool sha reason prompt now l1)) =
         Suc (length (read_deny_ledger l))"
  using assms
  by (simp add: append_deny_ledger_entry_def append_line_def cut_append_def read_deny_ledger_def read_lines_def pending_hardening_def unacked_def Let_def)

theorem torn_append_swallows_next_witness:
  "length (read_deny_ledger (append_deny_ledger_entry run_2 ''t'' ''s'' ''r'' ''p'' 9
     (exec_ledger (CutOff None) 8 mixed_ledger))) = length (read_deny_ledger mixed_ledger)"
  using torn_append_swallows_next [of mixed_ledger run_2 "''t''" "''s''" "''r''" "''p''" 9 8 True]
  by (simp add: mixed_ledger_def rewrite_ledger_def [THEN arg_cong [where f = torn]] Let_def)

text \<open>
  An append that dies just before its newline leaves an entry that is read and owed; the next append goes onto
  its line, and both entries are gone.
\<close>

theorem unsealed_entry_is_lost:
  assumes "\<not> torn l"
  shows "read_deny_ledger (exec_ledger (CutOff (Some e)) t l) = read_deny_ledger l @ [e] \<and>
    read_deny_ledger (append_deny_ledger_entry f tool sha reason prompt now (exec_ledger (CutOff (Some e)) t l)) =
      read_deny_ledger l"
  using assms by (simp add: append_deny_ledger_entry_def append_line_def cut_append_def read_deny_ledger_def read_lines_def)

theorem unsealed_entry_is_lost_witness:
  "length (read_deny_ledger (append_deny_ledger_entry run_2 ''t'' ''s'' ''r'' ''p'' 9
     (exec_ledger (CutOff (Some (deny_at None False))) 8 mixed_ledger))) = length (read_deny_ledger mixed_ledger)"
  using unsealed_entry_is_lost [of mixed_ledger]
  by (simp add: mixed_ledger_def rewrite_ledger_def [THEN arg_cong [where f = torn]])

subsection \<open>One cause costs one acknowledgement\<close>

definition same_cause :: "deny_entry \<Rightarrow> deny_entry \<Rightarrow> bool" where
  "same_cause old e \<longleftrightarrow> same_cause_key old \<noteq> None \<and> same_cause_key e = same_cause_key old"

lemma key_manual_ack: "same_cause_key (manual_ack now how n e) = same_cause_key e"
  by (simp add: same_cause_key_def manual_ack_def cong: option.case_cong list.case_cong)

lemma sibling_same_cause:
  "same_cause_sibling (manual_ack now how n old) e \<longleftrightarrow> \<not> acked e \<and> same_cause old e"
  by (simp add: same_cause_sibling_def same_cause_def key_manual_ack)

lemma filter_siblings:
  "filter (same_cause_sibling (manual_ack now how n old)) xs = filter (same_cause old) (filter (\<lambda>e. \<not> acked e) xs)"
  by (induction xs) (auto simp: sibling_same_cause)

lemma filter_dedup:
  "filter (\<lambda>e. \<not> acked e) (map (\<lambda>e. if \<not> acked e \<and> same_cause old e then manual_ack now how n e else e) xs) =
   filter (\<lambda>e. \<not> same_cause old e) (filter (\<lambda>e. \<not> acked e) xs)"
  by (induction xs) auto

lemma find_index_split:
  "find_index P xs = Some i \<Longrightarrow> \<exists>us vs. xs = us @ xs ! i # vs \<and> length us = i \<and> P (xs ! i) \<and> (\<forall>u\<in>set us. \<not> P u)"
  using find_index_SomeD [of P xs i]
  by (intro exI [of _ "take i xs"] exI [of _ "drop (Suc i) xs"])
     (auto simp: id_take_nth_drop [symmetric] in_set_conv_nth)

text \<open>
  Acknowledging by selector closes exactly one cause: on success the entry that is closed is the
  first open one that the selector names, every other open entry of the same cause is closed with it
  and reported, and all open entries of other causes, or without a cause, stay open in their order.
\<close>

theorem selector_ack_closes_one_cause:
  assumes "ack_deny_by_selector sel txt now l = (Inr (t, ds), l')"
  shows "\<exists>us old vs. unacked l = us @ old # vs \<and> selected sel old \<and> (\<forall>u\<in>set us. \<not> selected sel u) \<and>
    t = manual_ack now ''manual-ack'' (Note (strip txt)) old \<and>
    length ds = length (filter (same_cause old) (us @ vs)) \<and>
    unacked l' = filter (\<lambda>e. \<not> same_cause old e) (us @ vs)"
proof -
  let ?es = "read_deny_ledger l"
  from assms obtain i where i: "find_index (selected sel) ?es = Some i"
    by (auto simp: ack_deny_by_selector_def Let_def split: if_splits option.splits)
  from find_index_split [OF i] obtain us vs where
    es: "?es = us @ ?es ! i # vs" "length us = i" "selected sel (?es ! i)" "\<forall>u\<in>set us. \<not> selected sel u"
    by auto
  define old where "old = ?es ! i"
  with es have es': "?es = us @ old # vs" "?es[i := x] = us @ x # vs" for x
    by (metis, metis list_update_length)
  have sel: "selected sel old" "\<not> acked old" using es(3) by (simp_all add: old_def selected_def)
  define U where "U = filter (\<lambda>e :: deny_entry. \<not> acked e)"
  have "unacked l = U us @ old # U vs"
    using sel(2) by (simp add: unacked_def es'(1) U_def)
  moreover have "\<forall>u\<in>set (U us). \<not> selected sel u" using es(4) by (simp add: U_def)
  moreover have "unacked l' = filter (\<lambda>e. \<not> same_cause old e) (U us @ U vs)"
    using assms i by (auto simp: ack_deny_by_selector_def Let_def sibling_same_cause filter_dedup es'(2)
        U_def old_def [symmetric] split: if_splits)
  moreover have "length ds = length (filter (same_cause old) (U us @ U vs))"
    using assms i by (auto simp: ack_deny_by_selector_def Let_def sibling_same_cause filter_siblings es'(2)
        U_def old_def [symmetric] split: if_splits)
  moreover have "t = manual_ack now ''manual-ack'' (Note (strip txt)) old"
    using assms i by (auto simp: ack_deny_by_selector_def Let_def old_def split: if_splits)
  ultimately show ?thesis using sel(1) by blast
qed

lemma oldest_ack_mixed:
  "ack_deny_by_selector ''oldest'' ''fixed'' 9 mixed_ledger =
     (Inr (manual_ack 9 ''manual-ack'' (Note ''fixed'') (deny_at (Some 1) False),
           [manual_ack 9 ''manual-ack-dedup'' (DedupNote 9 ''fixed'') (deny_at (Some 2) False)]),
      snd (ack_deny_by_selector ''oldest'' ''fixed'' 9 mixed_ledger))"
proof -
  have "strip ''fixed'' = ''fixed''" by (rule strip_plain) (simp_all add: plain_char_def)
  then show ?thesis
    by (simp add: Let_def ack_deny_by_selector_def mixed_ledger_def selected_def sibling_same_cause same_cause_def
        same_cause_key_def deny_at_def)
qed

theorem selector_ack_closes_one_cause_witness:
  "\<exists>us old vs. unacked mixed_ledger = us @ old # vs \<and>
    unacked (snd (ack_deny_by_selector ''oldest'' ''fixed'' 9 mixed_ledger)) =
      filter (\<lambda>e. \<not> same_cause old e) (us @ vs)"
  using selector_ack_closes_one_cause [OF oldest_ack_mixed] by blast

end
