(* ===== verification/Commit_Budget.thy ===== *)
theory Commit_Budget
  imports Py_Json
begin

text \<open>
  How many commits one dispatched cycle may make: the flags a skill declares in the front matter of
  its SKILL.md (\<^verbatim>\<open>user/scripts/lazy_core/dispatch.py\<close>), the work units that a plan declares
  (\<^verbatim>\<open>docmodel.py\<close>, \<^verbatim>\<open>gates.py\<close>), and the budget of a plan (\<^verbatim>\<open>markers.py\<close>). What the code reads from disk
  is an argument: the candidate SKILL.md texts of a name, the text of a plan and its front matter as
  YAML. The patterns are read with ASCII case folding; a byte above 127 counts as a letter.
\<close>

subsection \<open>Flags of a skill\<close>

text \<open>\<open>s.find(sub)\<close> as the part of \<open>s\<close> before the first occurrence.\<close>

fun before :: "string \<Rightarrow> string \<Rightarrow> string option" where
  "before sub [] = (if sub = [] then Some [] else None)"
| "before sub (c # s) = (if prefix sub (c # s) then Some [] else map_option (Cons c) (before sub s))"

definition newline :: char where
  "newline = char_of (10 :: nat)"

definition front_matter :: "string \<Rightarrow> string option" where
  "front_matter txt = (if prefix ''---'' txt then before (newline # ''---'') (drop 3 txt) else None)"

text \<open>The pattern \<open>^key:\s*value\s*$\<close> at the start of a line.\<close>

definition flag_here :: "string \<Rightarrow> string \<Rightarrow> string \<Rightarrow> bool" where
  "flag_here key val s =
     (prefix (key @ '':'') (to_lower s) \<and>
      (let t = lstrip (drop (length key + 1) s)
       in prefix val (to_lower t) \<and>
          (let r = drop (length val) t; w = take (length r - length (lstrip r)) r
           in lstrip r = [] \<or> newline \<in> set w)))"

fun flag_search :: "bool \<Rightarrow> string \<Rightarrow> string \<Rightarrow> string \<Rightarrow> bool" where
  "flag_search bol key val [] = False"
| "flag_search bol key val (c # s) =
     (bol \<and> flag_here key val (c # s) \<or> flag_search (c = newline) key val s)"

definition name_char :: "char \<Rightarrow> bool" where
  "name_char c \<longleftrightarrow> of_char c \<in> {48..57::nat} \<union> {65..90} \<union> {97..122} \<or> c \<in> set ''._-''"

text \<open>\<open>skills name\<close>: the repository's and the user's SKILL.md, \<open>None\<close> if missing or unreadable.\<close>

definition declares :: "string \<Rightarrow> string \<Rightarrow> (string \<Rightarrow> string option list) \<Rightarrow> string \<Rightarrow> bool" where
  "declares key val skills s =
     (let name = (if prefix ''/'' s then tl s else s)
      in name \<noteq> [] \<and> list_all name_char name \<and>
         (\<exists>txt\<in>set (skills name). case txt of
            None \<Rightarrow> False
          | Some t \<Rightarrow> (case front_matter t of None \<Rightarrow> False | Some fm \<Rightarrow> flag_search True key val fm)))"

definition skill_declares_subagent_model :: "(string \<Rightarrow> string option list) \<Rightarrow> string option \<Rightarrow> bool" where
  "skill_declares_subagent_model skills sub =
     (case sub of
        None \<Rightarrow> False
      | Some s \<Rightarrow> s \<noteq> [] \<and> \<not> prefix ''__'' s \<and> declares ''subagent-model'' ''true'' skills s)"

definition multi_commit_pseudo_skills :: "string list" where
  "multi_commit_pseudo_skills = [''__mark_complete__'', ''__mark_fixed__'']"

definition skill_declares_multi_commit :: "(string \<Rightarrow> string option list) \<Rightarrow> string option \<Rightarrow> bool" where
  "skill_declares_multi_commit skills sub =
     (case sub of
        None \<Rightarrow> False
      | Some s \<Rightarrow> s \<noteq> [] \<and>
          (s \<in> set multi_commit_pseudo_skills \<or>
           \<not> prefix ''__'' s \<and> declares ''commit-cadence'' ''multi'' skills s))"

subsection \<open>Work units of a plan\<close>

definition word_char :: "char \<Rightarrow> bool" where
  "word_char c \<longleftrightarrow> of_char c \<in> {48..57::nat} \<union> {65..90} \<union> {97..122} \<or> c = CHR ''_'' \<or> 128 \<le> (of_char c :: nat)"

definition unit_char :: "char \<Rightarrow> bool" where
  "unit_char c \<longleftrightarrow> of_char c \<in> {48..57::nat} \<union> {65..90} \<union> {97..122} \<or> c = CHR ''.''"

text \<open>\<open>[A-Za-z0-9.]+\b\<close>: some nonempty run of unit characters ends at a word boundary.\<close>

fun unit_name :: "string \<Rightarrow> bool" where
  "unit_name [] = False"
| "unit_name (c # s) =
     (unit_char c \<and>
      ((case s of [] \<Rightarrow> word_char c | d # _ \<Rightarrow> word_char c \<noteq> word_char d) \<or> unit_name s))"

text \<open>\<open>_PLAN_WU_CHECKBOX_RE\<close>: the mark of a line like \<open>- [x] WU-3\<close>.\<close>

definition wu_mark :: "string \<Rightarrow> char option" where
  "wu_mark line =
     (case lstrip line of
        [] \<Rightarrow> None
      | d # s \<Rightarrow>
          if d \<noteq> CHR ''-'' then None
          else case lstrip s of
                 b # m # e # r \<Rightarrow>
                   if b = CHR ''['' \<and> m \<in> set '' xX'' \<and> e = CHR '']'' \<and> prefix ''WU-'' (lstrip r) \<and>
                      unit_name (drop 3 (lstrip r)) then Some m else None
               | _ \<Rightarrow> None)"

fun wu_counts :: "bool \<Rightarrow> string list \<Rightarrow> nat \<times> nat" where
  "wu_counts fence [] = (0, 0)"
| "wu_counts fence (line # ls) =
     (if prefix ''```'' (strip line) then wu_counts (\<not> fence) ls
      else if fence then wu_counts fence ls
      else case (wu_mark line, wu_counts fence ls) of
             (None, n) \<Rightarrow> n
           | (Some c, (u, k)) \<Rightarrow> if c = CHR '' '' then (Suc u, k) else (u, Suc k))"

definition plan_wu_checkbox_counts :: "string \<Rightarrow> nat \<times> nat" where
  "plan_wu_checkbox_counts txt = wu_counts False (splitlines txt)"

text \<open>\<open>int(entry)\<close> of a YAML value, a float in plain decimal notation, and the leading digits of a string.\<close>

definition digits_val :: "string \<Rightarrow> int" where
  "digits_val ds = foldl (\<lambda>n c. 10 * n + digit_val c) 0 ds"

fun phase_number :: "json \<Rightarrow> int option" where
  "phase_number (JInt n) = Some n"
| "phase_number (JBool b) = Some (if b then 1 else 0)"
| "phase_number (JFloat r) =
     (case r of
        CHR ''-'' # s \<Rightarrow> Some (- digits_val (takeWhile is_digit s))
      | _ \<Rightarrow> Some (digits_val (takeWhile is_digit r)))"
| "phase_number (JStr s) =
     (case py_int s of
        Some n \<Rightarrow> Some n
      | None \<Rightarrow> (case takeWhile is_digit s of [] \<Rightarrow> None | c # ds \<Rightarrow> Some (digits_val (c # ds))))"
| "phase_number _ = None"

definition plan_phase_set :: "json option \<Rightarrow> int list" where
  "plan_phase_set meta =
     (case meta of
        None \<Rightarrow> []
      | Some m \<Rightarrow> (case jget m ''phases'' of
                     JArr es \<Rightarrow> remdups (map the (filter (\<lambda>x. x \<noteq> None) (map phase_number es)))
                   | _ \<Rightarrow> []))"

subsection \<open>The budget of a plan\<close>

text \<open>A plan file: its front matter, \<open>None\<close> if it cannot be parsed, and its text.\<close>

record plan_file =
  plan_meta :: "json option"
  plan_text :: "string option"

fun first_token :: "string \<Rightarrow> string" where
  "first_token [] = []"
| "first_token (c # s) = (if ws_head wide_ws (c # s) > 0 then [] else c # first_token s)"

definition execute_plan_commit_budget ::
  "(string \<Rightarrow> plan_file) \<Rightarrow> string option \<Rightarrow> string option \<Rightarrow> int option" where
  "execute_plan_commit_budget plans sub arguments =
     (case arguments of
        None \<Rightarrow> None
      | Some a \<Rightarrow>
          if sub \<noteq> Some ''execute-plan'' \<or> first_token (lstrip a) = [] then None
          else let p = plans (first_token (lstrip a));
                   (u, k) = (case plan_text p of None \<Rightarrow> (0, 0) | Some t \<Rightarrow> plan_wu_checkbox_counts t);
                   scale = max (length (plan_phase_set (plan_meta p))) (u + k)
               in if scale = 0 then None else Some (int scale + 2 + 2))"

end
