(* ===== verification/Cycle_Friction.thy ===== *)
theory Cycle_Friction
  imports Deny_Ledger Commit_Budget
begin

text \<open>
  The friction check at the end of a cycle of \<^verbatim>\<open>user/scripts/lazy_core/markers.py\<close>: a dispatched cycle
  that tore the run's bracket, left the work branch or made more commits than its budget owes a
  hardening round. Git is an argument: what \<open>rev-parse\<close>, \<open>config\<close> and \<open>log\<close> print, \<open>None\<close> where
  the command fails; the text of a finding is the argument \<open>describe\<close>.
\<close>

subsection \<open>Git and the other writers\<close>

record git_commit =
  sha :: string
  author_email :: string
  committer_email :: string
  is_merge :: bool

text \<open>\<open>window b\<close> is the list of commits of \<open>b..HEAD\<close>.\<close>

record git_view =
  head_sha :: "string option"
  head_subject :: "string option"
  head_branch :: "string option"
  user_email :: "string option"
  window :: "string \<Rightarrow> git_commit list option"

definition head_sha_snapshot :: "git_view \<Rightarrow> string option" where
  "head_sha_snapshot g = (case head_sha g of None \<Rightarrow> None | Some s \<Rightarrow> if strip s = [] then None else Some (strip s))"

definition head_commit_subject :: "git_view \<Rightarrow> string option" where
  "head_commit_subject g =
     (case head_subject g of None \<Rightarrow> None | Some s \<Rightarrow> if strip s = [] then None else Some (strip s))"

definition current_branch_snapshot :: "git_view \<Rightarrow> string option" where
  "current_branch_snapshot g =
     (case head_branch g of
        None \<Rightarrow> None
      | Some s \<Rightarrow> if strip s = [] \<or> strip s = ''HEAD'' then None else Some (strip s))"

text \<open>The branch that a run records at its start: \<open>_emit_work_branch\<close>.\<close>

definition emit_work_branch :: "git_view \<Rightarrow> string" where
  "emit_work_branch g =
     (case head_branch g of
        None \<Rightarrow> ''the current branch''
      | Some s \<Rightarrow> if strip s = [] then ''the current branch'' else strip s)"

definition authored :: "git_commit list \<Rightarrow> git_commit list" where
  "authored cs = filter (\<lambda>c. \<not> is_merge c) cs"

definition count_authored_commits_since :: "git_view \<Rightarrow> string option \<Rightarrow> nat option" where
  "count_authored_commits_since g begin_sha =
     (case begin_sha of
        None \<Rightarrow> None
      | Some b \<Rightarrow> if b = [] then None else map_option (\<lambda>cs. length (authored cs)) (window g b))"

text \<open>The activity ledger: which run a script's own commit was made under.\<close>

type_synonym activity_ledger = "(string \<times> int option) jsonl"

definition append_concurrent_commit_sha :: "string \<Rightarrow> int option \<Rightarrow> activity_ledger \<Rightarrow> activity_ledger" where
  "append_concurrent_commit_sha s run = append_line (s, run)"

definition read_concurrent_commit_entries :: "activity_ledger \<Rightarrow> (string, int option) dict" where
  "read_concurrent_commit_entries l = fold (\<lambda>(s, run) d. dset s run d) (read_lines l) []"

definition other_run :: "activity_ledger \<Rightarrow> int option \<Rightarrow> string \<Rightarrow> bool" where
  "other_run l run s =
     (case dget (read_concurrent_commit_entries l) s of
        Some (Some r) \<Rightarrow> Some r \<noteq> run
      | _ \<Rightarrow> False)"

definition attributed :: "activity_ledger \<Rightarrow> int option \<Rightarrow> string \<Rightarrow> git_commit \<Rightarrow> bool" where
  "attributed l run own c \<longleftrightarrow>
     (author_email c \<noteq> [] \<and> author_email c \<noteq> own) \<or> other_run l run (sha c)"

definition count_concurrent_writer_commits ::
  "git_view \<Rightarrow> activity_ledger \<Rightarrow> string option \<Rightarrow> int option \<Rightarrow> nat option" where
  "count_concurrent_writer_commits g l begin_sha run =
     (case (begin_sha, user_email g) of
        (Some b, Some own) \<Rightarrow>
          if b = [] \<or> strip own = [] then None
          else map_option (\<lambda>cs. length (remdups (map sha (filter (attributed l run (strip own)) (authored cs)))))
                 (window g b)
      | _ \<Rightarrow> None)"

subsection \<open>The detector\<close>

datatype reason = CycleBracketBreak | BranchDivergence | UnexpectedCommits

fun reason_text :: "reason \<Rightarrow> string" where
  "reason_text CycleBracketBreak = ''cycle-bracket-break''"
| "reason_text BranchDivergence = ''branch-divergence''"
| "reason_text UnexpectedCommits = ''unexpected-commits''"

record friction =
  friction_reason :: reason
  friction_skill :: "string option"
  friction_commits :: "nat option"

definition multi_commit_ceiling :: "string \<Rightarrow> int" where
  "multi_commit_ceiling s = (if s = ''mcp-test'' then 4 else 3)"

definition commit_budget :: "(string \<Rightarrow> string option list) \<Rightarrow> string \<Rightarrow> int" where
  "commit_budget skills s =
     (if skill_declares_multi_commit skills (Some s) then multi_commit_ceiling s else 1) + 1"

definition chargeable :: "nat \<Rightarrow> nat option \<Rightarrow> nat" where
  "chargeable commits others = (case others of None \<Rightarrow> commits | Some k \<Rightarrow> commits - k)"

definition torn_bracket :: "cycle_marker \<Rightarrow> int option \<Rightarrow> bool" where
  "torn_bracket c run \<longleftrightarrow> run_started_at c \<noteq> None \<and> run \<noteq> run_started_at c"

definition off_branch :: "string option \<Rightarrow> string option \<Rightarrow> bool" where
  "off_branch current expected =
     (case (current, expected) of
        (Some b, Some w) \<Rightarrow> b \<noteq> [] \<and> b \<noteq> ''HEAD'' \<and> w \<noteq> [] \<and> b \<noteq> w
      | _ \<Rightarrow> False)"

text \<open>\<open>None\<close> for the budget: there is nothing to compare with.\<close>

definition cycle_budget :: "(string \<Rightarrow> string option list) \<Rightarrow> string option \<Rightarrow> int option \<Rightarrow> int option" where
  "cycle_budget skills sub override =
     (case override of
        Some n \<Rightarrow> if 0 < n then Some n
                  else (case sub of None \<Rightarrow> None | Some s \<Rightarrow> if strip s = [] then None else Some (commit_budget skills s))
      | None \<Rightarrow> (case sub of None \<Rightarrow> None | Some s \<Rightarrow> if strip s = [] then None else Some (commit_budget skills s)))"

definition detect_cycle_bracket_friction ::
  "(string \<Rightarrow> string option list) \<Rightarrow> cycle_marker \<Rightarrow> int option \<Rightarrow> string option \<Rightarrow> nat option \<Rightarrow> int option \<Rightarrow>
   string option \<Rightarrow> string option \<Rightarrow> nat option \<Rightarrow> friction option" where
  "detect_cycle_bracket_friction skills c run sub commits override branch expected others =
     (if torn_bracket c run then Some \<lparr>friction_reason = CycleBracketBreak, friction_skill = sub, friction_commits = None\<rparr>
      else if off_branch branch expected then
        Some \<lparr>friction_reason = BranchDivergence, friction_skill = sub, friction_commits = None\<rparr>
      else if cycle_kind c = Some ''meta'' then None
      else case (begin_head_sha c, commits, cycle_budget skills sub override) of
             (Some b, Some n, Some budget) \<Rightarrow>
               if budget < int (chargeable n others) then
                 Some \<lparr>friction_reason = UnexpectedCommits, friction_skill = sub, friction_commits = Some n\<rparr>
               else None
           | _ \<Rightarrow> None)"

subsection \<open>The check at the end of a cycle\<close>

record friction_env =
  skill_files :: "string \<Rightarrow> string option list"
  plan_files :: "string \<Rightarrow> plan_file"
  git :: git_view
  activity :: activity_ledger
  describe :: "friction \<Rightarrow> string"

definition cycle_end_friction_check ::
  "friction_env \<Rightarrow> cycle_file \<Rightarrow> int \<Rightarrow> marker_file \<Rightarrow> ledger \<Rightarrow> friction option \<times> marker_file \<times> ledger" where
  "cycle_end_friction_check v cf now f l =
     (case read_cycle_marker cf of
        None \<Rightarrow> (None, f, l)
      | Some c \<Rightarrow>
          (case read_run_marker None now f of
             (live, f') \<Rightarrow>
               let run = (case live of None \<Rightarrow> None | Some m \<Rightarrow> started_at m);
                   expected = (case live of None \<Rightarrow> None | Some m \<Rightarrow> work_branch m);
                   found = detect_cycle_bracket_friction (skill_files v) c run (cycle_sub_skill c)
                     (count_authored_commits_since (git v) (begin_head_sha c))
                     (execute_plan_commit_budget (plan_files v) (cycle_sub_skill c) (cycle_sub_skill_args c))
                     (current_branch_snapshot (git v)) expected
                     (count_concurrent_writer_commits (git v) (activity v) (begin_head_sha c) run)
               in (found, f',
                   case found of
                     None \<Rightarrow> l
                   | Some x \<Rightarrow> append_friction_ledger_entry f' (reason_text (friction_reason x)) (describe v x) now l)))"

subsection \<open>What is found\<close>

lemma length_authored:
  assumes "distinct (map sha cs)"
  shows "length (authored cs) - length (remdups (map sha (filter P (authored cs)))) =
    length (filter (\<lambda>c. \<not> P c) (authored cs))"
proof -
  have "distinct (map sha (filter P (authored cs)))"
    using assms by (simp add: authored_def distinct_map_filter)
  then have "remdups (map sha (filter P (authored cs))) = map sha (filter P (authored cs))"
    by (rule distinct_remdups_id)
  then show ?thesis
    unfolding \<open>remdups _ = _\<close> using sum_length_filter_compl [of P "authored cs"] by simp
qed

definition own_commits :: "friction_env \<Rightarrow> int option \<Rightarrow> string \<Rightarrow> git_commit list \<Rightarrow> git_commit list" where
  "own_commits v run own cs = filter (\<lambda>c. \<not> attributed (activity v) run own c) (authored cs)"

lemma check_live:
  assumes "read_cycle_marker cf = Some c" "\<not> age_stale now m"
  shows "cycle_end_friction_check v cf now (Content m) l =
    (let found = detect_cycle_bracket_friction (skill_files v) c (started_at m) (cycle_sub_skill c)
           (count_authored_commits_since (git v) (begin_head_sha c))
           (execute_plan_commit_budget (plan_files v) (cycle_sub_skill c) (cycle_sub_skill_args c))
           (current_branch_snapshot (git v)) (work_branch m)
           (count_concurrent_writer_commits (git v) (activity v) (begin_head_sha c) (started_at m))
     in (found, Content m,
         case found of
           None \<Rightarrow> l
         | Some x \<Rightarrow> append_friction_ledger_entry (Content m) (reason_text (friction_reason x)) (describe v x) now l))"
  using assms by (simp add: cycle_end_friction_check_def read_run_marker_def Let_def)

lemma counts_window:
  assumes "begin_head_sha c = Some b" "b \<noteq> []" "window g b = Some cs" "user_email g = Some own" "strip own \<noteq> []"
  shows "count_authored_commits_since g (begin_head_sha c) = Some (length (authored cs))"
    and "count_concurrent_writer_commits g l (begin_head_sha c) run =
      Some (length (remdups (map sha (filter (attributed l run (strip own)) (authored cs)))))"
  using assms by (simp_all add: count_authored_commits_since_def count_concurrent_writer_commits_def)

lemma friction_debt:
  assumes "\<not> torn l" and "started_at m = Some r"
  shows "pending_hardening True (Content m) (append_friction_ledger_entry (Content m) x y now l) =
    Suc (pending_hardening True (Content m) l)"
  using assms by (simp add: append_friction_ledger_entry_def append_line_def pending_hardening_def unacked_def
      read_deny_ledger_def read_lines_def owed_by_def raw_started_def)

text \<open>
  C35. What the end of a cycle owes, exactly: with git readable, the run alive and no torn line at the end of the
  ledger, the check finds nothing if and only if the cycle did not begin under another run, the current branch does not
  differ from the one the run recorded (either may be missing), and the cycle is a meta cycle, or has no budget, or the
  budget holds its commits: those since its begin that are no merges, whose author is the repository's own user or
  blank, and that no other run has recorded. A finding raises the debt of the run by one, a clean end leaves the
  ledger as it was. (A placeholder recorded for an unknown branch counts as a branch, and the cycle's own commits
  under another author's name are free.)
\<close>

theorem cycle_friction_exact:
  assumes "read_cycle_marker cf = Some c" and "\<not> age_stale now m" and "started_at m = Some r" and "\<not> torn l"
    and "begin_head_sha c = Some b" and "b \<noteq> []" and "window (git v) b = Some cs" and "distinct (map sha cs)"
    and "user_email (git v) = Some own" and "strip own \<noteq> []"
  shows "let (found, f', l') = cycle_end_friction_check v cf now (Content m) l
    in (found = None \<longleftrightarrow>
         (run_started_at c = None \<or> run_started_at c = Some r) \<and>
         \<not> off_branch (current_branch_snapshot (git v)) (work_branch m) \<and>
         (cycle_kind c = Some ''meta'' \<or>
          (case cycle_budget (skill_files v) (cycle_sub_skill c)
                  (execute_plan_commit_budget (plan_files v) (cycle_sub_skill c) (cycle_sub_skill_args c)) of
             None \<Rightarrow> True
           | Some budget \<Rightarrow> int (length (own_commits v (Some r) (strip own) cs)) \<le> budget))) \<and>
       f' = Content m \<and> (found = None \<longrightarrow> l' = l) \<and>
       pending_hardening True (Content m) l' =
         pending_hardening True (Content m) l + (if found = None then 0 else 1)"
proof -
  note counts = counts_window [OF assms(5,6,7,9,10), unfolded assms(5)]
  have own: "chargeable (length (authored cs))
      (Some (length (remdups (map sha (filter (attributed (activity v) run (strip own)) (authored cs)))))) =
    length (own_commits v run (strip own) cs)" for run
    by (simp add: chargeable_def own_commits_def length_authored [OF assms(8)])
  show ?thesis
    using friction_debt [OF assms(4,3)] assms(3,5)
    by (auto simp: check_live [OF assms(1,2)] counts own Let_def detect_cycle_bracket_friction_def torn_bracket_def
        split: option.split if_splits)
qed

text \<open>
  A run that starts on an unknown branch owes friction for every cycle: if the branch cannot be
  read at run start, or HEAD is detached, the marker records a placeholder as the work branch, and a
  cycle of that run which ends on any branch is found to diverge from it, although the detector is
  meant to stay silent when either branch is unknown.
\<close>

theorem unknown_work_branch_trips:
  assumes "head_branch g0 = None \<or> head_branch g0 = Some ''HEAD''"
    and "current_branch_snapshot (git v) = Some br" and "br \<noteq> ''the current branch''"
    and "read_cycle_marker cf = Some c" and "run_started_at c = started_at m"
    and "m = new_marker a (emit_work_branch g0) start" and "\<not> age_stale now m"
  shows "map_option friction_reason (fst (cycle_end_friction_check v cf now (Content m) l)) = Some BranchDivergence"
proof -
  have "strip ''HEAD'' = ''HEAD''" by (rule strip_plain) (simp_all add: plain_char_def)
  then have "emit_work_branch g0 \<in> {''the current branch'', ''HEAD''}"
    using assms(1) by (auto simp: emit_work_branch_def)
  moreover have "br \<noteq> []" "br \<noteq> ''HEAD''"
    using assms(2) by (auto simp: current_branch_snapshot_def split: option.splits if_splits)
  ultimately have "off_branch (Some br) (work_branch m)"
    using assms(3) by (auto simp: off_branch_def assms(6) new_marker_def)
  with assms(2,5) show ?thesis
    by (simp add: check_live [OF assms(4,7)] detect_cycle_bracket_friction_def torn_bracket_def Let_def)
qed

text \<open>
  Commits made by the cycle itself escape its budget when they carry another author: however many
  commits a cycle makes with the repository's own identity as the committer, if their author is someone
  else (a cherry-pick, a rebase, an applied patch) none of them is charged and a real cycle with any
  positive budget is clean.
\<close>

theorem foreign_authors_uncharged:
  assumes "read_cycle_marker cf = Some c" and "\<not> age_stale now m" and "run_started_at c = started_at m"
    and "\<not> off_branch (current_branch_snapshot (git v)) (work_branch m)"
    and "begin_head_sha c = Some b" and "b \<noteq> []" and "window (git v) b = Some cs" and "distinct (map sha cs)"
    and "user_email (git v) = Some own" and "strip own \<noteq> []"
    and "\<forall>x\<in>set cs. committer_email x = strip own \<and> author_email x \<noteq> strip own \<and> author_email x \<noteq> []"
  shows "fst (cycle_end_friction_check v cf now (Content m) l) = None"
proof -
  note counts = counts_window [OF assms(5,6,7,9,10), unfolded assms(5)]
  have "filter (attributed (activity v) (started_at m) (strip own)) (authored cs) = authored cs"
    using assms(11) by (auto simp: authored_def attributed_def intro!: filter_cong)
  moreover have "remdups (map sha (authored cs)) = map sha (authored cs)"
    using assms(8) by (intro distinct_remdups_id) (simp add: authored_def distinct_map_filter)
  ultimately have "chargeable (length (authored cs))
      (Some (length (remdups (map sha (filter (attributed (activity v) (started_at m) (strip own)) (authored cs)))))) = 0"
    unfolding chargeable_def by (metis diff_self_eq_0 length_map option.case(2))
  moreover have nonneg: "cycle_budget s sub o' = Some n \<Longrightarrow> 0 \<le> n" for s sub o' n
    by (auto simp: cycle_budget_def commit_budget_def multi_commit_ceiling_def split: option.splits if_splits)
  ultimately show ?thesis
    using assms(3,4,5)
    by (auto simp: check_live [OF assms(1,2)] counts Let_def detect_cycle_bracket_friction_def torn_bracket_def
        split: option.split dest: nonneg)
qed

subsection \<open>Examples\<close>

definition commit_by :: "string \<Rightarrow> string \<Rightarrow> git_commit" where
  "commit_by s who = \<lparr>sha = s, author_email = who, committer_email = ''me'', is_merge = False\<rparr>"

definition sample_window :: "string \<Rightarrow> friction_env" where
  "sample_window who =
     \<lparr>skill_files = (\<lambda>s. []), plan_files = (\<lambda>p. \<lparr>plan_meta = None, plan_text = None\<rparr>),
      git = \<lparr>head_sha = Some ''c3'', head_subject = None, head_branch = Some ''main'', user_email = Some ''me'',
             window = (\<lambda>b. Some [commit_by ''c3'' who, commit_by ''c2'' who, commit_by ''c1'' who])\<rparr>,
      activity = \<lparr>ledger_lines = [], torn = False\<rparr>, describe = (\<lambda>x. ''3 commits'')\<rparr>"

definition sample_cycle :: cycle_marker where
  "sample_cycle = \<lparr>cycle_feature = Some ''f'', cycle_nonce = Some ''n'', cycle_kind = Some ''real'',
     cycle_started_at = Some 3, cycle_session = None, commit_tally = 0, run_started_at = Some 2,
     begin_head_sha = Some ''c0'', cycle_sub_skill = Some ''retro'', cycle_sub_skill_args = None,
     subagent_model = False\<rparr>"

definition run_at :: "string \<Rightarrow> marker" where
  "run_at branch = new_marker sample_args branch 2000000"

lemma run_at_facts [simp]:
  "started_at (run_at br) = Some 2" "work_branch (run_at br) = Some br" "\<not> age_stale 4000000 (run_at br)"
  by (simp_all add: run_at_def new_marker_def age_stale_def started_epoch_def marker_stale_seconds_def)

lemma strip_samples [simp]: "strip ''me'' = ''me''" "strip ''main'' = ''main''" "strip ''retro'' = ''retro''"
  by (simp_all add: strip_plain plain_char_def)

lemma branch_sample [simp]: "current_branch_snapshot (git (sample_window who)) = Some ''main''"
  by (simp add: sample_window_def current_branch_snapshot_def)

lemma sample_budget: "cycle_budget (skill_files (sample_window who)) (Some ''retro'') (execute_plan_commit_budget p (Some ''retro'') a) = Some 2"
  by (auto simp: sample_window_def cycle_budget_def commit_budget_def skill_declares_multi_commit_def
      multi_commit_pseudo_skills_def declares_def execute_plan_commit_budget_def split: option.split)

lemma sample_cycle_facts:
  "read_cycle_marker (Content sample_cycle) = Some sample_cycle" "run_started_at sample_cycle = Some 2"
  "begin_head_sha sample_cycle = Some ''c0''" "cycle_kind sample_cycle = Some ''real''"
  "cycle_sub_skill sample_cycle = Some ''retro''" "cycle_sub_skill_args sample_cycle = None"
  by (simp_all add: read_cycle_marker_def sample_cycle_def)

definition sample_commits :: "string \<Rightarrow> git_commit list" where
  "sample_commits who = [commit_by ''c3'' who, commit_by ''c2'' who, commit_by ''c1'' who]"

lemma sample_window_facts:
  "window (git (sample_window who)) b = Some (sample_commits who)" "user_email (git (sample_window who)) = Some ''me''"
  "distinct (map sha (sample_commits who))"
  by (simp_all add: sample_window_def sample_commits_def commit_by_def)

lemma sample_own: "length (own_commits (sample_window ''me'') (Some 2) ''me'' (sample_commits ''me'')) = 3"
  by (simp add: own_commits_def authored_def attributed_def other_run_def commit_by_def sample_window_def
      sample_commits_def read_concurrent_commit_entries_def read_lines_def)

lemma pending_mixed: "pending_hardening True (Content (run_at br)) mixed_ledger = 1" "\<not> torn mixed_ledger"
  by (simp_all add: pending_hardening_def unacked_mixed raw_started_def owed_by_def deny_at_def)
     (simp add: mixed_ledger_def rewrite_ledger_def)

theorem cycle_friction_exact_witness:
  "let (found, f, l) = cycle_end_friction_check (sample_window ''me'') (Content sample_cycle) 4000000
         (Content (run_at ''main'')) mixed_ledger
   in found \<noteq> None \<and> pending_hardening True (Content (run_at ''main'')) l = 2"
  using cycle_friction_exact [OF sample_cycle_facts(1) run_at_facts(3,1) pending_mixed(2) sample_cycle_facts(3) _
      sample_window_facts(1) sample_window_facts(3,2), of "''me''" "''main''"]
  by (simp add: case_prod_unfold Let_def sample_cycle_facts sample_budget off_branch_def sample_own pending_mixed split: if_splits)

definition no_branch :: git_view where
  "no_branch = \<lparr>head_sha = None, head_subject = None, head_branch = None, user_email = None, window = (\<lambda>b. None)\<rparr>"

lemma run_at_no_branch: "run_at ''the current branch'' = new_marker sample_args (emit_work_branch no_branch) 2000000"
  by (simp add: run_at_def emit_work_branch_def no_branch_def)

theorem unknown_work_branch_trips_witness:
  "map_option friction_reason (fst (cycle_end_friction_check (sample_window ''me'') (Content sample_cycle) 4000000
     (Content (run_at ''the current branch'')) mixed_ledger)) = Some BranchDivergence"
  by (rule unknown_work_branch_trips [OF _ branch_sample _ sample_cycle_facts(1) _ run_at_no_branch run_at_facts(3)])
     (simp_all add: no_branch_def sample_cycle_facts)

theorem foreign_authors_uncharged_witness:
  "fst (cycle_end_friction_check (sample_window ''you'') (Content sample_cycle) 4000000
     (Content (run_at ''main'')) mixed_ledger) = None"
  by (rule foreign_authors_uncharged [OF sample_cycle_facts(1) run_at_facts(3) _ _ sample_cycle_facts(3) _
        sample_window_facts(1) sample_window_facts(3,2)])
     (simp_all add: sample_cycle_facts off_branch_def sample_commits_def commit_by_def)

end
