(* ===== verification/Efficacy_Gate.thy ===== *)
theory Efficacy_Gate
  imports Deny_Ledger
begin

text \<open>
  The end-of-run efficacy gate of \<^verbatim>\<open>user/scripts/lazy_core/ledgers.py\<close>: every reporting tool drops a
  breadcrumb next to the marker of the run it finds alive, and the end of a run asks for a breadcrumb
  of that run that covers a repository with intervention records. \<open>key\<close> is \<open>repo_key\<close> and \<open>bearing\<close>
  is \<open>_repo_is_interventions_bearing\<close>, both of which look at the file system.
\<close>

record crumb =
  crumb_run :: "int option"
  crumb_ts :: int
  covered_scopes :: "string list"
  interventions_covered :: bool

type_synonym crumb_file = "crumb jfile"

record dir_state =
  dir_marker :: marker_file
  dir_crumb :: crumb_file

text \<open>The state directory of the active repository, and the directories below the state base by name.\<close>

record state_base =
  active_dir :: dir_state
  sibling_dirs :: "(string \<times> dir_state) list"

datatype place = Active | Sibling string

subsection \<open>Finding the run\<close>

definition live_start :: "int \<Rightarrow> marker_file \<Rightarrow> int option" where
  "live_start now f =
     (case raw_started f of
        None \<Rightarrow> None
      | Some t \<Rightarrow> if now - 1000000 * t \<le> 1000000 * marker_stale_seconds then Some t else None)"

fun newest :: "int \<Rightarrow> (string \<times> dir_state) list \<Rightarrow> (string \<times> int) option \<Rightarrow> (string \<times> int) option" where
  "newest now [] best = best"
| "newest now ((d, s) # ds) best =
     newest now ds
       (case live_start now (dir_marker s) of
          None \<Rightarrow> best
        | Some t \<Rightarrow> (case best of
                      None \<Rightarrow> Some (d, t)
                    | Some (d', t') \<Rightarrow> if t > t' then Some (d, t) else best))"

definition run_marker_state_dir :: "int \<Rightarrow> state_base \<Rightarrow> (place \<times> int) option" where
  "run_marker_state_dir now b =
     (case live_start now (dir_marker (active_dir b)) of
        Some t \<Rightarrow> Some (Active, t)
      | None \<Rightarrow> map_option (\<lambda>(d, t). (Sibling d, t)) (newest now (sibling_dirs b) None))"

fun dir_at :: "place \<Rightarrow> state_base \<Rightarrow> dir_state option" where
  "dir_at Active b = Some (active_dir b)"
| "dir_at (Sibling d) b = dget (sibling_dirs b) d"

fun put_dir :: "place \<Rightarrow> dir_state \<Rightarrow> state_base \<Rightarrow> state_base" where
  "put_dir Active s b = b\<lparr>active_dir := s\<rparr>"
| "put_dir (Sibling d) s b = b\<lparr>sibling_dirs := dset d s (sibling_dirs b)\<rparr>"

subsection \<open>Dropping and reading a breadcrumb\<close>

definition covered_root :: "string \<Rightarrow> string option \<Rightarrow> marker_file \<Rightarrow> string" where
  "covered_root active_root arg f =
     (case arg of
        Some r \<Rightarrow> r
      | None \<Rightarrow> (case f of
                   Content m \<Rightarrow> (case repo_root m of Some (c # r) \<Rightarrow> c # r | _ \<Rightarrow> active_root)
                 | _ \<Rightarrow> active_root))"

definition add_scope :: "int \<Rightarrow> int \<Rightarrow> string \<Rightarrow> bool \<Rightarrow> crumb_file \<Rightarrow> crumb" where
  "add_scope now run scope bears c =
     (let (covered, interv) =
        (case c of
           Content k \<Rightarrow> if crumb_run k = Some run then (covered_scopes k, interventions_covered k) else ([], False)
         | _ \<Rightarrow> ([], False))
      in \<lparr>crumb_run = Some run, crumb_ts = now, covered_scopes = sort (remdups (scope # covered)),
          interventions_covered = (interv \<or> bears)\<rparr>)"

definition drop_efficacy_breadcrumb ::
  "(string \<Rightarrow> string) \<Rightarrow> (string \<Rightarrow> bool) \<Rightarrow> string \<Rightarrow> string option \<Rightarrow> int \<Rightarrow> state_base \<Rightarrow> bool \<times> state_base" where
  "drop_efficacy_breadcrumb key bearing active_root arg now b =
     (case run_marker_state_dir now b of
        None \<Rightarrow> (False, b)
      | Some (p, run) \<Rightarrow>
          (case dir_at p b of
             None \<Rightarrow> (False, b)
           | Some s \<Rightarrow>
               let root = covered_root active_root arg (dir_marker s)
               in (True, put_dir p (s\<lparr>dir_crumb := Content (add_scope now run (key root) (bearing root) (dir_crumb s))\<rparr>) b)))"

definition efficacy_breadcrumb_present :: "marker_file \<Rightarrow> crumb_file \<Rightarrow> bool" where
  "efficacy_breadcrumb_present f c =
     (case raw_started f of
        None \<Rightarrow> True
      | Some r \<Rightarrow> (case c of
                     Content k \<Rightarrow> crumb_run k = Some r \<and> interventions_covered k
                   | _ \<Rightarrow> False))"

definition clear_efficacy_breadcrumb :: "crumb_file \<Rightarrow> crumb_file" where
  "clear_efficacy_breadcrumb c = Absent"

subsection \<open>The gate opens by coverage\<close>

definition drops ::
  "(string \<Rightarrow> string) \<Rightarrow> (string \<Rightarrow> bool) \<Rightarrow> string \<Rightarrow> (int \<times> string option) list \<Rightarrow> state_base \<Rightarrow> state_base" where
  "drops key bearing active_root ds b =
     fold (\<lambda>(now, arg) b. snd (drop_efficacy_breadcrumb key bearing active_root arg now b)) ds b"

lemma live_start_fresh:
  "started_at m = Some r \<Longrightarrow> \<not> age_stale now m \<Longrightarrow> live_start now (Content m) = Some r"
  by (simp add: live_start_def raw_started_def age_stale_def started_epoch_def)

lemma drop_active:
  assumes "dir_marker (active_dir b) = Content m" "started_at m = Some r" "\<not> age_stale now m"
  shows "snd (drop_efficacy_breadcrumb key bearing root arg now b) =
    b\<lparr>active_dir := (active_dir b)\<lparr>dir_crumb :=
      Content (add_scope now r (key (covered_root root arg (Content m))) (bearing (covered_root root arg (Content m)))
        (dir_crumb (active_dir b)))\<rparr>\<rparr>"
  using assms by (simp add: drop_efficacy_breadcrumb_def run_marker_state_dir_def live_start_fresh Let_def)

lemma drops_active:
  assumes "dir_marker (active_dir b) = Content m" "started_at m = Some r"
    and "\<forall>(now, arg)\<in>set ds. \<not> age_stale now m"
  shows "(efficacy_breadcrumb_present (Content m) (dir_crumb (active_dir (drops key bearing root ds b))) \<longleftrightarrow>
      efficacy_breadcrumb_present (Content m) (dir_crumb (active_dir b)) \<or>
      (\<exists>(now, arg)\<in>set ds. bearing (covered_root root arg (Content m)))) \<and>
    (ds = [] \<or> (\<exists>k. dir_crumb (active_dir (drops key bearing root ds b)) = Content k \<and> crumb_run k = Some r))"
  using assms
proof (induction ds arbitrary: b)
  case Nil
  then show ?case by (simp add: drops_def)
next
  case (Cons d ds)
  obtain now arg where d: "d = (now, arg)" by (cases d)
  let ?b = "snd (drop_efficacy_breadcrumb key bearing root arg now b)"
  have fresh: "\<not> age_stale now m" using Cons.prems(3) d by auto
  note b = drop_active [OF Cons.prems(1,2) fresh, of key bearing root arg]
  have "dir_marker (active_dir ?b) = Content m" by (simp add: b Cons.prems(1))
  from Cons.IH [OF this Cons.prems(2)] Cons.prems(3)
  have IH: "(efficacy_breadcrumb_present (Content m) (dir_crumb (active_dir (drops key bearing root ds ?b))) \<longleftrightarrow>
      efficacy_breadcrumb_present (Content m) (dir_crumb (active_dir ?b)) \<or>
      (\<exists>(now, arg)\<in>set ds. bearing (covered_root root arg (Content m)))) \<and>
    (ds = [] \<or> (\<exists>k. dir_crumb (active_dir (drops key bearing root ds ?b)) = Content k \<and> crumb_run k = Some r))"
    by simp
  have "drops key bearing root (d # ds) b = drops key bearing root ds ?b" by (simp add: drops_def d)
  moreover have "efficacy_breadcrumb_present (Content m) (dir_crumb (active_dir ?b)) \<longleftrightarrow>
      efficacy_breadcrumb_present (Content m) (dir_crumb (active_dir b)) \<or> bearing (covered_root root arg (Content m))"
    using Cons.prems(2)
    by (auto simp: b efficacy_breadcrumb_present_def raw_started_def add_scope_def split: jfile.splits if_splits)
  moreover have "drops key bearing root [] ?b = ?b" by (simp add: drops_def)
  moreover have "crumb_run (add_scope now r x y c) = Some r" for x y c by (simp add: add_scope_def case_prod_unfold Let_def)
  ultimately show ?case using IH d by (cases ds) (auto simp: b)
qed

text \<open>
  The efficacy gate opens by coverage and for its run alone: while the run is alive, after any
  number of breadcrumbs the gate is open exactly if it was open before or one of the reports covered
  a repository with intervention records; and breadcrumbs of this run never open the gate of a run
  with another start.
\<close>

theorem efficacy_gate_needs_coverage:
  assumes "dir_marker (active_dir b) = Content m" and "started_at m = Some r"
    and "\<forall>(now, arg)\<in>set ds. \<not> age_stale now m"
  shows "(efficacy_breadcrumb_present (Content m) (dir_crumb (active_dir (drops key bearing root ds b))) \<longleftrightarrow>
      efficacy_breadcrumb_present (Content m) (dir_crumb (active_dir b)) \<or>
      (\<exists>(now, arg)\<in>set ds. bearing (covered_root root arg (Content m)))) \<and>
    (ds \<noteq> [] \<longrightarrow> (\<forall>m' r'. started_at m' = Some r' \<and> r' \<noteq> r \<longrightarrow>
      \<not> efficacy_breadcrumb_present (Content m') (dir_crumb (active_dir (drops key bearing root ds b)))))"
proof -
  note * = drops_active [OF assms, of key bearing root]
  have "\<not> efficacy_breadcrumb_present (Content m') (dir_crumb (active_dir (drops key bearing root ds b)))"
    if "ds \<noteq> []" "started_at m' = Some r'" "r' \<noteq> r" for m' r'
    using * that by (auto simp: efficacy_breadcrumb_present_def raw_started_def)
  with * show ?thesis by blast
qed

definition sample_base :: state_base where
  "sample_base = \<lparr>active_dir = \<lparr>dir_marker = run_2, dir_crumb = Absent\<rparr>, sibling_dirs = []\<rparr>"

theorem efficacy_gate_needs_coverage_witness:
  "efficacy_breadcrumb_present run_2
     (dir_crumb (active_dir (drops id (\<lambda>r. r = ''/cc'') ''/r'' [(3000000, None), (4000000, Some ''/cc'')] sample_base))) \<and>
   \<not> efficacy_breadcrumb_present run_2
     (dir_crumb (active_dir (drops id (\<lambda>r. r = ''/cc'') ''/r'' [(3000000, None)] sample_base)))"
proof -
  let ?m = "new_marker sample_args ''main'' 2000000"
  have m: "dir_marker (active_dir sample_base) = Content ?m" by (simp add: sample_base_def run_2_def)
  have s: "started_at ?m = Some 2" "repo_root ?m = Some ''/r''" by (simp_all add: new_marker_def sample_args_def)
  have f: "\<not> age_stale 3000000 ?m" "\<not> age_stale 4000000 ?m"
    by (simp_all add: age_stale_def started_epoch_def s marker_stale_seconds_def)
  have n: "\<not> efficacy_breadcrumb_present (Content ?m) (dir_crumb (active_dir sample_base))"
    by (simp add: efficacy_breadcrumb_present_def raw_started_def s sample_base_def)
  show ?thesis
    using efficacy_gate_needs_coverage [OF m s(1), of "[(3000000, None), (4000000, Some ''/cc'')]" id "\<lambda>r. r = ''/cc''" "''/r''"]
      efficacy_gate_needs_coverage [OF m s(1), of "[(3000000, None)]" id "\<lambda>r. r = ''/cc''" "''/r''"] f n
    by (simp add: run_2_def covered_root_def s)
qed

end
