(* ===== verification/Loop_Detector.thy ===== *)
theory Loop_Detector
  imports Run_Counters
begin

text \<open>
  The loop detector of \<^verbatim>\<open>user/scripts/lazy_core/markers.py\<close>: \<open>update_repeat_counts\<close> keeps the
  signatures of the last probe in a file outside the repository and returns how often the same
  dispatch and the same step have been probed in a row. The state is the run marker and that file;
  the registry and the repository's HEAD are read. Both reads of the marker in one call see the
  same clock.
\<close>

subsection \<open>The state file\<close>

type_synonym dispatch_key = "string option \<times> string option \<times> string option \<times> string option"

text \<open>
  The persisted record. \<open>None\<close> is a key that is missing or of another shape than the code asks for;
  \<open>head = Some None\<close> is the explicit null of a directory that is no git repository.
\<close>

record streak =
  signature :: "dispatch_key option"
  streak_count :: "int option"
  streak_head :: "string option option"
  step_signature :: "step_key option"
  step_count :: "int option"
  consume_count :: "int option"
  streak_run :: "int option"

type_synonym streak_file = "streak jfile"

text \<open>What one call knows of the probe before.\<close>

record prior =
  prior_dispatch :: "(dispatch_key \<times> int) option"
  prior_head :: "string option option"
  prior_step :: "(step_key \<times> int) option"
  prior_consume :: "int option"
  prior_run :: "int option"

definition no_prior :: prior where
  "no_prior = \<lparr>prior_dispatch = None, prior_head = None, prior_step = None, prior_consume = None, prior_run = None\<rparr>"

definition both :: "'a option \<Rightarrow> 'b option \<Rightarrow> ('a \<times> 'b) option" where
  "both x y = (case (x, y) of (Some a, Some b) \<Rightarrow> Some (a, b) | _ \<Rightarrow> None)"

definition read_streak :: "streak_file \<Rightarrow> prior" where
  "read_streak f =
     (case f of
        Content s \<Rightarrow>
          \<lparr>prior_dispatch = both (signature s) (streak_count s),
           prior_head = (if both (signature s) (streak_count s) = None then None else streak_head s),
           prior_step = both (step_signature s) (step_count s),
           prior_consume = consume_count s, prior_run = streak_run s\<rparr>
      | _ \<Rightarrow> no_prior)"

definition dispatch_sig :: "probe \<Rightarrow> dispatch_key" where
  "dispatch_sig p = (feature_id p, sub_skill p, sub_skill_args p, current_step p)"

definition step_sig :: "probe \<Rightarrow> step_key" where
  "step_sig p = (feature_id p, current_step p)"

fun sig_args :: "dispatch_key \<Rightarrow> string option" where
  "sig_args (i, s, a, st) = a"

subsection \<open>One call\<close>

text \<open>What the call reads besides the state: the repository, its HEAD, the registry.\<close>

record probe_env =
  resolve :: "string \<Rightarrow> string"
  probe_root :: string
  git_head :: "string option"
  registry :: registry_file

record loop_state =
  marker_file :: marker_file
  streak_file :: streak_file

text \<open>The dispatch oracle and the identity of the run, both only under this repository's marker.\<close>

definition dispatch_oracle :: "probe_env \<Rightarrow> marker option \<Rightarrow> int option \<times> int option option" where
  "dispatch_oracle v m =
     (case m of
        Some m' \<Rightarrow>
          if same_repo (resolve v) (probe_root v) m'
          then (Some (int (consumed_emission_count (Some ''cycle'') (registry v))), Some (started_at m'))
          else (None, None)
      | None \<Rightarrow> (None, None))"

definition scope_to_run :: "int option option \<Rightarrow> prior \<Rightarrow> prior" where
  "scope_to_run run q =
     (case (run, prior_run q) of
        (Some r, Some r') \<Rightarrow>
          if Some r' \<noteq> r then q\<lparr>prior_dispatch := None, prior_step := None\<rparr> else q
      | _ \<Rightarrow> q)"

definition rereads :: "int option \<Rightarrow> prior \<Rightarrow> bool" where
  "rereads consume q \<longleftrightarrow> consume \<noteq> None \<and> prior_consume q \<noteq> None \<and> consume = prior_consume q"

definition dispatch_count :: "probe \<Rightarrow> string option \<Rightarrow> int option \<Rightarrow> prior \<Rightarrow> int" where
  "dispatch_count p current_head consume q =
     (case prior_dispatch q of
        None \<Rightarrow> 1
      | Some (key, n) \<Rightarrow>
          if dispatch_sig p \<noteq> key then 1
          else case prior_head q of
                 None \<Rightarrow> n + 1
               | Some h \<Rightarrow>
                   if h \<noteq> None \<and> h \<noteq> current_head then 1
                   else if rereads consume q then n
                   else n + 1)"

definition args_advanced :: "probe \<Rightarrow> prior \<Rightarrow> bool" where
  "args_advanced p q = (case prior_dispatch q of None \<Rightarrow> False | Some (key, n) \<Rightarrow> sub_skill_args p \<noteq> sig_args key)"

definition next_step_count :: "probe \<Rightarrow> bool \<Rightarrow> int option \<Rightarrow> prior \<Rightarrow> int" where
  "next_step_count p resolved consume q =
     (case prior_step q of
        None \<Rightarrow> 1
      | Some (key, n) \<Rightarrow>
          if step_sig p \<noteq> key then 1
          else if args_advanced p q then 1
          else if resolved then 1
          else if rereads consume q then n
          else n + 1)"

text \<open>The resolution signal: looked at in a peek, taken in a real probe.\<close>

definition resolution_reset :: "probe_env \<Rightarrow> probe \<Rightarrow> bool \<Rightarrow> prior \<Rightarrow> bool marker_op" where
  "resolution_reset v p peek q now f =
     (case prior_step q of
        None \<Rightarrow> (False, f)
      | Some (key, n) \<Rightarrow>
          if step_sig p \<noteq> key then (False, f)
          else if peek then
            with_marker False (\<lambda>m. (same_repo (resolve v) (probe_root v) m \<and>
                last_resolution_step_key m = Some (step_sig p), None)) now f
          else consume_resolution_signal (resolve v) (probe_root v) (step_sig p) now f)"

definition update_repeat_counts ::
  "probe_env \<Rightarrow> probe \<Rightarrow> bool \<Rightarrow> int \<Rightarrow> loop_state \<Rightarrow> (int \<times> int) \<times> loop_state" where
  "update_repeat_counts v p peek now s =
     (case read_run_marker None now (marker_file s) of
        (m, f1) \<Rightarrow>
          (case dispatch_oracle v m of
             (consume, run) \<Rightarrow>
               let q = scope_to_run run (read_streak (streak_file s));
                   n = dispatch_count p (git_head v) consume q
               in (case resolution_reset v p peek q now f1 of
                     (resolved, f2) \<Rightarrow>
                       let k = next_step_count p resolved consume q;
                           rec = \<lparr>signature = Some (dispatch_sig p), streak_count = Some n,
                                  streak_head = Some (git_head v), step_signature = Some (step_sig p),
                                  step_count = Some k, consume_count = consume,
                                  streak_run = (case run of None \<Rightarrow> None | Some r \<Rightarrow> r)\<rparr>
                       in ((n, k), \<lparr>marker_file = f2,
                            streak_file = (if peek then streak_file s else Content rec)\<rparr>))))"

definition update_repeat_count ::
  "probe_env \<Rightarrow> probe \<Rightarrow> bool \<Rightarrow> int \<Rightarrow> loop_state \<Rightarrow> int \<times> loop_state" where
  "update_repeat_count v p peek now s =
     (case update_repeat_counts v p peek now s of ((n, k), s') \<Rightarrow> (n, s'))"

subsection \<open>A peek is a dry run\<close>

lemma resolution_reset_peek:
  "fst (resolution_reset v p True q now f) = fst (resolution_reset v p False q now f)"
  by (auto simp: resolution_reset_def consume_resolution_signal_def with_marker_def
      split: option.splits prod.splits)

lemma resolution_reset_peek_file:
  "snd (read_run_marker None now f) = f \<Longrightarrow> snd (resolution_reset v p True q now f) = f"
  by (auto simp: resolution_reset_def with_marker_def split: option.splits prod.splits)

lemma reread_marker: "read_run_marker None now f = (m, f') \<Longrightarrow> read_run_marker None now f' = (m, f')"
  by (auto simp: read_run_marker_def split: jfile.splits if_splits)

lemma with_marker_file: "\<lparr>marker_file = f, streak_file = streak_file s\<rparr> = s\<lparr>marker_file := f\<rparr>"
  by (cases s) simp

text \<open>
  Peeking is a dry run: a peek returns exactly the two counts a real probe would return at that
  moment, and writes nothing: the streak file stays and the marker file is what a mere read leaves.
\<close>

theorem peek_is_dry_run:
  "fst (update_repeat_counts v p True now s) = fst (update_repeat_counts v p False now s) \<and>
   snd (update_repeat_counts v p True now s) =
     s\<lparr>marker_file := snd (read_run_marker None now (marker_file s))\<rparr>"
proof -
  obtain m f1 where m: "read_run_marker None now (marker_file s) = (m, f1)" by fastforce
  obtain consume run where o: "dispatch_oracle v m = (consume, run)" by fastforce
  have "snd (read_run_marker None now f1) = f1" using reread_marker [OF m] by simp
  note reset = resolution_reset_peek_file [OF this] resolution_reset_peek
  show ?thesis
    using reset by (simp add: update_repeat_counts_def m o Let_def case_prod_unfold with_marker_file)
qed

subsection \<open>What the counts mean\<close>

text \<open>One real probe of a run, and the run of probes.\<close>

type_synonym observation = "int \<times> probe_env \<times> probe"

fun observe :: "observation \<Rightarrow> loop_state \<Rightarrow> loop_state" where
  "observe (now, v, p) s = snd (update_repeat_counts v p False now s)"

definition census :: "observation \<Rightarrow> int" where
  "census x = (case x of (now, v, p) \<Rightarrow> int (consumed_emission_count (Some ''cycle'') (registry v)))"

definition dispatch_at :: "observation \<Rightarrow> dispatch_key \<times> string option" where
  "dispatch_at x = (case x of (now, v, p) \<Rightarrow> (dispatch_sig p, git_head v))"

definition step_at :: "observation \<Rightarrow> step_key \<times> string option" where
  "step_at x = (case x of (now, v, p) \<Rightarrow> (step_sig p, sub_skill_args p))"

text \<open>
  The reference: in the newest stretch of probes that agree on \<open>key\<close>, the number of stretches over
  which no cycle dispatch was consumed. The history is newest first.
\<close>

definition attempts :: "(observation \<Rightarrow> 'k) \<Rightarrow> observation list \<Rightarrow> int" where
  "attempts key hs = int (length (remdups_adj (map census (takeWhile (\<lambda>y. key y = key (hd hs)) hs))))"

lemma attempts_single [simp]: "attempts key [x] = 1"
  by (simp add: attempts_def)

lemma attempts_Cons [simp]:
  "attempts key (y # x # xs) =
     (if key y = key x then attempts key (x # xs) + (if census y = census x then 0 else 1) else 1)"
  by (auto simp: attempts_def)

text \<open>A run of this repository is live at every probe, without a pending resolution.\<close>

definition observed_in :: "marker \<Rightarrow> observation \<Rightarrow> bool" where
  "observed_in m x = (case x of (now, v, p) \<Rightarrow>
     \<not> age_stale now m \<and> same_repo (resolve v) (probe_root v) m \<and> git_head v \<noteq> None)"

text \<open>Nothing in the streak file belongs to the run that started at \<open>t\<close>.\<close>

definition foreign_streak :: "int \<Rightarrow> streak_file \<Rightarrow> bool" where
  "foreign_streak t f = (case f of
     Content s \<Rightarrow> (case streak_run s of None \<Rightarrow> False | Some t' \<Rightarrow> t' \<noteq> t) | _ \<Rightarrow> True)"

definition written :: "int \<Rightarrow> observation \<Rightarrow> int \<Rightarrow> int \<Rightarrow> streak" where
  "written t x n k = (case x of (now, v, p) \<Rightarrow>
     \<lparr>signature = Some (dispatch_sig p), streak_count = Some n, streak_head = Some (git_head v),
      step_signature = Some (step_sig p), step_count = Some k, consume_count = Some (census x),
      streak_run = Some t\<rparr>)"

lemma update_observed:
  assumes "observed_in m (now, v, p)"
    and "scope_to_run (Some (started_at m)) (read_streak f) = q"
    and "resolution_reset v p False q now (Content m) = (r, f2)"
    and "started_at m = Some t"
    and "dispatch_count p (git_head v) (Some (census (now, v, p))) q = n"
    and "next_step_count p r (Some (census (now, v, p))) q = k"
  shows "update_repeat_counts v p False now \<lparr>marker_file = Content m, streak_file = f\<rparr> =
    ((n, k), \<lparr>marker_file = f2, streak_file = Content (written t (now, v, p) n k)\<rparr>)"
proof -
  have live: "\<not> age_stale now m" "same_repo (resolve v) (probe_root v) m"
    using assms(1) by (simp_all add: observed_in_def)
  have "dispatch_oracle v (Some m) = (Some (census (now, v, p)), Some (started_at m))"
    using live(2) by (simp add: dispatch_oracle_def census_def)
  with live(1) assms(2-6) show ?thesis
    by (simp add: update_repeat_counts_def Let_def written_def)
qed

lemma update_first:
  assumes "started_at m = Some t" and "observed_in m (now, v, p)" and "foreign_streak t f"
  shows "update_repeat_counts v p False now \<lparr>marker_file = Content m, streak_file = f\<rparr> =
    ((1, 1), \<lparr>marker_file = Content m, streak_file = Content (written t (now, v, p) 1 1)\<rparr>)"
proof -
  define q where "q = scope_to_run (Some (started_at m)) (read_streak f)"
  have "prior_dispatch q = None \<and> prior_step q = None"
    using assms(1,3)
    by (auto simp: q_def foreign_streak_def scope_to_run_def read_streak_def no_prior_def
        split: jfile.splits option.splits)
  then show ?thesis
    by (intro update_observed [where r = False, OF assms(2) q_def [symmetric] _ assms(1)])
      (simp_all add: dispatch_count_def next_step_count_def resolution_reset_def)
qed

lemma consume_none:
  assumes "\<not> age_stale now m" and "last_resolution_step_key m \<noteq> Some key"
  shows "consume_resolution_signal rs root key now (Content m) = (False, Content m)"
  using assms by (simp add: consume_resolution_signal_def with_marker_live)

lemma update_next:
  assumes "started_at m = Some t" and "last_resolution_step_key m = None"
    and "observed_in m (now, v, p)" and "observed_in m x"
  shows "update_repeat_counts v p False now
      \<lparr>marker_file = Content m, streak_file = Content (written t x n k)\<rparr> =
    (let n' = (if dispatch_at (now, v, p) = dispatch_at x then n + (if census (now, v, p) = census x then 0 else 1) else 1);
         k' = (if step_at (now, v, p) = step_at x then k + (if census (now, v, p) = census x then 0 else 1) else 1)
     in ((n', k'), \<lparr>marker_file = Content m, streak_file = Content (written t (now, v, p) n' k')\<rparr>))"
proof -
  obtain now' v' p' where x: "x = (now', v', p')" by (cases x)
  define q where "q = scope_to_run (Some (started_at m)) (read_streak (Content (written t x n k)))"
  have q: "prior_dispatch q = Some (dispatch_sig p', n)" "prior_head q = Some (git_head v')"
    "prior_step q = Some (step_sig p', k)" "prior_consume q = Some (census x)"
    using assms(1) by (simp_all add: q_def x scope_to_run_def read_streak_def written_def both_def)
  have live: "\<not> age_stale now m" using assms(3) by (simp add: observed_in_def)
  have "git_head v' \<noteq> None" using assms(4) by (simp add: observed_in_def x)
  moreover have "sig_args (dispatch_sig p') = sub_skill_args p'" by (simp add: dispatch_sig_def)
  moreover have "resolution_reset v p False q now (Content m) = (False, Content m)"
    using q assms(2) live by (simp add: resolution_reset_def consume_none)
  ultimately show ?thesis
    using q unfolding Let_def
    by (intro update_observed [where r = False, OF assms(3) q_def [symmetric] _ assms(1)])
      (auto simp: dispatch_count_def next_step_count_def args_advanced_def rereads_def
        dispatch_at_def step_at_def x)
qed

lemma observe_run:
  assumes "started_at m = Some t" and "last_resolution_step_key m = None" and "foreign_streak t f"
    and "list_all (observed_in m) (x # xs)"
  shows "foldr observe (x # xs) \<lparr>marker_file = Content m, streak_file = f\<rparr> =
    \<lparr>marker_file = Content m,
     streak_file = Content (written t x (attempts dispatch_at (x # xs)) (attempts step_at (x # xs)))\<rparr>"
  using assms(4)
proof (induction xs arbitrary: x)
  case Nil
  then show ?case using update_first [OF assms(1) _ assms(3)] by (cases x) simp
next
  case (Cons y ys)
  then show ?case
    using update_next [OF assms(1,2), of _ _ _ y] by (cases x) (simp add: Let_def)
qed

text \<open>
  C36. What the two counts are: after any history of real probes made in one live run of this repository, with HEAD
  readable at each and no resolution pending or recorded in between (a new run's first probe counts as 1 whatever the
  file of a dead run says), the dispatch count is the number of dispatch-separated attempts in the newest stretch of
  probes with the same dispatch and the same HEAD, and the step count is the number in the newest stretch with the
  same step and arguments, whatever HEAD does: re-reads are not counted, commits do not reset it.
\<close>

theorem repeat_counts_are_attempts:
  assumes "started_at m = Some t" and "last_resolution_step_key m = None" and "foreign_streak t f"
    and "list_all (observed_in m) ((now, v, p) # history)"
  shows "fst (update_repeat_counts v p False now
      (foldr observe history \<lparr>marker_file = Content m, streak_file = f\<rparr>)) =
    (attempts dispatch_at ((now, v, p) # history), attempts step_at ((now, v, p) # history))"
proof (cases history)
  case Nil
  with update_first [OF assms(1) _ assms(3), of now v p] assms(4) show ?thesis by simp
next
  case (Cons y ys)
  with assms(4) have "list_all (observed_in m) (y # ys)" by simp
  note observe_run [OF assms(1-3) this]
  with Cons update_next [OF assms(1,2), of now v p y] assms(4) show ?thesis by (simp add: Let_def)
qed

definition sample_env :: "nat \<Rightarrow> string \<Rightarrow> probe_env" where
  "sample_env n head = \<lparr>resolve = (\<lambda>x. x), probe_root = ''/r'', git_head = Some head, registry = call_registry n\<rparr>"

definition sample_marker :: marker where
  "sample_marker = new_marker sample_args ''main'' 3000000"

definition sample_obs :: "nat \<Rightarrow> string \<Rightarrow> observation" where
  "sample_obs n head = (4000000, sample_env n head, sample_probe)"

lemma sample_marker_facts [simp]:
  "started_at sample_marker = Some 3" "last_resolution_step_key sample_marker = None"
  "observed_in sample_marker (4000000, sample_env n head, p)" "observed_in sample_marker (sample_obs n head)"
  by (simp_all add: sample_marker_def new_marker_def observed_in_def sample_obs_def sample_env_def
      sample_args_def same_repo_def age_stale_def started_epoch_def marker_stale_seconds_def)

lemma sample_obs_facts [simp]:
  "census (4000000, sample_env n head, p) = int n" "census (sample_obs n head) = int n"
  "step_at (sample_obs n head) = (step_sig sample_probe, sub_skill_args sample_probe)"
  "step_at (4000000, sample_env n head, sample_probe) = (step_sig sample_probe, sub_skill_args sample_probe)"
  "dispatch_at (sample_obs n head) = (dispatch_sig sample_probe, Some head)"
  "dispatch_at (4000000, sample_env n head, sample_probe) = (dispatch_sig sample_probe, Some head)"
  by (simp_all add: census_def sample_obs_def sample_env_def step_at_def dispatch_at_def
      consumed_emission_count_def call_registry_def load_registry_def is_consumed_def filter_replicate)

theorem repeat_counts_are_attempts_witness:
  "fst (update_repeat_counts (sample_env 2 ''c2'') sample_probe False 4000000
     (foldr observe [sample_obs 2 ''c2'', sample_obs 1 ''c1'', sample_obs 0 ''c0'']
       \<lparr>marker_file = Content sample_marker, streak_file = Absent\<rparr>)) = (1, 3)"
  using repeat_counts_are_attempts [of sample_marker 3 Absent 4000000 "sample_env 2 ''c2''" sample_probe
      "[sample_obs 2 ''c2'', sample_obs 1 ''c1'', sample_obs 0 ''c0'']"]
  by (simp add: foreign_streak_def)

text \<open>Commits cannot hide an oscillation: with a dispatch between any two probes of one step and
  target, the step count is the number of probes.\<close>

lemma masked_oscillation_trips:
  assumes "\<forall>x\<in>set hs. step_at x = key" and "distinct_adj (map census hs)"
  shows "attempts step_at hs = int (length hs)"
proof (cases hs)
  case (Cons x xs)
  with assms(1) have "takeWhile (\<lambda>y. step_at y = step_at (hd hs)) hs = hs"
    by (auto simp: takeWhile_eq_all_conv)
  then have "attempts step_at hs = int (length (remdups_adj (map census hs)))" by (simp only: attempts_def)
  with assms(2) show ?thesis by (simp add: distinct_adj_altdef)
qed (simp add: attempts_def)

lemma update_resolved:
  assumes "started_at m = Some t" and "observed_in m (now, v, p)" and "last_resolution_step_key m = Some (step_sig p)"
    and "step_sig p = fst (step_at x)"
  shows "\<exists>n. update_repeat_counts v p False now
      \<lparr>marker_file = Content m, streak_file = Content (written t x d k)\<rparr> =
    ((n, 1), \<lparr>marker_file = Content (m\<lparr>last_resolution_step_key := None\<rparr>),
       streak_file = Content (written t (now, v, p) n 1)\<rparr>)"
proof -
  obtain now' v' p' where x: "x = (now', v', p')" by (cases x)
  define q where "q = scope_to_run (Some (started_at m)) (read_streak (Content (written t x d k)))"
  have q: "prior_step q = Some (step_sig p', k)"
    using assms(1) by (simp add: q_def x scope_to_run_def read_streak_def written_def both_def)
  have same: "step_sig p' = step_sig p" using assms(4) by (simp add: x step_at_def)
  have live: "\<not> age_stale now m" "same_repo (resolve v) (probe_root v) m"
    using assms(2) by (simp_all add: observed_in_def)
  have "resolution_reset v p False q now (Content m) =
      (True, Content (m\<lparr>last_resolution_step_key := None\<rparr>))"
    using q same live assms(3) by (simp add: resolution_reset_def consume_resolution_signal_def with_marker_live)
  moreover have "next_step_count p True (Some (census (now, v, p))) q = 1"
    using q by (simp add: next_step_count_def)
  ultimately show ?thesis
    using update_observed [OF assms(2) q_def [symmetric] _ assms(1) refl] by blast
qed

text \<open>
  A resolution resets the step count once: after any history of probes that ended at this step,
  recording the resolution makes the next probe of the step count 1 and clears the signal; the probe
  after a further dispatch counts 2 again.
\<close>

theorem resolution_resets_once:
  assumes "started_at m = Some t" and "last_resolution_step_key m = None" and "foreign_streak t f"
    and "list_all (observed_in m) ((now, v, p) # x # history)" and "step_sig p = fst (step_at x)"
    and "observed_in m (now', v', p)" and "census (now', v', p) \<noteq> census (now, v, p)"
    and "s = foldr observe (x # history) \<lparr>marker_file = Content m, streak_file = f\<rparr>"
    and "s1 = s\<lparr>marker_file := snd (record_resolution_signal p now (marker_file s))\<rparr>"
  shows "case update_repeat_counts v p False now s1 of
    ((n, k), s2) \<Rightarrow> k = 1 \<and> marker_file s2 = Content m \<and>
      snd (fst (update_repeat_counts v' p False now' s2)) = 2"
proof -
  let ?m1 = "m\<lparr>last_resolution_step_key := Some (step_sig p)\<rparr>"
  have obs: "observed_in m (now, v, p)" "list_all (observed_in m) (x # history)" using assms(4) by simp_all
  then have live: "\<not> age_stale now m" by (simp add: observed_in_def)
  obtain d k0 where s: "s = \<lparr>marker_file = Content m, streak_file = Content (written t x d k0)\<rparr>"
    using observe_run [OF assms(1-3) obs(2)] assms(8) by blast
  have "s1 = \<lparr>marker_file = Content ?m1, streak_file = Content (written t x d k0)\<rparr>"
    using live by (simp add: assms(9) s record_resolution_signal_def with_marker_live Let_def step_sig_def)
  moreover have "observed_in ?m1 (now, v, p)"
    using obs(1) by (simp add: observed_in_def age_stale_def started_epoch_def same_repo_def)
  moreover have "?m1\<lparr>last_resolution_step_key := None\<rparr> = m" using assms(2) by (cases m) simp
  ultimately obtain n where u: "update_repeat_counts v p False now s1 =
      ((n, 1), \<lparr>marker_file = Content m, streak_file = Content (written t (now, v, p) n 1)\<rparr>)"
    using update_resolved [of ?m1 t now v p x d k0] assms(1,5) by auto
  moreover have "step_at (now', v', p) = step_at (now, v, p)" by (simp add: step_at_def)
  ultimately show ?thesis
    using update_next [OF assms(1,2,6) obs(1), of n 1] assms(7) by (simp add: Let_def)
qed

theorem resolution_resets_once_witness:
  "snd (fst (update_repeat_counts (sample_env 2 ''c'') sample_probe False 4000000
     (let s = foldr observe [sample_obs 1 ''b'', sample_obs 0 ''a'']
            \<lparr>marker_file = Content sample_marker, streak_file = Absent\<rparr>
      in s\<lparr>marker_file := snd (record_resolution_signal sample_probe 4000000 (marker_file s))\<rparr>))) = 1"
  using resolution_resets_once [of sample_marker 3 Absent 4000000 "sample_env 2 ''c''" sample_probe
      "sample_obs 1 ''b''" "[sample_obs 0 ''a'']" 4000000 "sample_env 3 ''d''", OF _ _ _ _ _ _ _ refl refl]
  by (simp add: foreign_streak_def Let_def case_prod_unfold)

end
