(* ===== verification/Run_Lifecycle.thy ===== *)
theory Run_Lifecycle
  imports Cycle_Friction Efficacy_Gate Loop_Detector
begin

text \<open>
  The life of a run: the guards of \<^verbatim>\<open>user/scripts/lazy_core/markers.py\<close> that keep a dispatched cycle
  and a second walker from touching it, the checkpoint that carries it over a pause, and the handlers
  \<^verbatim>\<open>--run-start\<close>, \<^verbatim>\<open>--run-end\<close>, \<^verbatim>\<open>--cycle-begin\<close>, \<^verbatim>\<open>--cycle-end\<close> and
  \<^verbatim>\<open>--record-resolution-signal\<close> of \<^verbatim>\<open>user/scripts/lazy-state.py\<close>, which compose the operations of the
  other theories. The state is the set of files of one repository's state directory, with the streak
  file of the loop detector. Telemetry, notifications and the printed JSON text are left out; a
  handler reads one clock.
\<close>

subsection \<open>Who calls\<close>

record caller =
  lazy_orchestrator :: "string option"
  lazy_cycle_subagent :: "string option"
  session_env :: "string option"

definition env_truthy :: "string option \<Rightarrow> bool" where
  "env_truthy val =
     (case val of
        None \<Rightarrow> False
      | Some s \<Rightarrow> to_lower (strip s) \<notin> set ['''', ''0'', ''false'', ''no'', ''off''])"

definition cycle_marker_is_hardening :: "cycle_marker option \<Rightarrow> bool" where
  "cycle_marker_is_hardening c =
     (case c of
        None \<Rightarrow> False
      | Some c' \<Rightarrow> (case cycle_sub_skill c' of None \<Rightarrow> False | Some s \<Rightarrow> strip s = ''hardening''))"

text \<open>\<open>True\<close> is the exit with status 3.\<close>

definition refuse_if_cycle_active :: "bool \<Rightarrow> caller \<Rightarrow> cycle_file \<Rightarrow> bool" where
  "refuse_if_cycle_active allow_hardening w f =
     (if env_truthy (lazy_orchestrator w) then False
      else let c = read_cycle_marker f
           in if \<not> env_truthy (lazy_cycle_subagent w) \<and> c = None then False
              else \<not> (allow_hardening \<and> cycle_marker_is_hardening c))"

definition refuse_cycle_marker_mutation_if_subagent :: "caller \<Rightarrow> cycle_file \<Rightarrow> bool" where
  "refuse_cycle_marker_mutation_if_subagent w f =
     (if env_truthy (lazy_orchestrator w) then False
      else env_truthy (lazy_cycle_subagent w) \<or> read_cycle_marker f \<noteq> None)"

datatype clobber = SecondWalker | OtherPipeline

definition refuse_run_start_clobber :: "string \<Rightarrow> int \<Rightarrow> bool \<Rightarrow> marker_file \<Rightarrow> clobber option" where
  "refuse_run_start_clobber incoming now checkpoint_present f =
     (case f of
        Content m \<Rightarrow>
          let epoch = (case started_at m of None \<Rightarrow> now | Some t \<Rightarrow> 1000000 * t); p = strip (pipeline m)
          in if now - epoch > 1000000 * marker_stale_seconds \<or> p = [] then None
             else if p = incoming then (if checkpoint_present then None else Some SecondWalker)
             else Some OtherPipeline
      | _ \<Rightarrow> None)"

subsection \<open>The checkpoint\<close>

text \<open>\<open>None\<close> is a key that is absent.\<close>

record continuity =
  cont_forward :: "int option"
  cont_meta :: "int option"
  cont_started :: "int option"
  cont_feature_forward :: "(string, int) dict option"
  cont_feature_corrective :: "(string, int) dict option"

definition no_continuity :: continuity where
  "no_continuity = \<lparr>cont_forward = None, cont_meta = None, cont_started = None,
     cont_feature_forward = None, cont_feature_corrective = None\<rparr>"

text \<open>\<open>counters\<close> are the forward, the meta and the maximal cycles; \<open>None\<close> is no dictionary.\<close>

record checkpoint =
  next_route :: string
  counters :: "(int option \<times> int option \<times> int option) option"
  operator_authorized :: bool
  ck_run_started :: "int option"
  ck_continuity :: continuity
  ck_ts :: int

type_synonym checkpoint_file = "checkpoint jfile"

definition snapshot :: "marker_file \<Rightarrow> continuity" where
  "snapshot f =
     (case f of
        Content m \<Rightarrow> \<lparr>cont_forward = forward_cycles m, cont_meta = meta_cycles m, cont_started = started_at m,
                     cont_feature_forward = per_feature_forward m, cont_feature_corrective = per_feature_corrective m\<rparr>
      | _ \<Rightarrow> no_continuity)"

definition write_run_checkpoint ::
  "string \<Rightarrow> int option \<times> int option \<times> int option \<Rightarrow> bool \<Rightarrow> int \<Rightarrow> marker_file \<Rightarrow> checkpoint" where
  "write_run_checkpoint route cs authorized now f =
     \<lparr>next_route = route, counters = Some cs, operator_authorized = authorized, ck_run_started = raw_started f,
      ck_continuity = snapshot f, ck_ts = now\<rparr>"

definition consume_run_checkpoint :: "checkpoint_file \<Rightarrow> checkpoint option \<times> checkpoint_file" where
  "consume_run_checkpoint f = (case f of Content c \<Rightarrow> (Some c, Absent) | _ \<Rightarrow> (None, Absent))"

definition coerce_count :: "int option \<Rightarrow> int" where
  "coerce_count c = (case c of None \<Rightarrow> 0 | Some n \<Rightarrow> if 0 \<le> n then n else 0)"

definition restore_identity :: "int \<Rightarrow> int option \<Rightarrow> marker \<Rightarrow> marker" where
  "restore_identity now candidate m =
     (case candidate of
        None \<Rightarrow> m
      | Some t \<Rightarrow> if now - 1000000 * t \<le> 1000000 * marker_stale_seconds then m\<lparr>started_at := Some t\<rparr> else m)"

definition restore_continuity :: "int \<Rightarrow> continuity \<Rightarrow> marker \<Rightarrow> marker" where
  "restore_continuity now k m =
     (let m1 = (if cont_forward k = None then m else m\<lparr>forward_cycles := Some (coerce_count (cont_forward k))\<rparr>);
          m2 = (if cont_meta k = None then m1 else m1\<lparr>meta_cycles := Some (coerce_count (cont_meta k))\<rparr>);
          m3 = restore_identity now (cont_started k) m2;
          m4 = (case cont_feature_forward k of None \<Rightarrow> m3 | Some d \<Rightarrow> m3\<lparr>per_feature_forward := Some d\<rparr>)
      in case cont_feature_corrective k of None \<Rightarrow> m4 | Some d \<Rightarrow> m4\<lparr>per_feature_corrective := Some d\<rparr>)"

definition restore_checkpoint_counters :: "checkpoint option \<Rightarrow> marker option marker_op" where
  "restore_checkpoint_counters ck now f =
     (case ck of
        None \<Rightarrow> (None, f)
      | Some c \<Rightarrow>
          (case counters c of
             None \<Rightarrow> (None, f)
           | Some (fwd, meta, mx) \<Rightarrow>
               with_marker None
                 (\<lambda>m. if operator_authorized c then (None, None)
                      else let m1 = (if ck_continuity c \<noteq> no_continuity then restore_continuity now (ck_continuity c) m
                                     else restore_identity now (ck_run_started c)
                                       (m\<lparr>forward_cycles := Some (coerce_count fwd), meta_cycles := Some (coerce_count meta)\<rparr>));
                               m2 = m1\<lparr>last_advance_consume_count := Some 0\<rparr>
                           in (Some m2, Some m2)) now f))"

definition rebaseline_loop_signature ::
  "registry_file \<Rightarrow> int \<Rightarrow> marker_file \<Rightarrow> streak_file \<Rightarrow> bool \<times> marker_file \<times> streak_file" where
  "rebaseline_loop_signature reg now f s =
     (if s = Absent then (False, f, s)
      else case read_run_marker None now f of
             (None, f') \<Rightarrow> (False, f', s)
           | (Some m, f') \<Rightarrow>
               (case s of
                  Content k \<Rightarrow> (True, f', Content (k\<lparr>consume_count := Some (int (consumed_emission_count None reg))\<rparr>))
                | _ \<Rightarrow> (False, f', s)))"

subsection \<open>Run start\<close>

record run_state =
  run_marker :: marker_file
  cycle_marker_file :: cycle_file
  checkpoint_file :: checkpoint_file
  prompt_registry :: registry_file
  deny_ledger :: ledger
  flush_crumb :: crumb_file
  loop_streak :: streak_file

text \<open>\<open>--parent-run\<close>: \<open>None\<close> if not given, \<open>Some None\<close> if it is no JSON; the result \<open>None\<close> is the exit.\<close>

definition parse_parent_run_arg :: "json option option \<Rightarrow> (string \<times> string) option option" where
  "parse_parent_run_arg raw =
     (case raw of
        None \<Rightarrow> Some None
      | Some None \<Rightarrow> None
      | Some (Some j) \<Rightarrow>
          (case (jget j ''repo_root'', jget j ''started_at'') of
             (JStr r, JStr t) \<Rightarrow> Some (Some (r, t))
           | _ \<Rightarrow> None))"

datatype start_result = StartRefused | StartClobber clobber | StartUsage | Started marker "checkpoint option"

text \<open>What is printed: the marker as minted, with the three counters of the restored one.\<close>

definition echo_marker :: "marker \<Rightarrow> marker option \<Rightarrow> marker" where
  "echo_marker m restored =
     (case restored of
        None \<Rightarrow> m
      | Some r \<Rightarrow> m\<lparr>forward_cycles := forward_cycles r, meta_cycles := meta_cycles r,
                    last_advance_consume_count := last_advance_consume_count r\<rparr>)"

definition run_start ::
  "caller \<Rightarrow> json option option \<Rightarrow> run_args \<Rightarrow> string \<Rightarrow> int \<Rightarrow> run_state \<Rightarrow> start_result \<times> run_state" where
  "run_start w parent a branch now s =
     (if refuse_if_cycle_active False w (cycle_marker_file s) then (StartRefused, s)
      else case refuse_run_start_clobber (arg_pipeline a) now (checkpoint_file s \<noteq> Absent) (run_marker s) of
             Some k \<Rightarrow> (StartClobber k, s)
           | None \<Rightarrow>
               (case parse_parent_run_arg parent of
                  None \<Rightarrow> (StartUsage, s)
                | Some pr \<Rightarrow>
                    (case write_run_marker (a\<lparr>arg_parent_run := pr\<rparr>) branch now (run_marker s) of
                       (m, f1) \<Rightarrow>
                         (case consume_run_checkpoint (checkpoint_file s) of
                            (None, cf) \<Rightarrow> (Started m None, s\<lparr>run_marker := f1, checkpoint_file := cf\<rparr>)
                          | (Some c, cf) \<Rightarrow>
                              (case restore_checkpoint_counters (Some c) now f1 of
                                 (restored, f2) \<Rightarrow>
                                   (case rebaseline_loop_signature (prompt_registry s) now f2 (loop_streak s) of
                                      (b, f3, k) \<Rightarrow>
                                        (Started (echo_marker m restored) (Some c),
                                         s\<lparr>run_marker := f3, checkpoint_file := cf, loop_streak := k\<rparr>)))))))"

subsection \<open>Run end\<close>

definition sanctioned_stop_terminal :: "string list" where
  "sanctioned_stop_terminal =
     [''all-features-complete'', ''all-bugs-fixed'', ''max-cycles'', ''cloud-queue-exhausted'',
      ''device-queue-exhausted'', ''host-capability-saturated'', ''queue-missing'', ''blocked-halt-for-manual'',
      ''needs-research'', ''queue-blocked-on-research'', ''queue-exhausted-dependency-gated'']"

definition sanctioned_lane_park_terminal :: "string list" where
  "sanctioned_lane_park_terminal =
     [''needs-input'', ''needs-input-scoped'', ''blocked'', ''blocked-scoped'', ''needs-ratification'',
      ''needs-ratification-scoped'', ''budget-deferred'']"

record end_args =
  end_reason :: "string option"
  ack_unhardened :: bool
  efficacy_skip :: bool
  end_authorized :: bool
  terminal_reason :: "string option"
  end_next_route :: "string option"

datatype end_result =
    EndRefused | EndUsage | PendingDebt nat | EfficacyMissing | CheckpointAuth | Unsanctioned string
  | Ended bool "checkpoint option"

definition stop_reason :: "end_args \<Rightarrow> string" where
  "stop_reason a = (case end_reason a of Some (c # r) \<Rightarrow> c # r | _ \<Rightarrow> ''terminal'')"

definition is_lane :: "marker option \<Rightarrow> bool" where
  "is_lane m = (case m of None \<Rightarrow> False | Some m' \<Rightarrow> parent_run m' \<noteq> None)"

definition is_attended :: "marker option \<Rightarrow> bool" where
  "is_attended m = (case m of None \<Rightarrow> True | Some m' \<Rightarrow> attended m' \<noteq> Some False)"

definition reason_sanctioned :: "bool \<Rightarrow> string \<Rightarrow> bool" where
  "reason_sanctioned lane r \<longleftrightarrow>
     r \<in> set sanctioned_stop_terminal \<or> lane \<and> r \<in> set sanctioned_lane_park_terminal"

text \<open>The stop gates after the debt and the efficacy gate; \<open>None\<close> is a pass.\<close>

definition stop_gate :: "end_args \<Rightarrow> marker option \<Rightarrow> end_result option" where
  "stop_gate a live =
     (if stop_reason a = ''checkpoint'' then
        (if is_attended live \<and> \<not> end_authorized a then Some CheckpointAuth
         else case end_next_route a of Some (c # r) \<Rightarrow> None | _ \<Rightarrow> Some EndUsage)
      else case terminal_reason a of
             None \<Rightarrow> None
           | Some r \<Rightarrow> if reason_sanctioned (is_lane live) r \<or> end_authorized a then None
                       else Some (Unsanctioned r))"

definition checkpoint_of :: "end_args \<Rightarrow> marker option \<Rightarrow> int \<Rightarrow> marker_file \<Rightarrow> checkpoint option" where
  "checkpoint_of a live now f =
     (if stop_reason a \<noteq> ''checkpoint'' then None
      else Some (write_run_checkpoint (case end_next_route a of None \<Rightarrow> [] | Some r \<Rightarrow> r)
        (case live of None \<Rightarrow> (None, None, None) | Some m \<Rightarrow> (forward_cycles m, meta_cycles m, max_cycles m))
        (end_authorized a) now f))"

definition run_end :: "caller \<Rightarrow> end_args \<Rightarrow> int \<Rightarrow> run_state \<Rightarrow> end_result \<times> run_state" where
  "run_end w a now s =
     (if refuse_if_cycle_active False w (cycle_marker_file s) then (EndRefused, s)
      else if stop_reason a \<notin> {''terminal'', ''checkpoint''} then (EndUsage, s)
      else case read_run_marker None now (run_marker s) of
             (live, f) \<Rightarrow>
               let s1 = s\<lparr>run_marker := f\<rparr>; pending = pending_hardening True f (deny_ledger s)
               in if 0 < pending \<and> \<not> ack_unhardened a then (PendingDebt pending, s1)
                  else let s2 = (if 0 < pending then s1\<lparr>deny_ledger := snd (ack_all_unacked_denies now (deny_ledger s))\<rparr> else s1)
                       in if \<not> is_lane live \<and> \<not> efficacy_breadcrumb_present f (flush_crumb s) \<and> \<not> efficacy_skip a
                          then (EfficacyMissing, s2)
                          else case stop_gate a live of
                                 Some refusal \<Rightarrow> (refusal, s2)
                               | None \<Rightarrow>
                                   let ck = checkpoint_of a live now f
                                   in (case delete_run_marker True (f, prompt_registry s) of
                                         (deleted, f', reg) \<Rightarrow>
                                           (Ended deleted ck,
                                            s2\<lparr>run_marker := f', prompt_registry := reg,
                                               checkpoint_file := (case ck of None \<Rightarrow> checkpoint_file s | Some c \<Rightarrow> Content c),
                                               flush_crumb := clear_efficacy_breadcrumb (flush_crumb s)\<rparr>)))"

subsection \<open>The cycle bracket\<close>

datatype bracket_result = BracketRefused | BracketUsage | Begun cycle_marker | Closed bool "friction option"

text \<open>
  The arguments carry the skill, its arguments and the item; the run and the HEAD are filled in.
\<close>

definition cycle_begin ::
  "caller \<Rightarrow> friction_env \<Rightarrow> cycle_args \<Rightarrow> int \<Rightarrow> run_state \<Rightarrow> bracket_result \<times> run_state" where
  "cycle_begin w v a now s =
     (if refuse_cycle_marker_mutation_if_subagent w (cycle_marker_file s) then (BracketRefused, s)
      else if c_feature a \<in> {None, Some []} \<or> c_nonce a \<in> {None, Some []} then (BracketUsage, s)
      else if c_kind a = Some ''real'' \<and> (case c_sub_skill a of None \<Rightarrow> True | Some k \<Rightarrow> strip k = []) then (BracketUsage, s)
      else case read_run_marker None now (run_marker s) of
             (live, f) \<Rightarrow>
               (case write_cycle_marker (skill_declares_subagent_model (skill_files v) (c_sub_skill a)) (session_env w)
                       (prompt_registry s)
                       (a\<lparr>c_run_started_at := (case live of None \<Rightarrow> None | Some m \<Rightarrow> started_at m),
                          c_head := head_sha_snapshot (git v), c_session := None\<rparr>) now (cycle_marker_file s) of
                  (c, cf) \<Rightarrow> (Begun c, s\<lparr>run_marker := f, cycle_marker_file := cf\<rparr>)))"

definition cycle_end :: "caller \<Rightarrow> friction_env \<Rightarrow> int \<Rightarrow> run_state \<Rightarrow> bracket_result \<times> run_state" where
  "cycle_end w v now s =
     (if refuse_cycle_marker_mutation_if_subagent w (cycle_marker_file s) then (BracketRefused, s)
      else let c = read_cycle_marker (cycle_marker_file s);
               f1 = (case c of
                       None \<Rightarrow> run_marker s
                     | Some c' \<Rightarrow>
                         let e = head_sha_snapshot (git v);
                             summary = (if e \<noteq> None \<and> e \<noteq> begin_head_sha c' then head_commit_subject (git v) else None)
                         in snd (record_audit_obligation (cycle_feature c') (cycle_sub_skill c') (begin_head_sha c') e
                                   summary now (run_marker s)))
           in (case cycle_end_friction_check v (cycle_marker_file s) now f1 (deny_ledger s) of
                 (found, f2, l) \<Rightarrow>
                   (case clear_cycle_marker (cycle_marker_file s) of
                      (cleared, cf) \<Rightarrow>
                        (Closed cleared found,
                         s\<lparr>run_marker := snd (advance_cycle_bracket_counter c now f2), deny_ledger := l,
                           cycle_marker_file := cf\<rparr>))))"

text \<open>The handler that records an applied resolution; it has no guard against a dispatched cycle.\<close>

definition resolution_handler :: "probe \<Rightarrow> int \<Rightarrow> run_state \<Rightarrow> bool \<times> run_state" where
  "resolution_handler p now s =
     (if feature_id p \<in> {None, Some []} \<or> current_step p \<in> {None, Some []} then (False, s)
      else case record_resolution_signal p now (run_marker s) of
             (None, f) \<Rightarrow> (True, s\<lparr>run_marker := f\<rparr>)
           | (Some m, f) \<Rightarrow> (True, s\<lparr>run_marker := Content (record_corrective_cycle (feature_id p) m)\<rparr>))"

subsection \<open>A dispatched cycle cannot touch the run\<close>

datatype life_cmd =
    Start caller "json option option" run_args string
  | Stop caller end_args
  | Begin caller friction_env cycle_args
  | Close caller friction_env
  | Resolve caller probe

fun issuer :: "life_cmd \<Rightarrow> caller" where
  "issuer (Start w p a b) = w"
| "issuer (Stop w a) = w"
| "issuer (Begin w v a) = w"
| "issuer (Close w v) = w"
| "issuer (Resolve w p) = w"

fun signals_resolution :: "life_cmd \<Rightarrow> bool" where
  "signals_resolution (Resolve w p) = True"
| "signals_resolution c = False"

fun exec_life :: "life_cmd \<Rightarrow> int \<Rightarrow> run_state \<Rightarrow> run_state" where
  "exec_life (Start w p a b) now s = snd (run_start w p a b now s)"
| "exec_life (Stop w a) now s = snd (run_end w a now s)"
| "exec_life (Begin w v a) now s = snd (cycle_begin w v a now s)"
| "exec_life (Close w v) now s = snd (cycle_end w v now s)"
| "exec_life (Resolve w p) now s = snd (resolution_handler p now s)"

definition exec_lives :: "(int \<times> life_cmd) list \<Rightarrow> run_state \<Rightarrow> run_state" where
  "exec_lives cs s = fold (\<lambda>(now, c). exec_life c now) cs s"

text \<open>Not the orchestrator, and marked as a cycle by its environment or by the marker on disk.\<close>

definition subagent :: "caller \<Rightarrow> run_state \<Rightarrow> bool" where
  "subagent w s \<longleftrightarrow> \<not> env_truthy (lazy_orchestrator w) \<and>
     (env_truthy (lazy_cycle_subagent w) \<or> read_cycle_marker (cycle_marker_file s) \<noteq> None)"

lemma refuse_plain:
  "refuse_if_cycle_active False w f \<longleftrightarrow> \<not> env_truthy (lazy_orchestrator w) \<and>
     (env_truthy (lazy_cycle_subagent w) \<or> read_cycle_marker f \<noteq> None)"
  by (simp add: refuse_if_cycle_active_def Let_def)

lemma guards_subagent:
  "refuse_if_cycle_active False w (cycle_marker_file s) \<longleftrightarrow> subagent w s"
  "refuse_cycle_marker_mutation_if_subagent w (cycle_marker_file s) \<longleftrightarrow> subagent w s"
  by (auto simp: refuse_plain refuse_cycle_marker_mutation_if_subagent_def subagent_def Let_def)

lemma exec_life_subagent: "subagent (issuer c) s \<Longrightarrow> \<not> signals_resolution c \<Longrightarrow> exec_life c now s = s"
  by (cases c) (simp_all add: run_start_def run_end_def cycle_begin_def cycle_end_def guards_subagent)

text \<open>The one command without a guard writes two fields of the marker of a live run.\<close>

definition resolved :: "marker \<Rightarrow> marker \<Rightarrow> bool" where
  "resolved m m' \<longleftrightarrow> m' = m\<lparr>last_resolution_step_key := last_resolution_step_key m',
     per_feature_corrective := per_feature_corrective m'\<rparr>"

definition marker_only :: "run_state \<Rightarrow> run_state \<Rightarrow> bool" where
  "marker_only s t \<longleftrightarrow> t = s\<lparr>run_marker := run_marker t\<rparr>"

lemma resolved_refl [simp]: "resolved m m"
  by (simp add: resolved_def)

lemma resolved_trans: "resolved a b \<Longrightarrow> resolved b c \<Longrightarrow> resolved a c"
  by (cases a; cases b; cases c) (simp add: resolved_def)

lemma resolved_fields: "resolved m m' \<Longrightarrow> \<exists>k x. m' = m\<lparr>last_resolution_step_key := k, per_feature_corrective := x\<rparr>"
  unfolding resolved_def by (intro exI)

lemma resolved_age: "resolved m m' \<Longrightarrow> age_stale now m' = age_stale now m"
  by (cases m; cases m') (simp add: resolved_def age_stale_def started_epoch_def)

lemma resolved_signal: "resolved m (record_corrective_cycle i (m\<lparr>last_resolution_step_key := k\<rparr>))"
  by (cases m) (simp add: resolved_def record_corrective_cycle_def split: option.split)

lemma marker_only_refl [simp]: "marker_only s s"
  by (simp add: marker_only_def)

lemma marker_only_trans: "marker_only a b \<Longrightarrow> marker_only b c \<Longrightarrow> marker_only a c"
  by (cases a; cases b; cases c) (simp add: marker_only_def)

lemma marker_only_subagent: "marker_only s t \<Longrightarrow> subagent w t = subagent w s"
  by (cases s; cases t) (simp add: marker_only_def subagent_def)

lemma resolution_contained:
  "marker_only s (snd (resolution_handler p now s))"
  "run_marker s = Content m \<Longrightarrow> \<not> age_stale now m \<Longrightarrow>
    \<exists>m'. run_marker (snd (resolution_handler p now s)) = Content m' \<and> resolved m m'"
  by (simp_all add: resolution_handler_def marker_only_def record_resolution_signal_def with_marker_live Let_def
      resolved_signal split: prod.split option.split)

lemma exec_life_contained:
  assumes "subagent (issuer c) s"
  shows "marker_only s (exec_life c now s)"
    and "run_marker s = Content m \<Longrightarrow> \<not> age_stale now m \<Longrightarrow>
      \<exists>m'. run_marker (exec_life c now s) = Content m' \<and> resolved m m'"
  using exec_life_subagent [OF assms, of now] resolution_contained by (cases c; auto)+

lemma exec_lives_contained:
  assumes "\<forall>(now, c)\<in>set cs. subagent (issuer c) s"
  shows "marker_only s (exec_lives cs s)"
    and "run_marker s = Content m \<Longrightarrow> \<forall>(now, c)\<in>set cs. \<not> age_stale now m \<Longrightarrow>
      \<exists>m'. run_marker (exec_lives cs s) = Content m' \<and> resolved m m'"
  using assms
proof (induction cs arbitrary: s m)
  case (Cons nc cs)
  obtain now c where nc: "nc = (now, c)" by (cases nc)
  have run: "exec_lives (nc # cs) s = exec_lives cs (exec_life c now s)" for s by (simp add: exec_lives_def nc)
  have first: "marker_only s (exec_life c now s)" "\<forall>(now', c')\<in>set cs. subagent (issuer c') (exec_life c now s)"
    if "\<forall>(now, c)\<in>set (nc # cs). subagent (issuer c) s" for s
  proof -
    show only: "marker_only s (exec_life c now s)" using that exec_life_contained(1) by (simp add: nc)
    show "\<forall>(now', c')\<in>set cs. subagent (issuer c') (exec_life c now s)"
      using that marker_only_subagent [OF only] by auto
  qed
  { case 1
    show ?case unfolding run by (rule marker_only_trans [OF first(1) [OF 1] Cons.IH(1) [OF first(2) [OF 1]]]) }
  { case 2
    then have "subagent (issuer c) s" "\<not> age_stale now m" by (simp_all add: nc)
    then obtain m1 where m1: "run_marker (exec_life c now s) = Content m1" "resolved m m1"
      using exec_life_contained(2) 2(1) by blast
    have "\<forall>(now, c)\<in>set cs. \<not> age_stale now m1" using 2(2) resolved_age [OF m1(2)] by simp
    from Cons.IH(2) [OF m1(1) this first(2) [OF 2(3)]] m1(2) show ?case
      unfolding run by (blast intro: resolved_trans) }
qed (simp_all add: exec_lives_def)

subsection \<open>A live run is not clobbered\<close>

definition protected_run :: "string \<Rightarrow> int \<Rightarrow> run_state \<Rightarrow> bool" where
  "protected_run incoming now s \<longleftrightarrow>
     (\<exists>m. run_marker s = Content m \<and> (started_at m = None \<or> \<not> age_stale now m) \<and> strip (pipeline m) \<noteq> [] \<and>
       (strip (pipeline m) \<noteq> incoming \<or> checkpoint_file s = Absent))"

lemma clobber_protected:
  "refuse_run_start_clobber incoming now (checkpoint_file s \<noteq> Absent) (run_marker s) = None \<longleftrightarrow>
     \<not> protected_run incoming now s"
  by (cases "run_marker s")
     (auto simp: refuse_run_start_clobber_def protected_run_def age_stale_def started_epoch_def marker_stale_seconds_def
        Let_def split: option.split)

lemma fresh_start: "\<not> age_stale now (new_marker b br now)"
  by (simp add: age_stale_def started_epoch_def new_marker_def marker_stale_seconds_def)

lemma restore_identity_same:
  "pipeline (restore_identity now t m) = pipeline m" "repo_root (restore_identity now t m) = repo_root m"
  "\<not> age_stale now m \<Longrightarrow> \<not> age_stale now (restore_identity now t m)"
  by (auto simp: restore_identity_def age_stale_def started_epoch_def split: option.split)

lemma restore_continuity_same:
  "pipeline (restore_continuity now k m) = pipeline m" "repo_root (restore_continuity now k m) = repo_root m"
  "age_stale now (restore_continuity now k m) = age_stale now (restore_identity now (cont_started k) m)"
  by (auto simp: restore_continuity_def restore_identity_def Let_def age_stale_def started_epoch_def split: option.split)

lemma restore_live:
  assumes "\<not> age_stale now m"
  obtains m' where "snd (restore_checkpoint_counters ck now (Content m)) = Content m'"
    "pipeline m' = pipeline m" "repo_root m' = repo_root m" "\<not> age_stale now m'"
proof -
  have age: "age_stale now (m\<lparr>forward_cycles := x, meta_cycles := y\<rparr>) = age_stale now m"
    "age_stale now (m0\<lparr>last_advance_consume_count := z\<rparr>) = age_stale now m0" for x y z m0
    by (simp_all add: age_stale_def started_epoch_def)
  have "\<exists>m'. snd (restore_checkpoint_counters ck now (Content m)) = Content m' \<and>
    pipeline m' = pipeline m \<and> repo_root m' = repo_root m \<and> \<not> age_stale now m'"
    using assms
    by (auto simp: restore_checkpoint_counters_def with_marker_live Let_def age restore_identity_same
        restore_continuity_same split: option.split)
  then show thesis using that by blast
qed

lemma restore_None: "restore_checkpoint_counters None now f = (None, f)"
  by (simp add: restore_checkpoint_counters_def)

lemma rebaseline_live: "\<not> age_stale now m \<Longrightarrow> fst (snd (rebaseline_loop_signature reg now (Content m) k)) = Content m"
  by (auto simp: rebaseline_loop_signature_def read_run_marker_def split: jfile.split)

lemma run_start_cases:
  "run_start w p a br now s =
     (if subagent w s then (StartRefused, s)
      else case refuse_run_start_clobber (arg_pipeline a) now (checkpoint_file s \<noteq> Absent) (run_marker s) of
             Some k \<Rightarrow> (StartClobber k, s)
           | None \<Rightarrow>
               (case parse_parent_run_arg p of
                  None \<Rightarrow> (StartUsage, s)
                | Some pr \<Rightarrow>
                    let m = new_marker (a\<lparr>arg_parent_run := pr\<rparr>) br now;
                        ck = fst (consume_run_checkpoint (checkpoint_file s));
                        r = restore_checkpoint_counters ck now (Content m)
                    in (Started (if ck = None then m else echo_marker m (fst r)) ck,
                        s\<lparr>run_marker := snd r, checkpoint_file := Absent,
                          loop_streak := (if ck = None then loop_streak s
                            else snd (snd (rebaseline_loop_signature (prompt_registry s) now (snd r) (loop_streak s))))\<rparr>)))"
proof -
  have "fst (snd (rebaseline_loop_signature reg now (snd (restore_checkpoint_counters ck now (Content (new_marker b br now)))) k)) =
      snd (restore_checkpoint_counters ck now (Content (new_marker b br now)))" for reg ck b k
    by (rule restore_live [OF fresh_start [of now b br], of ck]) (simp add: rebaseline_live)
  then show ?thesis
    by (cases "checkpoint_file s")
      (simp_all add: run_start_def guards_subagent write_run_marker_def Let_def case_prod_unfold
        consume_run_checkpoint_def restore_None split: option.split)
qed

text \<open>
  Starting a run is all or nothing and never takes a live run's place: a start is admitted exactly
  if the caller is no cycle, the parent argument is well formed and no live run is protected (a run of
  another pipeline, or of the same one with no checkpoint waiting); otherwise no file changes. An
  admitted start leaves a live marker of its own pipeline and repository and no checkpoint.
\<close>

theorem run_start_admission:
  "((\<exists>m ck. fst (run_start w p a br now s) = Started m ck) \<longleftrightarrow>
      \<not> subagent w s \<and> \<not> protected_run (arg_pipeline a) now s \<and> parse_parent_run_arg p \<noteq> None) \<and>
   (if \<exists>m ck. fst (run_start w p a br now s) = Started m ck
    then checkpoint_file (snd (run_start w p a br now s)) = Absent \<and>
      (\<exists>m. run_marker (snd (run_start w p a br now s)) = Content m \<and> pipeline m = arg_pipeline a \<and>
        repo_root m = Some (arg_repo_root a) \<and> \<not> age_stale now m)
    else snd (run_start w p a br now s) = s)"
proof -
  have live: "\<exists>m. snd (restore_checkpoint_counters ck now (Content (new_marker (a\<lparr>arg_parent_run := pr\<rparr>) br now))) = Content m \<and>
      pipeline m = arg_pipeline a \<and> repo_root m = Some (arg_repo_root a) \<and> \<not> age_stale now m" for ck pr
    by (rule restore_live [OF fresh_start [of now "a\<lparr>arg_parent_run := pr\<rparr>" br], of ck]) (simp add: new_marker_def)
  show ?thesis
    using clobber_protected [of "arg_pipeline a" now s]
    by (auto simp: run_start_cases Let_def live split: option.split)
qed

subsection \<open>The gates at the end of a run\<close>

lemma stop_gate_not_EndRefused: "stop_gate a live = Some x \<Longrightarrow> x \<notin> {EndRefused} \<union> range PendingDebt \<union> {EfficacyMissing} \<union> range (case_prod Ended)"
  by (auto simp: stop_gate_def split: if_splits option.splits list.splits)

text \<open>The deny ledger as the gates see it, and as they leave it.\<close>

definition owed_at_end :: "int \<Rightarrow> run_state \<Rightarrow> nat" where
  "owed_at_end now s = pending_hardening True (snd (read_run_marker None now (run_marker s))) (deny_ledger s)"

definition ledger_at_end :: "end_args \<Rightarrow> int \<Rightarrow> run_state \<Rightarrow> ledger" where
  "ledger_at_end a now s =
     (if 0 < owed_at_end now s \<and> ack_unhardened a then snd (ack_all_unacked_denies now (deny_ledger s)) else deny_ledger s)"

lemma run_end_cases:
  "run_end w a now s =
     (if subagent w s then (EndRefused, s)
      else if stop_reason a \<notin> {''terminal'', ''checkpoint''} then (EndUsage, s)
      else let live = fst (read_run_marker None now (run_marker s));
               f = snd (read_run_marker None now (run_marker s));
               s1 = s\<lparr>run_marker := f, deny_ledger := ledger_at_end a now s\<rparr>
           in if 0 < owed_at_end now s \<and> \<not> ack_unhardened a then (PendingDebt (owed_at_end now s), s1)
              else if \<not> is_lane live \<and> \<not> efficacy_breadcrumb_present f (flush_crumb s) \<and> \<not> efficacy_skip a
              then (EfficacyMissing, s1)
              else case stop_gate a live of
                     Some refusal \<Rightarrow> (refusal, s1)
                   | None \<Rightarrow>
                       (Ended (f \<noteq> Absent) (checkpoint_of a live now f),
                        s1\<lparr>run_marker := Absent, prompt_registry := Absent,
                           checkpoint_file := (case checkpoint_of a live now f of
                             None \<Rightarrow> checkpoint_file s | Some c \<Rightarrow> Content c),
                           flush_crumb := Absent\<rparr>))"
  by (cases s) (simp add: run_end_def refuse_plain subagent_def case_prod_unfold Let_def owed_at_end_def ledger_at_end_def
      delete_run_marker_def clear_efficacy_breadcrumb_def split: option.split)

text \<open>
  C28. A dispatched cycle is contained: whatever lifecycle commands are issued, in whatever order and number, by
  callers that are cycles by their environment or by the cycle marker on disk, no file of the run but the run marker
  changes, and that one only by \<open>--record-resolution-signal\<close>, which has no guard: in the marker of a live run it
  writes the resolution signal and the corrective counts and nothing else. The starts, the ends and the brackets are
  refused to such a caller, and never refused to the orchestrator as a cycle's, even while a cycle marker lingers.
\<close>

theorem cycle_is_contained:
  assumes "\<forall>(now, c)\<in>set cs. subagent (issuer c) s"
  shows "exec_lives cs s = s\<lparr>run_marker := run_marker (exec_lives cs s)\<rparr> \<and>
    ((\<forall>(now, c)\<in>set cs. \<not> signals_resolution c) \<longrightarrow> exec_lives cs s = s) \<and>
    (\<forall>m. run_marker s = Content m \<and> (\<forall>(now, c)\<in>set cs. \<not> age_stale now m) \<longrightarrow>
      (\<exists>k x. run_marker (exec_lives cs s) = Content (m\<lparr>last_resolution_step_key := k, per_feature_corrective := x\<rparr>))) \<and>
    (subagent w s \<longrightarrow> fst (run_start w p a br now s) = StartRefused \<and> fst (run_end w e now s) = EndRefused \<and>
      fst (cycle_begin w v g now s) = BracketRefused \<and> fst (cycle_end w v now s) = BracketRefused) \<and>
    (env_truthy (lazy_orchestrator w) \<longrightarrow> fst (run_start w p a br now s) \<noteq> StartRefused \<and>
      fst (run_end w e now s) \<noteq> EndRefused \<and> fst (cycle_begin w v g now s) \<noteq> BracketRefused \<and>
      fst (cycle_end w v now s) \<noteq> BracketRefused)"
proof (intro conjI impI allI)
  show "exec_lives cs s = s\<lparr>run_marker := run_marker (exec_lives cs s)\<rparr>"
    using exec_lives_contained(1) [OF assms] unfolding marker_only_def .
  show "\<exists>k x. run_marker (exec_lives cs s) = Content (m\<lparr>last_resolution_step_key := k, per_feature_corrective := x\<rparr>)"
    if "run_marker s = Content m \<and> (\<forall>(now, c)\<in>set cs. \<not> age_stale now m)" for m
    using exec_lives_contained(2) [OF assms, of m] that resolved_fields by fastforce
  show "exec_lives cs s = s" if "\<forall>(now, c)\<in>set cs. \<not> signals_resolution c"
    using assms that unfolding exec_lives_def by (induction cs) (auto simp: exec_life_subagent)
  assume "env_truthy (lazy_orchestrator w)"
  then have "\<not> subagent w s" by (simp add: subagent_def)
  then show "fst (run_start w p a br now s) \<noteq> StartRefused" "fst (run_end w e now s) \<noteq> EndRefused"
    "fst (cycle_begin w v g now s) \<noteq> BracketRefused" "fst (cycle_end w v now s) \<noteq> BracketRefused"
    by (simp_all add: run_start_cases run_end_cases cycle_begin_def cycle_end_def guards_subagent Let_def case_prod_unfold split: option.split)
       (auto dest: stop_gate_not_EndRefused)
qed (simp_all add: run_start_cases run_end_cases cycle_begin_def cycle_end_def guards_subagent)

lemma read_live_marker: "\<not> age_stale now m \<Longrightarrow> read_run_marker None now (Content m) = (Some m, Content m)"
  by (simp add: read_run_marker_def)

text \<open>
  C27. A live run ends only through its gates, and a refused end keeps the run: \<open>--run-end\<close> succeeds
  exactly if the caller is no cycle, no hardening is owed or the debt is overridden, the efficacy flush
  covered the run or is waived or belongs to the parent, and the stop is allowed (a checkpoint by an
  unattended run or with authorization and a next route; a terminal with a sanctioned reason, with
  authorization or without a reason). Otherwise marker, registry, checkpoint, breadcrumb, streak and
  cycle marker stay as they are. On success marker, registry and breadcrumb are gone, and a checkpoint
  is left exactly if that was the reason.
\<close>

theorem run_ends_through_gates:
  assumes "run_marker s = Content m" and "\<not> age_stale now m"
  shows "let (res, s') = run_end w e now s; ended = (\<exists>d ck. res = Ended d ck) in
    (ended \<longleftrightarrow>
      \<not> subagent w s \<and> (owed_at_end now s = 0 \<or> ack_unhardened e) \<and>
      (parent_run m \<noteq> None \<or> efficacy_breadcrumb_present (Content m) (flush_crumb s) \<or> efficacy_skip e) \<and>
      (stop_reason e = ''checkpoint'' \<and> (attended m = Some False \<or> end_authorized e) \<and> end_next_route e \<notin> {None, Some []} \<or>
       stop_reason e = ''terminal'' \<and> (case terminal_reason e of None \<Rightarrow> True
         | Some r \<Rightarrow> reason_sanctioned (parent_run m \<noteq> None) r \<or> end_authorized e))) \<and>
    (if ended
     then run_marker s' = Absent \<and> prompt_registry s' = Absent \<and> flush_crumb s' = Absent \<and>
       (if stop_reason e = ''checkpoint''
        then \<exists>c. checkpoint_file s' = Content c \<and> ck_continuity c = snapshot (Content m)
        else checkpoint_file s' = checkpoint_file s)
     else run_marker s' = run_marker s \<and> prompt_registry s' = prompt_registry s \<and>
       checkpoint_file s' = checkpoint_file s \<and> flush_crumb s' = flush_crumb s \<and>
       cycle_marker_file s' = cycle_marker_file s \<and> loop_streak s' = loop_streak s)"
proof -
  have gate: "stop_gate e (Some m) = None \<longleftrightarrow>
      (if stop_reason e = ''checkpoint'' then (attended m = Some False \<or> end_authorized e) \<and> end_next_route e \<notin> {None, Some []}
       else case terminal_reason e of None \<Rightarrow> True
         | Some r \<Rightarrow> reason_sanctioned (parent_run m \<noteq> None) r \<or> end_authorized e)"
    by (auto simp: stop_gate_def is_attended_def is_lane_def split: option.split list.split)
  have "stop_gate e (Some m) = Some x \<Longrightarrow> x \<noteq> Ended d ck" for x d ck
    by (auto dest: stop_gate_not_EndRefused)
  then show ?thesis
    using assms gate
    by (auto simp: run_end_cases read_live_marker Let_def is_lane_def checkpoint_of_def write_run_checkpoint_def
        split: option.splits if_splits)
qed

text \<open>
  A refused end can still wipe out the debt: when an attended run asks for a checkpoint with the
  debt override but without authorization, the end is refused and the run goes on, yet its whole deny
  ledger has been acknowledged, and the next end needs no override.
\<close>

theorem refused_end_clears_debt:
  assumes "run_marker s = Content m" and "\<not> age_stale now m" and "attended m \<noteq> Some False" and "\<not> subagent w s"
    and "ack_unhardened e" and "end_reason e = Some ''checkpoint''" and "\<not> end_authorized e"
    and "parent_run m \<noteq> None \<or> efficacy_breadcrumb_present (Content m) (flush_crumb s) \<or> efficacy_skip e"
  shows "let (res, s') = run_end w e now s in
    res = CheckpointAuth \<and> run_marker s' = Content m \<and> owed_at_end now s' = 0 \<and>
    (0 < owed_at_end now s \<longrightarrow> unacked (deny_ledger s') = [])"
proof -
  have "stop_reason e = ''checkpoint''" by (simp add: stop_reason_def assms(6))
  then have gate: "stop_gate e (Some m) = Some CheckpointAuth"
    using assms(3,7) by (simp add: stop_gate_def is_attended_def)
  have "owed_at_end now (s\<lparr>run_marker := Content m, deny_ledger := ledger_at_end e now s\<rparr>) = 0"
    using assms(1,2,5) by (simp add: owed_at_end_def ledger_at_end_def read_live_marker pending_hardening_def unacked_all)
  with assms gate \<open>stop_reason e = _\<close> show ?thesis
    by (auto simp: run_end_cases read_live_marker Let_def is_lane_def ledger_at_end_def unacked_all)
qed

subsection \<open>Pause and resume\<close>

text \<open>What a checkpoint written over the live marker \<open>m\<close> restores into the marker of the next start.\<close>

definition resumed :: "int \<Rightarrow> marker \<Rightarrow> marker \<Rightarrow> marker" where
  "resumed now m m0 =
     (let m1 = restore_identity now (started_at m)
        (m0\<lparr>forward_cycles := Some (coerce_count (forward_cycles m)), meta_cycles := Some (coerce_count (meta_cycles m))\<rparr>)
      in m1\<lparr>per_feature_forward := Some (map_of_counts (per_feature_forward m)),
            per_feature_corrective := Some (map_of_counts (per_feature_corrective m)),
            last_advance_consume_count := Some 0\<rparr>)"

lemma snapshot_nonempty: "started_at m = Some r \<Longrightarrow> snapshot (Content m) \<noteq> no_continuity"
  by (simp add: snapshot_def no_continuity_def)

lemma restore_snapshot:
  assumes "started_at m = Some r" and "forward_cycles m0 = Some 0" and "meta_cycles m0 = Some 0"
    and "per_feature_forward m0 = Some []" and "per_feature_corrective m0 = Some []"
  shows "(restore_continuity now (snapshot (Content m)) m0)\<lparr>last_advance_consume_count := Some 0\<rparr> = resumed now m m0"
  using assms
  by (cases m0) (auto simp: restore_continuity_def snapshot_def resumed_def restore_identity_def coerce_count_def
      map_of_counts_def Let_def split: option.split)

lemma new_marker_fields:
  "forward_cycles (new_marker a br now) = Some 0" "meta_cycles (new_marker a br now) = Some 0"
  "per_feature_forward (new_marker a br now) = Some []" "per_feature_corrective (new_marker a br now) = Some []"
  "started_at (new_marker a br now) = Some (now div 1000000)" "max_cycles (new_marker a br now) = arg_max_cycles a"
  "last_resolution_step_key (new_marker a br now) = None" "repo_root (new_marker a br now) = Some (arg_repo_root a)"
  by (simp_all add: new_marker_def)

lemma resume_marker:
  assumes "started_at m = Some r" and "ck_continuity c = snapshot (Content m)" and "counters c \<noteq> None"
  shows "restore_checkpoint_counters (Some c) now (Content (new_marker a br now)) =
    (if operator_authorized c then (None, Content (new_marker a br now))
     else (Some (resumed now m (new_marker a br now)), Content (resumed now m (new_marker a br now))))"
  using assms snapshot_nonempty [OF assms(1)] restore_snapshot [OF assms(1), of "new_marker a br now" now]
  by (auto simp: restore_checkpoint_counters_def with_marker_live fresh_start Let_def new_marker_fields split: prod.split)

lemma paused_state:
  assumes "run_marker s = Content m" and "\<not> age_stale now m" and "fst (run_end w e now s) = Ended d (Some c)"
  shows "checkpoint_file (snd (run_end w e now s)) = Content c" and "run_marker (snd (run_end w e now s)) = Absent"
    and "prompt_registry (snd (run_end w e now s)) = Absent" and "loop_streak (snd (run_end w e now s)) = loop_streak s"
    and "ck_continuity c = snapshot (Content m)" and "counters c \<noteq> None" and "operator_authorized c = end_authorized e"
proof -
  have no: "stop_gate e (Some m) = Some x \<Longrightarrow> x \<noteq> Ended d ck" for x ck by (auto dest: stop_gate_not_EndRefused)
  have ck: "checkpoint_of e (Some m) now (Content m) = Some c" "stop_gate e (Some m) = None"
    and res: "snd (run_end w e now s) = s\<lparr>run_marker := Absent, deny_ledger := ledger_at_end e now s,
      prompt_registry := Absent, checkpoint_file := Content c, flush_crumb := Absent\<rparr>"
    using assms no by (auto simp: run_end_cases read_live_marker Let_def split: if_splits option.splits)
  show "checkpoint_file (snd (run_end w e now s)) = Content c" "run_marker (snd (run_end w e now s)) = Absent"
    "prompt_registry (snd (run_end w e now s)) = Absent" "loop_streak (snd (run_end w e now s)) = loop_streak s"
    by (simp_all add: res)
  show "ck_continuity c = snapshot (Content m)" "counters c \<noteq> None" "operator_authorized c = end_authorized e"
    using ck(1) by (auto simp: checkpoint_of_def write_run_checkpoint_def split: if_splits)
qed

lemma resumed_fields:
  "forward_cycles (resumed now m m0) = Some (coerce_count (forward_cycles m))"
  "meta_cycles (resumed now m m0) = Some (coerce_count (meta_cycles m))"
  "per_feature_forward (resumed now m m0) = Some (map_of_counts (per_feature_forward m))"
  "per_feature_corrective (resumed now m m0) = Some (map_of_counts (per_feature_corrective m))"
  "max_cycles (resumed now m m0) = max_cycles m0" "repo_root (resumed now m m0) = repo_root m0"
  "last_resolution_step_key (resumed now m m0) = last_resolution_step_key m0"
  "started_at m = Some r \<Longrightarrow> now - 1000000 * r \<le> 1000000 * marker_stale_seconds \<Longrightarrow> started_at (resumed now m m0) = Some r"
  by (auto simp: resumed_def restore_identity_def Let_def split: option.split)

lemma resumed_fresh: "\<not> age_stale now m0 \<Longrightarrow> \<not> age_stale now (resumed now m m0)"
  by (auto simp: resumed_def restore_identity_def Let_def age_stale_def started_epoch_def split: option.split)

definition rebased :: "streak_file \<Rightarrow> streak_file" where
  "rebased s = (case s of Content k \<Rightarrow> Content (k\<lparr>consume_count := Some 0\<rparr>) | _ \<Rightarrow> s)"

lemma rebaseline_fresh:
  "\<not> age_stale now m \<Longrightarrow> snd (snd (rebaseline_loop_signature Absent now (Content m) s)) = rebased s"
  by (auto simp: rebased_def rebaseline_loop_signature_def read_live_marker consumed_emission_count_def load_registry_def split: jfile.split)

lemma resume_state:
  assumes "checkpoint_file s = Content c" and "prompt_registry s = Absent" and "started_at m = Some r"
    and "ck_continuity c = snapshot (Content m)" and "counters c \<noteq> None"
    and "fst (run_start w p a br now s) = Started m0 ck"
  shows "\<exists>pr. run_marker (snd (run_start w p a br now s)) =
      Content (if operator_authorized c then new_marker (a\<lparr>arg_parent_run := pr\<rparr>) br now
               else resumed now m (new_marker (a\<lparr>arg_parent_run := pr\<rparr>) br now)) \<and>
    checkpoint_file (snd (run_start w p a br now s)) = Absent \<and> prompt_registry (snd (run_start w p a br now s)) = Absent \<and>
    loop_streak (snd (run_start w p a br now s)) = rebased (loop_streak s)"
proof -
  note r = resume_marker [OF assms(3,4,5)]
  from assms(6) obtain pr where "parse_parent_run_arg p = Some pr"
    "refuse_run_start_clobber (arg_pipeline a) now (checkpoint_file s \<noteq> Absent) (run_marker s) = None" "\<not> subagent w s"
    by (auto simp: run_start_cases split: if_splits option.splits)
  then have "snd (run_start w p a br now s) =
    s\<lparr>run_marker := Content (if operator_authorized c then new_marker (a\<lparr>arg_parent_run := pr\<rparr>) br now
               else resumed now m (new_marker (a\<lparr>arg_parent_run := pr\<rparr>) br now)), checkpoint_file := Absent,
      loop_streak := rebased (loop_streak s)\<rparr>"
    using assms(1,2)
    by (simp add: run_start_cases Let_def consume_run_checkpoint_def r rebaseline_fresh fresh_start resumed_fresh)
  then show ?thesis using assms(2) by auto
qed

text \<open>
  C29. Pausing and resuming is one run: a run that was paused by a checkpoint and is started again
  within a day of its start carries on with its identity, both cycle counters and both per-feature
  maps, under the budget of the new invocation; if the operator had authorized the stop, the next run
  starts with a new identity and zero counters instead. Either way the checkpoint is used up and the
  registry is empty.
\<close>

theorem pause_resume_continues:
  assumes "run_marker s = Content m" and "\<not> age_stale now m" and "started_at m = Some r"
    and "fst (run_end w e now s) = Ended d (Some c)"
    and "fst (run_start w' p a br later (snd (run_end w e now s))) = Started m0 ck"
    and "later - 1000000 * r \<le> 1000000 * marker_stale_seconds"
  shows "let s' = snd (run_start w' p a br later (snd (run_end w e now s))) in
    checkpoint_file s' = Absent \<and> prompt_registry s' = Absent \<and>
    (\<exists>m'. run_marker s' = Content m' \<and> max_cycles m' = arg_max_cycles a \<and>
      (if end_authorized e
       then started_at m' = Some (later div 1000000) \<and> forward_cycles m' = Some 0 \<and> meta_cycles m' = Some 0 \<and>
         per_feature_forward m' = Some []
       else started_at m' = started_at m \<and> forward_cycles m' = Some (coerce_count (forward_cycles m)) \<and>
         meta_cycles m' = Some (coerce_count (meta_cycles m)) \<and>
         map_of_counts (per_feature_forward m') = map_of_counts (per_feature_forward m) \<and>
         map_of_counts (per_feature_corrective m') = map_of_counts (per_feature_corrective m)))"
proof -
  note paused = paused_state [OF assms(1,2,4)]
  have "map_of_counts (Some x) = x" for x by (simp add: map_of_counts_def)
  with resume_state [OF paused(1,3) assms(3) paused(5,6) assms(5)] assms(3,6) paused(7)
  show ?thesis by (auto simp: Let_def new_marker_fields resumed_fields)
qed

lemma update_held:
  assumes "\<not> age_stale t m" and "same_repo (resolve v) (probe_root v) m" and "registry v = Absent"
    and "started_at m = Some r" and "last_resolution_step_key m = None"
    and "signature k = Some (dispatch_sig q)" and "streak_count k = Some n" and "streak_head k = Some (git_head v)"
    and "step_signature k = Some (step_sig q)" and "step_count k = Some j" and "streak_run k = Some r"
    and "consume_count k = Some 0"
  shows "fst (update_repeat_counts v q peek t \<lparr>marker_file = Content m, streak_file = Content k\<rparr>) = (n, j)"
proof -
  have "dispatch_oracle v (Some m) = (Some 0, Some (Some r))"
    using assms(2,3,4) by (simp add: dispatch_oracle_def consumed_emission_count_def load_registry_def)
  then show ?thesis
    using assms
    by (simp add: update_repeat_counts_def read_live_marker Let_def read_streak_def both_def scope_to_run_def
        dispatch_count_def rereads_def next_step_count_def args_advanced_def dispatch_sig_def case_prod_unfold
        resolution_reset_def consume_resolution_signal_def with_marker_live)
qed

text \<open>
  Resuming is no loop: the first probe after a pause and resume, of the same dispatch on the same
  commit, returns exactly the two counts that were on file before the pause: the re-probe of the route
  is not counted as a repeat, and a streak that was real before the pause is kept.
\<close>

theorem resume_is_no_loop:
  assumes "run_marker s = Content m" and "\<not> age_stale now m" and "started_at m = Some r"
    and "fst (run_end w e now s) = Ended d (Some c)" and "\<not> end_authorized e"
    and "fst (run_start w' p a br later (snd (run_end w e now s))) = Started m0 ck"
    and "later - 1000000 * r \<le> 1000000 * marker_stale_seconds" and "t - 1000000 * r \<le> 1000000 * marker_stale_seconds"
    and "loop_streak s = Content k" and "streak_run k = Some r"
    and "signature k = Some (dispatch_sig q)" and "streak_count k = Some n" and "streak_head k = Some (git_head v)"
    and "step_signature k = Some (step_sig q)" and "step_count k = Some j"
    and "resolve v (arg_repo_root a) = resolve v (probe_root v)"
    and "registry v = prompt_registry (snd (run_start w' p a br later (snd (run_end w e now s))))"
  shows "let s' = snd (run_start w' p a br later (snd (run_end w e now s))) in
    fst (update_repeat_counts v q peek t \<lparr>marker_file = run_marker s', streak_file = loop_streak s'\<rparr>) = (n, j)"
proof -
  note paused = paused_state [OF assms(1,2,4)]
  from resume_state [OF paused(1,3) assms(3) paused(5,6) assms(6)] assms(5) paused(4,7) assms(9) obtain pr where
    s': "run_marker (snd (run_start w' p a br later (snd (run_end w e now s)))) =
        Content (resumed later m (new_marker (a\<lparr>arg_parent_run := pr\<rparr>) br later))"
      "prompt_registry (snd (run_start w' p a br later (snd (run_end w e now s)))) = Absent"
      "loop_streak (snd (run_start w' p a br later (snd (run_end w e now s)))) = Content (k\<lparr>consume_count := Some 0\<rparr>)"
    by (auto simp: rebased_def)
  let ?m = "resumed later m (new_marker (a\<lparr>arg_parent_run := pr\<rparr>) br later)"
  have r: "started_at ?m = Some r" using assms(3,7) by (simp add: resumed_fields)
  have "same_repo (resolve v) (probe_root v) ?m"
    using assms(16) by (simp add: same_repo_def resumed_fields new_marker_fields)
  moreover have "\<not> age_stale t ?m" using assms(8) by (simp add: age_stale_def started_epoch_def r)
  ultimately show ?thesis
    using assms(10-15,17) r
    by (simp add: s' Let_def update_held resumed_fields new_marker_fields)
qed

subsection \<open>One bracket, one cycle\<close>

lemma audit_live:
  assumes "\<not> age_stale now m"
  shows "\<exists>x. snd (record_audit_obligation i k b e sm now (Content m)) = Content (m\<lparr>audit_obligation := x\<rparr>)"
proof -
  have same: "\<exists>x. m = m\<lparr>audit_obligation := x\<rparr>" by (rule exI [of _ "audit_obligation m"]) simp
  show ?thesis
    using assms by (auto simp: record_audit_obligation_def with_marker_live Let_def same split: option.split)
qed

lemma friction_live:
  "\<not> age_stale now m \<Longrightarrow> fst (snd (cycle_end_friction_check v cf now (Content m) l)) = Content m"
  by (simp add: cycle_end_friction_check_def read_live_marker Let_def split: option.split)

lemma begun:
  assumes "fst (cycle_begin w v a now s) = Begun c" and "run_marker s = Content m" and "\<not> age_stale now m"
  shows "snd (cycle_begin w v a now s) = s\<lparr>cycle_marker_file := Content c\<rparr>" and "run_started_at c = started_at m"
    and "cycle_kind c = c_kind a" and "cycle_feature c = c_feature a" and "\<not> subagent w s"
  using assms by (auto simp: cycle_begin_def guards_subagent read_live_marker write_cycle_marker_def Let_def
      split: if_splits)

definition counts_forward :: "string option \<Rightarrow> int" where
  "counts_forward k = (if k = Some ''real'' then 1 else 0)"

definition counts_meta :: "string option \<Rightarrow> int" where
  "counts_meta k = (if k = Some ''meta'' then 1 else 0)"

lemma bracket_live:
  assumes "\<not> age_stale now m"
  shows "\<exists>m'. snd (advance_cycle_bracket_counter (Some c) now (Content m)) = Content m' \<and> started_at m' = started_at m \<and>
    count_of (forward_cycles m') = count_of (forward_cycles m) + counts_forward (cycle_kind c) \<and>
    count_of (meta_cycles m') = count_of (meta_cycles m) + counts_meta (cycle_kind c)"
  using assms
  by (auto simp: advance_cycle_bracket_counter_def with_marker_live Let_def add_forward_def add_meta_def
      bump_per_feature_forward_def counts_forward_def counts_meta_def count_of_def split: option.split)

text \<open>
  One bracket is one cycle: a cycle that the orchestrator begins and ends under a live run is
  counted exactly once, as forward or as meta by its kind, is never taken for a torn bracket, and its
  marker is gone; ending it again counts nothing, finds nothing and changes nothing.
\<close>

theorem bracket_counts_once:
  assumes "env_truthy (lazy_orchestrator w)" and "run_marker s = Content m"
    and "\<not> age_stale now m" and "\<not> age_stale later m" and "\<not> age_stale again m"
    and "fst (cycle_begin w v a now s) = Begun c"
  shows "let (res, s') = cycle_end w v' later (snd (cycle_begin w v a now s)) in
    (\<exists>found. res = Closed True found \<and> (\<forall>x. found = Some x \<longrightarrow> friction_reason x \<noteq> CycleBracketBreak)) \<and>
    (\<exists>m'. run_marker s' = Content m' \<and> started_at m' = started_at m \<and>
      count_of (forward_cycles m') = count_of (forward_cycles m) + counts_forward (c_kind a) \<and>
      count_of (meta_cycles m') = count_of (meta_cycles m) + counts_meta (c_kind a)) \<and>
    cycle_marker_file s' = Absent \<and>
    cycle_end w v'' again s' = (Closed False None, s')"
proof -
  note b = begun [OF assms(6,2,3)]
  let ?e = "head_sha_snapshot (git v')"
  let ?sm = "if ?e \<noteq> None \<and> ?e \<noteq> begin_head_sha c then head_commit_subject (git v') else None"
  obtain x where x: "snd (record_audit_obligation (cycle_feature c) (cycle_sub_skill c) (begin_head_sha c) ?e ?sm later
      (Content m)) = Content (m\<lparr>audit_obligation := x\<rparr>)"
    using audit_live [OF assms(4)] by blast
  define ma where "ma = m\<lparr>audit_obligation := x\<rparr>"
  have ma: "started_at ma = started_at m" "forward_cycles ma = forward_cycles m" "meta_cycles ma = meta_cycles m"
    by (simp_all add: ma_def)
  have fresh: "\<not> age_stale later ma" using assms(4) by (simp add: age_stale_def started_epoch_def ma)
  obtain m' where m': "snd (advance_cycle_bracket_counter (Some c) later (Content ma)) = Content m'"
      "started_at m' = started_at m" "count_of (forward_cycles m') = count_of (forward_cycles m) + counts_forward (c_kind a)"
      "count_of (meta_cycles m') = count_of (meta_cycles m) + counts_meta (c_kind a)"
    using bracket_live [OF fresh, of c] ma b(3) by auto
  let ?check = "cycle_end_friction_check v' (Content c) later (Content ma) (deny_ledger s)"
  have sound: "fst ?check = Some y \<Longrightarrow> friction_reason y \<noteq> CycleBracketBreak" for y
    using b(2) ma(1)
    by (auto simp: cycle_end_friction_check_def read_cycle_marker_def read_live_marker [OF fresh] Let_def
        detect_cycle_bracket_friction_def torn_bracket_def split: if_splits option.splits)
  have end1: "cycle_end w v' later (snd (cycle_begin w v a now s)) =
    (Closed True (fst ?check), s\<lparr>cycle_marker_file := Absent, run_marker := Content m', deny_ledger := snd (snd ?check)\<rparr>)"
    unfolding b(1) using x friction_live [OF fresh, of v' "Content c" "deny_ledger s"] m'(1) assms(2)
    by (cases s) (simp add: cycle_end_def refuse_cycle_marker_mutation_if_subagent_def assms(1) read_cycle_marker_def clear_cycle_marker_def Let_def
        case_prod_unfold ma_def [symmetric])
  have end2: "cycle_end w v'' again t = (Closed False None, t)" if "run_marker t = Content m'" "cycle_marker_file t = Absent" for t
  proof -
    have "\<not> age_stale again m'" using assms(5) by (simp add: age_stale_def started_epoch_def m'(2))
    with that show ?thesis
      by (cases t) (simp add: cycle_end_def refuse_cycle_marker_mutation_if_subagent_def assms(1) read_cycle_marker_def clear_cycle_marker_def Let_def
          cycle_end_friction_check_def advance_cycle_bracket_counter_def with_marker_live)
  qed
  show ?thesis using sound m' by (auto simp: end1 end2)
qed

subsection \<open>Examples\<close>

definition orchestrator :: caller where
  "orchestrator = \<lparr>lazy_orchestrator = Some ''1'', lazy_cycle_subagent = None, session_env = None\<rparr>"

definition plain_caller :: caller where
  "plain_caller = \<lparr>lazy_orchestrator = None, lazy_cycle_subagent = None, session_env = None\<rparr>"

lemma orchestrator_truthy: "env_truthy (lazy_orchestrator orchestrator)"
proof -
  have "strip ''1'' = ''1''" by (simp add: strip_plain plain_char_def)
  then show ?thesis by (simp add: env_truthy_def orchestrator_def to_lower_def)
qed

lemma orchestrator_no_subagent: "\<not> subagent orchestrator s"
  by (simp add: subagent_def orchestrator_truthy)

definition sample_streak :: streak where
  "sample_streak = \<lparr>signature = Some (Some ''f'', Some ''plan'', None, Some ''7a''), streak_count = Some 2,
     streak_head = Some (Some ''c3''), step_signature = Some (Some ''f'', Some ''7a''), step_count = Some 3,
     consume_count = Some 4, streak_run = Some 2\<rparr>"

definition sample_state :: "bool \<Rightarrow> run_state" where
  "sample_state att =
     \<lparr>run_marker = Content ((run_at ''main'')\<lparr>attended := Some att, forward_cycles := Some 7, meta_cycles := Some 2\<rparr>),
      cycle_marker_file = Absent, checkpoint_file = Absent, prompt_registry = Absent, deny_ledger = mixed_ledger,
      flush_crumb = Absent,
      loop_streak = Content sample_streak\<rparr>"

definition sample_end :: end_args where
  "sample_end = \<lparr>end_reason = Some ''checkpoint'', ack_unhardened = True, efficacy_skip = True, end_authorized = False,
     terminal_reason = None, end_next_route = Some ''/plan''\<rparr>"

lemma sample_state_facts:
  "run_marker (sample_state att) = Content ((run_at ''main'')\<lparr>attended := Some att, forward_cycles := Some 7, meta_cycles := Some 2\<rparr>)"
  "started_at ((run_at ''main'')\<lparr>attended := Some att, forward_cycles := Some 7, meta_cycles := Some 2\<rparr>) = Some 2"
  "\<not> age_stale 4000000 ((run_at ''main'')\<lparr>attended := Some att, forward_cycles := Some 7, meta_cycles := Some 2\<rparr>)"
  "loop_streak (sample_state att) = Content sample_streak"
  by (simp_all add: sample_state_def age_stale_def started_epoch_def marker_stale_seconds_def)

lemma sample_paused: "\<exists>c. fst (run_end orchestrator sample_end 4000000 (sample_state False)) = Ended True (Some c)"
  by (simp add: run_end_cases orchestrator_no_subagent sample_state_facts read_live_marker Let_def stop_gate_def
      stop_reason_def sample_end_def is_attended_def checkpoint_of_def)

lemma sample_resumed:
  assumes "fst (run_end orchestrator sample_end 4000000 (sample_state False)) = Ended True (Some c)"
  shows "\<exists>m0 ck. fst (run_start orchestrator None sample_args ''main'' 5000000
    (snd (run_end orchestrator sample_end 4000000 (sample_state False)))) = Started m0 ck"
  using paused_state(1,2) [OF sample_state_facts(1,3) assms]
  by (simp add: run_start_cases orchestrator_no_subagent refuse_run_start_clobber_def parse_parent_run_arg_def Let_def)

theorem cycle_is_contained_witness:
  "exec_lives [(4000000, Stop plain_caller sample_end), (5000000, Start plain_caller None sample_args ''main'')]
     ((sample_state False)\<lparr>cycle_marker_file := Content sample_cycle\<rparr>) =
   (sample_state False)\<lparr>cycle_marker_file := Content sample_cycle\<rparr>"
proof -
  let ?cs = "[(4000000, Stop plain_caller sample_end), (5000000, Start plain_caller None sample_args ''main'')]"
  have "\<forall>(now, c)\<in>set ?cs. subagent (issuer c) ((sample_state False)\<lparr>cycle_marker_file := Content sample_cycle\<rparr>)"
    by (simp add: subagent_def plain_caller_def env_truthy_def read_cycle_marker_def)
  from cycle_is_contained [OF this, THEN conjunct2, THEN conjunct1] show ?thesis by simp
qed

theorem run_ends_through_gates_witness:
  "run_marker (snd (run_end orchestrator sample_end 4000000 (sample_state False))) = Absent \<and>
   run_marker (snd (run_end orchestrator sample_end 4000000 (sample_state True))) = run_marker (sample_state True)"
  using run_ends_through_gates [OF sample_state_facts(1) [of False] sample_state_facts(3), of orchestrator sample_end]
    run_ends_through_gates [OF sample_state_facts(1) [of True] sample_state_facts(3), of orchestrator sample_end]
  by (auto simp: case_prod_unfold Let_def orchestrator_no_subagent sample_end_def stop_reason_def split: if_splits)

theorem refused_end_clears_debt_witness:
  "owed_at_end 4000000 (sample_state True) = 1 \<and>
   fst (run_end orchestrator sample_end 4000000 (sample_state True)) = CheckpointAuth \<and>
   owed_at_end 4000000 (snd (run_end orchestrator sample_end 4000000 (sample_state True))) = 0"
proof -
  have "owed_at_end 4000000 (sample_state True) = 1"
    by (simp add: owed_at_end_def sample_state_facts read_live_marker pending_hardening_def raw_started_def owed_by_def)
       (simp add: sample_state_def unacked_mixed deny_at_def owed_by_def)
  with refused_end_clears_debt [OF sample_state_facts(1) [of True] sample_state_facts(3) _ orchestrator_no_subagent, of sample_end]
  show ?thesis by (simp add: case_prod_unfold Let_def sample_end_def)
qed

theorem pause_resume_continues_witness:
  "\<exists>m'. run_marker (snd (run_start orchestrator None sample_args ''main'' 5000000
      (snd (run_end orchestrator sample_end 4000000 (sample_state False))))) = Content m' \<and>
    started_at m' = Some 2 \<and> forward_cycles m' = Some 7 \<and> max_cycles m' = Some 25"
proof -
  obtain c where c: "fst (run_end orchestrator sample_end 4000000 (sample_state False)) = Ended True (Some c)"
    using sample_paused by blast
  obtain m0 ck where ck: "fst (run_start orchestrator None sample_args ''main'' 5000000
      (snd (run_end orchestrator sample_end 4000000 (sample_state False)))) = Started m0 ck"
    using sample_resumed [OF c] by blast
  show ?thesis
    using pause_resume_continues [OF sample_state_facts(1,3,2) c ck]
    by (auto simp: Let_def marker_stale_seconds_def sample_end_def sample_args_def coerce_count_def)
qed

definition resumed_env :: probe_env where
  "resumed_env = \<lparr>resolve = id, probe_root = ''/r'', git_head = Some ''c3'', registry = Absent\<rparr>"

definition resumed_probe :: probe where
  "resumed_probe = \<lparr>feature_id = Some ''f'', sub_skill = Some ''plan'', sub_skill_args = None, current_step = Some ''7a''\<rparr>"

theorem resume_is_no_loop_witness:
  "let s' = snd (run_start orchestrator None sample_args ''main'' 5000000
      (snd (run_end orchestrator sample_end 4000000 (sample_state False)))) in
    fst (update_repeat_counts resumed_env resumed_probe False 6000000
      \<lparr>marker_file = run_marker s', streak_file = loop_streak s'\<rparr>) = (2, 3)"
proof -
  obtain c where c: "fst (run_end orchestrator sample_end 4000000 (sample_state False)) = Ended True (Some c)"
    using sample_paused by blast
  obtain m0 ck where ck: "fst (run_start orchestrator None sample_args ''main'' 5000000
      (snd (run_end orchestrator sample_end 4000000 (sample_state False)))) = Started m0 ck"
    using sample_resumed [OF c] by blast
  note paused = paused_state [OF sample_state_facts(1,3) c]
  have "prompt_registry (snd (run_start orchestrator None sample_args ''main'' 5000000
      (snd (run_end orchestrator sample_end 4000000 (sample_state False))))) = Absent"
    using resume_state [OF paused(1,3) sample_state_facts(2) paused(5,6) ck] by auto
  moreover have "\<not> end_authorized sample_end" "arg_repo_root sample_args = ''/r''"
    by (simp_all add: sample_end_def sample_args_def)
  ultimately show ?thesis
    by (intro resume_is_no_loop [OF sample_state_facts(1,3,2) c _ ck _ _ sample_state_facts(4)])
       (simp_all add: marker_stale_seconds_def sample_streak_def resumed_env_def resumed_probe_def
         dispatch_sig_def step_sig_def)
qed

theorem bracket_counts_once_witness:
  "let a = \<lparr>c_feature = Some ''f'', c_nonce = Some ''n'', c_kind = Some ''meta'', c_session = None, c_run_started_at = None,
         c_head = None, c_sub_skill = None, c_sub_skill_args = None\<rparr>;
       s' = snd (cycle_end orchestrator (sample_window ''me'') 4000000
         (snd (cycle_begin orchestrator (sample_window ''me'') a 4000000 (sample_state False))))
   in \<exists>m'. run_marker s' = Content m' \<and> count_of (meta_cycles m') = 3"
proof -
  let ?a = "\<lparr>c_feature = Some ''f'', c_nonce = Some ''n'', c_kind = Some ''meta'', c_session = None, c_run_started_at = None,
         c_head = None, c_sub_skill = None, c_sub_skill_args = None\<rparr>"
  obtain c where c: "fst (cycle_begin orchestrator (sample_window ''me'') ?a 4000000 (sample_state False)) = Begun c"
    by (auto simp: cycle_begin_def guards_subagent orchestrator_no_subagent write_cycle_marker_def Let_def case_prod_unfold)
  show ?thesis
    using bracket_counts_once [OF orchestrator_truthy sample_state_facts(1,3,3,3) c, of "sample_window ''me''" "sample_window ''me''"]
    by (auto simp: case_prod_unfold Let_def counts_meta_def count_of_def)
qed

end
