(* ===== verification/Dispatch_Guard.thy ===== *)
theory Dispatch_Guard
  imports Run_Lifecycle Complex_Main
begin

text \<open>
  The dispatch guard \<^verbatim>\<open>user/scripts/lazy_guard.py\<close>: the hook that runs before every Agent dispatch and
  lets it pass only if its prompt is registered and unspent, or if one of the sanctioned exceptions
  applies; with the two registry searches of \<^verbatim>\<open>lazy_core/ledgers.py\<close> and the audit events of
  \<^verbatim>\<open>lazy_core/dispatch.py\<close> it relies on. The state is that of a run; one call reads one clock. The wording
  of a denial and the similarity ratio of \<open>difflib.SequenceMatcher\<close> are arguments.
\<close>

subsection \<open>What the hook is asked and answers\<close>

text \<open>
  An absent \<open>tool_use_id\<close> is the empty string, an absent or empty \<open>session_id\<close> is \<open>None\<close>, an absent
  \<open>tool_input\<close> is a null.
\<close>

record hook_input =
  tool_use :: string
  hook_session :: "string option"
  hook_tool_input :: json

datatype deny_reason =
    DefaultRecipe
  | HardeningCap
  | UnresolvedRef
  | TranscriptionSlip
  | Improvised "string option" "string option"

datatype pass_reason =
    Fresh string
  | ByReference string
  | Readmitted string
  | Refire string
  | GuideConsult
  | WorkerSubdispatch

text \<open>
  \<open>Silent\<close> prints nothing, and the dispatch goes on; so does \<open>FailOpen\<close>, the exception that leaves a
  breadcrumb. An allowed dispatch may carry a replacement of the tool's input.
\<close>

datatype verdict =
    Silent
  | FailOpen
  | Allowed pass_reason "json option"
  | Denied deny_reason

fun passes :: "verdict \<Rightarrow> bool" where
  "passes (Denied r) = False"
| "passes _ = True"

fun pass_nonce :: "pass_reason \<Rightarrow> string option" where
  "pass_nonce (Fresh n) = Some n"
| "pass_nonce (ByReference n) = Some n"
| "pass_nonce (Readmitted n) = Some n"
| "pass_nonce (Refire n) = Some n"
| "pass_nonce _ = None"

record guard_env =
  hashing :: hash_env
  similarity :: "string \<Rightarrow> string \<Rightarrow> rat"
  wording :: "deny_reason \<Rightarrow> string"

subsection \<open>Pieces\<close>

definition ref_token :: string where
  "ref_token = ''@@lazy-ref nonce=''"

definition lower_hex :: "char \<Rightarrow> bool" where
  "lower_hex c \<longleftrightarrow> c \<in> set ''0123456789abcdef''"

text \<open>The nonce of a prompt that is a reference and nothing else.\<close>

definition ref_nonce :: "string \<Rightarrow> string option" where
  "ref_nonce prompt =
     (let s = strip prompt; n = drop (length ref_token) s
      in if prefix ref_token s \<and> n \<noteq> [] \<and> list_all lower_hex n then Some n else None)"

definition pinned_model_update :: "json \<Rightarrow> emission \<Rightarrow> json option" where
  "pinned_model_update ti e =
     (case emission_model e of
        Some (c # r) \<Rightarrow> if jget ti ''model'' = JStr (c # r) then None else Some (jset ''model'' (JStr (c # r)) ti)
      | _ \<Rightarrow> None)"

definition find_entry_by_sha :: "string \<Rightarrow> string \<Rightarrow> registry_file \<Rightarrow> emission option" where
  "find_entry_by_sha digest tool f =
     (case (if tool = [] then None
            else find (\<lambda>e. prompt_sha e = digest \<and> consumed_by e = Some tool) (load_registry f)) of
        Some e \<Rightarrow> Some e
      | None \<Rightarrow> find (\<lambda>e. prompt_sha e = digest) (rev (load_registry f)))"

text \<open>What the registry's freshness test sees of the marker.\<close>

definition run_view :: "int \<Rightarrow> marker_file \<Rightarrow> Prompt_Registry.run_marker option" where
  "run_view now f = map_option (\<lambda>m. map_option (\<lambda>t. 1000000 * t) (started_at m)) (fst (read_run_marker None now f))"

definition suffix_superset :: "string \<Rightarrow> string \<Rightarrow> bool" where
  "suffix_superset base s \<longleftrightarrow> prefix base s \<and> length base < length s"

definition find_auto_readmit_entry ::
  "hash_env \<Rightarrow> Prompt_Registry.run_marker option \<Rightarrow> string \<Rightarrow> int \<Rightarrow> registry_file \<Rightarrow> emission option" where
  "find_auto_readmit_entry h view prompt now f =
     find (\<lambda>e. emission_class e = ''cycle'' \<and> \<not> is_consumed True e \<and> prompt_norm e \<noteq> [] \<and> fresh view now e \<and>
              suffix_superset (prompt_norm e) (normalize_prompt_for_hash (nfc h) prompt))
       (load_registry f)"

fun best_slip :: "(emission \<Rightarrow> rat) \<Rightarrow> emission option \<Rightarrow> rat \<Rightarrow> emission list \<Rightarrow> emission option" where
  "best_slip ratio best r [] = best"
| "best_slip ratio best r (e # es) =
     (if 97 / 100 \<le> ratio e \<and> r < ratio e then best_slip ratio (Some e) (ratio e) es
      else best_slip ratio best r es)"

definition find_transcription_slip_entry ::
  "guard_env \<Rightarrow> Prompt_Registry.run_marker option \<Rightarrow> string \<Rightarrow> int \<Rightarrow> registry_file \<Rightarrow> emission option" where
  "find_transcription_slip_entry v view prompt now f =
     (if view = None then None
      else best_slip (\<lambda>e. similarity v (normalize_prompt_for_hash (nfc (hashing v)) prompt) (prompt_norm e)) None 0
        (filter (\<lambda>e. emission_class e \<noteq> ''hardening'' \<and> fresh view now e \<and> prompt_norm e \<noteq> [])
          (load_registry f)))"

text \<open>An audit event is acknowledged from the start and belongs to no run.\<close>

definition append_audit_event :: "audit_event \<Rightarrow> string \<Rightarrow> int \<Rightarrow> ledger \<Rightarrow> ledger" where
  "append_audit_event ev tool now =
     append_line
       \<lparr>deny_ts = now, deny_kind = None, tool_use_id = Some tool, denied_sha12 = None,
        reason_head = None, prompt_head = None, deny_detail = None, acked = True,
        deny_run = None, acked_ts = None, ack_method = None, resolution = None, audit = Some ev\<rparr>"

definition sha12 :: "string \<Rightarrow> string" where
  "sha12 s = first_chars 12 s"

definition append_auto_readmit_event ::
  "string \<Rightarrow> string \<Rightarrow> string \<Rightarrow> string option \<Rightarrow> int \<Rightarrow> ledger \<Rightarrow> ledger" where
  "append_auto_readmit_event tool digest suffix_head item =
     append_audit_event (AutoReadmit digest (first_chars ledger_head_chars suffix_head) item) tool"

definition append_dispatch_by_reference_event ::
  "string \<Rightarrow> string \<Rightarrow> string \<Rightarrow> string option \<Rightarrow> int \<Rightarrow> ledger \<Rightarrow> ledger" where
  "append_dispatch_by_reference_event tool n digest item = append_audit_event (DispatchByReference n digest item) tool"

definition append_worker_subdispatch_event ::
  "string \<Rightarrow> string \<Rightarrow> string option \<Rightarrow> string option \<Rightarrow> int \<Rightarrow> ledger \<Rightarrow> ledger" where
  "append_worker_subdispatch_event tool digest item skill = append_audit_event (WorkerEvent digest item skill) tool"

definition append_claude_code_guide_consult_event ::
  "string \<Rightarrow> string \<Rightarrow> string option \<Rightarrow> string option \<Rightarrow> int \<Rightarrow> ledger \<Rightarrow> ledger" where
  "append_claude_code_guide_consult_event tool digest item skill = append_audit_event (GuideEvent digest item skill) tool"

subsection \<open>The outcomes\<close>

definition ledgered :: "(ledger \<Rightarrow> ledger) \<Rightarrow> run_state \<Rightarrow> run_state" where
  "ledgered f s = s\<lparr>deny_ledger := f (deny_ledger s)\<rparr>"

definition bind_marker_on_allow :: "string option \<Rightarrow> int \<Rightarrow> run_state \<Rightarrow> run_state" where
  "bind_marker_on_allow session now s =
     (case session of None \<Rightarrow> s | Some sid \<Rightarrow> s\<lparr>run_marker := snd (bind_marker_session sid now (run_marker s))\<rparr>)"

definition deny_and_ledger ::
  "guard_env \<Rightarrow> hook_input \<Rightarrow> deny_reason \<Rightarrow> string \<Rightarrow> int \<Rightarrow> run_state \<Rightarrow> verdict \<times> run_state" where
  "deny_and_ledger v hk r prompt now s =
     (Denied r, ledgered (append_deny_ledger_entry (run_marker s) (tool_use hk)
        (sha12 (prompt_sha256 (hashing v) prompt)) (wording v r) prompt now) s)"

definition deny_default ::
  "guard_env \<Rightarrow> hook_input \<Rightarrow> marker \<Rightarrow> deny_reason \<Rightarrow> string \<Rightarrow> int \<Rightarrow> run_state \<Rightarrow> verdict \<times> run_state" where
  "deny_default v hk m r prompt now s =
     (if session_id m = None then (Denied r, s) else deny_and_ledger v hk r prompt now s)"

definition by_reference ::
  "guard_env \<Rightarrow> hook_input \<Rightarrow> json \<Rightarrow> string \<Rightarrow> string \<Rightarrow> int \<Rightarrow> run_state \<Rightarrow> verdict \<times> run_state" where
  "by_reference v hk ti n prompt now s =
     (case resolve_emission_by_nonce (run_view now (run_marker s)) n now (prompt_registry s) of
        None \<Rightarrow> deny_and_ledger v hk UnresolvedRef prompt now s
      | Some e \<Rightarrow>
          let resolved = (if prompt_raw e \<noteq> [] then prompt_raw e else prompt_norm e)
          in (case consume_nonce n (Some (tool_use hk)) (prompt_registry s) of
                (False, _) \<Rightarrow> deny_and_ledger v hk UnresolvedRef prompt now s
              | (True, reg) \<Rightarrow>
                  let s1 = bind_marker_on_allow (hook_session hk) now
                        (ledgered (ack_if_hardening (emission_class e) now) (s\<lparr>prompt_registry := reg\<rparr>));
                      s2 = ledgered (append_dispatch_by_reference_event (tool_use hk) n
                        (sha12 (prompt_sha256 (hashing v) resolved)) (emission_item e) now) s1;
                      input = jset ''prompt'' (JStr resolved) ti
                  in (Allowed (ByReference n)
                        (Some (case pinned_model_update input e of None \<Rightarrow> input | Some input' \<Rightarrow> input')), s2)))"

definition fresh_dispatch :: "hook_input \<Rightarrow> json \<Rightarrow> emission \<Rightarrow> int \<Rightarrow> run_state \<Rightarrow> verdict \<times> run_state" where
  "fresh_dispatch hk ti e now s =
     (Allowed (Fresh (nonce e)) (pinned_model_update ti e),
      bind_marker_on_allow (hook_session hk) now
        (ledgered (ack_if_hardening (emission_class e) now)
          (s\<lparr>prompt_registry := snd (consume_nonce (nonce e) (Some (tool_use hk)) (prompt_registry s))\<rparr>)))"

definition try_auto_readmit ::
  "guard_env \<Rightarrow> hook_input \<Rightarrow> json \<Rightarrow> string \<Rightarrow> int \<Rightarrow> run_state \<Rightarrow> (verdict \<times> run_state) option" where
  "try_auto_readmit v hk ti prompt now s =
     (case find_auto_readmit_entry (hashing v) (run_view now (run_marker s)) prompt now (prompt_registry s) of
        None \<Rightarrow> None
      | Some e \<Rightarrow>
          (case consume_nonce (nonce e) (Some (tool_use hk)) (prompt_registry s) of
             (False, _) \<Rightarrow> None
           | (True, reg) \<Rightarrow>
               Some (Allowed (Readmitted (nonce e)) (pinned_model_update ti e),
                 bind_marker_on_allow (hook_session hk) now
                   (ledgered (append_auto_readmit_event (tool_use hk) (sha12 (prompt_sha e))
                       (drop (length (prompt_norm e)) (normalize_prompt_for_hash (nfc (hashing v)) prompt))
                       (emission_item e) now) (s\<lparr>prompt_registry := reg\<rparr>)))))"

text \<open>An entry with the hash of the prompt that is not dispatchable.\<close>

definition known_prompt ::
  "guard_env \<Rightarrow> hook_input \<Rightarrow> json \<Rightarrow> marker \<Rightarrow> emission \<Rightarrow> string \<Rightarrow> int \<Rightarrow> run_state \<Rightarrow> verdict \<times> run_state" where
  "known_prompt v hk ti m e prompt now s =
     (if is_consumed False e \<and> consumed_by e = Some (tool_use hk) then
        (Allowed (Refire (nonce e)) (pinned_model_update ti e), bind_marker_on_allow (hook_session hk) now s)
      else if emission_class e = ''hardening'' then deny_and_ledger v hk HardeningCap prompt now s
      else deny_default v hk m DefaultRecipe prompt now s)"

definition try_claude_code_guide_consult ::
  "guard_env \<Rightarrow> hook_input \<Rightarrow> json \<Rightarrow> marker \<Rightarrow> string \<Rightarrow> int \<Rightarrow> run_state \<Rightarrow> (verdict \<times> run_state) option" where
  "try_claude_code_guide_consult v hk ti m prompt now s =
     (if jget ti ''subagent_type'' \<noteq> JStr ''claude-code-guide'' \<or> cloud m \<or> session_id m = None then None
      else let c = read_cycle_marker (cycle_marker_file s)
           in Some (Allowed GuideConsult None,
                bind_marker_on_allow (hook_session hk) now
                  (ledgered (append_claude_code_guide_consult_event (tool_use hk)
                     (sha12 (prompt_sha256 (hashing v) prompt)) (Option.bind c cycle_feature) (Option.bind c cycle_sub_skill) now) s)))"

definition try_worker_subdispatch ::
  "guard_env \<Rightarrow> hook_input \<Rightarrow> marker \<Rightarrow> string \<Rightarrow> int \<Rightarrow> run_state \<Rightarrow> (verdict \<times> run_state) option" where
  "try_worker_subdispatch v hk m prompt now s =
     (if cloud m \<or> session_id m = None then None
      else case read_cycle_marker (cycle_marker_file s) of
             None \<Rightarrow> None
           | Some c \<Rightarrow>
               if \<not> subagent_model c then None
               else if (case cycle_nonce c of None \<Rightarrow> False | Some n \<Rightarrow> emission_consumed_by_nonce n (prompt_registry s))
               then Some (Allowed WorkerSubdispatch None,
                      ledgered (append_worker_subdispatch_event (tool_use hk)
                        (sha12 (prompt_sha256 (hashing v) prompt)) (cycle_feature c) (cycle_sub_skill c) now) s)
               else Some (deny_default v hk m (Improvised (cycle_sub_skill c) (cycle_feature c)) prompt now s))"

definition unknown_prompt ::
  "guard_env \<Rightarrow> hook_input \<Rightarrow> json \<Rightarrow> marker \<Rightarrow> string \<Rightarrow> int \<Rightarrow> run_state \<Rightarrow> verdict \<times> run_state" where
  "unknown_prompt v hk ti m prompt now s =
     (case try_claude_code_guide_consult v hk ti m prompt now s of
        Some r \<Rightarrow> r
      | None \<Rightarrow>
          (case try_worker_subdispatch v hk m prompt now s of
             Some r \<Rightarrow> r
           | None \<Rightarrow>
               if find_transcription_slip_entry v (run_view now (run_marker s)) prompt now (prompt_registry s) \<noteq> None
               then (Denied TranscriptionSlip, s)
               else deny_default v hk m DefaultRecipe prompt now s))"

definition by_hash ::
  "guard_env \<Rightarrow> hook_input \<Rightarrow> json \<Rightarrow> marker \<Rightarrow> string \<Rightarrow> int \<Rightarrow> run_state \<Rightarrow> verdict \<times> run_state" where
  "by_hash v hk ti m prompt now s =
     (case lookup_emission (hashing v) (run_view now (run_marker s)) prompt now (prompt_registry s) of
        Some e \<Rightarrow> fresh_dispatch hk ti e now s
      | None \<Rightarrow>
          (case try_auto_readmit v hk ti prompt now s of
             Some r \<Rightarrow> r
           | None \<Rightarrow>
               (case find_entry_by_sha (prompt_sha256 (hashing v) prompt) (tool_use hk) (prompt_registry s) of
                  Some e \<Rightarrow> known_prompt v hk ti m e prompt now s
                | None \<Rightarrow> unknown_prompt v hk ti m prompt now s)))"

definition guard_prompt ::
  "guard_env \<Rightarrow> hook_input \<Rightarrow> json \<Rightarrow> string \<Rightarrow> int \<Rightarrow> run_state \<Rightarrow> verdict \<times> run_state" where
  "guard_prompt v hk ti prompt now s =
     (case read_run_marker (hook_session hk) now (run_marker s) of
        (None, f) \<Rightarrow> (if ref_nonce prompt = None then Silent else Denied UnresolvedRef, s\<lparr>run_marker := f\<rparr>)
      | (Some m, f) \<Rightarrow>
          if prompt_registry s = Corrupt then (FailOpen, s\<lparr>run_marker := f\<rparr>)
          else (case ref_nonce prompt of
                  Some n \<Rightarrow> by_reference v hk ti n prompt now (s\<lparr>run_marker := f\<rparr>)
                | None \<Rightarrow> by_hash v hk ti m prompt now (s\<lparr>run_marker := f\<rparr>)))"

text \<open>\<open>"prompt" in tool_input\<close>; \<open>None\<close> is a type error.\<close>

fun holds_prompt :: "json \<Rightarrow> bool option" where
  "holds_prompt (JObj d) = Some (dhas d ''prompt'')"
| "holds_prompt (JArr xs) = Some (JStr ''prompt'' \<in> set xs)"
| "holds_prompt (JStr s) = Some (sublist ''prompt'' s)"
| "holds_prompt _ = None"

definition guard :: "guard_env \<Rightarrow> hook_input \<Rightarrow> int \<Rightarrow> run_state \<Rightarrow> verdict \<times> run_state" where
  "guard v hk now s =
     (let ti = (if truthy (hook_tool_input hk) then hook_tool_input hk else JObj [])
      in case holds_prompt ti of
           None \<Rightarrow> (FailOpen, s)
         | Some False \<Rightarrow> (Silent, s)
         | Some True \<Rightarrow> (case (ti, jget ti ''prompt'') of
                           (JObj d, JStr prompt) \<Rightarrow> guard_prompt v hk ti prompt now s
                         | _ \<Rightarrow> (FailOpen, s)))"

subsection \<open>What one call does to the registry\<close>

definition spends :: "string \<Rightarrow> string \<Rightarrow> registry_file \<Rightarrow> registry_file \<Rightarrow> bool" where
  "spends n tool f f' \<longleftrightarrow> (\<exists>es. consume_loop n (Some tool) (load_registry f) = Some es \<and> f' = save_registry es)"

definition held_by :: "string \<Rightarrow> string \<Rightarrow> registry_file \<Rightarrow> bool" where
  "held_by n tool f \<longleftrightarrow>
     (\<exists>e\<in>set (load_registry f). nonce e = n \<and> consumed e = Some True \<and> consumed_by e = Some tool)"

fun registry_effect :: "string \<Rightarrow> registry_file \<Rightarrow> verdict \<Rightarrow> registry_file \<Rightarrow> bool" where
  "registry_effect tool f (Allowed (Fresh n) i) f' = spends n tool f f'"
| "registry_effect tool f (Allowed (ByReference n) i) f' = spends n tool f f'"
| "registry_effect tool f (Allowed (Readmitted n) i) f' = spends n tool f f'"
| "registry_effect tool f (Allowed (Refire n) i) f' = (held_by n tool f \<and> f' = f)"
| "registry_effect tool f vd f' = (f' = f)"

lemma consume_nonce_True: "consume_nonce n (Some tool) f = (True, f') \<Longrightarrow> spends n tool f f'"
  by (auto simp: spends_def elim: consume_cases)

lemma consume_loop_succeeds:
  "distinct (map nonce es) \<Longrightarrow> e \<in> set es \<Longrightarrow> \<not> is_consumed False e \<Longrightarrow> \<exists>es'. consume_loop (nonce e) c es = Some es'"
  by (induction es) (auto simp: image_iff)

lemma bind_registry [simp]:
  "prompt_registry (bind_marker_on_allow session now s) = prompt_registry s"
  "deny_ledger (bind_marker_on_allow session now s) = deny_ledger s"
  "cycle_marker_file (bind_marker_on_allow session now s) = cycle_marker_file s"
  by (simp_all add: bind_marker_on_allow_def split: option.split)

lemma ledgered_simps [simp]:
  "prompt_registry (ledgered f s) = prompt_registry s"
  "run_marker (ledgered f s) = run_marker s"
  "deny_ledger (ledgered f s) = f (deny_ledger s)"
  by (simp_all add: ledgered_def)

lemma deny_registry [simp]:
  "registry_effect tool f (fst (deny_and_ledger v hk r prompt now s)) f' \<longleftrightarrow> f' = f"
  "registry_effect tool f (fst (deny_default v hk m r prompt now s)) f' \<longleftrightarrow> f' = f"
  "prompt_registry (snd (deny_and_ledger v hk r prompt now s)) = prompt_registry s"
  "prompt_registry (snd (deny_default v hk m r prompt now s)) = prompt_registry s"
  by (simp_all add: deny_default_def deny_and_ledger_def)

lemma by_reference_registry:
  "registry_effect (tool_use hk) (prompt_registry s) (fst (by_reference v hk ti n prompt now s))
     (prompt_registry (snd (by_reference v hk ti n prompt now s)))"
  by (auto simp: by_reference_def Let_def consume_nonce_True split: option.split prod.split bool.split)

lemma fresh_dispatch_registry:
  assumes "distinct (map nonce (load_registry (prompt_registry s)))"
    and "lookup_emission h view prompt now (prompt_registry s) = Some e"
  shows "registry_effect (tool_use hk) (prompt_registry s) (fst (fresh_dispatch hk ti e now s))
     (prompt_registry (snd (fresh_dispatch hk ti e now s)))"
proof -
  have "e \<in> set (load_registry (prompt_registry s))" "\<not> is_consumed False e"
    using lookup_loop_Some assms(2) by (fastforce simp: lookup_emission_def is_consumed_def split: option.splits)+
  then obtain es where "consume_loop (nonce e) (Some (tool_use hk)) (load_registry (prompt_registry s)) = Some es"
    using consume_loop_succeeds [OF assms(1)] by blast
  then show ?thesis
    by (simp add: fresh_dispatch_def spends_def consume_nonce_def)
qed

lemma find_entry_mem: "find_entry_by_sha d tool f = Some e \<Longrightarrow> e \<in> set (load_registry f) \<and> prompt_sha e = d"
  by (auto simp: find_entry_by_sha_def split: if_splits option.splits dest!: find_SomeD)

lemma known_prompt_registry:
  "e \<in> set (load_registry (prompt_registry s)) \<Longrightarrow>
    registry_effect (tool_use hk) (prompt_registry s) (fst (known_prompt v hk ti m e prompt now s))
     (prompt_registry (snd (known_prompt v hk ti m e prompt now s)))"
  by (auto simp: known_prompt_def held_by_def is_consumed_def split: option.splits)

lemma unknown_prompt_registry:
  "registry_effect (tool_use hk) (prompt_registry s) (fst (unknown_prompt v hk ti m prompt now s))
     (prompt_registry (snd (unknown_prompt v hk ti m prompt now s)))"
  by (auto simp: unknown_prompt_def try_claude_code_guide_consult_def try_worker_subdispatch_def Let_def
      deny_default_def deny_and_ledger_def split: option.split)

lemma try_auto_readmit_registry:
  "try_auto_readmit v hk ti prompt now s = Some r \<Longrightarrow>
    registry_effect (tool_use hk) (prompt_registry s) (fst r) (prompt_registry (snd r))"
  by (auto simp: try_auto_readmit_def consume_nonce_True split: option.splits prod.splits bool.splits)

lemma guard_registry:
  assumes "distinct (map nonce (load_registry (prompt_registry s)))"
  shows "registry_effect (tool_use hk) (prompt_registry s) (fst (guard v hk now s)) (prompt_registry (snd (guard v hk now s)))"
proof -
  have "registry_effect (tool_use hk) (prompt_registry s) (fst (by_hash v hk ti m p now s'))
      (prompt_registry (snd (by_hash v hk ti m p now s')))"
    if "prompt_registry s' = prompt_registry s" for ti m p s'
    using fresh_dispatch_registry [of s'] try_auto_readmit_registry [of v hk ti p now s']
      known_prompt_registry [of _ s'] unknown_prompt_registry [of hk s'] assms that
    by (auto simp: by_hash_def split: option.split dest: find_entry_mem)
  moreover have "registry_effect (tool_use hk) (prompt_registry s) (fst (by_reference v hk ti n p now s'))
      (prompt_registry (snd (by_reference v hk ti n p now s')))"
    if "prompt_registry s' = prompt_registry s" for ti n p s'
    using by_reference_registry [of hk s'] that by simp
  ultimately have "registry_effect (tool_use hk) (prompt_registry s) (fst (guard_prompt v hk ti p now s))
      (prompt_registry (snd (guard_prompt v hk ti p now s)))" for ti p
    by (auto simp: guard_prompt_def split: option.split prod.split)
  then show ?thesis
    by (auto simp: guard_def Let_def split: option.split json.split bool.split)
qed

subsection \<open>A guarded dispatch under a live run\<close>

definition asks :: "hook_input \<Rightarrow> string \<Rightarrow> bool" where
  "asks hk p \<longleftrightarrow> is_obj (hook_tool_input hk) \<and> jget (hook_tool_input hk) ''prompt'' = JStr p"

text \<open>The run is alive and not another session's.\<close>

definition armed :: "hook_input \<Rightarrow> int \<Rightarrow> run_state \<Rightarrow> marker \<Rightarrow> bool" where
  "armed hk now s m \<longleftrightarrow> fst (read_run_marker (hook_session hk) now (run_marker s)) = Some m \<and> prompt_registry s \<noteq> Corrupt"

lemma guard_asks: "asks hk p \<Longrightarrow> guard v hk now s = guard_prompt v hk (hook_tool_input hk) p now s"
  by (cases "hook_tool_input hk") (auto simp: asks_def guard_def jget_def split: option.splits)

lemma armedD:
  assumes "armed hk now s m"
  shows "run_marker s = Content m" "\<not> age_stale now m" "read_run_marker (hook_session hk) now (run_marker s) = (Some m, Content m)"
    "run_view now (run_marker s) = Some (map_option (\<lambda>t. 1000000 * t) (started_at m))"
    "s\<lparr>run_marker := Content m\<rparr> = s"
  using assms by (auto simp: armed_def read_run_marker_def run_view_def split: jfile.splits if_splits option.splits)

lemma guard_armed:
  assumes "armed hk now s m" and "asks hk p"
  shows "guard v hk now s =
    (case ref_nonce p of
       Some n \<Rightarrow> by_reference v hk (hook_tool_input hk) n p now s
     | None \<Rightarrow> by_hash v hk (hook_tool_input hk) m p now s)"
proof -
  have "guard v hk now s =
    (case ref_nonce p of
       Some n \<Rightarrow> by_reference v hk (hook_tool_input hk) n p now (s\<lparr>run_marker := Content m\<rparr>)
     | None \<Rightarrow> by_hash v hk (hook_tool_input hk) m p now (s\<lparr>run_marker := Content m\<rparr>))"
    using armedD(3) [OF assms(1)] assms by (simp add: guard_asks guard_prompt_def armed_def)
  then show ?thesis unfolding armedD(5) [OF assms(1)] .
qed

lemma fresh_iff:
  "fresh (Some start) now e \<longleftrightarrow> now - emitted e \<le> 1800 * 1000000 \<and> (\<forall>t. start = Some t \<longrightarrow> t \<le> emitted e)"
  by (auto simp: fresh_def registry_ttl_def run_started_epoch_def split: option.split)

text \<open>An entry that a dispatch of this run may still use.\<close>

definition unspent :: "marker \<Rightarrow> int \<Rightarrow> emission \<Rightarrow> bool" where
  "unspent m now e \<longleftrightarrow> consumed e = Some False \<and> now - emitted e \<le> 1800 * 1000000 \<and>
     (\<forall>t. started_at m = Some t \<longrightarrow> 1000000 * t \<le> emitted e)"

lemma unspent_iff:
  "unspent m now e \<longleftrightarrow> \<not> is_consumed True e \<and> fresh (Some (map_option (\<lambda>t. 1000000 * t) (started_at m))) now e"
  by (auto simp: unspent_def is_consumed_def fresh_iff split: option.split)

lemma find_None_set: "find P xs = None \<longleftrightarrow> (\<forall>x\<in>set xs. \<not> P x)"
  by (auto simp: find_None_iff)

lemma lookup_loop_None:
  "lookup_loop d view now es = None \<longleftrightarrow> (\<forall>e\<in>set es. \<not> (prompt_sha e = d \<and> \<not> is_consumed True e \<and> fresh view now e))"
  by (induction es) auto

text \<open>The prompts that are sanctioned for their own sake.\<close>

definition consultation :: "hook_input \<Rightarrow> marker \<Rightarrow> bool" where
  "consultation hk m \<longleftrightarrow> jget (hook_tool_input hk) ''subagent_type'' = JStr ''claude-code-guide'' \<and>
     \<not> cloud m \<and> session_id m \<noteq> None"

definition worker_in_flight :: "marker \<Rightarrow> run_state \<Rightarrow> bool" where
  "worker_in_flight m s \<longleftrightarrow> \<not> cloud m \<and> session_id m \<noteq> None \<and>
     (\<exists>c n. cycle_marker_file s = Content c \<and> subagent_model c \<and> cycle_nonce c = Some n \<and>
            emission_consumed_by_nonce n (prompt_registry s))"

lemma unknown_passes:
  "passes (fst (unknown_prompt v hk (hook_tool_input hk) m p now s)) \<longleftrightarrow> consultation hk m \<or> worker_in_flight m s"
proof (cases "cycle_marker_file s")
  case (Content c)
  then show ?thesis
    by (cases "cycle_nonce c")
       (auto simp: unknown_prompt_def try_claude_code_guide_consult_def try_worker_subdispatch_def consultation_def
        worker_in_flight_def deny_default_def deny_and_ledger_def Let_def read_cycle_marker_def)
qed (auto simp: unknown_prompt_def try_claude_code_guide_consult_def try_worker_subdispatch_def consultation_def
        worker_in_flight_def deny_default_def deny_and_ledger_def Let_def read_cycle_marker_def)

lemma known_passes:
  "passes (fst (known_prompt v hk ti m e p now s)) \<longleftrightarrow> is_consumed False e \<and> consumed_by e = Some (tool_use hk)"
  by (simp add: known_prompt_def deny_default_def deny_and_ledger_def)

lemma by_reference_passes:
  assumes "armed hk now s m" and "distinct (map nonce (load_registry (prompt_registry s)))"
  shows "passes (fst (by_reference v hk ti n p now s)) \<longleftrightarrow>
    (\<exists>e\<in>set (load_registry (prompt_registry s)). nonce e = n \<and> unspent m now e)"
proof -
  let ?es = "load_registry (prompt_registry s)"
  have view: "run_view now (run_marker s) = Some (map_option (\<lambda>t. 1000000 * t) (started_at m))"
    using armedD [OF assms(1)] by simp
  show ?thesis
  proof (cases "find (\<lambda>e. nonce e = n) ?es")
    case None
    then have "\<forall>e\<in>set ?es. nonce e \<noteq> n" by (simp add: find_None_set)
    with None show ?thesis
      by (auto simp: by_reference_def resolve_emission_by_nonce_def deny_and_ledger_def)
  next
    case (Some e)
    then have e: "e \<in> set ?es" "nonce e = n" by (auto dest: find_SomeD)
    then have only: "(\<exists>x\<in>set ?es. nonce x = n \<and> unspent m now x) \<longleftrightarrow> unspent m now e"
      using distinct_nonce_eq [OF assms(2)] by blast
    have "\<exists>es'. consume_loop n (Some (tool_use hk)) ?es = Some es'" if "unspent m now e"
      using consume_loop_succeeds [OF assms(2) e(1)] that e(2) by (auto simp: unspent_def is_consumed_def)
    then show ?thesis unfolding only
      by (auto simp: by_reference_def resolve_emission_by_nonce_def Some view unspent_iff deny_and_ledger_def
          consume_nonce_def Let_def)
  qed
qed

lemma by_hash_passes:
  assumes "armed hk now s m" and "distinct (map nonce (load_registry (prompt_registry s)))"
    and es_def: "es = load_registry (prompt_registry s)" and d_def: "d = prompt_sha256 (hashing v) p"
  shows "passes (fst (by_hash v hk (hook_tool_input hk) m p now s)) \<longleftrightarrow>
    (\<exists>e\<in>set es. unspent m now e \<and> (prompt_sha e = d \<or> emission_class e = ''cycle'' \<and> prompt_norm e \<noteq> [] \<and>
       suffix_superset (prompt_norm e) (normalize_prompt_for_hash (nfc (hashing v)) p))) \<or>
    (case find_entry_by_sha d (tool_use hk) (prompt_registry s) of
       Some e \<Rightarrow> is_consumed False e \<and> consumed_by e = Some (tool_use hk)
     | None \<Rightarrow> consultation hk m \<or> worker_in_flight m s)"
proof -
  have view: "run_view now (run_marker s) = Some (map_option (\<lambda>t. 1000000 * t) (started_at m))"
    using armedD [OF assms(1)] by simp
  have look: "lookup_emission (hashing v) (run_view now (run_marker s)) p now (prompt_registry s) = None \<longleftrightarrow>
      (\<forall>e\<in>set es. \<not> (prompt_sha e = d \<and> unspent m now e))"
    unfolding view lookup_emission_def lookup_loop_None es_def d_def unspent_iff by auto
  have readmit: "try_auto_readmit v hk (hook_tool_input hk) p now s = None \<longleftrightarrow>
      (\<forall>e\<in>set es. \<not> (unspent m now e \<and> emission_class e = ''cycle'' \<and> prompt_norm e \<noteq> [] \<and>
         suffix_superset (prompt_norm e) (normalize_prompt_for_hash (nfc (hashing v)) p)))"
  proof (cases "find_auto_readmit_entry (hashing v) (run_view now (run_marker s)) p now (prompt_registry s)")
    case None
    then have "\<forall>e\<in>set es. \<not> (unspent m now e \<and> emission_class e = ''cycle'' \<and> prompt_norm e \<noteq> [] \<and>
         suffix_superset (prompt_norm e) (normalize_prompt_for_hash (nfc (hashing v)) p))"
      by (auto simp: find_auto_readmit_entry_def view find_None_set es_def unspent_iff)
    with None show ?thesis by (simp add: try_auto_readmit_def)
  next
    case (Some e)
    then have e: "e \<in> set es" "unspent m now e" "emission_class e = ''cycle''" "prompt_norm e \<noteq> []"
      "suffix_superset (prompt_norm e) (normalize_prompt_for_hash (nfc (hashing v)) p)"
      by (auto simp: find_auto_readmit_entry_def view unspent_iff es_def dest!: find_SomeD)
    then obtain es' where "consume_loop (nonce e) (Some (tool_use hk)) (load_registry (prompt_registry s)) = Some es'"
      using consume_loop_succeeds [OF assms(2), of e] by (auto simp: unspent_def is_consumed_def es_def)
    with Some e show ?thesis by (auto simp: try_auto_readmit_def consume_nonce_def)
  qed
  have pass: "passes (fst r)" if "try_auto_readmit v hk (hook_tool_input hk) p now s = Some r" for r
    using that by (auto simp: try_auto_readmit_def split: option.splits prod.splits bool.splits)
  show ?thesis
  proof (cases "lookup_emission (hashing v) (run_view now (run_marker s)) p now (prompt_registry s)")
    case (Some e)
    with look show ?thesis by (auto simp: by_hash_def fresh_dispatch_def)
  next
    case None
    note l = None
    show ?thesis
    proof (cases "try_auto_readmit v hk (hook_tool_input hk) p now s")
      case None
      with l look readmit show ?thesis
        by (auto simp: by_hash_def known_passes unknown_passes d_def [symmetric] split: option.split)
    next
      case (Some r)
      with pass [OF Some] l readmit show ?thesis by (auto simp: by_hash_def)
    qed
  qed
qed

text \<open>
  C26. The guard decides by the registry: while a run is alive for the caller and the registry readable, a
  dispatch passes exactly if it is a bare reference to an unspent emission of this run, or is no
  reference and repeats an unspent emission, extends an unspent cycle prompt, fires again for the
  \<open>tool_use_id\<close> that consumed the emission, or has a prompt that was never emitted but is a sanctioned
  consultation or comes from inside the worker in flight. Everything else is denied.
\<close>

theorem guard_decides:
  assumes "armed hk now s m" and "asks hk p" and "registry_inv (issued, prompt_registry s)"
  shows "passes (fst (guard v hk now s)) \<longleftrightarrow>
    (let es = load_registry (prompt_registry s); d = prompt_sha256 (hashing v) p in
     case ref_nonce p of
       Some n \<Rightarrow> \<exists>e\<in>set es. nonce e = n \<and> unspent m now e
     | None \<Rightarrow>
         (\<exists>e\<in>set es. unspent m now e \<and>
            (prompt_sha e = d \<or> emission_class e = ''cycle'' \<and> prompt_norm e \<noteq> [] \<and>
             suffix_superset (prompt_norm e) (normalize_prompt_for_hash (nfc (hashing v)) p))) \<or>
         (case find_entry_by_sha d (tool_use hk) (prompt_registry s) of
            Some e \<Rightarrow> is_consumed False e \<and> consumed_by e = Some (tool_use hk)
          | None \<Rightarrow> consultation hk m \<or> worker_in_flight m s))"
proof -
  have d: "distinct (map nonce (load_registry (prompt_registry s)))"
    using assms(3) by (simp add: registry_inv_def)
  show ?thesis
    unfolding guard_armed [OF assms(1,2)] Let_def
    by (simp add: by_reference_passes [OF assms(1) d] by_hash_passes [OF assms(1) d refl refl] split: option.split)
qed

definition plain_guard :: guard_env where
  "plain_guard = \<lparr>hashing = plain_hash, similarity = (\<lambda>a b. 0), wording = (\<lambda>r. ''no'')\<rparr>"

definition sample_ask :: "string \<Rightarrow> string \<Rightarrow> hook_input" where
  "sample_ask tool p = \<lparr>tool_use = tool, hook_session = Some ''me'', hook_tool_input = JObj [(''prompt'', JStr p)]\<rparr>"

lemma ref_nonce_samples [simp]: "ref_nonce ''go'' = None" "ref_nonce ''note'' = None"
  by (simp_all add: ref_nonce_def ref_token_def strip_plain plain_char_def)

lemmas guard_eval = guard_def guard_prompt_def by_hash_def fresh_dispatch_def known_prompt_def
  deny_default_def deny_and_ledger_def bind_marker_on_allow_def bind_marker_session_def with_marker_def
  run_view_def find_entry_by_sha_def lookup_emission_def consume_nonce_def load_registry_def save_registry_def
  is_consumed_def fresh_def registry_ttl_def run_started_epoch_def emitted_def

lemma age_stale_session [simp]: "age_stale now (m\<lparr>session_id := x\<rparr>) = age_stale now m"
  by (simp add: age_stale_def started_epoch_def)

lemma guarded_marker_facts [simp]:
  "\<not> age_stale 4000000 ((run_at br)\<lparr>attended := a, forward_cycles := n, meta_cycles := k\<rparr>)"
  "session_id (run_at br) = None"
  by (simp_all add: run_at_def new_marker_def age_stale_def started_epoch_def marker_stale_seconds_def sample_args_def)

lemma sample_ask_simps [simp]:
  "tool_use (sample_ask tool p) = tool" "hook_session (sample_ask tool p) = Some ''me''"
  "hook_tool_input (sample_ask tool p) = JObj [(''prompt'', JStr p)]"
  by (simp_all add: sample_ask_def)

definition emitted_state :: run_state where
  "emitted_state = (sample_state False)\<lparr>prompt_registry := Content [new_emission plain_hash ''go'' ''cycle'' None 3000000 (Some ''opus'') ''a1'']\<rparr>"

lemma armed_samples:
  "armed (sample_ask tool p) 4000000 emitted_state
     ((run_at ''main'')\<lparr>attended := Some False, forward_cycles := Some 7, meta_cycles := Some 2\<rparr>)"
  "asks (sample_ask tool p) p"
  "registry_inv ({''a1''}, prompt_registry emitted_state)"
  by (simp_all add: armed_def emitted_state_def sample_state_def read_run_marker_def asks_def jget_def
      registry_inv_def load_registry_def)

theorem guard_decides_witness:
  "passes (fst (guard plain_guard (sample_ask ''t1'' ''go'') 4000000 emitted_state))"
  unfolding guard_decides [OF armed_samples]
  by (simp add: Let_def emitted_state_def load_registry_def plain_guard_def unspent_def new_emission_def emitted_def)

subsection \<open>Debt and ownership\<close>

text \<open>Which denials are booked: all but slips under a bound run, and the two that always are.\<close>

definition booked :: "marker \<Rightarrow> deny_reason \<Rightarrow> bool" where
  "booked m r \<longleftrightarrow> r \<in> {HardeningCap, UnresolvedRef} \<or> r \<noteq> TranscriptionSlip \<and> session_id m \<noteq> None"

definition paid :: "emission \<Rightarrow> 'a list \<Rightarrow> 'a list" where
  "paid e us = (if emission_class e = ''hardening'' then tl us else us)"

fun debt_effect :: "marker \<Rightarrow> emission list \<Rightarrow> ledger \<Rightarrow> verdict \<Rightarrow> ledger \<Rightarrow> bool" where
  "debt_effect m es l (Denied r) l' =
     (\<exists>new. unacked l' = unacked l @ new \<and> length new = (if booked m r then 1 else 0) \<and> (\<forall>e\<in>set new. deny_run e = started_at m))"
| "debt_effect m es l (Allowed (Fresh n) i) l' = (\<exists>e\<in>set es. nonce e = n \<and> unacked l' = paid e (unacked l))"
| "debt_effect m es l (Allowed (ByReference n) i) l' = (\<exists>e\<in>set es. nonce e = n \<and> unacked l' = paid e (unacked l))"
| "debt_effect m es l vd l' = (unacked l' = unacked l)"

lemma unacked_append:
  "\<not> torn l \<Longrightarrow> unacked (append_line e l) = unacked l @ (if acked e then [] else [e])"
  by (simp add: unacked_def read_deny_ledger_def read_lines_def append_line_def)

lemma unacked_audit: "\<not> torn l \<Longrightarrow> unacked (append_audit_event ev tool now l) = unacked l"
  by (simp add: append_audit_event_def unacked_append)

lemma ack_if_hardening_facts:
  "unacked (ack_if_hardening (emission_class e) now l) = paid e (unacked l)"
  "\<not> torn l \<Longrightarrow> \<not> torn (ack_if_hardening cls now l)"
  by (simp_all add: ack_if_hardening_def unacked_oldest paid_def)
     (simp add: ack_oldest_deny_def Let_def rewrite_ledger_def split: option.split)

lemmas audit_appends = append_auto_readmit_event_def append_dispatch_by_reference_event_def
  append_worker_subdispatch_event_def append_claude_code_guide_consult_event_def

lemma deny_debt:
  assumes "run_marker s = Content m" and "\<not> torn (deny_ledger s)"
  shows "r \<in> {HardeningCap, UnresolvedRef} \<Longrightarrow>
      debt_effect m es (deny_ledger s) (fst (deny_and_ledger v hk r p now s)) (deny_ledger (snd (deny_and_ledger v hk r p now s)))"
    and "r \<notin> {HardeningCap, UnresolvedRef, TranscriptionSlip} \<Longrightarrow>
      debt_effect m es (deny_ledger s) (fst (deny_default v hk m r p now s)) (deny_ledger (snd (deny_default v hk m r p now s)))"
  using assms
  by (auto simp: deny_default_def deny_and_ledger_def append_deny_ledger_entry_def unacked_append booked_def raw_started_def)

lemma by_reference_debt:
  assumes "run_marker s = Content m" and "\<not> torn (deny_ledger s)" and "es = load_registry (prompt_registry s)"
  shows "debt_effect m es (deny_ledger s) (fst (by_reference v hk ti n p now s)) (deny_ledger (snd (by_reference v hk ti n p now s)))"
proof (cases "resolve_emission_by_nonce (run_view now (run_marker s)) n now (prompt_registry s)")
  case None
  then show ?thesis using deny_debt(1) [OF assms(1,2)] by (simp add: by_reference_def)
next
  case (Some e)
  then have "e \<in> set es" "nonce e = n"
    using assms(3) by (auto simp: resolve_emission_by_nonce_def split: option.splits if_splits dest!: find_SomeD)
  with Some show ?thesis using deny_debt(1) [OF assms(1,2)] assms(2)
    by (auto simp: by_reference_def Let_def audit_appends unacked_audit ack_if_hardening_facts split: prod.split bool.split)
qed

lemma known_debt:
  assumes "run_marker s = Content m" and "\<not> torn (deny_ledger s)"
  shows "debt_effect m es (deny_ledger s) (fst (known_prompt v hk ti m e p now s)) (deny_ledger (snd (known_prompt v hk ti m e p now s)))"
  using deny_debt [OF assms] by (simp add: known_prompt_def)

lemma unknown_debt:
  assumes "run_marker s = Content m" and "\<not> torn (deny_ledger s)"
  shows "debt_effect m es (deny_ledger s) (fst (unknown_prompt v hk ti m p now s)) (deny_ledger (snd (unknown_prompt v hk ti m p now s)))"
proof -
  note deny = deny_debt(2) [OF assms]
  have "debt_effect m es (deny_ledger s) (fst r) (deny_ledger (snd r))" if "try_worker_subdispatch v hk m p now s = Some r" for r
    using that assms(2) deny [of "Improvised a b" for a b]
    by (auto simp: try_worker_subdispatch_def audit_appends unacked_audit split: option.splits if_splits)
  moreover have "debt_effect m es (deny_ledger s) (fst r) (deny_ledger (snd r))"
    if "try_claude_code_guide_consult v hk ti m p now s = Some r" for r
    using that assms(2) by (auto simp: try_claude_code_guide_consult_def Let_def audit_appends unacked_audit split: if_splits)
  ultimately show ?thesis
    using deny [of DefaultRecipe] by (simp add: unknown_prompt_def booked_def split: option.split)
qed

lemma by_hash_debt:
  assumes "run_marker s = Content m" and "\<not> torn (deny_ledger s)" and "es = load_registry (prompt_registry s)"
  shows "debt_effect m es (deny_ledger s) (fst (by_hash v hk ti m p now s)) (deny_ledger (snd (by_hash v hk ti m p now s)))"
proof (cases "lookup_emission (hashing v) (run_view now (run_marker s)) p now (prompt_registry s)")
  case (Some e)
  then have "e \<in> set es" using lookup_loop_Some assms(3) by (fastforce simp: lookup_emission_def)
  with Some show ?thesis by (auto simp: by_hash_def fresh_dispatch_def ack_if_hardening_facts)
next
  case None
  have "debt_effect m es (deny_ledger s) (fst r) (deny_ledger (snd r))" if "try_auto_readmit v hk ti p now s = Some r" for r
    using that assms(2) by (auto simp: try_auto_readmit_def audit_appends unacked_audit split: option.splits prod.splits bool.splits)
  with None known_debt [OF assms(1,2)] unknown_debt [OF assms(1,2)] show ?thesis
    by (simp add: by_hash_def split: option.split)
qed

lemma guard_debt:
  assumes "armed hk now s m" and "asks hk p" and "\<not> torn (deny_ledger s)"
  shows "debt_effect m (load_registry (prompt_registry s)) (deny_ledger s) (fst (guard v hk now s)) (deny_ledger (snd (guard v hk now s)))"
  using by_reference_debt [OF armedD(1) [OF assms(1)] assms(3) refl] by_hash_debt [OF armedD(1) [OF assms(1)] assms(3) refl]
  by (simp add: guard_armed [OF assms(1,2)] split: option.split)

definition bound_to :: "hook_input \<Rightarrow> marker \<Rightarrow> marker" where
  "bound_to hk m = m\<lparr>session_id := (if session_id m = None then hook_session hk else session_id m)\<rparr>"

lemma bind_marker:
  "run_marker s = Content m \<Longrightarrow> \<not> age_stale now m \<Longrightarrow>
    run_marker (bind_marker_on_allow (hook_session hk) now s) = Content (bound_to hk m)"
  by (auto simp: bind_marker_on_allow_def bind_marker_session_def with_marker_def bound_to_def split: option.split)

fun binding_effect :: "hook_input \<Rightarrow> marker \<Rightarrow> verdict \<Rightarrow> marker" where
  "binding_effect hk m (Allowed WorkerSubdispatch i) = m"
| "binding_effect hk m (Allowed r i) = bound_to hk m"
| "binding_effect hk m vd = m"

lemma deny_marker [simp]:
  "run_marker (snd (deny_and_ledger v hk r p now s)) = run_marker s"
  "run_marker (snd (deny_default v hk m r p now s)) = run_marker s"
  "binding_effect hk' m' (fst (deny_and_ledger v hk r p now s)) = m'"
  "binding_effect hk' m' (fst (deny_default v hk m r p now s)) = m'"
  by (simp_all add: deny_default_def deny_and_ledger_def)

lemma by_hash_binding:
  assumes "run_marker s = Content m" and "\<not> age_stale now m"
  shows "run_marker (snd (by_hash v hk ti m p now s)) = Content (binding_effect hk m (fst (by_hash v hk ti m p now s)))"
proof -
  have "run_marker (snd r) = Content (binding_effect hk m (fst r))" if "try_auto_readmit v hk ti p now s = Some r" for r
    using that assms by (auto simp: try_auto_readmit_def bind_marker split: option.splits prod.splits bool.splits)
  moreover have "run_marker (snd r) = Content (binding_effect hk m (fst r))" if "try_worker_subdispatch v hk m p now s = Some r" for r
    using that assms by (auto simp: try_worker_subdispatch_def split: option.splits if_splits)
  ultimately show ?thesis
    using assms
    by (simp add: by_hash_def fresh_dispatch_def known_prompt_def unknown_prompt_def try_claude_code_guide_consult_def
        Let_def bind_marker split: option.split)
qed

lemma guard_binding:
  assumes "armed hk now s m" and "asks hk p"
  shows "run_marker (snd (guard v hk now s)) = Content (binding_effect hk m (fst (guard v hk now s)))"
proof -
  have "run_marker (snd (by_reference v hk ti n p now s)) = Content (binding_effect hk m (fst (by_reference v hk ti n p now s)))" for ti n
    using armedD [OF assms(1)]
    by (simp add: by_reference_def Let_def bind_marker split: option.split prod.split bool.split)
  with by_hash_binding [OF armedD(1,2) [OF assms(1)]] show ?thesis
    by (simp add: guard_armed [OF assms] split: option.split)
qed

text \<open>
  The guard keeps the books: under a live run a denial adds exactly one open entry, of this run, to the
  ledger, unless it is a transcription slip or falls in the window before the run is bound to a session,
  and then none; so the debt of the run grows by one or not at all. A dispatch that passes opens nothing,
  and pays the oldest open entry exactly if it is the first dispatch of a hardening emission: firing
  again, readmission, consultation and worker dispatches pay nothing.
\<close>

theorem guard_keeps_books:
  assumes "armed hk now s m" and "asks hk p" and "\<not> torn (deny_ledger s)"
  shows "case guard v hk now s of (vd, s') \<Rightarrow>
    (case vd of
       Denied r \<Rightarrow>
         pending_hardening True (run_marker s') (deny_ledger s') =
           pending_hardening True (run_marker s) (deny_ledger s) +
           (if r \<in> {HardeningCap, UnresolvedRef} \<or> r \<noteq> TranscriptionSlip \<and> session_id m \<noteq> None then 1 else 0)
     | Allowed r i \<Rightarrow>
         (\<exists>n. r \<in> {Fresh n, ByReference n} \<and>
            (\<exists>e\<in>set (load_registry (prompt_registry s)). nonce e = n \<and>
               unacked (deny_ledger s') =
                 (if emission_class e = ''hardening'' then tl (unacked (deny_ledger s)) else unacked (deny_ledger s)))) \<or>
         unacked (deny_ledger s') = unacked (deny_ledger s) \<and>
           (\<forall>n. r \<noteq> Fresh n \<and> r \<noteq> ByReference n)
     | _ \<Rightarrow> unacked (deny_ledger s') = unacked (deny_ledger s))"
proof -
  obtain vd s' where g: "guard v hk now s = (vd, s')" by fastforce
  have debt: "debt_effect m (load_registry (prompt_registry s)) (deny_ledger s) vd (deny_ledger s')"
    using guard_debt [OF assms, of v] by (simp add: g)
  have marker: "run_marker s' = Content (binding_effect hk m vd)"
    using guard_binding [OF assms(1,2), of v] by (simp add: g)
  show ?thesis
  proof (cases vd)
    case (Denied r)
    with debt marker armedD(1) [OF assms(1)] show ?thesis
      by (auto simp: g booked_def pending_hardening_def owed_by_def raw_started_def split: option.splits if_splits)
  next
    case (Allowed r i)
    with debt show ?thesis by (cases r) (auto simp: g paid_def)
  qed (use debt in \<open>simp_all add: g\<close>)
qed

fun decided :: "marker \<Rightarrow> verdict \<Rightarrow> bool" where
  "decided m (Allowed r i) = (r = WorkerSubdispatch \<longrightarrow> session_id m \<noteq> None)"
| "decided m (Denied r) = True"
| "decided m _ = False"

lemma guard_decided:
  assumes "armed hk now s m" and "asks hk p"
  shows "decided m (fst (guard v hk now s))"
proof -
  have deny: "decided m (fst (deny_default v hk m r p now s))" "decided m (fst (deny_and_ledger v hk r p now s))" for r
    by (simp_all add: deny_default_def deny_and_ledger_def)
  have "decided m (fst r)" if "try_auto_readmit v hk ti p now s = Some r" for r ti
    using that by (auto simp: try_auto_readmit_def split: option.splits prod.splits bool.splits)
  moreover have "decided m (fst r)" if "try_worker_subdispatch v hk m p now s = Some r" for r
    using that deny by (auto simp: try_worker_subdispatch_def split: option.splits if_splits)
  moreover have "decided m (fst (by_reference v hk ti n p now s))" for ti n
    using deny by (simp add: by_reference_def Let_def split: option.split prod.split bool.split)
  ultimately show ?thesis
    using deny by (simp add: guard_armed [OF assms] by_hash_def fresh_dispatch_def known_prompt_def unknown_prompt_def
        try_claude_code_guide_consult_def Let_def split: option.split)
qed

text \<open>
  Only a pass binds a run, and only once: a dispatch that passes under an unbound run stamps the caller's
  session on the marker and changes nothing else of it; a bound run keeps its owner; denials, and the
  dispatches of a worker in flight, leave the marker as it is.
\<close>

theorem guard_binds_on_pass:
  assumes "armed hk now s m" and "asks hk p"
  shows "case guard v hk now s of (vd, s') \<Rightarrow>
    run_marker s' = Content (m\<lparr>session_id :=
      (if passes vd \<and> session_id m = None then hook_session hk else session_id m)\<rparr>)"
proof -
  obtain vd s' where g: "guard v hk now s = (vd, s')" by fastforce
  have marker: "run_marker s' = Content (binding_effect hk m vd)"
    using guard_binding [OF assms, of v] by (simp add: g)
  have dec: "decided m vd" using guard_decided [OF assms, of v] by (simp add: g)
  show ?thesis
  proof (cases vd)
    case (Allowed r i)
    with marker dec show ?thesis by (cases r) (auto simp: g bound_to_def)
  qed (use marker dec in \<open>simp_all add: g\<close>)
qed

text \<open>
  A bystander is let alone: a dispatch of another session than the one the live run is bound to changes no
  file and passes silently, whatever its prompt, unless it is a bare reference, which is denied.
\<close>

lemma bystander_unpoliced:
  assumes "run_marker s = Content m" and "\<not> age_stale now m" and "session_id m = Some owner"
    and "hook_session hk = Some other" and "other \<noteq> owner" and "asks hk p"
  shows "guard v hk now s = (if ref_nonce p = None then Silent else Denied UnresolvedRef, s)"
  using assms by (simp add: guard_asks guard_prompt_def read_run_marker_def)

definition effective_input :: "hook_input \<Rightarrow> verdict \<Rightarrow> json" where
  "effective_input hk vd = (case vd of Allowed r (Some i) \<Rightarrow> i | _ \<Rightarrow> hook_tool_input hk)"

definition pinned :: "json \<Rightarrow> emission \<Rightarrow> json" where
  "pinned ti e = (case pinned_model_update ti e of None \<Rightarrow> ti | Some i \<Rightarrow> i)"

lemma pinned_facts:
  "emission_model e = Some (c # r) \<Longrightarrow> jget (pinned ti e) ''model'' = JStr (c # r)"
  "k \<noteq> ''model'' \<Longrightarrow> jget (pinned ti e) k = jget ti k"
  by (auto simp: pinned_def pinned_model_update_def jget_jset split: option.split list.split)

lemma effective_pinned: "effective_input hk (Allowed r (pinned_model_update (hook_tool_input hk) e)) = pinned (hook_tool_input hk) e"
  by (simp add: effective_input_def pinned_def)

definition runs_tier :: "emission \<Rightarrow> json \<Rightarrow> bool" where
  "runs_tier e input = (case emission_model e of Some (c # m) \<Rightarrow> jget input ''model'' = JStr (c # m) | _ \<Rightarrow> True)"

definition delivers :: "guard_env \<Rightarrow> hook_input \<Rightarrow> string \<Rightarrow> emission list \<Rightarrow> verdict \<Rightarrow> bool" where
  "delivers v hk p es vd \<longleftrightarrow>
     (\<forall>r i n. vd = Allowed r i \<longrightarrow> pass_nonce r = Some n \<longrightarrow>
       (\<exists>e\<in>set es. nonce e = n \<and>
          runs_tier e (effective_input hk vd) \<and>
          (if r = ByReference n
           then jget (effective_input hk vd) ''prompt'' = JStr (if prompt_raw e = [] then prompt_norm e else prompt_raw e)
           else jget (effective_input hk vd) ''prompt'' = jget (hook_tool_input hk) ''prompt'' \<and>
             (if r = Readmitted n
              then emission_class e = ''cycle'' \<and> suffix_superset (prompt_norm e) (normalize_prompt_for_hash (nfc (hashing v)) p)
              else prompt_sha e = prompt_sha256 (hashing v) p))))"

lemma delivers_deny [simp]: "delivers v hk p es (Denied r)" "delivers v hk p es (Allowed GuideConsult i)"
    "delivers v hk p es (Allowed WorkerSubdispatch i)"
  by (simp_all add: delivers_def)

lemma model_pinned: "runs_tier e (pinned ti e)"
  by (simp add: runs_tier_def pinned_facts split: option.split list.split)

lemma delivers_pinned:
  assumes "e \<in> set es" and "r \<in> {Fresh (nonce e), Refire (nonce e)} \<and> prompt_sha e = prompt_sha256 (hashing v) p \<or>
    r = Readmitted (nonce e) \<and> emission_class e = ''cycle'' \<and>
    suffix_superset (prompt_norm e) (normalize_prompt_for_hash (nfc (hashing v)) p)"
  shows "delivers v hk p es (Allowed r (pinned_model_update (hook_tool_input hk) e))"
  using assms model_pinned [of e "hook_tool_input hk"]
  by (auto simp: delivers_def effective_pinned pinned_facts intro!: bexI [of _ e])

lemma by_reference_delivers:
  "delivers v hk p (load_registry (prompt_registry s)) (fst (by_reference v hk (hook_tool_input hk) n p now s))"
proof (cases "resolve_emission_by_nonce (run_view now (run_marker s)) n now (prompt_registry s)")
  case None
  then show ?thesis by (simp add: by_reference_def deny_and_ledger_def)
next
  case (Some e)
  let ?input = "jset ''prompt'' (JStr (if prompt_raw e \<noteq> [] then prompt_raw e else prompt_norm e)) (hook_tool_input hk)"
  have e: "e \<in> set (load_registry (prompt_registry s))" "nonce e = n"
    using Some by (auto simp: resolve_emission_by_nonce_def split: option.splits if_splits dest!: find_SomeD)
  have "delivers v hk p (load_registry (prompt_registry s)) (Allowed (ByReference n) (Some (pinned ?input e)))"
    using e model_pinned [of e ?input]
    by (auto simp: delivers_def effective_input_def pinned_facts jget_jset intro!: bexI [of _ e])
  with Some show ?thesis
    unfolding by_reference_def Let_def pinned_def [symmetric]
    by (auto simp: deny_and_ledger_def split: prod.split bool.split)
qed

lemma by_hash_delivers:
  "delivers v hk p (load_registry (prompt_registry s)) (fst (by_hash v hk (hook_tool_input hk) m p now s))"
proof -
  let ?es = "load_registry (prompt_registry s)"
  have deny: "delivers v hk p ?es (fst (deny_default v hk m r p now s))" "delivers v hk p ?es (fst (deny_and_ledger v hk r p now s))" for r
    by (simp_all add: deny_default_def deny_and_ledger_def)
  have "delivers v hk p ?es (fst (fresh_dispatch hk (hook_tool_input hk) e now s))"
    if "lookup_emission (hashing v) (run_view now (run_marker s)) p now (prompt_registry s) = Some e" for e
    using that lookup_loop_Some by (fastforce simp: fresh_dispatch_def lookup_emission_def intro!: delivers_pinned)
  moreover have "delivers v hk p ?es (fst r)" if "try_auto_readmit v hk (hook_tool_input hk) p now s = Some r" for r
    using that
    by (auto simp: try_auto_readmit_def find_auto_readmit_entry_def split: option.splits prod.splits bool.splits
        dest!: find_SomeD intro!: delivers_pinned)
  moreover have "delivers v hk p ?es (fst (known_prompt v hk (hook_tool_input hk) m e p now s))"
    if "find_entry_by_sha (prompt_sha256 (hashing v) p) (tool_use hk) (prompt_registry s) = Some e" for e
    using find_entry_mem [OF that] deny by (auto simp: known_prompt_def intro!: delivers_pinned)
  moreover have "delivers v hk p ?es (fst r)" if "try_worker_subdispatch v hk m p now s = Some r" for r
    using that deny by (auto simp: try_worker_subdispatch_def split: option.splits if_splits)
  ultimately show ?thesis
    using deny by (simp add: by_hash_def unknown_prompt_def try_claude_code_guide_consult_def Let_def split: option.split)
qed

text \<open>
  What runs is what was registered: when a dispatch passes by reference the tool's input carries the
  prompt of the emission byte for byte, and on every path that names an emission a model pinned on it is
  the model that runs.
\<close>

theorem guard_delivers_registered:
  assumes "armed hk now s m" and "asks hk p" and "fst (guard v hk now s) = Allowed r i" and "pass_nonce r = Some n"
  shows "\<exists>e\<in>set (load_registry (prompt_registry s)). nonce e = n \<and>
    runs_tier e (effective_input hk (Allowed r i)) \<and>
    (if r = ByReference n
     then jget (effective_input hk (Allowed r i)) ''prompt'' = JStr (if prompt_raw e = [] then prompt_norm e else prompt_raw e)
     else jget (effective_input hk (Allowed r i)) ''prompt'' = JStr p \<and>
       (if r = Readmitted n
        then emission_class e = ''cycle'' \<and> suffix_superset (prompt_norm e) (normalize_prompt_for_hash (nfc (hashing v)) p)
        else prompt_sha e = prompt_sha256 (hashing v) p))"
proof -
  have "delivers v hk p (load_registry (prompt_registry s)) (Allowed r i)"
  proof (cases "ref_nonce p")
    case None
    with by_hash_delivers [of v hk p s m now] assms(3) show ?thesis by (simp add: guard_armed [OF assms(1,2)])
  next
    case (Some k)
    with by_reference_delivers [of v hk p s k now] assms(3) show ?thesis by (simp add: guard_armed [OF assms(1,2)])
  qed
  moreover have "jget (hook_tool_input hk) ''prompt'' = JStr p" using assms(2) by (simp add: asks_def)
  ultimately show ?thesis using assms(4) unfolding delivers_def by metis
qed

lemma emitted_ledger: "\<not> torn (deny_ledger emitted_state)"
  by (simp add: emitted_state_def sample_state_def mixed_ledger_def rewrite_ledger_def)

lemma emitted_go:
  "fst (guard plain_guard (sample_ask tool ''go'') 4000000 emitted_state) =
     Allowed (Fresh ''a1'') (Some (jset ''model'' (JStr ''opus'') (JObj [(''prompt'', JStr ''go'')])))"
  by (simp add: emitted_state_def sample_state_def guard_eval Let_def jget_def read_run_marker_def new_emission_def
      plain_guard_def pinned_model_update_def)

theorem guard_keeps_books_witness:
  "unacked (deny_ledger (snd (guard plain_guard (sample_ask ''t1'' ''go'') 4000000 emitted_state))) =
   unacked (deny_ledger emitted_state)"
  using guard_keeps_books [where v = plain_guard, OF armed_samples(1) [of "''t1''" "''go''"] armed_samples(2) emitted_ledger] emitted_go [of "''t1''"]
  by (auto simp: case_prod_unfold emitted_state_def new_emission_def load_registry_def)

theorem guard_binds_on_pass_witness:
  "\<exists>m. run_marker (snd (guard plain_guard (sample_ask ''t1'' ''go'') 4000000 emitted_state)) = Content m \<and>
     session_id m = Some ''me''"
  using guard_binds_on_pass [where v = plain_guard, OF armed_samples(1) [of "''t1''" "''go''"] armed_samples(2)]
    guard_decides_witness by (auto simp: case_prod_unfold)

theorem guard_delivers_registered_witness:
  "\<exists>e. nonce e = ''a1'' \<and>
     runs_tier e (effective_input (sample_ask ''t1'' ''go'') (fst (guard plain_guard (sample_ask ''t1'' ''go'') 4000000 emitted_state)))"
  using guard_delivers_registered [OF armed_samples(1,2) emitted_go, of "''a1''"] emitted_go [of "''t1''"] by auto

end
