(* ===== verification/Guard_Runs.thy ===== *)
theory Guard_Runs
  imports Dispatch_Guard
begin

text \<open>
  Whole runs of emissions, guarded dispatches and life cycle commands: which \<^verbatim>\<open>tool_use_id\<close> may run on
  which emission. The interface \<open>single_owner\<close> states what a service that grants keys to owners promises;
  the guarded registry of \<open>Dispatch_Guard\<close> is an interpretation of it.
\<close>

subsection \<open>One consumer per emission\<close>

text \<open>
  The interface: a step may grant a key to an owner. A key that is owned is granted to no other owner,
  and stays owned.
\<close>

locale single_owner =
  fixes step :: "'e \<Rightarrow> 's \<Rightarrow> ('k \<times> 'o) option \<times> 's"
    and admissible :: "'e \<Rightarrow> 's \<Rightarrow> bool"
    and inv :: "'s \<Rightarrow> bool"
    and owned :: "'s \<Rightarrow> 'k \<Rightarrow> 'o \<Rightarrow> bool"
  assumes inv_step: "inv s \<Longrightarrow> admissible e s \<Longrightarrow> step e s = (g, s') \<Longrightarrow> inv s'"
    and granted: "inv s \<Longrightarrow> admissible e s \<Longrightarrow> step e s = (Some (k, ow), s') \<Longrightarrow>
      owned s' k ow \<and> (\<forall>ow'. owned s k ow' \<longrightarrow> ow' = ow)"
    and stays: "inv s \<Longrightarrow> admissible e s \<Longrightarrow> step e s = (g, s') \<Longrightarrow> owned s k ow \<Longrightarrow> owned s' k ow"
begin

lemma owners_agree:
  "inv s \<Longrightarrow> all_admissible step admissible es s \<Longrightarrow> run_grants step es s = (gs, s') \<Longrightarrow>
    (\<forall>k ow ow'. owned s k ow \<longrightarrow> (k, ow') \<in> set gs \<longrightarrow> ow' = ow) \<and>
    (\<forall>k ow ow'. (k, ow) \<in> set gs \<longrightarrow> (k, ow') \<in> set gs \<longrightarrow> ow' = ow)"
proof (induction es arbitrary: s gs)
  case Nil
  then show ?case by simp
next
  case (Cons e es)
  obtain g s1 where step: "step e s = (g, s1)" by fastforce
  obtain gs1 where run: "run_grants step es s1 = (gs1, s')" "gs = (case g of None \<Rightarrow> gs1 | Some x \<Rightarrow> x # gs1)"
    using Cons.prems(3) step by (auto split: prod.splits)
  have adm: "admissible e s" "all_admissible step admissible es s1" using Cons.prems(2) step by auto
  note ih = Cons.IH [OF inv_step [OF Cons.prems(1) adm(1) step] adm(2) run(1)]
  note keep = stays [OF Cons.prems(1) adm(1) step]
  show ?case
  proof (cases g)
    case None
    with ih keep run(2) show ?thesis by (auto dest: keep)
  next
    case (Some x)
    obtain k ow where x: "x = (k, ow)" by (cases x)
    note use = granted [OF Cons.prems(1) adm(1) step [unfolded Some x]]
    then have "owned s1 k ow" by blast
    with ih have "(k, ow') \<in> set gs1 \<Longrightarrow> ow' = ow" for ow' by blast
    with ih keep use run(2) Some x show ?thesis by (auto dest: keep)
  qed
qed

end

text \<open>
  A run: a state script emits a prompt, the guard judges a dispatch, a life cycle command is issued.
  The nonces issued so far are kept beside the state.
\<close>

datatype run_event =
    Emit string string "string option" "string option" string
  | Dispatch hook_input
  | Life life_cmd

type_synonym guarded_state = "string set \<times> run_state"

fun grant :: "string \<Rightarrow> verdict \<Rightarrow> (string \<times> string) option" where
  "grant tool (Allowed r i) = map_option (\<lambda>n. (n, tool)) (pass_nonce r)"
| "grant tool _ = None"

fun run_step :: "guard_env \<Rightarrow> int \<times> run_event \<Rightarrow> guarded_state \<Rightarrow> (string \<times> string) option \<times> guarded_state" where
  "run_step v (now, Emit p cls item model uid) (issued, s) =
     (None, insert uid issued,
      s\<lparr>run_marker := snd (read_run_marker None now (run_marker s)),
        prompt_registry := snd (register_emission_if_marked (hashing v) (run_view now (run_marker s))
          p cls item now model uid (prompt_registry s))\<rparr>)"
| "run_step v (now, Dispatch hk) (issued, s) =
     (case guard v hk now s of (vd, s') \<Rightarrow> (grant (tool_use hk) vd, issued, s'))"
| "run_step v (now, Life c) (issued, s) = (None, issued, exec_life c now s)"

fun new_nonce :: "int \<times> run_event \<Rightarrow> guarded_state \<Rightarrow> bool" where
  "new_nonce (now, Emit p cls item model uid) (issued, s) = (uid \<notin> issued)"
| "new_nonce _ _ = True"

definition owned_by :: "registry_state \<Rightarrow> string \<Rightarrow> string \<Rightarrow> bool" where
  "owned_by g n tool \<longleftrightarrow> n \<in> fst g \<and>
     (\<forall>e\<in>set (load_registry (snd g)). nonce e = n \<longrightarrow> consumed e = Some True \<and> consumed_by e = Some tool)"

definition registry_part :: "guarded_state \<Rightarrow> registry_state" where
  "registry_part g = (fst g, prompt_registry (snd g))"

lemma exec_life_registry:
  "prompt_registry (exec_life c now s) = prompt_registry s \<or> prompt_registry (exec_life c now s) = Absent"
  by (cases c) (auto simp: run_start_def run_end_def cycle_begin_def cycle_end_def resolution_handler_def Let_def delete_run_marker_def
      split: prod.split option.split)

lemma load_Absent [simp]: "load_registry Absent = []"
  by (simp add: load_registry_def)

lemma consume_loop_owner:
  "consume_loop n (Some tool) es = Some es' \<Longrightarrow> distinct (map nonce es) \<Longrightarrow>
    (\<exists>e\<in>set es. nonce e = n \<and> consumed e \<noteq> Some True) \<and>
    (\<forall>e\<in>set es'. if nonce e = n then consumed e = Some True \<and> consumed_by e = Some tool else e \<in> set es)"
proof (induction es arbitrary: es')
  case Nil
  then show ?case by simp
next
  case (Cons e es)
  show ?case
  proof (cases "nonce e = n")
    case True
    with Cons.prems have "\<forall>x\<in>set es. nonce x \<noteq> n" "consumed e \<noteq> Some True"
      "es' = e\<lparr>consumed := Some True, consumed_by := Some tool\<rparr> # es"
      by (auto simp: is_consumed_def image_iff split: if_splits option.splits)
    with True show ?thesis by auto
  next
    case False
    with Cons.prems obtain es1 where "consume_loop n (Some tool) es = Some es1" "es' = e # es1" by auto
    with Cons.IH [of es1] Cons.prems False show ?thesis by auto
  qed
qed

lemma spends_facts:
  assumes "spends n tool f f'" and "registry_inv (issued, f)"
  shows "registry_inv (issued, f')" and "owned_by (issued, f') n tool" and "\<not> owned_by (issued, f) n ow"
    and "owned_by (issued, f) k ow \<Longrightarrow> owned_by (issued, f') k ow"
proof -
  obtain es where c: "consume_loop n (Some tool) (load_registry f) = Some es" "f' = save_registry es"
    using assms(1) by (auto simp: spends_def)
  note l = consume_loop_Some [OF c(1)]
  have d: "distinct (map nonce (load_registry f))" using assms(2) by (simp add: registry_inv_def)
  note o = consume_loop_owner [OF c(1) d]
  show "registry_inv (issued, f')"
    using assms(2) l c(2) by (auto simp: registry_inv_def simp flip: set_map)
  have "n \<in> issued" using assms(2) o by (auto simp: registry_inv_def)
  with o c(2) show "owned_by (issued, f') n tool" by (auto simp: owned_by_def split: if_splits)
  show no: "\<not> owned_by (issued, f) n ow" for ow
    using o by (auto simp: owned_by_def)
  show "owned_by (issued, f') k ow" if "owned_by (issued, f) k ow"
  proof -
    have "k \<noteq> n" using no that by blast
    with o that c(2) show ?thesis by (auto simp: owned_by_def split: if_splits)
  qed
qed

lemma effect_cases:
  assumes "registry_effect tool f vd f'"
  obtains (nothing) "grant tool vd = None" "f' = f"
  | (spent) n where "grant tool vd = Some (n, tool)" "spends n tool f f'"
  | (again) n where "grant tool vd = Some (n, tool)" "held_by n tool f" "f' = f"
proof (cases vd)
  case (Allowed r i)
  show ?thesis
  proof (cases r)
    case (Refire n)
    with assms Allowed show ?thesis by (intro again [of n]) simp_all
  next
    case GuideConsult
    have "grant tool vd = None" "f' = f" using assms Allowed GuideConsult by simp_all
    then show ?thesis by (rule nothing)
  next
    case WorkerSubdispatch
    have "grant tool vd = None" "f' = f" using assms Allowed WorkerSubdispatch by simp_all
    then show ?thesis by (rule nothing)
  qed (use assms Allowed spent in auto)
qed (use assms nothing in auto)

lemma effect_owned:
  assumes "registry_effect tool f vd f'" and "registry_inv (issued, f)"
  shows "registry_inv (issued, f')" and "owned_by (issued, f) k ow \<Longrightarrow> owned_by (issued, f') k ow"
    and "grant tool vd = Some (n, t) \<Longrightarrow> owned_by (issued, f') n t \<and> (owned_by (issued, f) n ow' \<longrightarrow> ow' = t)"
proof -
  have refired: "owned_by (issued, f) m tool \<and> (owned_by (issued, f) m ow' \<longrightarrow> ow' = tool)" if h: "held_by m tool f" for m
  proof -
    from h obtain e where e: "e \<in> set (load_registry f)" "nonce e = m" "consumed e = Some True" "consumed_by e = Some tool"
      by (auto simp: held_by_def)
    have "x = e" if "x \<in> set (load_registry f)" "nonce x = m" for x
      using that e assms(2) distinct_nonce_eq [of "load_registry f" x e] by (simp add: registry_inv_def)
    then have "\<forall>x\<in>set (load_registry f). nonce x = m \<longrightarrow> consumed x = Some True \<and> consumed_by x = Some tool"
      using e(3,4) by blast
    moreover have "m \<in> issued" using e(1,2) assms(2) by (auto simp: registry_inv_def)
    ultimately have "owned_by (issued, f) m tool" by (simp add: owned_by_def)
    moreover have "ow' = tool" if "owned_by (issued, f) m ow'"
      using that e by (simp add: owned_by_def)
    ultimately show ?thesis by blast
  qed
  note spent = spends_facts [OF _ assms(2)]
  show "registry_inv (issued, f')"
    using assms(2) by (cases rule: effect_cases [OF assms(1)]) (simp_all add: spent(1))
  show "owned_by (issued, f') k ow" if "owned_by (issued, f) k ow"
    using that by (cases rule: effect_cases [OF assms(1)]) (simp_all add: spent(4))
  show "owned_by (issued, f') n t \<and> (owned_by (issued, f) n ow' \<longrightarrow> ow' = t)" if g: "grant tool vd = Some (n, t)"
  proof (cases rule: effect_cases [OF assms(1)])
    case (2 m)
    with g spent(2,3) [OF 2(2)] show ?thesis by simp
  next
    case (3 m)
    with g refired [OF 3(2)] show ?thesis by simp
  qed (use g in simp)
qed

interpretation guarded: single_owner "run_step v" new_nonce
  "\<lambda>g. registry_inv (registry_part g)" "\<lambda>g. owned_by (registry_part g)" for v
proof
  fix e g s x s'
  assume inv: "registry_inv (registry_part s)" and adm: "new_nonce e s" and step: "run_step v e s = (x, s')"
  obtain now ev issued r where e: "e = (now, ev)" "s = (issued, r)" by (metis surj_pair)
  have inv': "registry_inv (issued, prompt_registry r)" "distinct (map nonce (load_registry (prompt_registry r)))"
    using inv by (simp_all add: e registry_part_def registry_inv_def)
  have fixed: "registry_inv (registry_part s') \<and> (owned_by (registry_part s) k ow \<longrightarrow> owned_by (registry_part s') k ow)" for k ow
  proof (cases ev)
    case (Emit p cls item model uid)
    let ?f = "snd (register_emission (hashing v) p cls item now model uid (prompt_registry r))"
    have "registry_inv (insert uid issued, ?f)" "registry_inv (insert uid issued, prompt_registry r)"
      using inv'(1) adm Emit register_inv [OF inv'(1), of uid] by (auto simp: e registry_inv_def)
    moreover have "owned_by (insert uid issued, ?f) k ow" if "owned_by (issued, prompt_registry r) k ow"
      using that adm Emit
      by (auto simp: e owned_by_def register_entries simp del: drop_append dest!: in_set_dropD)
    moreover have "owned_by (insert uid issued, prompt_registry r) k ow" if "owned_by (issued, prompt_registry r) k ow"
      using that by (auto simp: owned_by_def)
    ultimately show ?thesis
      using step Emit by (auto simp: e registry_part_def register_emission_if_marked_def case_prod_unfold split: option.splits)
  next
    case (Dispatch hk)
    with step effect_owned(1,2) [OF guard_registry [OF inv'(2), of hk v now] inv'(1)] show ?thesis
      by (auto simp: e registry_part_def split: prod.splits)
  next
    case (Life c)
    with step have "s' = (issued, exec_life c now r)" by (simp add: e)
    with inv' exec_life_registry [of c now r] show ?thesis
      by (elim disjE) (simp_all add: e registry_part_def owned_by_def registry_inv_def)
  qed
  then show "registry_inv (registry_part s')" and "owned_by (registry_part s) k ow \<Longrightarrow> owned_by (registry_part s') k ow" for k ow
    by blast+
next
  fix e s k ow s'
  assume inv: "registry_inv (registry_part s)" and step: "run_step v e s = (Some (k, ow), s')"
  obtain now ev issued r where e: "e = (now, ev)" "s = (issued, r)" by (metis surj_pair)
  have inv': "registry_inv (issued, prompt_registry r)" "distinct (map nonce (load_registry (prompt_registry r)))"
    using inv by (simp_all add: e registry_part_def registry_inv_def)
  show "owned_by (registry_part s') k ow \<and> (\<forall>ow'. owned_by (registry_part s) k ow' \<longrightarrow> ow' = ow)"
  proof (cases ev)
    case (Dispatch hk)
    with step effect_owned(3) [OF guard_registry [OF inv'(2), of hk v now] inv'(1), of k ow] show ?thesis
      by (auto simp: e registry_part_def split: prod.splits)
  qed (use step in \<open>simp_all add: e\<close>)
qed

text \<open>
  C25. One consumer per emission: in every run of emissions with fresh nonces, guarded dispatches and life
  cycle commands, in any order and at any times, all dispatches that the guard lets through for one
  emission (verbatim, by reference, readmitted with a suffix, or fired again) carry the same
  \<open>tool_use_id\<close>: no second dispatch ever runs on a prompt that another one has used up.
\<close>

theorem one_consumer_per_emission:
  assumes "registry_inv (issued, prompt_registry s)"
    and "all_admissible (run_step v) new_nonce es (issued, s)"
    and "run_grants (run_step v) es (issued, s) = (gs, g)"
    and "(n, tool) \<in> set gs" and "(n, tool') \<in> set gs"
  shows "tool' = tool"
  using guarded.owners_agree [of "(issued, s)" v es gs g] assms by (simp add: registry_part_def)

definition guarded_events :: "(int \<times> run_event) list" where
  "guarded_events = [(4000000, Emit ''go'' ''cycle'' None None ''a1''), (4000000, Dispatch (sample_ask ''t1'' ''go'')),
     (4000000, Dispatch (sample_ask ''t1'' ''go'')), (4000000, Dispatch (sample_ask ''t2'' ''go''))]"

lemma guarded_events_run:
  "fst (run_grants (run_step plain_guard) guarded_events ({}, sample_state False)) = [(''a1'', ''t1''), (''a1'', ''t1'')]"
  by (simp add: guarded_events_def sample_state_def guard_eval register_emission_if_marked_def register_emission_def
      new_emission_def ring_cap_def Let_def jget_def read_run_marker_def ledgered_def find_auto_readmit_entry_def try_auto_readmit_def
      pinned_model_update_def ack_if_hardening_def)

lemma guarded_events_ok: "all_admissible (run_step plain_guard) new_nonce guarded_events ({}, sample_state False)"
  by (simp add: guarded_events_def case_prod_unfold)

lemma sample_registry_inv: "registry_inv ({}, prompt_registry (sample_state False))"
  by (simp add: registry_inv_def sample_state_def)

theorem one_consumer_per_emission_witness:
  "(''a1'', ''t1'') \<in> set (fst (run_grants (run_step plain_guard) guarded_events ({}, sample_state False))) \<and>
   snd ` set (fst (run_grants (run_step plain_guard) guarded_events ({}, sample_state False))) = {''t1''}"
proof -
  obtain gs g where run: "run_grants (run_step plain_guard) guarded_events ({}, sample_state False) = (gs, g)"
    by (rule prod.exhaust)
  then have gs: "gs = [(''a1'', ''t1''), (''a1'', ''t1'')]" using guarded_events_run by simp
  then have first: "(''a1'', ''t1'') \<in> set gs" by simp
  have "tool = ''t1''" if "(''a1'', tool) \<in> set gs" for tool
    using one_consumer_per_emission [OF sample_registry_inv guarded_events_ok run first that] .
  then have "snd ` {p \<in> set gs. fst p = ''a1''} \<subseteq> {''t1''}" by auto
  then show ?thesis unfolding run using gs by auto
qed

end
