(* ===== verification/Viz_Queue.thy ===== *)
theory Viz_Queue
  imports Queue_Store
begin

text \<open>
  The queue visualizer's write path (\<^verbatim>\<open>user/scripts/pipeline_visualizer/queue_writer.py\<close>): a posted
  order must be a permutation of the queued ids, and the reordered document replaces the file
  through a temporary file with a bounded retry; and its read-through cache
  (\<^verbatim>\<open>user/scripts/pipeline_visualizer/cache.py\<close>) as a step relation over concurrent readers.
\<close>

subsection \<open>Permutation check\<close>

datatype viz_error =
    PermutationError
  | QueueWriteError
  | PermissionDenied
  | OtherFailure
  | MissingFile
  | BadJson
  | NoGetMethod
  | TypeMismatch

fun is_num :: "json \<Rightarrow> bool" where
  "is_num (JBool b) = True"
| "is_num (JInt n) = True"
| "is_num (JFloat r) = True"
| "is_num _ = False"

text \<open>
  \<open>sorted\<close> raises on values that do not compare, \<open>set\<close> on values that do not hash; ids that are not
  all strings never equal the posted strings, so only the exception differs.
\<close>

definition mismatch_error :: "json list \<Rightarrow> viz_error" where
  "mismatch_error existing =
     (if (length existing \<le> 1 \<or> list_all is_num existing \<or> list_all is_str existing) \<and>
         list_all hashable existing
      then PermutationError else TypeMismatch)"

definition validate_permutation :: "json list \<Rightarrow> string list \<Rightarrow> viz_error + unit" where
  "validate_permutation existing posted =
     (if length posted \<noteq> card (set posted) then Inl PermutationError
      else if \<not> list_all is_str existing then Inl (mismatch_error existing)
      else if sort posted \<noteq> sort (map str_val existing) then Inl PermutationError
      else Inr ())"

subsection \<open>Reading and replacing the document\<close>

definition read_queue_doc :: "queue_file \<Rightarrow> viz_error + json" where
  "read_queue_doc f =
     (case f of
        Absent \<Rightarrow> Inl MissingFile
      | Corrupt \<Rightarrow> Inl BadJson
      | Content raw \<Rightarrow>
          (case raw of
             JArr items \<Rightarrow> Inr (JObj [(''queue'', JArr items)])
           | JObj d \<Rightarrow> Inr (if jhas raw ''queue'' then raw else jset ''queue'' (JArr []) raw)
           | _ \<Rightarrow> Inl QueueWriteError))"

text \<open>Iterating over the value of \<open>queue\<close>.\<close>

definition py_iter :: "json \<Rightarrow> viz_error + json list" where
  "py_iter v =
     (case v of
        JArr xs \<Rightarrow> Inr xs
      | JStr s \<Rightarrow> Inr (map JStr (code_points s))
      | JObj d \<Rightarrow> Inr (map JStr (dkeys d))
      | _ \<Rightarrow> Inl TypeMismatch)"

text \<open>One attempt of \<open>os.replace\<close>: done, an AV lock, another denial, another failure.\<close>

datatype replace_result = Replaced | AvLocked | DeniedOther | FailedOther

fun replace_loop :: "(nat \<Rightarrow> replace_result) \<Rightarrow> nat \<Rightarrow> nat \<Rightarrow> viz_error + unit" where
  "replace_loop attempt n 0 = Inl QueueWriteError"
| "replace_loop attempt n (Suc left) =
     (case attempt n of
        Replaced \<Rightarrow> Inr ()
      | AvLocked \<Rightarrow> replace_loop attempt (Suc n) left
      | DeniedOther \<Rightarrow> Inl PermissionDenied
      | FailedOther \<Rightarrow> Inl OtherFailure)"

definition atomic_write_text ::
  "(nat \<Rightarrow> replace_result) \<Rightarrow> json \<Rightarrow> queue_file \<Rightarrow> (viz_error + unit) \<times> queue_file" where
  "atomic_write_text attempt doc f =
     (case replace_loop attempt 1 3 of
        Inl x \<Rightarrow> (Inl x, f)
      | Inr _ \<Rightarrow> (Inr (), Content doc))"

text \<open>The dictionary comprehension: a repeated id keeps the last entry.\<close>

fun by_id :: "json list \<Rightarrow> (string, json) dict \<Rightarrow> (string, json) dict" where
  "by_id [] acc = acc"
| "by_id (e # es) acc = by_id es (dset (str_val (jget e ''id'')) e acc)"

definition viz_reorder_queue ::
  "(nat \<Rightarrow> replace_result) \<Rightarrow> string list \<Rightarrow> queue_file \<Rightarrow> (viz_error + json) \<times> queue_file" where
  "viz_reorder_queue attempt new_order f =
     (case read_queue_doc f of
        Inl x \<Rightarrow> (Inl x, f)
      | Inr doc \<Rightarrow>
          (case py_iter (jget doc ''queue'') of
             Inl x \<Rightarrow> (Inl x, f)
           | Inr items \<Rightarrow>
               if \<not> list_all is_obj items then (Inl NoGetMethod, f)
               else
                 (case validate_permutation (map (\<lambda>e. jget e ''id'') items) new_order of
                    Inl x \<Rightarrow> (Inl x, f)
                  | Inr _ \<Rightarrow>
                      let doc' = jset ''queue'' (JArr (map (\<lambda>i. the (dget (by_id items []) i)) new_order)) doc
                      in (case atomic_write_text attempt doc' f of
                            (Inl x, f') \<Rightarrow> (Inl x, f')
                          | (Inr _, f') \<Rightarrow> (Inr doc', f')))))"

subsection \<open>Facts\<close>

lemma validate_permutation_iff:
  "validate_permutation existing posted = Inr () \<longleftrightarrow>
     distinct posted \<and> (\<exists>ids. existing = map JStr ids \<and> mset ids = mset posted)"
proof -
  have len: "length posted = card (set posted) \<longleftrightarrow> distinct posted"
    by (metis card_distinct distinct_card)
  have strs: "list_all is_str existing \<longleftrightarrow> existing = map JStr (map str_val existing)"
  proof (induction existing)
    case (Cons e es)
    then show ?case by (cases e) auto
  qed simp
  have sorts: "sort posted = sort ids \<longleftrightarrow> mset ids = mset posted" for ids :: "string list"
    by (metis mset_sort properties_for_sort sorted_sort)
  have val: "map str_val (map JStr ids) = ids" for ids by (induction ids) auto
  have "validate_permutation existing posted = Inr () \<longleftrightarrow> distinct posted \<and>
      existing = map JStr (map str_val existing) \<and> mset (map str_val existing) = mset posted"
    unfolding validate_permutation_def len sorts strs by auto
  also have "\<dots> \<longleftrightarrow> distinct posted \<and> (\<exists>ids. existing = map JStr ids \<and> mset ids = mset posted)"
    using val by metis
  finally show ?thesis .
qed

lemma by_id_lookup:
  "distinct (map (\<lambda>e. str_val (jget e ''id'')) items) \<Longrightarrow>
    dget (by_id items acc) i =
      (case find (\<lambda>e. str_val (jget e ''id'') = i) items of None \<Rightarrow> dget acc i | Some e \<Rightarrow> Some e)"
proof (induction items arbitrary: acc)
  case Nil
  then show ?case by simp
next
  case (Cons e es)
  have "str_val (jget e ''id'') = i \<Longrightarrow> find (\<lambda>e. str_val (jget e ''id'') = i) es = None"
  proof -
    have "str_val (jget e ''id'') \<notin> (\<lambda>e. str_val (jget e ''id'')) ` set es" using Cons.prems by simp
    then have "\<not> (\<exists>x. x \<in> set es \<and> str_val (jget x ''id'') = str_val (jget e ''id''))"
      by (metis image_eqI)
    then show "str_val (jget e ''id'') = i \<Longrightarrow> find (\<lambda>e. str_val (jget e ''id'') = i) es = None"
      by (simp add: find_None_iff)
  qed
  with Cons show ?case by (auto simp: dict_simps split: option.splits)
qed

lemma replace_loop_cases:
  "replace_loop attempt n left = Inr () \<longleftrightarrow>
    (\<exists>k<left. attempt (n + k) = Replaced \<and> (\<forall>j<k. attempt (n + j) = AvLocked))"
proof (induction left arbitrary: n)
  case 0
  then show ?case by simp
next
  case (Suc left)
  have "(\<exists>k<Suc left. attempt (n + k) = Replaced \<and> (\<forall>j<k. attempt (n + j) = AvLocked)) \<longleftrightarrow>
     attempt n = Replaced \<or> (attempt n = AvLocked \<and>
       (\<exists>k<left. attempt (Suc n + k) = Replaced \<and> (\<forall>j<k. attempt (Suc n + j) = AvLocked)))"
    (is "?l \<longleftrightarrow> ?r")
  proof
    assume ?l
    then obtain k where k: "k < Suc left" "attempt (n + k) = Replaced" "\<forall>j<k. attempt (n + j) = AvLocked"
      by blast
    show ?r
    proof (cases k)
      case 0
      with k show ?thesis by simp
    next
      case (Suc k')
      with k(3) have "attempt n = AvLocked" "\<forall>j<k'. attempt (Suc n + j) = AvLocked"
        using k(3) [rule_format, of 0] k(3) [rule_format, of "Suc _"] by auto
      with k Suc show ?thesis by auto
    qed
  next
    assume ?r
    then show ?l
    proof (elim disjE conjE exE)
      fix k assume k: "attempt n = AvLocked" "k < left" "attempt (Suc n + k) = Replaced"
        "\<forall>j<k. attempt (Suc n + j) = AvLocked"
      have "attempt (n + j) = AvLocked" if "j < Suc k" for j
        using that k(1,4) by (cases j) auto
      with k(2,3) show ?l by (intro exI [of _ "Suc k"]) auto
    qed auto
  qed
  with Suc.IH [of "Suc n"] show ?case by (auto split: replace_result.splits)
qed

subsection \<open>What a posted reorder promises\<close>

lemma posted_entries:
  assumes "map (\<lambda>e. jget e ''id'') items = map JStr ids" and "mset ids = mset new_order" and "distinct new_order"
  shows "map (\<lambda>e. jget e ''id'') (map (\<lambda>i. the (dget (by_id items []) i)) new_order) = map JStr new_order"
    and "mset (map (\<lambda>i. the (dget (by_id items []) i)) new_order) = mset items"
proof -
  let ?id = "\<lambda>e. str_val (jget e ''id'')" and ?get = "\<lambda>i. the (dget (by_id items []) i)"
  have ids: "map ?id items = ids"
  proof -
    have "map ?id items = map str_val (map (\<lambda>e. jget e ''id'') items)" by simp
    also have "\<dots> = ids" unfolding assms(1) by (induction ids) auto
    finally show ?thesis .
  qed
  then have dist: "distinct (map ?id items)" using assms(2,3) by (metis mset_eq_imp_distinct_iff)
  have get: "?get (?id e) = e" if "e \<in> set items" for e
  proof -
    have "find (\<lambda>x. ?id x = ?id e) items = Some e"
      using dist that by (induction items) (auto simp: image_iff)
    then show ?thesis using by_id_lookup [OF dist, of "[]" "?id e"] by simp
  qed
  have restored: "map ?get ids = items"
    unfolding ids [symmetric] using get by (simp add: map_idI)
  show "mset (map ?get new_order) = mset items"
    using assms(2) restored by (metis mset_map)
  have "jget (?get i) ''id'' = JStr i" if "i \<in> set new_order" for i
  proof -
    have "i \<in> set ids" using that assms(2) by (metis mset_eq_setD)
    then obtain e where e: "e \<in> set items" "i = ?id e" using ids by auto
    have "jget e ''id'' \<in> set (map JStr ids)" using e(1) assms(1) by (metis image_eqI list.set_map)
    then show ?thesis using get [OF e(1)] e(2) by auto
  qed
  then show "map (\<lambda>e. jget e ''id'') (map ?get new_order) = map JStr new_order" by simp
qed

text \<open>
  The visualizer's write is all or nothing: \<open>reorder_queue\<close> either raises and leaves the file
  as it was, or writes a document whose queue consists of the same entries, in exactly the posted
  order of ids, with every other key as it was; and it can only do the latter when the posted
  order is a permutation of the queued ids without repetition and one of at most three attempts to
  replace the file went through after nothing but AV locks.
\<close>

theorem viz_reorder_all_or_nothing:
  "case viz_reorder_queue attempt new_order f of
     (Inl x, f') \<Rightarrow> f' = f
   | (Inr doc', f') \<Rightarrow> f' = Content doc' \<and> distinct new_order \<and>
       (\<exists>k<3. attempt (1 + k) = Replaced \<and> (\<forall>j<k. attempt (1 + j) = AvLocked)) \<and>
       (\<exists>doc items items'. read_queue_doc f = Inr doc \<and> py_iter (jget doc ''queue'') = Inr items \<and>
          jget doc' ''queue'' = JArr items' \<and> mset items' = mset items \<and>
          map (\<lambda>e. jget e ''id'') items' = map JStr new_order \<and>
          (\<forall>k. k \<noteq> ''queue'' \<longrightarrow> jget doc' k = jget doc k))"
proof -
  obtain r f' where r: "viz_reorder_queue attempt new_order f = (r, f')" by fastforce
  show ?thesis
  proof (cases r)
    case (Inl x)
    with r have "f' = f"
      by (auto simp: viz_reorder_queue_def atomic_write_text_def Let_def
          split: sum.splits prod.splits if_splits)
    with r Inl show ?thesis by simp
  next
    case (Inr doc')
    let ?entries = "\<lambda>items. map (\<lambda>i. the (dget (by_id items []) i)) new_order"
    from r Inr obtain doc items where d: "read_queue_doc f = Inr doc" "py_iter (jget doc ''queue'') = Inr items"
      "validate_permutation (map (\<lambda>e. jget e ''id'') items) new_order = Inr ()"
      "doc' = jset ''queue'' (JArr (?entries items)) doc" "replace_loop attempt 1 3 = Inr ()" "f' = Content doc'"
      by (auto simp: viz_reorder_queue_def atomic_write_text_def Let_def
          split: sum.splits prod.splits if_splits)
    from d(3) obtain ids where ids: "distinct new_order" "map (\<lambda>e. jget e ''id'') items = map JStr ids"
      "mset ids = mset new_order"
      unfolding validate_permutation_iff by blast
    from d(5) have "\<exists>k<3. attempt (1 + k) = Replaced \<and> (\<forall>j<k. attempt (1 + j) = AvLocked)"
      unfolding replace_loop_cases .
    with r Inr d ids(1) posted_entries [OF ids(2,3,1)] show ?thesis
      by (auto simp: dict_simps)
  qed
qed

theorem viz_reorder_all_or_nothing_witness:
  "\<exists>doc' f'. viz_reorder_queue (\<lambda>n. if n < 3 then AvLocked else Replaced) [''c'', ''a'', ''b''] sample_queue = (Inr doc', f') \<and>
     f' = Content doc' \<and> jget doc' ''version'' = JInt 2"
proof -
  let ?r = "viz_reorder_queue (\<lambda>n. if n < 3 then AvLocked else Replaced) [''c'', ''a'', ''b''] sample_queue"
  have perm: "validate_permutation [JStr ''a'', JStr ''b'', JStr ''c''] [''c'', ''a'', ''b''] = Inr ()"
    unfolding validate_permutation_iff by (auto intro!: exI [of _ "[''a'', ''b'', ''c'']"])
  have "\<exists>doc' f'. ?r = (Inr doc', f')"
    by (simp add: viz_reorder_queue_def read_queue_doc_def sample_queue_def py_iter_def jget_def jhas_def
        dep_entry_def perm atomic_write_text_def Let_def numeral_3_eq_3)
  then obtain doc' f' where run: "?r = (Inr doc', f')" by blast
  moreover have "read_queue_doc sample_queue = Inr d \<Longrightarrow> jget d ''version'' = JInt 2" for d
    by (auto simp: read_queue_doc_def sample_queue_def jget_def jhas_def)
  ultimately show ?thesis
    using viz_reorder_all_or_nothing [where attempt = "\<lambda>n. if n < 3 then AvLocked else Replaced"
        and new_order = "[''c'', ''a'', ''b'']" and f = sample_queue]
    by auto
qed

end
