(* ===== verification/Viz_Cache.thy ===== *)
theory Viz_Cache
  imports Prelude
begin

text \<open>
  The read-through cache of \<^verbatim>\<open>user/scripts/pipeline_visualizer/cache.py\<close> under concurrent readers: a
  step relation whose steps are the reads and writes of \<open>TtlCache.get\<close> and \<open>invalidate\<close> between
  which other threads may run. The clock is monotonic; \<open>expires_at = None\<close> is minus infinity.
\<close>

subsection \<open>State and steps\<close>

text \<open>
  Where a thread is: outside, before the first freshness test, about to return the cached value,
  waiting for the lock, holding it before the second test, in the producer, between the two
  assignments after it; and how the last call ended.
\<close>

datatype 'v phase =
    Outside
  | Testing
  | Hitting
  | Waiting
  | Rechecking
  | Producing
  | Storing 'v
  | Returned "'v option"
  | Raised

record 'v cache =
  cached :: "'v option"
  expires_at :: "int option"
  clock :: int
  holder :: "nat option"
  phases :: "nat \<Rightarrow> 'v phase"
  started :: nat

definition is_fresh :: "'v cache \<Rightarrow> bool" where
  "is_fresh s = (case expires_at s of None \<Rightarrow> False | Some t \<Rightarrow> clock s < t)"

definition goto :: "nat \<Rightarrow> 'v phase \<Rightarrow> 'v cache \<Rightarrow> 'v cache" where
  "goto p ph s = s\<lparr>phases := (phases s)(p := ph)\<rparr>"

definition finished :: "'v phase \<Rightarrow> bool" where
  "finished ph \<longleftrightarrow> (case ph of Outside \<Rightarrow> True | Returned v \<Rightarrow> True | Raised \<Rightarrow> True | _ \<Rightarrow> False)"

inductive get_step :: "int \<Rightarrow> 'v cache \<Rightarrow> 'v cache \<Rightarrow> bool" for ttl where
  tick: "0 \<le> d \<Longrightarrow> get_step ttl s (s\<lparr>clock := clock s + d\<rparr>)"
| call: "finished (phases s p) \<Longrightarrow> get_step ttl s (goto p Testing s)"
| hit: "phases s p = Testing \<Longrightarrow> is_fresh s \<Longrightarrow> get_step ttl s (goto p Hitting s)"
| read: "phases s p = Hitting \<Longrightarrow> get_step ttl s (goto p (Returned (cached s)) s)"
| miss: "phases s p = Testing \<Longrightarrow> \<not> is_fresh s \<Longrightarrow> get_step ttl s (goto p Waiting s)"
| enter: "phases s p = Waiting \<Longrightarrow> holder s = None \<Longrightarrow>
    get_step ttl s ((goto p Rechecking s)\<lparr>holder := Some p\<rparr>)"
| refreshed: "phases s p = Rechecking \<Longrightarrow> is_fresh s \<Longrightarrow>
    get_step ttl s ((goto p (Returned (cached s)) s)\<lparr>holder := None\<rparr>)"
| produce: "phases s p = Rechecking \<Longrightarrow> \<not> is_fresh s \<Longrightarrow>
    get_step ttl s ((goto p Producing s)\<lparr>started := Suc (started s)\<rparr>)"
| assign: "phases s p = Producing \<Longrightarrow> get_step ttl s ((goto p (Storing v) s)\<lparr>cached := Some v\<rparr>)"
| extend: "phases s p = Storing v \<Longrightarrow>
    get_step ttl s ((goto p (Returned (Some v)) s)\<lparr>expires_at := Some (clock s + ttl), holder := None\<rparr>)"
| raise: "phases s p = Producing \<Longrightarrow> get_step ttl s ((goto p Raised s)\<lparr>holder := None\<rparr>)"

inductive cache_step :: "int \<Rightarrow> 'v cache \<Rightarrow> 'v cache \<Rightarrow> bool" for ttl where
  get: "get_step ttl s s' \<Longrightarrow> cache_step ttl s s'"
| invalidate: "holder s = None \<Longrightarrow> cache_step ttl s (s\<lparr>expires_at := None\<rparr>)"

definition initial_cache :: "int \<Rightarrow> 'v cache" where
  "initial_cache now = \<lparr>cached = None, expires_at = None, clock = now, holder = None,
     phases = (\<lambda>p. Outside), started = 0\<rparr>"

inductive cache_reach :: "int \<Rightarrow> int \<Rightarrow> 'v cache \<Rightarrow> bool" for ttl now where
  start: "cache_reach ttl now (initial_cache now)"
| more: "cache_reach ttl now s \<Longrightarrow> cache_step ttl s s' \<Longrightarrow> cache_reach ttl now s'"

inductive_cases cache_stepE: "cache_step ttl s s'"

subsection \<open>Invariant\<close>

definition in_lock :: "'v phase \<Rightarrow> bool" where
  "in_lock ph \<longleftrightarrow> (case ph of Rechecking \<Rightarrow> True | Producing \<Rightarrow> True | Storing v \<Rightarrow> True | _ \<Rightarrow> False)"

definition busy :: "'v phase \<Rightarrow> bool" where
  "busy ph \<longleftrightarrow> (case ph of Producing \<Rightarrow> True | Storing v \<Rightarrow> True | _ \<Rightarrow> False)"

definition cache_inv :: "'v cache \<Rightarrow> bool" where
  "cache_inv s \<longleftrightarrow>
     (\<forall>p. in_lock (phases s p) \<longleftrightarrow> holder s = Some p) \<and>
     (\<forall>p. busy (phases s p) \<longrightarrow> \<not> is_fresh s) \<and>
     (\<forall>p v. phases s p = Storing v \<longrightarrow> cached s = Some v) \<and>
     (expires_at s \<noteq> None \<longrightarrow> cached s \<noteq> None) \<and>
     (\<forall>p. phases s p = Hitting \<longrightarrow> cached s \<noteq> None) \<and>
     (\<forall>p. phases s p \<noteq> Returned None)"

lemma is_fresh_frame [simp]:
  "is_fresh (s\<lparr>phases := f\<rparr>) = is_fresh s" "is_fresh (s\<lparr>holder := h\<rparr>) = is_fresh s"
  "is_fresh (s\<lparr>started := n\<rparr>) = is_fresh s" "is_fresh (s\<lparr>cached := c\<rparr>) = is_fresh s"
  by (simp_all add: is_fresh_def split: option.splits)

lemmas phase_simps = goto_def finished_def

lemma cache_inv_initial: "cache_inv (initial_cache now)"
  by (simp add: cache_inv_def initial_cache_def in_lock_def busy_def)

lemma cache_inv_phase:
  assumes "cache_inv s"
  shows "in_lock (phases s p) \<longleftrightarrow> holder s = Some p" "busy (phases s p) \<Longrightarrow> \<not> is_fresh s"
    "phases s p = Storing v \<Longrightarrow> cached s = Some v" "expires_at s = Some t \<Longrightarrow> cached s \<noteq> None"
    "phases s p = Hitting \<Longrightarrow> cached s \<noteq> None" "phases s p \<noteq> Returned None"
    "is_fresh s \<Longrightarrow> cached s \<noteq> None"
  using assms by (auto simp: cache_inv_def is_fresh_def split: option.splits)

lemma busy_in_lock: "busy ph \<Longrightarrow> in_lock ph"
  by (simp add: busy_def in_lock_def split: phase.splits)

lemma phase_lock [simp]:
  "in_lock Rechecking" "in_lock Producing" "in_lock (Storing v)" "\<not> in_lock Outside" "\<not> in_lock Testing"
  "\<not> in_lock Hitting" "\<not> in_lock Waiting" "\<not> in_lock (Returned r)" "\<not> in_lock Raised"
  "busy Producing" "busy (Storing v)" "\<not> busy Rechecking" "\<not> busy Outside" "\<not> busy Testing"
  "\<not> busy Hitting" "\<not> busy Waiting" "\<not> busy (Returned r)" "\<not> busy Raised"
  by (simp_all add: in_lock_def busy_def)

text \<open>One thread moves to phase \<open>ph\<close>; the others keep theirs.\<close>

lemma cache_inv_move:
  assumes inv: "cache_inv s"
    and "phases s' = (phases s)(p := ph)"
    and "in_lock ph \<longleftrightarrow> holder s' = Some p"
    and "\<And>q. q \<noteq> p \<Longrightarrow> holder s' = Some q \<longleftrightarrow> holder s = Some q"
    and "busy ph \<Longrightarrow> \<not> is_fresh s'"
    and "\<And>q. q \<noteq> p \<Longrightarrow> holder s = Some q \<Longrightarrow> is_fresh s' = is_fresh s \<and> cached s' = cached s"
    and "\<And>v. ph = Storing v \<Longrightarrow> cached s' = Some v"
    and "cached s \<noteq> None \<or> expires_at s' \<noteq> None \<Longrightarrow> cached s' \<noteq> None"
    and "ph = Hitting \<Longrightarrow> cached s' \<noteq> None" and "ph \<noteq> Returned None"
  shows "cache_inv s'"
proof -
  note old = cache_inv_phase [OF inv]
  have "in_lock (phases s' q) \<longleftrightarrow> holder s' = Some q" for q
    using assms(2-4) old(1) [of q] by (cases "q = p") auto
  moreover have "\<not> is_fresh s'" if "busy (phases s' q)" for q
  proof (cases "q = p")
    case False
    with that assms(2) have "busy (phases s q)" by simp
    with False assms(6) [of q] old(1,2) [of q] busy_in_lock show ?thesis by blast
  qed (use that assms(2,5) in auto)
  moreover have "cached s' = Some v" if "phases s' q = Storing v" for q v
  proof (cases "q = p")
    case False
    with that assms(2) have "phases s q = Storing v" by simp
    with False assms(6) [of q] old(1,3) [of q] show ?thesis by simp
  qed (use that assms(2,7) in auto)
  moreover have "cached s' \<noteq> None" if "phases s' q = Hitting" for q
    using that assms(2,8,9) old(5) [of q] by (cases "q = p") auto
  moreover have "phases s' q \<noteq> Returned None" for q
    using assms(2,10) old(6) [of q] by (cases "q = p") auto
  ultimately show ?thesis using assms(8) unfolding cache_inv_def by blast
qed

lemma cache_inv_get:
  assumes "get_step ttl s s'" and inv: "cache_inv s"
  shows "cache_inv s'"
proof -
  note old = cache_inv_phase [OF inv]
  from assms(1) show ?thesis
  proof (cases rule: get_step.cases)
    case (tick d)
    with inv show ?thesis by (auto simp: cache_inv_def is_fresh_def split: option.splits)
  next
    case (call p)
    then have "\<not> in_lock (phases s p)" by (auto simp: finished_def split: phase.splits)
    with old(1) [of p] have "holder s \<noteq> Some p" by simp
    with call old(2-7) show ?thesis
      by (intro cache_inv_move [OF inv, of _ p]) (auto simp: goto_def)
  next
    case (hit p)
    with old(1) [of p] old(2-7) show ?thesis
      by (intro cache_inv_move [OF inv, of _ p]) (auto simp: phase_simps)
  next
    case (read p)
    with old(1) [of p] old(2-7) show ?thesis
      by (intro cache_inv_move [OF inv, of _ p]) (auto simp: phase_simps)
  next
    case (miss p)
    with old(1) [of p] old(2-7) show ?thesis
      by (intro cache_inv_move [OF inv, of _ p]) (auto simp: phase_simps)
  next
    case (enter p)
    with old(1) [of p] old(2-7) show ?thesis
      by (intro cache_inv_move [OF inv, of _ p]) (auto simp: phase_simps)
  next
    case (refreshed p)
    with old(1) [of p] old(2-7) show ?thesis
      by (intro cache_inv_move [OF inv, of _ p]) (auto simp: phase_simps)
  next
    case (produce p)
    with old(1) [of p] old(2-7) show ?thesis
      by (intro cache_inv_move [OF inv, of _ p]) (auto simp: phase_simps)
  next
    case (assign p v)
    with old(1,2) [of p] old(3-7) show ?thesis
      by (intro cache_inv_move [OF inv, of _ p]) (auto simp: phase_simps)
  next
    case (extend p v)
    with old(1) [of p] old(2-7) show ?thesis
      by (intro cache_inv_move [OF inv, of _ p]) (auto simp: phase_simps)
  next
    case (raise p)
    with old(1) [of p] old(2-7) show ?thesis
      by (intro cache_inv_move [OF inv, of _ p]) (auto simp: phase_simps)
  qed
qed

lemma cache_inv_step: "cache_step ttl s s' \<Longrightarrow> cache_inv s \<Longrightarrow> cache_inv s'"
  by (erule cache_stepE) (simp_all add: cache_inv_get, auto simp: cache_inv_def is_fresh_def)

lemma cache_reach_inv: "cache_reach ttl now s \<Longrightarrow> cache_inv s"
  by (induction rule: cache_reach.induct) (simp_all add: cache_inv_initial cache_inv_step)

text \<open>While the value is fresh, no step but an invalidation starts the producer or moves the expiry.\<close>

lemma fresh_get_step:
  assumes "get_step ttl s s'" and "cache_inv s" and "is_fresh s"
  shows "started s' = started s \<and> expires_at s' = expires_at s \<and> cached s' = cached s \<and> clock s \<le> clock s'"
proof -
  have "phases s p \<noteq> Producing" "phases s p \<noteq> Storing v" for p v
    using assms(2,3) by (auto simp: cache_inv_def busy_def split: phase.splits)
  with assms(1,3) show ?thesis
    by (cases rule: get_step.cases) (auto simp: goto_def)
qed

lemma get_step_clock: "get_step ttl s s' \<Longrightarrow> clock s \<le> clock s'"
  by (cases rule: get_step.cases) (auto simp: goto_def)

lemma clock_mono: "(get_step ttl)\<^sup>*\<^sup>* s s' \<Longrightarrow> clock s \<le> clock s'"
  by (induction rule: rtranclp_induct) (auto dest: get_step_clock)

subsection \<open>What the cache promises\<close>

text \<open>
  C40. One probe per window: in every reachable state at most one thread is in the producer, every
  completed \<open>get\<close> returned a produced value and never the initial \<open>None\<close>, and, as long as nobody
  invalidates, no matter how many threads call \<open>get\<close> in between, the producer is not started again
  and the same value is served until the current one expires.
\<close>

theorem cache_debounces_probe:
  assumes "cache_reach ttl now s"
  shows "(\<forall>p q. phases s p = Producing \<longrightarrow> phases s q = Producing \<longrightarrow> p = q) \<and>
    (\<forall>p. phases s p \<noteq> Returned None) \<and>
    (\<forall>s' t. (get_step ttl)\<^sup>*\<^sup>* s s' \<longrightarrow> expires_at s = Some t \<longrightarrow> clock s' < t \<longrightarrow>
       started s' = started s \<and> cached s' = cached s \<and> cached s \<noteq> None)"
proof (intro conjI allI impI)
  note inv = cache_reach_inv [OF assms]
  show "phases s p = Producing \<Longrightarrow> phases s q = Producing \<Longrightarrow> p = q" for p q
  proof -
    assume "phases s p = Producing" "phases s q = Producing"
    then have "in_lock (phases s p)" "in_lock (phases s q)" by (simp_all add: in_lock_def)
    with inv show "p = q" by (simp add: cache_inv_def)
  qed
  show "phases s p \<noteq> Returned None" for p using inv by (simp add: cache_inv_def)
  fix s' t
  assume run: "(get_step ttl)\<^sup>*\<^sup>* s s'" and t: "expires_at s = Some t" and lt: "clock s' < t"
  have "cache_inv s' \<and> started s' = started s \<and> cached s' = cached s \<and> expires_at s' = Some t"
    using run lt
  proof (induction rule: rtranclp_induct)
    case base
    with inv t show ?case by simp
  next
    case (step y z)
    have "clock y < t" using get_step_clock [OF step(2)] step(4) by simp
    with step(3) have y: "cache_inv y" "started y = started s" "cached y = cached s" "expires_at y = Some t"
      by simp_all
    with \<open>clock y < t\<close> have "is_fresh y" by (simp add: is_fresh_def)
    with fresh_get_step [OF step(2) y(1)] cache_inv_get [OF step(2) y(1)] y show ?case by simp
  qed
  with inv t show "started s' = started s" "cached s' = cached s" "cached s \<noteq> None"
    by (auto simp: cache_inv_def)
qed

text \<open>A first reader fills the cache, a second one is served from it.\<close>

definition served_cache :: "int cache" where
  "served_cache = \<lparr>cached = Some 7, expires_at = Some 2, clock = 0, holder = None,
     phases = (\<lambda>p. if p = 1 then Returned (Some 7) else Outside), started = 1\<rparr>"

lemma served_cache_reach: "cache_reach 2 0 served_cache"
proof -
  let ?s = "initial_cache 0 :: int cache"
  let ?upd = "\<lambda>ph s. s\<lparr>phases := (phases s)(1 := ph)\<rparr>"
  let ?s1 = "goto 1 Testing ?s" and ?s2 = "goto 1 Waiting (goto 1 Testing ?s)"
  let ?s3 = "(goto 1 Rechecking ?s2)\<lparr>holder := Some 1\<rparr>"
  let ?s4 = "(goto 1 Producing ?s3)\<lparr>started := Suc (started ?s3)\<rparr>"
  let ?s5 = "(goto 1 (Storing 7) ?s4)\<lparr>cached := Some 7\<rparr>"
  let ?s6 = "(goto 1 (Returned (Some 7)) ?s5)\<lparr>expires_at := Some (clock ?s5 + 2), holder := None\<rparr>"
  have "get_step 2 ?s ?s1" by (rule call) (simp add: initial_cache_def finished_def)
  moreover have "get_step 2 ?s1 ?s2" by (rule miss) (simp_all add: initial_cache_def goto_def is_fresh_def)
  moreover have "get_step 2 ?s2 ?s3" by (rule enter) (simp_all add: initial_cache_def goto_def)
  moreover have "get_step 2 ?s3 ?s4" by (rule produce) (simp_all add: initial_cache_def goto_def is_fresh_def)
  moreover have "get_step 2 ?s4 ?s5" by (rule assign) (simp add: initial_cache_def goto_def)
  moreover have "get_step 2 ?s5 ?s6" by (rule extend) (simp add: initial_cache_def goto_def)
  ultimately have "cache_reach 2 0 ?s6"
    by (meson cache_reach.start cache_reach.more cache_step.get)
  moreover have "?s6 = served_cache"
    by (auto simp: served_cache_def initial_cache_def goto_def fun_eq_iff)
  ultimately show ?thesis by (simp only:)
qed

theorem cache_debounces_probe_witness:
  "\<exists>s'. (get_step 2)\<^sup>*\<^sup>* served_cache s' \<and> phases s' 5 = Testing \<and> started s' = 1 \<and> cached s' = Some 7"
proof -
  let ?s' = "goto 5 Testing (served_cache\<lparr>clock := clock served_cache + 1\<rparr>)"
  have "get_step 2 served_cache (served_cache\<lparr>clock := clock served_cache + 1\<rparr>)" by (rule tick) simp
  moreover have "get_step 2 (served_cache\<lparr>clock := clock served_cache + 1\<rparr>) ?s'"
    by (rule call) (simp add: served_cache_def finished_def)
  ultimately have run: "(get_step 2)\<^sup>*\<^sup>* served_cache ?s'" by simp
  moreover have "clock ?s' < 2" "expires_at served_cache = Some 2" "started served_cache = 1"
    "cached served_cache = Some 7" "phases ?s' 5 = Testing"
    by (simp_all add: served_cache_def goto_def)
  ultimately show ?thesis using cache_debounces_probe [OF served_cache_reach] by metis
qed

end
