(* ===== verification/Py_Regex.thy ===== *)
theory Py_Regex
  imports Py_Json
begin

text \<open>
  The regular expressions of Python's \<open>re\<close> that the document readers use, as a data type with an
  executable matcher. A match of an expression consumes a prefix of the input; \<open>rests r (p, s)\<close> lists
  what can be left of \<open>s\<close>, where \<open>p\<close> is the character before \<open>s\<close> (needed by \<open>\b\<close>). Only whether a
  match exists is read from it, so greediness does not matter. The characters of \<open>\w\<close> are the
  ASCII letters, the digits and the underscore (Python also has the letters of other scripts); \<open>\s\<close> is
  that of \<^theory_text>\<open>Py_Json\<close>.
\<close>

type_synonym cursor = "char option \<times> string"

datatype rx =
    Lit string           \<comment> \<open>a literal\<close>
  | LitI string          \<comment> \<open>a literal in lower case, under \<open>re.IGNORECASE\<close>\<close>
  | One "char \<Rightarrow> bool"  \<comment> \<open>a character class\<close>
  | White                \<comment> \<open>\<open>\s\<close>\<close>
  | Bound                \<comment> \<open>\<open>\b\<close>\<close>
  | Finish               \<comment> \<open>the end of the line\<close>
  | Seq rx rx
  | Alt rx rx
  | Star rx

definition word_char :: "char \<Rightarrow> bool" where
  "word_char c \<longleftrightarrow> of_char c \<in> {48..57::nat} \<or> of_char c \<in> {65..90::nat} \<or> of_char c \<in> {97..122::nat} \<or>
     c = CHR ''_''"

text \<open>Advance over the first \<open>n\<close> bytes.\<close>

definition advance :: "nat \<Rightarrow> cursor \<Rightarrow> cursor" where
  "advance n k = (if n = 0 then k else (Some (snd k ! (n - 1)), drop n (snd k)))"

definition at_bound :: "cursor \<Rightarrow> bool" where
  "at_bound k = ((case fst k of None \<Rightarrow> False | Some c \<Rightarrow> word_char c) \<noteq>
                 (case snd k of [] \<Rightarrow> False | c # cs \<Rightarrow> word_char c))"

fun repeat_rx :: "(cursor \<Rightarrow> cursor list) \<Rightarrow> nat \<Rightarrow> cursor \<Rightarrow> cursor list" where
  "repeat_rx f 0 k = [k]"
| "repeat_rx f (Suc n) k =
     k # concat (map (repeat_rx f n) (filter (\<lambda>k'. length (snd k') < length (snd k)) (f k)))"

primrec rests :: "rx \<Rightarrow> cursor \<Rightarrow> cursor list" where
  "rests (Lit w) = (\<lambda>k. if prefix w (snd k) then [advance (length w) k] else [])"
| "rests (LitI w) = (\<lambda>k. if prefix w (to_lower (snd k)) then [advance (length w) k] else [])"
| "rests (One P) = (\<lambda>k. if snd k \<noteq> [] \<and> P (hd (snd k)) then [advance 1 k] else [])"
| "rests White = (\<lambda>k. if ws_head wide_ws (snd k) = 0 then [] else [advance (ws_head wide_ws (snd k)) k])"
| "rests Bound = (\<lambda>k. if at_bound k then [k] else [])"
| "rests Finish = (\<lambda>k. if snd k = [] then [k] else [])"
| "rests (Seq a b) = (\<lambda>k. concat (map (rests b) (rests a k)))"
| "rests (Alt a b) = (\<lambda>k. rests a k @ rests b k)"
| "rests (Star a) = (\<lambda>k. repeat_rx (rests a) (length (snd k)) k)"

text \<open>\<open>re.match\<close> at the start of a string, and \<open>re.search\<close>.\<close>

definition rx_match :: "rx \<Rightarrow> string \<Rightarrow> bool" where
  "rx_match r s \<longleftrightarrow> rests r (None, s) \<noteq> []"

fun rx_from :: "rx \<Rightarrow> char option \<Rightarrow> string \<Rightarrow> bool" where
  "rx_from r p [] = (rests r (p, []) \<noteq> [])"
| "rx_from r p (c # cs) = (rests r (p, c # cs) \<noteq> [] \<or> rx_from r (Some c) cs)"

definition rx_search :: "rx \<Rightarrow> string \<Rightarrow> bool" where
  "rx_search r s = rx_from r None s"

fun seqs :: "rx list \<Rightarrow> rx" where
  "seqs [] = Lit []"
| "seqs [r] = r"
| "seqs (r # rs) = Seq r (seqs rs)"

fun alts :: "rx list \<Rightarrow> rx" where
  "alts [] = One (\<lambda>_. False)"
| "alts [r] = r"
| "alts (r # rs) = Alt r (alts rs)"

definition Plus :: "rx \<Rightarrow> rx" where
  "Plus r = Seq r (Star r)"

definition Opt :: "rx \<Rightarrow> rx" where
  "Opt r = Alt r (Lit [])"

text \<open>Substring tests, and the first element for which a reader has a result.\<close>

fun contains :: "string \<Rightarrow> string \<Rightarrow> bool" where
  "contains w [] = (w = [])"
| "contains w (c # cs) = (prefix w (c # cs) \<or> contains w cs)"

fun first_match :: "('a \<Rightarrow> 'b option) \<Rightarrow> 'a list \<Rightarrow> 'b option" where
  "first_match f [] = None"
| "first_match f (x # xs) = (case f x of None \<Rightarrow> first_match f xs | Some y \<Rightarrow> Some y)"

subsection \<open>Facts\<close>

lemma contains_sublist: "contains w s \<longleftrightarrow> sublist w s"
  by (induction w s rule: contains.induct) (auto simp: sublist_Cons_right)

lemma repeat_rx_suffix:
  assumes "\<And>k k'. k' \<in> set (f k) \<Longrightarrow> suffix (snd k') (snd k)"
  shows "k' \<in> set (repeat_rx f n k) \<Longrightarrow> suffix (snd k') (snd k)"
proof (induction n arbitrary: k)
  case 0
  then show ?case by simp
next
  case (Suc n)
  show ?case
  proof (cases "k' = k")
    case False
    with Suc.prems obtain m where m: "m \<in> set (f k)" "k' \<in> set (repeat_rx f n m)" by auto
    show ?thesis by (rule suffix_order.trans [OF Suc.IH [OF m(2)] assms [OF m(1)]])
  qed simp
qed

lemma advance_suffix: "suffix (snd (advance n k)) (snd k)"
  by (simp add: advance_def suffix_drop)

text \<open>A match leaves a suffix of its input.\<close>

lemma rests_suffix: "k' \<in> set (rests r k) \<Longrightarrow> suffix (snd k') (snd k)"
proof (induction r arbitrary: k k')
  case (Seq a b)
  then obtain m where m: "m \<in> set (rests a k)" "k' \<in> set (rests b m)" by auto
  show ?case by (rule suffix_order.trans [OF Seq.IH(2) [OF m(2)] Seq.IH(1) [OF m(1)]])
next
  case (Star a)
  from Star.prems have "k' \<in> set (repeat_rx (rests a) (length (snd k)) k)" by simp
  then show ?case using repeat_rx_suffix [of "rests a", OF Star.IH] by blast
next
  case (Alt a b)
  from Alt.prems have "k' \<in> set (rests a k) \<or> k' \<in> set (rests b k)" by simp
  then show ?case using Alt.IH by blast
qed (simp_all add: advance_suffix split: if_splits)

lemma first_match_Some: "first_match f xs = Some y \<Longrightarrow> \<exists>x\<in>set xs. f x = Some y"
  by (induction xs) (auto split: option.splits)

lemma first_match_None: "first_match f xs = None \<longleftrightarrow> (\<forall>x\<in>set xs. f x = None)"
  by (induction xs) (auto split: option.splits)

end
