(* ===== verification/Item_Docs.thy ===== *)
theory Item_Docs
  imports Py_Regex Dep_Graph
begin

text \<open>
  The documents of a work item (\<^verbatim>\<open>user/scripts/lazy_core/docmodel.py\<close>, with the completion receipts
  of \<^verbatim>\<open>gates.py\<close> and the capability declarations of \<^verbatim>\<open>hostcaps.py\<close>). An item directory holds files by
  name; a sentinel is a Markdown file with a YAML block between two fences. The YAML loader is the
  parameter \<open>yaml\<close>, which gives \<open>None\<close> where PyYAML raises; its mappings have string keys, and a date is
  the string that \<open>str\<close> gives. \<open>None\<close> as the result of a reader is the end of the process: \<open>_die\<close> (exit
  status 2) or an exception that nothing catches. Reading a file that exists succeeds.
\<close>

type_synonym yaml = "string \<Rightarrow> json option"
type_synonym meta = "(string, json) dict"

record doc =
  doc_text :: string
  doc_mtime :: int

record item_dir =
  docs :: "(string, doc) dict"
  plan_docs :: "(string, doc) dict option"  \<comment> \<open>the subdirectory \<open>plans\<close>\<close>

type_synonym path = "string list"
type_synonym disk = "(path, item_dir) dict"

definition has_doc :: "item_dir \<Rightarrow> string \<Rightarrow> bool" where
  "has_doc d n = dhas (docs d) n"

definition put_doc :: "string \<Rightarrow> doc \<Rightarrow> item_dir \<Rightarrow> item_dir" where
  "put_doc n f d = d\<lparr>docs := dset n f (docs d)\<rparr>"

definition mget :: "meta \<Rightarrow> string \<Rightarrow> json" where
  "mget m k = (case dget m k of None \<Rightarrow> JNull | Some v \<Rightarrow> v)"

text \<open>\<open>str\<close> of a value; that of a container starts with a bracket, and no caller looks further.\<close>

fun py_str :: "json \<Rightarrow> string" where
  "py_str JNull = ''None''"
| "py_str (JBool b) = (if b then ''True'' else ''False'')"
| "py_str (JInt n) = decimal n"
| "py_str (JFloat r) = r"
| "py_str (JStr s) = s"
| "py_str (JArr xs) = ''[''"
| "py_str (JObj d) = ''{''"

subsection \<open>Frontmatter\<close>

definition fence :: string where
  "fence = ''---''"

definition newline :: string where
  "newline = bytes [10]"

text \<open>A line \<open>key: value\<close> without indentation.\<close>

definition key_char :: "char \<Rightarrow> bool" where
  "key_char c \<longleftrightarrow> id_char (hd (to_lower [c])) \<or> c = CHR ''_''"

definition quote_char :: char where
  "quote_char = char_of (39::nat)"

definition blank_char :: "char \<Rightarrow> bool" where
  "blank_char c \<longleftrightarrow> c = CHR '' '' \<or> c = char_of (9::nat)"

definition flat_scalar :: "string \<Rightarrow> (string \<times> string) option" where
  "flat_scalar line =
     (let key = takeWhile key_char line; r = dropWhile key_char line in
      if key \<noteq> [] \<and> prefix '':'' r \<and> tl r \<noteq> [] \<and> blank_char (hd (tl r))
      then Some (key, rstrip (dropWhile blank_char (tl r))) else None)"

definition special_start :: "char \<Rightarrow> bool" where
  "special_start c \<longleftrightarrow> c = quote_char \<or> c = char_of (34::nat) \<or> c \<in> set ''[{|>&*!#''"

definition quote_line :: "string \<Rightarrow> string" where
  "quote_line line =
     (case flat_scalar line of
        None \<Rightarrow> line
      | Some (key, v) \<Rightarrow>
          if v = [] \<or> special_start (hd v) then line
          else key @ '': '' @ [quote_char] @
               concat (map (\<lambda>c. if c = quote_char then [c, c] else [c]) v) @ [quote_char])"

definition yaml_load_tolerant :: "yaml \<Rightarrow> string \<Rightarrow> meta option" where
  "yaml_load_tolerant yaml s =
     (case yaml (join newline (map quote_line (splitlines s))) of
        Some (JObj d) \<Rightarrow> Some d | _ \<Rightarrow> None)"

text \<open>The sentinel reader; a file without a fence gives the empty mapping.\<close>

definition load_mapping :: "yaml \<Rightarrow> string \<Rightarrow> meta option" where
  "load_mapping yaml s =
     (case yaml s of
        None \<Rightarrow> yaml_load_tolerant yaml s
      | Some v \<Rightarrow> if \<not> truthy v then Some [] else if is_obj v then Some (Py_Json.fields v) else None)"

definition frontmatter :: "yaml \<Rightarrow> string \<Rightarrow> meta option" where
  "frontmatter yaml text =
     (case dropWhile (\<lambda>l. strip l = []) (splitlines text) of
        [] \<Rightarrow> Some []
      | l # rest \<Rightarrow>
          if strip l \<noteq> fence then Some []
          else (let block = takeWhile (\<lambda>l. strip l \<noteq> fence) rest in
                if block = rest then None else load_mapping yaml (join newline block)))"

text \<open>\<open>parse_sentinel(dir / name) or {}\<close>.\<close>

definition parse_sentinel :: "yaml \<Rightarrow> item_dir \<Rightarrow> string \<Rightarrow> meta option" where
  "parse_sentinel yaml d n =
     (case dget (docs d) n of None \<Rightarrow> Some [] | Some f \<Rightarrow> frontmatter yaml (doc_text f))"

subsection \<open>The specification\<close>

text \<open>The value after a bold label: \<open>^\*\*Label:\*\*\s*(.+?)\s*$\<close>.\<close>

definition bold_value :: "string \<Rightarrow> string \<Rightarrow> string option" where
  "bold_value label line =
     (if prefix label line \<and> length label < length line
      then Some (strip (drop (length label) line)) else None)"

definition spec_lines :: "item_dir \<Rightarrow> string list" where
  "spec_lines d = (case dget (docs d) ''SPEC.md'' of None \<Rightarrow> [] | Some f \<Rightarrow> splitlines (doc_text f))"

definition spec_status :: "item_dir \<Rightarrow> string option" where
  "spec_status d = first_match (bold_value ''**Status:**'') (spec_lines d)"

definition spec_fixed_annotation :: "item_dir \<Rightarrow> string option" where
  "spec_fixed_annotation d = first_match (bold_value ''**Fixed:**'') (spec_lines d)"

definition fix_heading_rx :: rx where
  "fix_heading_rx = seqs [Lit ''##'', Plus White, LitI ''fix'', Star White, Lit ''('', Star White,
     LitI ''implemented'', Bound, Star (One (\<lambda>_. True)), Lit '')'', Star White, Finish]"

definition spec_fix_implemented_heading :: "item_dir \<Rightarrow> string option" where
  "spec_fix_implemented_heading d =
     first_match (\<lambda>l. if rx_match fix_heading_rx l then Some (strip l) else None) (spec_lines d)"

subsection \<open>Receipts\<close>

definition has_completion_receipt :: "yaml \<Rightarrow> item_dir \<Rightarrow> string \<Rightarrow> bool option" where
  "has_completion_receipt yaml d n =
     (if \<not> has_doc d n then Some False
      else case parse_sentinel yaml d n of
          None \<Rightarrow> None
        | Some m \<Rightarrow>
            if m = [] then Some False
            else if \<not> hashable (mget m ''kind'') then None
            else if mget m ''kind'' \<notin> {JStr ''completed'', JStr ''fixed''} then Some False
            else Some (truthy (mget m ''provenance'') \<and> strip (py_str (mget m ''provenance'')) \<noteq> []))"

definition is_fixed_unreconciled :: "yaml \<Rightarrow> path \<Rightarrow> item_dir \<Rightarrow> bool option" where
  "is_fixed_unreconciled yaml p d =
     (if spec_status d \<in> {Some ''Fixed'', Some (''Won'' @ [quote_char] @ ''t-fix'')} then Some False
      else if spec_fixed_annotation d \<in> {None, Some []} \<and> spec_fix_implemented_heading d \<in> {None, Some []}
      then Some False
      else case has_completion_receipt yaml d ''FIXED.md'' of
          None \<Rightarrow> None
        | Some receipt \<Rightarrow> Some (\<not> receipt \<and> ''_archive'' \<notin> set p))"

text \<open>The roadmap's fallback: \<open>~~Name --- description~~ ... COMPLETE\<close> on one line.\<close>

definition not_tilde :: "char \<Rightarrow> bool" where
  "not_tilde c \<longleftrightarrow> c \<noteq> CHR ''~''"

definition struck_at :: "string \<Rightarrow> string option" where
  "struck_at s =
     (let t = takeWhile not_tilde (drop 2 s) in
      if prefix ''~~'' s \<and> t \<noteq> [] \<and> prefix ''~~'' (drop (2 + length t) s) then Some t else None)"

fun struck_text :: "string \<Rightarrow> string option" where
  "struck_text [] = None"
| "struck_text (c # cs) = (case struck_at (c # cs) of Some t \<Rightarrow> Some t | None \<Rightarrow> struck_text cs)"

definition row_struck_complete :: "string \<Rightarrow> string \<Rightarrow> bool" where
  "row_struck_complete n line =
     (contains ''COMPLETE'' line \<and>
      (case struck_text line of
         None \<Rightarrow> False
       | Some t \<Rightarrow> to_lower (strip (hd (py_split dash_sep t))) = to_lower n))"

definition roadmap_marks_complete :: "string \<Rightarrow> string \<Rightarrow> bool" where
  "roadmap_marks_complete roadmap n = list_ex (row_struck_complete n) (splitlines roadmap)"

definition completion_claimed :: "string \<Rightarrow> string \<Rightarrow> item_dir \<Rightarrow> bool" where
  "completion_claimed roadmap n d =
     (spec_status d \<in> {Some ''Complete'', Some ''Superseded''} \<or> roadmap_marks_complete roadmap n)"

subsection \<open>Dependencies\<close>

datatype dep_status = DepComplete | DepIncomplete | DepRetired | DepMissing

text \<open>
  \<open>root\<close> is the features directory. The candidates of the feature pipeline: the caller's map, the
  flat directory, and every directory of that name below the root that holds a specification.
\<close>

definition nested_dirs :: "path \<Rightarrow> disk \<Rightarrow> string \<Rightarrow> path list" where
  "nested_dirs root disk dep =
     sort (map fst (filter (\<lambda>(p, d). prefix root p \<and> root \<noteq> p \<and> last p = dep \<and> has_doc d ''SPEC.md'') disk))"

definition dep_candidates :: "path \<Rightarrow> disk \<Rightarrow> (string, path) dict \<Rightarrow> string \<Rightarrow> path list" where
  "dep_candidates root disk ids dep =
     (case dget ids dep of None \<Rightarrow> [] | Some p \<Rightarrow> [p]) @ [root @ [dep]] @ nested_dirs root disk dep"

definition classify_dep :: "yaml \<Rightarrow> item_dir \<Rightarrow> dep_status option" where
  "classify_dep yaml d =
     (if spec_status d = Some ''Superseded'' then Some DepRetired
      else if spec_status d = Some ''Complete'' then
        map_option (\<lambda>r. if r then DepComplete else DepIncomplete) (has_completion_receipt yaml d ''COMPLETED.md'')
      else Some DepIncomplete)"

definition dep_completion_status ::
  "yaml \<Rightarrow> path \<Rightarrow> disk \<Rightarrow> (string, path) dict \<Rightarrow> string \<Rightarrow> dep_status option" where
  "dep_completion_status yaml root disk ids dep =
     (case first_match (dget disk) (dep_candidates root disk ids dep) of
        None \<Rightarrow> Some DepMissing
      | Some d \<Rightarrow> classify_dep yaml d)"

subsection \<open>Sentinels of the park and defer families\<close>

definition starts_ci :: "string \<Rightarrow> string \<Rightarrow> bool" where
  "starts_ci w n = prefix (to_lower w) (to_lower n)"

definition stray_blocker :: "string \<Rightarrow> bool" where
  "stray_blocker n \<longleftrightarrow> starts_ci ''BLOCKED'' n \<and> suffix ''.md'' (to_lower n) \<and> n \<noteq> ''BLOCKED.md'' \<and>
     \<not> contains ''_RESOLVED_'' n"

definition dir_names :: "item_dir \<Rightarrow> string list" where
  "dir_names d = sort (dkeys (docs d) @ (if plan_docs d = None then [] else [''plans'']))"

definition detect_noncanonical_blocker :: "item_dir \<Rightarrow> string option" where
  "detect_noncanonical_blocker d =
     (if ''BLOCKED.md'' \<in> set (dir_names d) then None else find stray_blocker (dir_names d))"

definition spec_dir_operator_deferred :: "item_dir \<Rightarrow> bool" where
  "spec_dir_operator_deferred d = has_doc d ''DEFERRED.md''"

definition spec_dir_research_pending :: "item_dir \<Rightarrow> bool" where
  "spec_dir_research_pending d =
     (has_doc d ''NEEDS_RESEARCH.md'' \<or>
      has_doc d ''RESEARCH_PROMPT.md'' \<and> \<not> has_doc d ''RESEARCH.md'' \<and> \<not> has_doc d ''RESEARCH_SUMMARY.md'')"

end
