(* ===== verification/Sentinels.thy ===== *)
theory Sentinels
  imports Item_Docs
begin

text \<open>
  What the pipeline reads off the sentinels of an item: whether a decision may be accepted
  provisionally, whether a waiver of the tests stands, the verdict of a runtime proof, the evidence
  that completion needs, and the declarations that gate or free an item (\<^verbatim>\<open>docmodel.py\<close>,
  \<^verbatim>\<open>gates.py\<close> and \<^verbatim>\<open>hostcaps.py\<close> in \<^verbatim>\<open>user/scripts/lazy_core/\<close>). A refusal is kept as a
  constructor in place of its text.
\<close>

text \<open>What the readers ask of the repository: its markers on disk, and git.\<close>

record repo_env =
  has_app_surface :: bool      \<comment> \<open>\<open>src-tauri/\<close> or \<open>package.json\<close> at the root\<close>
  has_cognito_planner :: bool
  is_claude_config :: bool
  head_commit :: "string option"
  diff_names :: "string \<Rightarrow> string \<Rightarrow> string list option"

subsection \<open>Provisional acceptance\<close>

definition lines_of :: "string \<Rightarrow> string list" where
  "lines_of text = py_split newline text"

definition heading_line :: "string \<Rightarrow> string \<Rightarrow> bool" where
  "heading_line h l \<longleftrightarrow> prefix h l \<and> strip (drop (length h) l) = []"

text \<open>
  The third-level sections under the heading \<open>## Decision Context\<close>, each with its lines. A second-level
  heading ends the section.
\<close>

definition ends_section :: "string \<Rightarrow> bool" where
  "ends_section l \<longleftrightarrow> prefix ''## '' l \<and> drop 3 l \<noteq> [] \<and> ws_head wide_ws (drop 3 l) = 0"

fun group_h3s :: "string list \<Rightarrow> string list list" where
  "group_h3s [] = []"
| "group_h3s (l # ls) =
     (if prefix ''### '' l
      then (l # takeWhile (\<lambda>x. \<not> prefix ''### '' x) ls) # group_h3s ls
      else group_h3s ls)"

definition split_decision_context_h3s :: "string \<Rightarrow> string list list" where
  "split_decision_context_h3s text =
     (case dropWhile (\<lambda>l. \<not> heading_line ''## Decision Context'' l) (lines_of text) of
        [] \<Rightarrow> []
      | h # rest \<Rightarrow> group_h3s (takeWhile (\<lambda>l. \<not> ends_section l) rest))"

definition lower_field :: "meta \<Rightarrow> string \<Rightarrow> string" where
  "lower_field m k = (if dhas m k then to_lower (strip (py_str (mget m k))) else [])"

definition auto_generated_carveout :: "repo_env \<Rightarrow> meta \<Rightarrow> bool" where
  "auto_generated_carveout env m =
     ((mget m ''auto_generated'' = JBool True \<or>
       to_lower (strip (py_str (mget m ''auto_generated''))) \<in> {''true'', ''yes''}) \<and>
      lower_field m ''auto_generated_origin'' \<in> {''canary-revert'', ''incident-capture''} \<and>
      is_claude_config env)"

definition stub_excluded :: "repo_env \<Rightarrow> meta \<Rightarrow> bool" where
  "stub_excluded env m =
     (dhas m ''stub_origin'' \<and> mget m ''stub_origin'' \<noteq> JBool False \<and>
      to_lower (strip (py_str (mget m ''stub_origin''))) \<notin> {''false'', ''no''} \<and>
      \<not> auto_generated_carveout env m)"

definition eligible_grade :: "string \<Rightarrow> bool" where
  "eligible_grade g \<longleftrightarrow> g \<in> {''isolated'', ''contained''}"

definition decision_count :: "meta \<Rightarrow> nat" where
  "decision_count m = (case mget m ''decisions'' of JArr xs \<Rightarrow> length xs | _ \<Rightarrow> 0)"

definition provisional_eligibility :: "yaml \<Rightarrow> repo_env \<Rightarrow> item_dir \<Rightarrow> bool option" where
  "provisional_eligibility yaml env d =
     (case dget (docs d) ''NEEDS_INPUT.md'' of
        None \<Rightarrow> Some False
      | Some f \<Rightarrow>
          (case frontmatter yaml (doc_text f) of
             None \<Rightarrow> None
           | Some m \<Rightarrow> Some (
               let h3s = split_decision_context_h3s (doc_text f) in
               mget m ''kind'' = JStr ''needs-input'' \<and>
               0 < decision_count m \<and> decision_count m \<le> 4 \<and>
               strip (py_str (mget m ''written_by'')) \<notin> {''completion-integrity-gate'', ''spike''} \<and>
               lower_field m ''spike_verdict'' \<noteq> ''fail'' \<and>
               \<not> stub_excluded env m \<and>
               lower_field m ''conflict_kind'' \<noteq> ''semantic'' \<and>
               \<not> (mget m ''class'' = JStr ''mechanical'' \<and> mget m ''audit_concurs'' = JBool True) \<and>
               eligible_grade (lower_field m ''divergence'') \<and>
               eligible_grade (lower_field m ''audit_divergence'') \<and>
               \<not> list_ex (heading_line ''## Resolution'') (lines_of (doc_text f)) \<and>
               length h3s = decision_count m \<and>
               list_all (list_ex (contains ''**Recommendation:**'')) h3s)))"

text \<open>An entry of \<open>parked[]\<close>.\<close>

datatype sentinel_kind = SBlocked | SNeedsInput | SProvisional | SUnknown

record parked_entry =
  parked_id :: string
  parked_sentinel :: string
  parked_decisions :: nat
  parked_since :: "string option"
  parked_kind :: sentinel_kind

definition provisional_sentinel :: string where
  "provisional_sentinel = ''NEEDS_INPUT_PROVISIONAL.md''"

definition build_parked_entry :: "yaml \<Rightarrow> string \<Rightarrow> item_dir \<Rightarrow> string \<Rightarrow> parked_entry option" where
  "build_parked_entry yaml i d n =
     map_option (\<lambda>m. \<lparr>parked_id = i, parked_sentinel = n, parked_decisions = decision_count m,
         parked_since = (if mget m ''date'' = JNull then None else Some (py_str (mget m ''date''))),
         parked_kind = (if n = ''BLOCKED.md'' then SBlocked else if n = ''NEEDS_INPUT.md'' then SNeedsInput
                        else if n = provisional_sentinel then SProvisional else SUnknown)\<rparr>)
       (parse_sentinel yaml d n)"

text \<open>Would the item be parked under these facets?\<close>

definition spec_dir_would_park :: "yaml \<Rightarrow> repo_env \<Rightarrow> bool \<Rightarrow> bool \<Rightarrow> bool \<Rightarrow> item_dir \<Rightarrow> bool option" where
  "spec_dir_would_park yaml env needs_input blocked provisional d =
     (if blocked \<and> (has_doc d ''BLOCKED.md'' \<or> detect_noncanonical_blocker d \<noteq> None) then Some True
      else if needs_input \<and> has_doc d ''NEEDS_INPUT.md'' \<and> \<not> has_doc d ''BLOCKED.md'' then
        if provisional then map_option Not (provisional_eligibility yaml env d) else Some True
      else Some False)"

subsection \<open>The waiver of the tests\<close>

datatype waiver_refusal = NoSpecClass | SurfacePresent | NoProvenance | SelfGranted

definition skip_waiver_refusal :: "repo_env \<Rightarrow> meta \<Rightarrow> waiver_refusal option" where
  "skip_waiver_refusal env m =
     (let granted = mget m ''granted_by'' in
      if granted = JStr ''operator'' then None
      else if granted = JStr ''mcp-test'' then
        if truthy (mget m ''spec_class'') \<and> strip (py_str (mget m ''spec_class'')) \<noteq> [] then None
        else Some NoSpecClass
      else if granted = JStr ''pipeline-structural'' then
        if \<not> has_app_surface env then None else Some SurfacePresent
      else if granted = JNull then
        if mget m ''skipped_by'' \<in> {JStr ''lazy'', JStr ''lazy-cloud'', JStr ''pipeline''}
        then Some NoProvenance else None
      else Some SelfGranted)"

subsection \<open>The runtime proof\<close>

datatype spike_verdict = SpikePass | SpikeFail | SpikePending

definition word_rx :: "rx list \<Rightarrow> rx" where
  "word_rx ws = seqs [Bound, alts ws, Bound]"

definition spike_fail_rx :: rx where
  "spike_fail_rx = word_rx [LitI ''fail'', seqs [LitI ''no'', Opt (Alt (Lit ''-'') White), LitI ''go'']]"

definition spike_pass_rx :: rx where
  "spike_pass_rx = word_rx [LitI ''pass'', LitI ''go'']"

definition spike_pending_rx :: rx where
  "spike_pending_rx = word_rx [LitI ''pending'',
     seqs [LitI ''needs'', Opt (alts [Lit ''-'', Lit ''_'', White]), LitI ''runtime'']]"

definition classify_spike_verdict_value :: "string \<Rightarrow> spike_verdict option" where
  "classify_spike_verdict_value v =
     (if rx_search spike_fail_rx v then Some SpikeFail
      else if rx_search spike_pass_rx v then Some SpikePass
      else if rx_search spike_pending_rx v then Some SpikePending else None)"

text \<open>The value on a line \<open>Verdict: ...\<close>, behind leading emphasis.\<close>

definition emphasis_char :: "char \<Rightarrow> bool" where
  "emphasis_char c \<longleftrightarrow> c \<in> set ''*# '' \<or> c = char_of (9::nat)"

definition is_star :: "char \<Rightarrow> bool" where
  "is_star c \<longleftrightarrow> c = CHR ''*''"

definition verdict_value :: "string \<Rightarrow> string option" where
  "verdict_value line =
     (let bare = dropWhile emphasis_char (strip line);
          r = lstrip (dropWhile is_star (lstrip (drop 7 bare)))
      in if prefix ''verdict'' (to_lower bare) \<and> prefix '':'' r then Some (lstrip (tl r)) else None)"

definition verdict_of_line :: "string \<Rightarrow> spike_verdict option" where
  "verdict_of_line line = Option.bind (verdict_value line) classify_spike_verdict_value"

definition classify_spike_verdict :: "yaml \<Rightarrow> item_dir \<Rightarrow> spike_verdict option" where
  "classify_spike_verdict yaml d =
     (case dget (docs d) ''SPIKE_VERDICT.md'' of
        None \<Rightarrow> Some SpikePending
      | Some f \<Rightarrow>
          (case frontmatter yaml (doc_text f) of
             None \<Rightarrow> None
           | Some m \<Rightarrow>
               let field = (if truthy (mget m ''verdict'')
                            then classify_spike_verdict_value (py_str (mget m ''verdict'')) else None)
               in Some (case field of
                    Some v \<Rightarrow> v
                  | None \<Rightarrow> (case first_match verdict_of_line (splitlines (doc_text f)) of
                              Some v \<Rightarrow> v | None \<Rightarrow> SpikePending))))"

definition spike_verdict_is_pass :: "yaml \<Rightarrow> item_dir \<Rightarrow> bool option" where
  "spike_verdict_is_pass yaml d = map_option (\<lambda>v. v = SpikePass) (classify_spike_verdict yaml d)"

subsection \<open>Counts\<close>

definition evidence_count :: "json \<Rightarrow> int option" where
  "evidence_count v = (case v of JInt n \<Rightarrow> Some n | JStr s \<Rightarrow> digits (strip s) | _ \<Rightarrow> None)"

definition at_least :: "int \<Rightarrow> json \<Rightarrow> bool" where
  "at_least k v = (case evidence_count v of None \<Rightarrow> False | Some n \<Rightarrow> k \<le> n)"

definition validation_escalation :: "meta \<Rightarrow> bool" where
  "validation_escalation m =
     (mget m ''blocker_kind'' = JStr ''mcp-validation'' \<and> at_least 2 (mget m ''retry_count''))"

definition spike_tooling_rounds_cap :: int where
  "spike_tooling_rounds_cap = 3"

definition spike_tooling_cap_exceeded :: "meta \<Rightarrow> bool" where
  "spike_tooling_cap_exceeded m = at_least spike_tooling_rounds_cap (mget m ''spike_tooling_rounds'')"

end
