(* ===== verification/Evidence.thy ===== *)
theory Evidence
  imports Sentinels
begin

text \<open>
  The evidence behind a completion (\<^verbatim>\<open>user/scripts/lazy_core/gates.py\<close>): the results of a test run, the
  drift between the tested commit and the head, and the verdict of the completion gate; and the
  declarations of \<^verbatim>\<open>hostcaps.py\<close> and \<^verbatim>\<open>docmodel.py\<close> on the host capabilities an item needs and on its
  independence.
\<close>

subsection \<open>Drift\<close>

datatype drift = Fresh | DocsOnly | NonDocsDrift | Unresolvable

definition observation_gap_promotable :: "meta \<Rightarrow> bool" where
  "observation_gap_promotable m =
     (mget m ''result'' = JStr ''partial'' \<and>
      (case mget m ''observation_gap_exemptions'' of
         JArr es \<Rightarrow> es \<noteq> [] \<and>
           list_all (\<lambda>e. is_obj e \<and> is_str (jget e ''spec_class'') \<and> strip (str_val (jget e ''spec_class'')) \<noteq> []) es
       | _ \<Rightarrow> False))"

definition backslash :: char where
  "backslash = char_of (92::nat)"

definition is_noninvalidating_drift_path :: "string \<Rightarrow> bool" where
  "is_noninvalidating_drift_path f =
     (let p = map (\<lambda>c. if c = backslash then CHR ''/'' else c) (to_lower f) in
      suffix ''.md'' p \<or>
      (suffix ''.yaml'' p \<or> suffix ''.yml'' p) \<and>
      list_ex (\<lambda>seg. seg = ''mcp-test'' \<or> seg = ''mcp-tests'') (py_split ''/'' p))"

definition opt_str :: "json \<Rightarrow> string option" where
  "opt_str v = (if v = JNull then None else Some (py_str v))"

definition stripped :: "string option \<Rightarrow> string" where
  "stripped s = (case s of None \<Rightarrow> [] | Some t \<Rightarrow> strip t)"

definition commit_drift_verdict :: "repo_env \<Rightarrow> string option \<Rightarrow> drift" where
  "commit_drift_verdict env commit =
     (let vc = stripped commit; hd = stripped (head_commit env) in
      if vc = [] \<or> hd = [] \<or> vc = hd then Fresh
      else case diff_names env vc hd of
          None \<Rightarrow> Unresolvable
        | Some changed \<Rightarrow> if list_all is_noninvalidating_drift_path changed then DocsOnly else NonDocsDrift)"

subsection \<open>The completion verdict\<close>

datatype completion_verdict = ExemptAndTick | WarnExempt | Refuse

definition evaluate_completion_evidence ::
  "yaml \<Rightarrow> repo_env \<Rightarrow> item_dir \<Rightarrow> (completion_verdict \<times> int option) option" where
  "evaluate_completion_evidence yaml env d =
     (case (parse_sentinel yaml d ''VALIDATED.md'', parse_sentinel yaml d ''MCP_TEST_RESULTS.md'') of
        (Some v, Some r) \<Rightarrow> Some (
          if mget v ''kind'' \<noteq> JStr ''validated'' \<or> mget r ''kind'' \<noteq> JStr ''mcp-test-results'' then (Refuse, None)
          else if mget r ''result'' \<noteq> JStr ''all-passing'' \<and> \<not> observation_gap_promotable r then (Refuse, None)
          else case (evidence_count (mget r ''pass_count''), evidence_count (mget r ''total_count'')) of
              (Some p, Some t) \<Rightarrow>
                if p \<noteq> t \<or> p = 0 then (Refuse, None)
                else let commit = opt_str (mget r ''validated_commit'') in
                  if commit = None \<or> head_commit env = None \<or> commit = head_commit env
                  then (ExemptAndTick, Some p)
                  else if commit_drift_verdict env commit \<in> {Unresolvable, NonDocsDrift}
                  then (Refuse, Some p)
                  else (WarnExempt, Some p)
            | _ \<Rightarrow> (Refuse, None))
      | _ \<Rightarrow> None)"

definition evaluate_deferred_runtime_exemption :: "yaml \<Rightarrow> repo_env \<Rightarrow> item_dir \<Rightarrow> bool option" where
  "evaluate_deferred_runtime_exemption yaml env d =
     (case parse_sentinel yaml d ''VALIDATED.md'' of
        None \<Rightarrow> None
      | Some v \<Rightarrow>
          if mget v ''kind'' \<noteq> JStr ''validated'' then Some False
          else (case parse_sentinel yaml d ''SKIP_MCP_TEST.md'' of
              None \<Rightarrow> None
            | Some s \<Rightarrow> Some (s \<noteq> [] \<and> mget s ''granted_by'' = JStr ''pipeline-structural'' \<and>
                             skip_waiver_refusal env s = None)))"

subsection \<open>Declarations in the head of a specification\<close>

text \<open>The lines of the leading fenced block, with those before it; a heading before the fence ends the scan.\<close>

fun head_lines :: "bool \<Rightarrow> string list \<Rightarrow> string list" where
  "head_lines in_fence [] = []"
| "head_lines in_fence (l # ls) =
     (if strip l = fence then (if in_fence then [] else head_lines True ls)
      else if \<not> in_fence \<and> prefix ''#'' (strip l) then []
      else l # head_lines in_fence ls)"

text \<open>The value on a line \<open>key: value\<close>, the key in any case.\<close>

definition head_value :: "string \<Rightarrow> string \<Rightarrow> string option" where
  "head_value key line =
     (let s = lstrip line; r = lstrip (drop (length key) s) in
      if prefix key (to_lower s) \<and> prefix '':'' r then Some (strip (tl r)) else None)"

definition marker_truthy :: "json \<Rightarrow> bool" where
  "marker_truthy v = (case v of JBool b \<Rightarrow> b | JStr s \<Rightarrow> to_lower (strip s) = ''true'' | _ \<Rightarrow> False)"

definition independent_marker_keys :: "string list" where
  "independent_marker_keys = [''independent'', ''no_shared_state'']"

definition parse_independent_marker :: "string \<Rightarrow> json \<Rightarrow> bool" where
  "parse_independent_marker spec entry =
     (list_ex (\<lambda>k. marker_truthy (jget entry k)) independent_marker_keys \<or>
      list_ex (\<lambda>l. list_ex (\<lambda>k. map_option to_lower (head_value k l) = Some ''true'') independent_marker_keys)
        (head_lines False (splitlines spec)))"

text \<open>Splitting at commas and white space; empty tokens are dropped by the caller.\<close>

function list_tokens :: "string \<Rightarrow> string \<Rightarrow> string list" where
  "list_tokens acc s =
     (if s = [] then [rev acc]
      else if hd s = CHR '','' then rev acc # list_tokens [] (tl s)
      else if 0 < ws_head wide_ws s then rev acc # list_tokens [] (drop (ws_head wide_ws s) s)
      else list_tokens (hd s # acc) (tl s))"
  by pat_completeness auto

termination
  by (relation "measure (\<lambda>(acc, s). length s)") auto

declare list_tokens.simps [simp del]

definition is_quote :: "char \<Rightarrow> bool" where
  "is_quote c \<longleftrightarrow> c = quote_char \<or> c = char_of (34::nat)"

definition strip_quotes :: "string \<Rightarrow> string" where
  "strip_quotes s = rev (dropWhile is_quote (rev (dropWhile is_quote s)))"

definition split_capabilities :: "string \<Rightarrow> string list" where
  "split_capabilities raw =
     (let s = strip raw;
          t = (if prefix ''['' s \<and> suffix '']'' s then butlast (tl s) else s)
      in map (strip_quotes \<circ> strip) (list_tokens [] t))"

definition coerce_capability_ids :: "json \<Rightarrow> string list" where
  "coerce_capability_ids v =
     filter (\<lambda>t. t \<noteq> [] \<and> dep_id_re t)
       (case v of
          JArr xs \<Rightarrow> concat (map (\<lambda>x. if is_str x then split_capabilities (str_val x) else []) xs)
        | JStr s \<Rightarrow> split_capabilities s
        | _ \<Rightarrow> [])"

definition parse_requires_host :: "string \<Rightarrow> json \<Rightarrow> string list" where
  "parse_requires_host spec entry =
     coerce_capability_ids (jget entry ''requires_host'') @
     concat (map (\<lambda>l. case head_value ''requires_host'' l of None \<Rightarrow> [] | Some v \<Rightarrow> coerce_capability_ids (JStr v))
       (head_lines False (splitlines spec)))"

definition host_capability_registry :: "string list" where
  "host_capability_registry = [''real-audio-device'', ''zimtohrli-toolchain'', ''gpu'', ''midi-controller'',
     ''link-multi-peer'', ''non-windows-host'']"

definition unknown_capability_ids :: "string list \<Rightarrow> string list" where
  "unknown_capability_ids required = filter (\<lambda>c. c \<notin> set host_capability_registry) required"

subsection \<open>Facts\<close>

lemma requires_host_ids: "c \<in> set (parse_requires_host spec entry) \<Longrightarrow> dep_id_re c"
  by (auto simp: parse_requires_host_def coerce_capability_ids_def split: option.splits)

text \<open>Rows are exempted only on a passing run that was tested at the head, up to documentation.\<close>

lemma evidence_sound:
  assumes "evaluate_completion_evidence yaml env d = Some (v, p)" and "v \<noteq> Refuse"
  obtains m r n where "parse_sentinel yaml d ''VALIDATED.md'' = Some m" "mget m ''kind'' = JStr ''validated''"
    "parse_sentinel yaml d ''MCP_TEST_RESULTS.md'' = Some r" "mget r ''kind'' = JStr ''mcp-test-results''"
    "mget r ''result'' = JStr ''all-passing'' \<or> observation_gap_promotable r"
    "p = Some n" "n \<noteq> 0" "evidence_count (mget r ''pass_count'') = Some n"
    "evidence_count (mget r ''total_count'') = Some n"
    "v = ExemptAndTick \<longrightarrow> opt_str (mget r ''validated_commit'') \<in> {None, head_commit env} \<or> head_commit env = None"
    "v = WarnExempt \<longrightarrow> commit_drift_verdict env (opt_str (mget r ''validated_commit'')) \<in> {Fresh, DocsOnly}"
proof -
  obtain m r where mr: "parse_sentinel yaml d ''VALIDATED.md'' = Some m"
      "parse_sentinel yaml d ''MCP_TEST_RESULTS.md'' = Some r"
    using assms(1) by (auto simp: evaluate_completion_evidence_def split: option.splits)
  obtain n t where nt: "evidence_count (mget r ''pass_count'') = Some n" "evidence_count (mget r ''total_count'') = Some t"
    using assms mr by (auto simp: evaluate_completion_evidence_def split: option.splits if_splits)
  show ?thesis
    using assms mr nt
    by (intro that [of m r n]; cases "commit_drift_verdict env (opt_str (mget r ''validated_commit''))")
      (auto simp: evaluate_completion_evidence_def Let_def split: if_splits)
qed

end
