(* ===== verification/Phase_Docs.thy ===== *)
theory Phase_Docs
  imports Item_Docs
begin

text \<open>
  Readers of \<^verbatim>\<open>PHASES.md\<close> and of plan files (\<^verbatim>\<open>user/scripts/lazy_core/docmodel.py\<close>, with the slices
  and counts of \<^verbatim>\<open>gates.py\<close>). Every walk skips the lines between two code fences, so the walks here
  run over the lines that \<open>unfenced\<close> leaves. A walk carries a record of the flags that the loop keeps.
\<close>

subsection \<open>Lines\<close>

definition code_fence :: string where
  "code_fence = ''```''"

fun unfenced :: "bool \<Rightarrow> string list \<Rightarrow> string list" where
  "unfenced inside [] = []"
| "unfenced inside (l # ls) =
     (if prefix code_fence (strip l) then unfenced (\<not> inside) ls
      else if inside then unfenced inside ls
      else l # unfenced inside ls)"

definition phase_lines :: "string \<Rightarrow> string list" where
  "phase_lines text = unfenced False (splitlines text)"

text \<open>What follows the box of a row \<open>- [ ]\<close>, of a row \<open>- [x]\<close>, and of either.\<close>

definition after_dash :: "string \<Rightarrow> string" where
  "after_dash line = (let s = lstrip line in if prefix ''-'' s then lstrip (tl s) else [])"

definition close_box :: "string \<Rightarrow> string option" where
  "close_box s = (let t = lstrip s in if prefix '']'' t then Some (tl t) else None)"

definition open_row :: "string \<Rightarrow> string option" where
  "open_row line = (let s = after_dash line in if prefix ''['' s then close_box (tl s) else None)"

definition mark_char :: "char \<Rightarrow> bool" where
  "mark_char c \<longleftrightarrow> c = CHR ''x'' \<or> c = CHR ''X''"

definition done_row :: "string \<Rightarrow> bool" where
  "done_row line =
     (let s = after_dash line in
      prefix ''['' s \<and> tl s \<noteq> [] \<and> mark_char (hd (tl s)) \<and> prefix '']'' (tl (tl s)))"

definition any_row :: "string \<Rightarrow> string option" where
  "any_row line =
     (let s = after_dash line; t = lstrip (tl s) in
      if prefix ''['' s then close_box (if t \<noteq> [] \<and> mark_char (hd t) then tl t else t) else None)"

text \<open>The label of a row, \<open>\s*(.+?)\s*$\<close>; a row of white space only keeps its last character.\<close>

definition row_label :: "string \<Rightarrow> string option" where
  "row_label r =
     (if r = [] then None else if strip r = [] then Some (last (code_points r)) else Some (strip r))"

definition count_deliverables :: "string \<Rightarrow> nat \<times> nat" where
  "count_deliverables text =
     (let ls = phase_lines text in
      (length (filter (\<lambda>l. open_row l \<noteq> None) ls),
       length (filter (\<lambda>l. open_row l = None \<and> done_row l) ls)))"

subsection \<open>Headers and markers\<close>

definition is_hash :: "char \<Rightarrow> bool" where
  "is_hash c \<longleftrightarrow> c = CHR ''#''"

definition heading_text :: "string \<Rightarrow> string option" where
  "heading_text s =
     (let n = length (takeWhile is_hash s); r = drop n s in
      if 1 \<le> n \<and> n \<le> 6 \<and> 0 < ws_head wide_ws r then Some (lstrip r) else None)"

fun until_stars :: "string \<Rightarrow> string option" where
  "until_stars [] = None"
| "until_stars (c # cs) = (if prefix ''**'' (c # cs) then Some [] else map_option (Cons c) (until_stars cs))"

definition bold_text :: "string \<Rightarrow> string option" where
  "bold_text s =
     (if prefix ''**'' s
      then (case drop 2 s of [] \<Rightarrow> None | c # cs \<Rightarrow> map_option (Cons c) (until_stars cs)) else None)"

definition digit :: rx where
  "digit = One is_digit"

definition any_char :: rx where
  "any_char = One (\<lambda>_. True)"

definition numbered_phase :: "string \<Rightarrow> bool" where
  "numbered_phase h = rx_match (seqs [Lit ''Phase'', Plus White, digit]) h"

definition superseded_status :: "string \<Rightarrow> string \<Rightarrow> bool" where
  "superseded_status bold stripped =
     (rx_match (seqs [Lit ''Status'', Star White, Lit '':'']) bold \<and> contains ''Superseded'' stripped)"

definition verification_only_marker :: string where
  "verification_only_marker = ''<!-- verification-only -->''"

definition descoped_marker :: string where
  "descoped_marker = ''<!-- descoped -->''"

definition verification_section_rx :: rx where
  "verification_section_rx = alts
     [seqs [LitI ''runtime'', Plus White, LitI ''verification''],
      seqs [LitI ''reachability'', Plus White, LitI ''smoke''],
      seqs [LitI ''mcp'', Plus White,
        alts [seqs [LitI ''integration'', Plus White, LitI ''test''],
              seqs [LitI ''test'', Plus White, LitI ''assertion''], LitI ''assertion'']],
      seqs [LitI ''full'', Alt (Lit ''-'') White, LitI ''chain'', Plus White, LitI ''seam''],
      seqs [LitI ''seam'', Plus White,
        alts [LitI ''audit'', seqs [LitI ''re'', Opt (Lit ''-''), LitI ''validation'']]]]"

definition deliverables_section_rx :: rx where
  "deliverables_section_rx = seqs
     [Bound, alts [LitI ''deliverable'', LitI ''implementation'',
        seqs [LitI ''work'', Star White, LitI ''unit''], LitI ''task''],
      Star (One word_char), Bound]"

definition descope_strikethrough_rx :: rx where
  "descope_strikethrough_rx = seqs [Lit ''~~'', Plus any_char, Lit ''~~'']"

definition descope_marker_rx :: rx where
  "descope_marker_rx = seqs
     [Lit ''**'', Star White,
      alts [LitI ''dropped'', LitI ''descoped'',
        seqs [LitI ''won'', Opt (Alt (Lit [quote_char]) (Lit (bytes [226, 128, 153]))), LitI ''t'',
              Opt (Alt (Lit ''-'') White), LitI ''fix'']],
      Star White, Lit ''**'']"

definition row_is_descoped_in_place :: "string \<Rightarrow> bool" where
  "row_is_descoped_in_place row =
     (rx_search descope_strikethrough_rx row \<and> rx_search descope_marker_rx row)"

subsection \<open>Are only verification rows left?\<close>

record scope =
  in_verification :: bool
  section_has_marker :: bool
  section_has_descope :: bool
  in_superseded :: bool

definition fresh_scope :: scope where
  "fresh_scope = \<lparr>in_verification = False, section_has_marker = False, section_has_descope = False,
     in_superseded = False\<rparr>"

datatype line_kind = Heading string | Bold string | Row string | Plain

definition line_kind :: "string \<Rightarrow> line_kind" where
  "line_kind line =
     (let s = strip line in
      case heading_text s of
        Some h \<Rightarrow> Heading h
      | None \<Rightarrow> (case bold_text s of
            Some b \<Rightarrow> Bold b
          | None \<Rightarrow> if open_row s \<noteq> None then Row s else Plain))"

definition scope_step :: "string \<Rightarrow> scope \<Rightarrow> scope" where
  "scope_step line sc =
     (case line_kind line of
        Heading h \<Rightarrow>
          if numbered_phase h then fresh_scope
          else sc\<lparr>section_has_marker := contains verification_only_marker line,
                  section_has_descope := contains descoped_marker line,
                  in_verification := rx_search verification_section_rx h\<rparr>
      | Bold b \<Rightarrow>
          if superseded_status b (strip line) then sc\<lparr>in_superseded := True\<rparr>
          else
            let verif = rx_search verification_section_rx b;
                deliv = rx_search deliverables_section_rx b;
                sc1 = (if contains descoped_marker line then sc\<lparr>section_has_descope := True\<rparr>
                       else if verif \<or> deliv then sc\<lparr>section_has_descope := False\<rparr> else sc)
            in if contains verification_only_marker line then sc1\<lparr>section_has_marker := True\<rparr>
               else if verif then sc1\<lparr>in_verification := True, section_has_marker := False\<rparr>
               else if deliv then sc1\<lparr>in_verification := False, section_has_marker := False\<rparr>
               else sc1
      | _ \<Rightarrow> sc)"

text \<open>Superseded, descoped in place, or a verification row by marker or by the legacy header.\<close>

definition row_exempt :: "string \<Rightarrow> string \<Rightarrow> scope \<Rightarrow> bool" where
  "row_exempt line row sc =
     (in_superseded sc \<or>
      contains descoped_marker line \<or> section_has_descope sc \<or> row_is_descoped_in_place row \<or>
      contains verification_only_marker line \<or> section_has_marker sc \<or> in_verification sc)"

fun exempt_walk :: "scope \<Rightarrow> bool \<Rightarrow> string list \<Rightarrow> bool" where
  "exempt_walk sc seen [] = seen"
| "exempt_walk sc seen (l # ls) =
     (case line_kind l of
        Row r \<Rightarrow> if row_exempt l r sc then exempt_walk sc True ls else False
      | _ \<Rightarrow> exempt_walk (scope_step l sc) seen ls)"

definition remaining_unchecked_are_verification_only :: "string \<Rightarrow> bool" where
  "remaining_unchecked_are_verification_only text = exempt_walk fresh_scope False (phase_lines text)"

subsection \<open>Phases\<close>

definition phase_word :: "char \<Rightarrow> bool" where
  "phase_word c \<longleftrightarrow> is_digit c \<or> of_char c \<in> {65..90::nat} \<or> of_char c \<in> {97..122::nat} \<or> c = CHR ''.'' \<or> c = CHR ''+''"

definition phase_heading_rx :: rx where
  "phase_heading_rx = seqs
     [Lit ''##'', Opt (Lit ''#''), Plus White, Lit ''Phase'', Plus White,
      Alt (seqs [Star (One (\<lambda>c. phase_word c \<and> \<not> is_digit c)), digit, Star (One phase_word)])
          (seqs [Plus (One phase_word), Star White, alts [Lit '':'', Lit (bytes [226, 128, 148]), Lit ''-'']])]"

datatype phase_kind = Corrective | Design

record phase =
  ph_heading :: string
  ph_status :: "string option"
  ph_unchecked :: nat
  ph_descoped :: nat
  ph_verification :: nat
  ph_checked :: nat
  ph_kind :: "phase_kind option"  \<comment> \<open>\<open>None\<close> until a line \<open>Phase kind\<close> is seen; the default is \<open>Design\<close>\<close>

definition new_phase :: "string \<Rightarrow> phase" where
  "new_phase h = \<lparr>ph_heading = h, ph_status = None, ph_unchecked = 0, ph_descoped = 0, ph_verification = 0,
     ph_checked = 0, ph_kind = None\<rparr>"

definition named_section :: "string \<Rightarrow> bool" where
  "named_section s =
     (case bold_text s of
        None \<Rightarrow> False
      | Some b \<Rightarrow> rx_search verification_section_rx b \<or> rx_search deliverables_section_rx b)"

text \<open>The two section flags, (descope, verification), after a line inside a phase.\<close>

definition section_flags :: "string \<Rightarrow> bool \<times> bool \<Rightarrow> bool \<times> bool" where
  "section_flags line fl =
     (let s = strip line in
      if heading_text s \<noteq> None
      then (contains descoped_marker line, contains verification_only_marker line)
      else if prefix ''**'' s then
        (if contains descoped_marker line then True else if named_section s then False else fst fl,
         if contains verification_only_marker line then True else if named_section s then False else snd fl)
      else fl)"

definition count_row :: "string \<Rightarrow> bool \<times> bool \<Rightarrow> phase \<Rightarrow> phase" where
  "count_row line fl ph =
     (let s = strip line in
      if open_row s \<noteq> None then
        ph\<lparr>ph_unchecked := ph_unchecked ph + 1,
           ph_descoped := ph_descoped ph +
             (if contains descoped_marker line \<or> fst fl \<or> row_is_descoped_in_place s then 1 else 0),
           ph_verification := ph_verification ph +
             (if contains verification_only_marker line \<or> snd fl then 1 else 0)\<rparr>
      else if done_row s then ph\<lparr>ph_checked := ph_checked ph + 1\<rparr> else ph)"

definition phase_kind_of :: "string \<Rightarrow> phase_kind" where
  "phase_kind_of v = (if to_lower v = ''corrective'' then Corrective else Design)"

definition phase_line :: "string \<Rightarrow> bool \<times> bool \<Rightarrow> phase \<Rightarrow> phase" where
  "phase_line line fl ph =
     (let s = strip line in
      case (if ph_status ph = None then bold_value ''**Status:**'' s else None) of
        Some v \<Rightarrow> ph\<lparr>ph_status := Some v\<rparr>
      | None \<Rightarrow> (case (if ph_kind ph = None then bold_value ''**Phase kind:**'' s else None) of
            Some v \<Rightarrow> ph\<lparr>ph_kind := Some (phase_kind_of v)\<rparr>
          | None \<Rightarrow> count_row line fl ph))"

fun phases_walk :: "(phase \<times> (bool \<times> bool)) option \<Rightarrow> string list \<Rightarrow> phase list" where
  "phases_walk cur [] = (case cur of None \<Rightarrow> [] | Some (ph, _) \<Rightarrow> [ph])"
| "phases_walk cur (l # ls) =
     (if rx_match phase_heading_rx l then
        (case cur of None \<Rightarrow> [] | Some (ph, _) \<Rightarrow> [ph]) @ phases_walk (Some (new_phase (strip l), (False, False))) ls
      else case cur of
          None \<Rightarrow> phases_walk None ls
        | Some (ph, fl) \<Rightarrow>
            (let fl' = section_flags l fl in phases_walk (Some (phase_line l fl' ph, fl')) ls))"

definition parse_phases :: "string \<Rightarrow> phase list" where
  "parse_phases text = phases_walk None (phase_lines text)"

definition implementation_notes_rx :: "nat \<Rightarrow> rx" where
  "implementation_notes_rx extra = seqs
     (Lit ''##'' # replicate extra (Opt (Lit ''#'')) @ [Plus White, Lit ''Implementation Notes'', Bound])"

definition notes_heading :: "nat \<Rightarrow> string \<Rightarrow> bool" where
  "notes_heading extra text = list_ex (rx_match (implementation_notes_rx extra)) (py_split newline text)"

definition phases_show_implementation :: "string \<Rightarrow> item_dir \<Rightarrow> bool" where
  "phases_show_implementation text d =
     (parse_phases text \<noteq> [] \<and>
      (list_ex (\<lambda>ph. case ph_status ph of None \<Rightarrow> False
                     | Some s \<Rightarrow> to_lower (strip s) \<in> {''complete'', ''in-progress''}) (parse_phases text) \<or>
       1 \<le> snd (count_deliverables text) \<or>
       (case dget (docs d) ''IMPLEMENTATION_NOTES.md'' of None \<Rightarrow> False | Some f \<Rightarrow> notes_heading 2 (doc_text f)) \<or>
       notes_heading 1 text))"

subsection \<open>Rows in the scope of a plan\<close>

definition phase_number :: "string \<Rightarrow> int option" where
  "phase_number line =
     (let r = lstrip (drop 3 line); q = lstrip (drop 5 r) in
      if prefix ''###'' line \<and> r \<noteq> drop 3 line \<and> prefix ''Phase'' r \<and> q \<noteq> drop 5 r
      then digits (takeWhile is_digit q) else None)"

definition in_scope :: "int option \<Rightarrow> int set \<Rightarrow> bool" where
  "in_scope cur ps = (case cur of None \<Rightarrow> False | Some n \<Rightarrow> n \<in> ps)"

text \<open>The labels that \<open>row\<close> reads off the rows of the phases in \<open>ps\<close>.\<close>

fun scoped_rows :: "(string \<Rightarrow> string option) \<Rightarrow> int set \<Rightarrow> int option \<Rightarrow> string list \<Rightarrow> string list" where
  "scoped_rows row ps cur [] = []"
| "scoped_rows row ps cur (l # ls) =
     (case phase_number l of
        Some n \<Rightarrow> scoped_rows row ps (Some n) ls
      | None \<Rightarrow>
          if prefix ''## '' l then scoped_rows row ps None ls
          else if \<not> in_scope cur ps then scoped_rows row ps cur ls
          else (case Option.bind (row l) row_label of
                  None \<Rightarrow> scoped_rows row ps cur ls
                | Some w \<Rightarrow> w # scoped_rows row ps cur ls))"

definition unchecked_wus_in_plan_scope :: "string \<Rightarrow> int set \<Rightarrow> string list" where
  "unchecked_wus_in_plan_scope text ps = scoped_rows open_row ps None (phase_lines text)"

definition all_wus_in_plan_scope :: "string \<Rightarrow> int set \<Rightarrow> string list" where
  "all_wus_in_plan_scope text ps = scoped_rows any_row ps None (phase_lines text)"

text \<open>The slice of the phases in \<open>ps\<close>; this walk does not look at code fences.\<close>

fun scoped_lines :: "int set \<Rightarrow> int option \<Rightarrow> string list \<Rightarrow> string list" where
  "scoped_lines ps cur [] = []"
| "scoped_lines ps cur (l # ls) =
     (case phase_number l of
        Some n \<Rightarrow> (if n \<in> ps then l # scoped_lines ps (Some n) ls else scoped_lines ps (Some n) ls)
      | None \<Rightarrow>
          if prefix ''## '' l then scoped_lines ps None ls
          else if in_scope cur ps then l # scoped_lines ps cur ls else scoped_lines ps cur ls)"

definition phases_text_scoped_to :: "string \<Rightarrow> int set \<Rightarrow> string" where
  "phases_text_scoped_to text ps = join newline (scoped_lines ps None (splitlines text))"

end
