(* ===== verification/Plan_Docs.thy ===== *)
theory Plan_Docs
  imports Phase_Docs "HOL-Library.Product_Lexorder"
begin

text \<open>
  The plan files of an item (\<^verbatim>\<open>user/scripts/lazy_core/docmodel.py\<close> and \<^verbatim>\<open>gates.py\<close>): their order of
  execution, which of them are open, and the predicates that say when the implementation of an item is
  done. A plan is named by its file, or is the legacy \<^verbatim>\<open>PLAN.md\<close> beside the specification.
\<close>

datatype plan_ref = InPlans string | LegacyPlan

definition plan_name :: "plan_ref \<Rightarrow> string" where
  "plan_name p = (case p of InPlans n \<Rightarrow> n | LegacyPlan \<Rightarrow> ''PLAN.md'')"

definition plan_dir :: "item_dir \<Rightarrow> (string, doc) dict" where
  "plan_dir d = (case plan_docs d of None \<Rightarrow> [] | Some ps \<Rightarrow> ps)"

definition plan_text :: "item_dir \<Rightarrow> plan_ref \<Rightarrow> string" where
  "plan_text d p =
     (case (case p of InPlans n \<Rightarrow> dget (plan_dir d) n | LegacyPlan \<Rightarrow> dget (docs d) ''PLAN.md'') of
        None \<Rightarrow> [] | Some f \<Rightarrow> doc_text f)"

definition plan_meta :: "yaml \<Rightarrow> item_dir \<Rightarrow> plan_ref \<Rightarrow> meta option" where
  "plan_meta yaml d p = frontmatter yaml (plan_text d p)"

subsection \<open>The fields of a plan\<close>

text \<open>A float is cut towards zero; one in exponent notation, which no plan has, is not read.\<close>

definition float_int :: "string \<Rightarrow> int option" where
  "float_int s =
     (let t = (if prefix ''-'' s then tl s else s); n = takeWhile is_digit t; rest = dropWhile is_digit t in
      if rest \<noteq> [] \<and> hd rest = CHR ''.'' \<and> list_all is_digit (tl rest)
      then map_option (\<lambda>k. if prefix ''-'' s then - k else k) (digits n) else None)"

definition json_int :: "json \<Rightarrow> int option" where
  "json_int v =
     (case v of
        JBool b \<Rightarrow> Some (if b then 1 else 0)
      | JInt n \<Rightarrow> Some n
      | JFloat s \<Rightarrow> float_int s
      | JStr s \<Rightarrow> py_int s
      | _ \<Rightarrow> None)"

definition leading_number :: "json \<Rightarrow> int option" where
  "leading_number v = (case v of JStr s \<Rightarrow> digits (takeWhile is_digit s) | _ \<Rightarrow> None)"

definition phase_entry :: "json \<Rightarrow> int option" where
  "phase_entry v = (case json_int v of Some n \<Rightarrow> Some n | None \<Rightarrow> leading_number v)"

definition phase_entries :: "meta \<Rightarrow> int list" where
  "phase_entries m = (case mget m ''phases'' of JArr xs \<Rightarrow> List.map_filter phase_entry xs | _ \<Rightarrow> [])"

definition max_size :: int where
  "max_size = 2 ^ 63 - 1"

definition plan_status_of :: "meta \<Rightarrow> string" where
  "plan_status_of m = (case mget m ''status'' of JStr s \<Rightarrow> if s = [] then ''Ready'' else s | _ \<Rightarrow> ''Ready'')"

definition plan_status :: "yaml \<Rightarrow> item_dir \<Rightarrow> plan_ref \<Rightarrow> string option" where
  "plan_status yaml d p = map_option plan_status_of (plan_meta yaml d p)"

datatype complexity = Mechanical | Complex

definition plan_complexity :: "yaml \<Rightarrow> item_dir \<Rightarrow> plan_ref \<Rightarrow> complexity option" where
  "plan_complexity yaml d p =
     map_option (\<lambda>m. case mget m ''complexity'' of
         JStr s \<Rightarrow> if to_lower (strip s) = ''mechanical'' then Mechanical else Complex | _ \<Rightarrow> Complex)
       (plan_meta yaml d p)"

text \<open>The series index: the frontmatter field, or the suffix \<open>-part-K\<close> of the file name.\<close>

fun part_suffix :: "string \<Rightarrow> int option" where
  "part_suffix [] = None"
| "part_suffix (c # cs) =
     (let s = c # cs; r = drop 6 s; rest = dropWhile is_digit r in
      if prefix ''-part-'' (to_lower s) \<and> takeWhile is_digit r \<noteq> [] \<and> (rest = [] \<or> to_lower rest = ''.md'')
      then digits (takeWhile is_digit r) else part_suffix cs)"

definition series_index :: "meta \<Rightarrow> string \<Rightarrow> int" where
  "series_index m n =
     (case (case json_int (mget m ''series_index'') of Some k \<Rightarrow> Some k | None \<Rightarrow> part_suffix n) of
        Some k \<Rightarrow> k | None \<Rightarrow> max_size)"

definition lowest_phase :: "meta \<Rightarrow> int" where
  "lowest_phase m = foldl min max_size (phase_entries m)"

type_synonym plan_key = "int \<times> int \<times> string"

definition plan_sort_key :: "meta \<Rightarrow> plan_ref \<Rightarrow> plan_key" where
  "plan_sort_key m p = (series_index m (plan_name p), lowest_phase m, plan_name p)"

definition plan_phase_set :: "yaml \<Rightarrow> item_dir \<Rightarrow> plan_ref \<Rightarrow> int set option" where
  "plan_phase_set yaml d p = map_option (set \<circ> phase_entries) (plan_meta yaml d p)"

subsection \<open>Finding plans\<close>

definition impl_plan_name :: "string \<Rightarrow> bool" where
  "impl_plan_name n \<longleftrightarrow> suffix ''.md'' n \<and> 3 < length n \<and> \<not> prefix ''retro-'' n \<and> \<not> prefix ''realign-'' n"

text \<open>The candidates in the order of the loop: the plan files by name, then the legacy plan.\<close>

definition plan_candidates :: "item_dir \<Rightarrow> plan_ref list" where
  "plan_candidates d =
     map InPlans (filter impl_plan_name (sort (dkeys (plan_dir d)))) @
     (if has_doc d ''PLAN.md'' then [LegacyPlan] else [])"

text \<open>Reading the frontmatter of each in turn; one that does not parse ends the process.\<close>

fun read_plans :: "yaml \<Rightarrow> item_dir \<Rightarrow> plan_ref list \<Rightarrow> (plan_ref \<times> meta) list option" where
  "read_plans yaml d [] = Some []"
| "read_plans yaml d (p # ps) =
     (case plan_meta yaml d p of
        None \<Rightarrow> None
      | Some m \<Rightarrow> map_option (Cons (p, m)) (read_plans yaml d ps))"

definition is_complete_plan :: "meta \<Rightarrow> bool" where
  "is_complete_plan m \<longleftrightarrow> mget m ''status'' = JStr ''Complete''"

definition find_implementation_plans :: "yaml \<Rightarrow> item_dir \<Rightarrow> plan_ref list option" where
  "find_implementation_plans yaml d =
     map_option (\<lambda>pms. map fst (sort_key (\<lambda>(p, m). plan_sort_key m p) (filter (\<lambda>(p, m). \<not> is_complete_plan m) pms)))
       (read_plans yaml d (plan_candidates d))"

definition implementation_plans_exist :: "item_dir \<Rightarrow> bool" where
  "implementation_plans_exist d = (plan_candidates d \<noteq> [])"

fun any_complete_plan :: "yaml \<Rightarrow> item_dir \<Rightarrow> plan_ref list \<Rightarrow> bool option" where
  "any_complete_plan yaml d [] = Some False"
| "any_complete_plan yaml d (p # ps) =
     (case plan_meta yaml d p of
        None \<Rightarrow> None
      | Some m \<Rightarrow> if is_complete_plan m then Some True else any_complete_plan yaml d ps)"

definition has_any_complete_plan :: "yaml \<Rightarrow> item_dir \<Rightarrow> bool option" where
  "has_any_complete_plan yaml d = any_complete_plan yaml d (plan_candidates d)"

subsection \<open>Work units of a plan\<close>

definition wu_char :: "char \<Rightarrow> bool" where
  "wu_char c \<longleftrightarrow> word_char c \<and> c \<noteq> CHR ''_'' \<or> c = CHR ''.''"

definition wu_row_rx :: "rx \<Rightarrow> rx" where
  "wu_row_rx mark = seqs [Star White, Lit ''-'', Star White, Lit ''['', mark, Lit '']'', Star White,
     Lit ''WU-'', Plus (One wu_char), Bound]"

definition plan_wu_checkbox_counts :: "string \<Rightarrow> nat \<times> nat" where
  "plan_wu_checkbox_counts text =
     (let ls = phase_lines text in
      (length (filter (rx_match (wu_row_rx (Lit '' ''))) ls), length (filter (rx_match (wu_row_rx (One mark_char))) ls)))"

subsection \<open>Is the implementation done?\<close>

definition phases_effectively_complete :: "yaml \<Rightarrow> item_dir \<Rightarrow> bool option" where
  "phases_effectively_complete yaml d =
     (case dget (docs d) ''PHASES.md'' of
        None \<Rightarrow> Some False
      | Some f \<Rightarrow>
          if fst (count_deliverables (doc_text f)) = 0 then Some True
          else (case find_implementation_plans yaml d of
              None \<Rightarrow> None
            | Some (p # ps) \<Rightarrow> Some False
            | Some [] \<Rightarrow> map_option (\<lambda>c. c \<and> remaining_unchecked_are_verification_only (doc_text f))
                                    (has_any_complete_plan yaml d)))"

text \<open>The line scan of \<open>feature_is_near_complete\<close>: the first line \<open>status:\<close> of a plan decides.\<close>

definition status_line :: "string \<Rightarrow> bool option" where
  "status_line line =
     (let s = strip line in
      if prefix ''status:'' (to_lower s) then Some (strip (drop 7 s) = ''Complete'') else None)"

definition status_says_complete :: "string \<Rightarrow> bool" where
  "status_says_complete text = (first_match status_line (splitlines text) = Some True)"

definition glob_md :: "string \<Rightarrow> bool" where
  "glob_md n \<longleftrightarrow> suffix ''.md'' n"

definition feature_is_near_complete :: "item_dir \<Rightarrow> bool" where
  "feature_is_near_complete d =
     (\<not> has_doc d ''BLOCKED.md'' \<and>
      (case dget (docs d) ''PHASES.md'' of
         None \<Rightarrow> False
       | Some f \<Rightarrow> remaining_unchecked_are_verification_only (doc_text f) \<and>
           list_ex (\<lambda>(n, p). glob_md n \<and> status_says_complete (doc_text p)) (plan_dir d)))"

definition plan_cloud_saturated :: "yaml \<Rightarrow> item_dir \<Rightarrow> plan_ref \<Rightarrow> string \<Rightarrow> bool option" where
  "plan_cloud_saturated yaml d p phases =
     (case dget (docs d) ''DEFERRED_NON_CLOUD.md'' of
        None \<Rightarrow> Some False
      | Some f \<Rightarrow> map_option
          (\<lambda>ps. let open_wus = unchecked_wus_in_plan_scope phases ps in
               ps \<noteq> {} \<and> open_wus \<noteq> [] \<and> list_all (\<lambda>w. contains w (doc_text f)) open_wus)
          (plan_phase_set yaml d p))"

end
