(* ===== verification/Route_Walk.thy ===== *)
theory Route_Walk
  imports Evidence Plan_Docs Run_Counters
begin

text \<open>
  Step 2 of \<open>compute_state\<close> in \<^verbatim>\<open>user/scripts/lazy-state.py\<close>: loading the feature queue and walking it to
  the item to work on. Each block of the loop body is a stage, which lets the item pass, skips it or
  returns; the loop runs the stages in order on every entry. The state of the walk is the record
  \<open>walk\<close>: the lists that the probe reports, the budget facets of the run marker, and the disk, to
  which the walk writes sentinels. \<open>None\<close> is the end of the process.
\<close>

subsection \<open>The environment\<close>

record route_cfg =
  cfg_cloud :: bool
  cfg_skip_needs_research :: bool
  cfg_real_device :: bool
  cfg_scope :: "string option"
  cfg_park_needs_input :: bool
  cfg_park_blocked :: bool
  cfg_park_provisional :: bool
  cfg_cycle_cap :: "int option"
  cfg_strict_research_halt :: bool

text \<open>
  \<open>rt_resolve\<close> is \<open>(root / sub).resolve()\<close>, \<open>rt_dump\<close> the YAML writer, \<open>rt_hosts\<close> the capabilities found
  on this host, \<open>rt_now\<close> the time stamp and \<open>rt_today\<close> the date; \<open>rt_run\<close> is the live run marker with
  its budget facets.
\<close>

record run_budget =
  rb_marker :: marker
  rb_deferred :: "(string, int) dict"
  rb_evicted :: "string list"

record route_env =
  rt_yaml :: yaml
  rt_dump :: "meta \<Rightarrow> string"
  rt_repo :: repo_env
  rt_root :: path
  rt_resolve :: "string \<Rightarrow> path"
  rt_roadmap :: string
  rt_hosts :: "string list"
  rt_now :: string
  rt_today :: string
  rt_short_head :: "string option"
  rt_run :: "run_budget option"

subsection \<open>The queue\<close>

definition feature_tier_default :: int where
  "feature_tier_default = 99"

definition priority_line :: "string \<Rightarrow> int option" where
  "priority_line line =
     (let r = lstrip (drop 13 line) in
      if rx_match (seqs [Lit ''**Priority:**'', Star White, One (\<lambda>c. c = CHR ''P'' \<or> c = CHR ''p''),
            One (\<lambda>c. c \<in> set ''0123''), Bound]) line
      then Some (digit_val (r ! 1)) else None)"

definition feature_tier :: "item_dir \<Rightarrow> int" where
  "feature_tier d = (case first_match priority_line (spec_lines d) of Some n \<Rightarrow> n | None \<Rightarrow> feature_tier_default)"

definition open_dir :: "yaml \<Rightarrow> item_dir \<Rightarrow> bool option" where
  "open_dir yaml d =
     (if \<not> has_doc d ''SPEC.md'' \<or> spec_status d = Some ''Superseded'' then Some False
      else if spec_status d = Some ''Complete'' then map_option Not (has_completion_receipt yaml d ''COMPLETED.md'')
      else Some True)"

fun open_dirs :: "yaml \<Rightarrow> path \<Rightarrow> string set \<Rightarrow> disk \<Rightarrow> (int \<times> string \<times> item_dir) list option" where
  "open_dirs yaml root queued [] = Some []"
| "open_dirs yaml root queued ((p, d) # rest) =
     (let n = last p in
      if p = [] \<or> butlast p \<noteq> root \<or> prefix ''_'' n \<or> n \<in> queued then open_dirs yaml root queued rest
      else case open_dir yaml d of
          None \<Rightarrow> None
        | Some b \<Rightarrow> map_option (\<lambda>ds. if b then (feature_tier d, n, d) # ds else ds) (open_dirs yaml root queued rest))"

definition title_line :: "string \<Rightarrow> string option" where
  "title_line line =
     (let t = drop 1 line; n = ws_head wide_ws t in
      if prefix ''#'' line \<and> 0 < n then row_label (drop n t) else None)"

definition discovered_entry :: "int \<times> string \<times> item_dir \<Rightarrow> json" where
  "discovered_entry t =
     (case t of (tier, n, d) \<Rightarrow>
        JObj [(''id'', JStr n),
              (''name'', JStr (case first_match title_line (spec_lines d) of Some s \<Rightarrow> s | None \<Rightarrow> n)),
              (''spec_dir'', JStr n), (''tier'', JInt tier), (''queue_entry'', JNull)])"

definition find_open_feature_dirs ::
  "yaml \<Rightarrow> path \<Rightarrow> string set \<Rightarrow> disk \<Rightarrow> (int \<times> string \<times> item_dir) list option" where
  "find_open_feature_dirs yaml root queued disk =
     map_option (sort_key (\<lambda>(tier, n, d). (tier, n))) (open_dirs yaml root queued disk)"

definition load_queue :: "route_env \<Rightarrow> disk \<Rightarrow> json jfile \<Rightarrow> json list option" where
  "load_queue env disk file =
     (case file of
        Absent \<Rightarrow> Some []
      | Corrupt \<Rightarrow> None
      | Content data \<Rightarrow>
          if \<not> is_obj data then None
          else case (if jhas data ''queue'' then jget data ''queue'' else JArr []) of
              JArr items \<Rightarrow>
                (case validate_queue_deps items of
                   Inl e \<Rightarrow> None
                 | Inr _ \<Rightarrow>
                     if jget data ''autodiscover'' \<noteq> JBool True then Some items
                     else map_option (\<lambda>ds. items @ map discovered_entry ds)
                            (find_open_feature_dirs (rt_yaml env) (rt_root env)
                               (set (map entry_id (filter has_str_id items))) disk))
            | _ \<Rightarrow> None)"

definition queue_autodiscover_enabled :: "json jfile \<Rightarrow> bool option" where
  "queue_autodiscover_enabled file =
     (case file of Content data \<Rightarrow> if is_obj data then Some (jget data ''autodiscover'' = JBool True) else None
                 | _ \<Rightarrow> Some False)"

subsection \<open>What a probe reports\<close>

text \<open>The skill to run, or the reason to stop; the message to the operator is left out.\<close>

record route = probe +
  feature_name :: "string option"
  spec_path :: "path option"
  terminal_reason :: "string option"
  escalated :: bool

definition blank_route :: route where
  "blank_route = \<lparr>feature_id = None, sub_skill = None, sub_skill_args = None, current_step = None,
     feature_name = None, spec_path = None, terminal_reason = None, escalated = False\<rparr>"

datatype budget_action = Grace | Defer | Evict

record budget_guard =
  bg_feature :: string
  bg_count :: int
  bg_ceiling :: int
  bg_action :: budget_action
  bg_next :: "string option"
  bg_phase :: "string option"
  bg_commit :: "string option"
  bg_effective :: int
  bg_corrective :: int

text \<open>A queue entry whose directory exists.\<close>

record item =
  it_id :: string
  it_name :: string
  it_path :: path
  it_entry :: json
  it_dir :: item_dir

record walk =
  w_disk :: disk
  seen_ids :: "string list"
  scope_seen :: bool
  cloud_skipped :: "string list"
  device_deferred :: "string list"
  host_saturated :: "(string \<times> string list) list"
  operator_deferred :: "string list"
  research_skipped :: "string list"
  parked :: "parked_entry list"
  provisional :: "parked_entry list"
  w_evicted :: "string list"
  w_deferred :: "(string, int) dict"
  budget_skipped :: "string list"
  budget_trip :: "budget_guard option"
  dep_gated :: "(string \<times> string list) list"
  gated_heads :: "string list"
  research_heads :: "string list"
  skip_blocked :: "string list"
  fallback_head :: "item option"
  budget_resumed :: "string option"
  budget_written :: bool

definition start_walk :: "route_env \<Rightarrow> disk \<Rightarrow> walk" where
  "start_walk env disk = \<lparr>w_disk = disk, seen_ids = [], scope_seen = False, cloud_skipped = [],
     device_deferred = [], host_saturated = [], operator_deferred = [], research_skipped = [], parked = [],
     provisional = [],
     w_evicted = (case rt_run env of None \<Rightarrow> [] | Some r \<Rightarrow> rb_evicted r),
     w_deferred = (case rt_run env of None \<Rightarrow> [] | Some r \<Rightarrow> rb_deferred r),
     budget_skipped = [], budget_trip = None, dep_gated = [], gated_heads = [], research_heads = [],
     skip_blocked = [], fallback_head = None, budget_resumed = None, budget_written = False\<rparr>"

text \<open>A stage lets the item pass, skips it, or ends the probe with a route.\<close>

datatype outcome = Proceed walk | Skip walk | Return route walk

type_synonym stage = "route_env \<Rightarrow> route_cfg \<Rightarrow> item \<Rightarrow> walk \<Rightarrow> outcome option"

definition item_route :: "item \<Rightarrow> string \<Rightarrow> route" where
  "item_route it step = blank_route\<lparr>feature_id := Some (it_id it), feature_name := Some (it_name it),
     spec_path := Some (it_path it), current_step := Some step\<rparr>"

definition item_stop :: "item \<Rightarrow> string \<Rightarrow> string \<Rightarrow> route" where
  "item_stop it step reason = (item_route it step)\<lparr>terminal_reason := Some reason\<rparr>"

text \<open>Under a scoped query the item that would be skipped is returned with its identity.\<close>

definition skip_or_scoped :: "route_cfg \<Rightarrow> item \<Rightarrow> string \<Rightarrow> string \<Rightarrow> walk \<Rightarrow> walk \<Rightarrow> outcome" where
  "skip_or_scoped cfg it step reason w w' =
     (if cfg_scope cfg = Some (it_id it) then Return (item_stop it step reason) w else Skip w')"

definition store_doc :: "path \<Rightarrow> string \<Rightarrow> string \<Rightarrow> walk \<Rightarrow> walk" where
  "store_doc p n text w =
     (case dget (w_disk w) p of
        None \<Rightarrow> w
      | Some d \<Rightarrow> if has_doc d n then w
                  else w\<lparr>w_disk := dset p (put_doc n \<lparr>doc_text = text, doc_mtime = 0\<rparr> d) (w_disk w)\<rparr>)"

text \<open>A sentinel as the walk writes it; its prose is left out.\<close>

definition sentinel_text :: "route_env \<Rightarrow> meta \<Rightarrow> string" where
  "sentinel_text env m =
     fence @ newline @ strip (rt_dump env m) @ newline @ fence @ newline @ newline @ ''# Sentinel'' @ newline"

definition blocked_text :: "route_env \<Rightarrow> string \<Rightarrow> string \<Rightarrow> string \<Rightarrow> string" where
  "blocked_text env i phase kind = sentinel_text env
     [(''kind'', JStr ''blocked''), (''feature_id'', JStr i), (''phase'', JStr phase),
      (''blocker_kind'', JStr kind), (''blocked_at'', JStr (rt_now env)), (''retry_count'', JInt 0)]"

definition block_item :: "route_env \<Rightarrow> item \<Rightarrow> string \<Rightarrow> string \<Rightarrow> walk \<Rightarrow> walk" where
  "block_item env it phase kind w = store_doc (it_path it) ''BLOCKED.md'' (blocked_text env (it_id it) phase kind) w"

subsection \<open>Completion and the deferrals\<close>

definition completion_stage :: stage where
  "completion_stage env cfg it w =
     (if \<not> completion_claimed (rt_roadmap env) (it_name it) (it_dir it) then Some (Proceed w)
      else map_option
        (\<lambda>finished. if finished then skip_or_scoped cfg it ''Complete (scoped)'' ''feature-complete-scoped'' w w
                   else Return (item_stop it ''Step 2: completion claimed without receipt'' ''completion-unverified'') w)
        (if spec_status (it_dir it) = Some ''Superseded'' then Some True
         else has_completion_receipt (rt_yaml env) (it_dir it) ''COMPLETED.md''))"

definition cloud_stage :: stage where
  "cloud_stage env cfg it w =
     (let d = it_dir it in
      if cfg_cloud cfg \<and> has_doc d ''DEFERRED_NON_CLOUD.md'' \<and> \<not> has_doc d ''VALIDATED.md'' then
        map_option
          (\<lambda>finished. if \<not> finished then Proceed w
            else skip_or_scoped cfg it ''Cloud-deferred (scoped)'' ''cloud-queue-exhausted-scoped'' w
                   (w\<lparr>cloud_skipped := cloud_skipped w @ [it_name it]\<rparr>))
          (phases_effectively_complete (rt_yaml env) d)
      else Some (Proceed w))"

definition real_device :: "route_cfg \<Rightarrow> bool" where
  "real_device cfg \<longleftrightarrow> cfg_real_device cfg \<and> \<not> cfg_cloud cfg"

text \<open>The scenarios as they are printed; a list or a mapping inside the list is cut off at its bracket.\<close>

definition scenario_text :: "json \<Rightarrow> string option" where
  "scenario_text v =
     (if \<not> truthy v then Some ''(see DEFERRED_REQUIRES_DEVICE.md)''
      else case v of
          JArr xs \<Rightarrow> Some (join '', '' (map py_str xs))
        | JStr s \<Rightarrow> Some (join '', '' (code_points s))
        | JObj m \<Rightarrow> Some (join '', '' (dkeys m))
        | _ \<Rightarrow> None)"

definition device_stage :: stage where
  "device_stage env cfg it w =
     (let d = it_dir it in
      if \<not> real_device cfg \<and> has_doc d ''DEFERRED_REQUIRES_DEVICE.md'' \<and> \<not> has_doc d ''VALIDATED.md'' then
        Option.bind (phases_effectively_complete (rt_yaml env) d) (\<lambda>finished.
          if \<not> finished then Some (Proceed w)
          else map_option
            (\<lambda>_. skip_or_scoped cfg it ''Device-deferred (scoped)'' ''device-queue-exhausted-scoped'' w
                   (w\<lparr>device_deferred := device_deferred w @ [it_name it]\<rparr>))
            (Option.bind (parse_sentinel (rt_yaml env) d ''DEFERRED_REQUIRES_DEVICE.md'')
              (\<lambda>m. scenario_text (mget m ''deferred_scenarios''))))
      else Some (Proceed w))"

definition spec_text :: "item_dir \<Rightarrow> string" where
  "spec_text d = (case dget (docs d) ''SPEC.md'' of None \<Rightarrow> [] | Some f \<Rightarrow> doc_text f)"

definition deferred_host_text :: "route_env \<Rightarrow> string \<Rightarrow> string list \<Rightarrow> string" where
  "deferred_host_text env i missing = sentinel_text env
     [(''kind'', JStr ''deferred-requires-host''), (''feature_id'', JStr i),
      (''missing_capabilities'', JArr (map JStr missing)),
      (''deferred_by'', JStr (if rt_run env \<noteq> None then ''lazy-batch'' else ''lazy'')), (''date'', JStr (rt_today env))]"

definition host_stage :: stage where
  "host_stage env cfg it w =
     (let d = it_dir it;
          required = parse_requires_host (spec_text d) (it_entry it);
          missing = sort (remdups (filter (\<lambda>c. c \<notin> set (rt_hosts env)) required))
      in if required = [] then Some (Proceed w)
         else if unknown_capability_ids required \<noteq> [] then
           Some (Return (item_stop it ''Step 3: blocked'' ''blocked'')
             (block_item env it ''Host-capability validation'' ''unknown-host-capability'' w))
         else if has_doc d ''VALIDATED.md'' then Some (Proceed w)
         else map_option
           (\<lambda>finished.
              if \<not> finished \<or> missing = [] then Proceed w
              else let w1 = store_doc (it_path it) ''DEFERRED_REQUIRES_HOST.md'' (deferred_host_text env (it_id it) missing) w
                   in skip_or_scoped cfg it ''Host-capability-deferred (scoped)'' ''host-capability-saturated-scoped'' w1
                        (w1\<lparr>host_saturated := host_saturated w1 @ [(it_id it, missing)]\<rparr>))
           (phases_effectively_complete (rt_yaml env) d))"

definition operator_stage :: stage where
  "operator_stage env cfg it w =
     (if \<not> spec_dir_operator_deferred (it_dir it) then Some (Proceed w)
      else if cfg_scope cfg = Some (it_id it)
      then Some (Return (item_stop it ''Operator-deferred (scoped)'' ''operator-deferred'') w)
      else map_option (\<lambda>_. Skip (w\<lparr>operator_deferred := operator_deferred w @ [it_name it]\<rparr>))
             (parse_sentinel (rt_yaml env) (it_dir it) ''DEFERRED.md''))"

definition research_stage :: stage where
  "research_stage env cfg it w =
     (if cfg_skip_needs_research cfg \<and> spec_dir_research_pending (it_dir it)
      then Some (Skip (w\<lparr>research_skipped := research_skipped w @ [it_name it]\<rparr>)) else Some (Proceed w))"

subsection \<open>Parking\<close>

definition park_item :: "route_env \<Rightarrow> route_cfg \<Rightarrow> item \<Rightarrow> string \<Rightarrow> string \<Rightarrow> string \<Rightarrow> walk \<Rightarrow> outcome option" where
  "park_item env cfg it sentinel step reason w =
     (if cfg_scope cfg = Some (it_id it) then Some (Return (item_stop it step reason) w)
      else map_option (\<lambda>p. Skip (w\<lparr>parked := parked w @ [p]\<rparr>))
             (build_parked_entry (rt_yaml env) (it_id it) (it_dir it) sentinel))"

definition park_blocked_stage :: stage where
  "park_blocked_stage env cfg it w =
     (if \<not> cfg_park_blocked cfg then Some (Proceed w)
      else if has_doc (it_dir it) ''BLOCKED.md''
      then park_item env cfg it ''BLOCKED.md'' ''Blocked, parked (scoped)'' ''blocked-scoped'' w
      else case detect_noncanonical_blocker (it_dir it) of
          None \<Rightarrow> Some (Proceed w)
        | Some stray \<Rightarrow> park_item env cfg it stray ''Blocked, parked (scoped)'' ''blocked-scoped'' w)"

definition provisional_accept :: "item \<Rightarrow> string \<Rightarrow> route" where
  "provisional_accept it args = (item_route it ''Step 3.5: needs-input (provisional accept)'')
     \<lparr>sub_skill := Some ''__provisional_accept__'', sub_skill_args := Some args\<rparr>"

definition path_str :: "path \<Rightarrow> string" where
  "path_str p = ''/'' @ join ''/'' p"

definition park_input_stage :: stage where
  "park_input_stage env cfg it w =
     (let d = it_dir it;
          park = park_item env cfg it ''NEEDS_INPUT.md'' ''Needs-input, parked (scoped)'' ''needs-input-scoped'' w
      in if cfg_park_needs_input cfg \<and> has_doc d ''NEEDS_INPUT.md'' \<and> \<not> has_doc d ''BLOCKED.md'' then
           if cfg_park_provisional cfg then
             Option.bind (provisional_eligibility (rt_yaml env) (rt_repo env) d) (\<lambda>ok.
               if ok then Some (Return (provisional_accept it (path_str (it_path it))) w) else park)
           else park
         else Some (Proceed w))"

definition provisional_stage :: stage where
  "provisional_stage env cfg it w =
     (let d = it_dir it in
      if cfg_park_needs_input cfg \<and> has_doc d provisional_sentinel then
        map_option
          (\<lambda>p. let w1 = (if \<exists>q\<in>set (provisional w). parked_id q = it_id it then w
                         else w\<lparr>provisional := provisional w @ [p]\<rparr>)
               in if \<not> has_doc d ''VALIDATED.md'' then Proceed w1
                  else skip_or_scoped cfg it ''Provisional, parked (scoped)'' ''needs-ratification-scoped'' w1
                         (w1\<lparr>parked := parked w1 @ [p]\<rparr>))
          (build_parked_entry (rt_yaml env) (it_id it) d provisional_sentinel)
      else Some (Proceed w))"

subsection \<open>The budget guard\<close>

definition lookup_count :: "(string, int) dict \<Rightarrow> string \<Rightarrow> int" where
  "lookup_count d k = (case dget d k of None \<Rightarrow> 0 | Some n \<Rightarrow> n)"

definition audit_phase :: "item_dir \<Rightarrow> string option" where
  "audit_phase d =
     (case dget (docs d) ''PHASES.md'' of
        None \<Rightarrow> None
      | Some f \<Rightarrow>
          (let ps = parse_phases (doc_text f) in
           case filter (\<lambda>p. ph_status p = Some ''In-progress'') ps @ ps of
             [] \<Rightarrow> None | p # _ \<Rightarrow> Some (ph_heading p)))"

text \<open>The guard on one item: its counts, and whether it trips.\<close>

definition trip_signals :: "run_budget \<Rightarrow> int \<Rightarrow> item \<Rightarrow> walk \<Rightarrow> bool \<times> int \<times> trip_reason" where
  "trip_signals run ceiling it w =
     budget_trip_signals (lookup_count (read_per_feature_forward_cycles (Some (rb_marker run))) (it_id it))
       (count_validation_corrective_cycles (Some (rb_marker run)) (it_id it)) ceiling
       (feature_is_near_complete (it_dir it) \<and> lookup_count (w_deferred w) (it_id it) < 1)"

definition record_trip :: "route_env \<Rightarrow> run_budget \<Rightarrow> int \<Rightarrow> item \<Rightarrow> int \<Rightarrow> budget_action \<Rightarrow> string option \<Rightarrow> walk \<Rightarrow> walk" where
  "record_trip env run ceiling it effective action phase w =
     (if budget_trip w \<noteq> None then w
      else w\<lparr>budget_trip := Some
        \<lparr>bg_feature = it_id it,
         bg_count = lookup_count (read_per_feature_forward_cycles (Some (rb_marker run))) (it_id it),
         bg_ceiling = ceiling, bg_action = action, bg_next = None, bg_phase = phase,
         bg_commit = rt_short_head env, bg_effective = effective,
         bg_corrective = count_validation_corrective_cycles (Some (rb_marker run)) (it_id it)\<rparr>\<rparr>)"

definition trip_action :: "item \<Rightarrow> walk \<Rightarrow> budget_action" where
  "trip_action it w =
     (if lookup_count (w_deferred w) (it_id it) < 1 \<or> feature_is_near_complete (it_dir it) then Defer else Evict)"

definition apply_trip :: "item \<Rightarrow> budget_action \<Rightarrow> walk \<Rightarrow> walk" where
  "apply_trip it action w =
     (let w1 = (if action = Defer
                then w\<lparr>w_deferred := dset (it_id it) (lookup_count (w_deferred w) (it_id it) + 1) (w_deferred w)\<rparr>
                else w\<lparr>w_evicted := (if it_id it \<in> set (w_evicted w) then w_evicted w else w_evicted w @ [it_id it])\<rparr>)
      in w1\<lparr>budget_skipped := budget_skipped w1 @ [it_id it]\<rparr>)"

definition budget_stage :: "int option \<Rightarrow> stage" where
  "budget_stage ceiling env cfg it w =
     Some (case (rt_run env, ceiling) of
        (Some run, Some c) \<Rightarrow>
          if it_id it \<in> set (w_evicted w) then Skip (w\<lparr>budget_skipped := budget_skipped w @ [it_id it]\<rparr>)
          else (case trip_signals run c it w of (defer, effective, _) \<Rightarrow>
            if defer then
              let action = trip_action it w
              in Skip (record_trip env run c it effective action (audit_phase (it_dir it)) (apply_trip it action w))
            else if feature_is_near_complete (it_dir it) \<and> lookup_count (w_deferred w) (it_id it) < 1 \<and>
                    c \<le> lookup_count (read_per_feature_forward_cycles (Some (rb_marker run))) (it_id it)
            then Proceed (record_trip env run c it effective Grace None w)
            else Proceed w)
      | _ \<Rightarrow> Proceed w)"

subsection \<open>The dependency gate\<close>

definition entry_str :: "json \<Rightarrow> string \<Rightarrow> string" where
  "entry_str e k = (case jget e k of JStr s \<Rightarrow> s | _ \<Rightarrow> [])"

definition dep_dir_map :: "route_env \<Rightarrow> json list \<Rightarrow> (string, path) dict" where
  "dep_dir_map env queue =
     fold (\<lambda>e m. if entry_str e ''id'' \<noteq> [] \<and> entry_str e ''spec_dir'' \<noteq> []
                then dset (entry_str e ''id'') (rt_resolve env (entry_str e ''spec_dir'')) m else m) queue []"

text \<open>The dependencies in order: the first that can never be met, or those that are not met yet.\<close>

fun check_deps :: "(string \<Rightarrow> dep_status option) \<Rightarrow> string list \<Rightarrow> (string + string list) option" where
  "check_deps status [] = Some (Inr [])"
| "check_deps status (d # ds) =
     (case status d of
        None \<Rightarrow> None
      | Some DepComplete \<Rightarrow> check_deps status ds
      | Some DepIncomplete \<Rightarrow> map_option (map_sum id (Cons d)) (check_deps status ds)
      | Some _ \<Rightarrow> Some (Inl d))"

definition dep_status_in :: "route_env \<Rightarrow> json list \<Rightarrow> disk \<Rightarrow> string \<Rightarrow> dep_status option" where
  "dep_status_in env queue disk dep =
     dep_completion_status (rt_yaml env) (rt_root env) disk (dep_dir_map env queue) dep"

definition dep_stage :: "json list \<Rightarrow> stage" where
  "dep_stage queue env cfg it w =
     map_option
       (\<lambda>r. case r of
          Inl bad \<Rightarrow> Return (item_stop it ''Step 3: blocked'' ''blocked'')
                     (block_item env it ''Dependency validation'' ''unknown-dependency'' w)
        | Inr [] \<Rightarrow> Proceed w
        | Inr missing \<Rightarrow> Skip (w\<lparr>dep_gated := dep_gated w @ [(it_id it, missing)]\<rparr>))
       (check_deps (dep_status_in env queue (w_disk w)) (dep_ids (it_entry it)))"

subsection \<open>Gated heads and skip-ahead\<close>

datatype gate_kind = ResearchGate | BlockedGate

definition gated_head_kind :: "item_dir \<Rightarrow> gate_kind option" where
  "gated_head_kind d =
     (if spec_dir_research_pending d then Some ResearchGate
      else if has_doc d ''BLOCKED.md'' then Some BlockedGate else None)"

fun add_queue_deps :: "string list \<Rightarrow> spec_dep list \<Rightarrow> spec_dep list" where
  "add_queue_deps [] ds = ds"
| "add_queue_deps (q # qs) ds =
     add_queue_deps qs (if q \<in> dep_feature ` set ds then ds
       else ds @ [\<lparr>dep_feature = q, dep_kind = ''hard'', dep_reason = ''queue deps field''\<rparr>])"

fun dedup_deps :: "spec_dep list \<Rightarrow> spec_dep list \<Rightarrow> spec_dep list" where
  "dedup_deps acc [] = acc"
| "dedup_deps acc (d # ds) = dedup_deps (if dep_feature d \<in> dep_feature ` set acc then acc else acc @ [d]) ds"

definition merged_skip_ahead_deps :: "spec_dep list \<Rightarrow> string list \<Rightarrow> spec_dep list" where
  "merged_skip_ahead_deps spec queue = add_queue_deps queue (dedup_deps [] spec)"

definition item_ready :: "item \<Rightarrow> string set \<Rightarrow> bool" where
  "item_ready it gated =
     (let text = spec_text (it_dir it) in
      skip_ahead_ready (merged_skip_ahead_deps (parse_dep_block text) (dep_ids (it_entry it))) gated
        (parse_independent_marker text (it_entry it)))"

definition hold_head :: "item \<Rightarrow> gate_kind \<Rightarrow> walk \<Rightarrow> walk" where
  "hold_head it k w = w\<lparr>gated_heads := gated_heads w @ [it_id it],
     research_heads := research_heads w @ (if k = ResearchGate then [it_id it] else []),
     fallback_head := (if fallback_head w = None then Some it else fallback_head w)\<rparr>"

definition gate_stage :: stage where
  "gate_stage env cfg it w =
     Some (if cfg_strict_research_halt cfg then Proceed w
       else case gated_head_kind (it_dir it) of
           Some k \<Rightarrow> Skip (hold_head it k w)
         | None \<Rightarrow>
             if gated_heads w \<noteq> [] \<and> \<not> item_ready it (set (gated_heads w))
             then Skip (w\<lparr>skip_blocked := skip_blocked w @ [it_id it]\<rparr>) else Proceed w)"

subsection \<open>The loop\<close>

fun run_stages :: "stage list \<Rightarrow> stage" where
  "run_stages [] env cfg it w = Some (Proceed w)"
| "run_stages (s # ss) env cfg it w =
     (case s env cfg it w of
        None \<Rightarrow> None
      | Some (Proceed w') \<Rightarrow> run_stages ss env cfg it w'
      | Some out \<Rightarrow> Some out)"

definition stages :: "json list \<Rightarrow> int option \<Rightarrow> stage list" where
  "stages queue ceiling =
     [completion_stage, cloud_stage, device_stage, host_stage, operator_stage, research_stage,
      park_blocked_stage, park_input_stage, provisional_stage, budget_stage ceiling, dep_stage queue, gate_stage]"

datatype walk_end = Exhausted walk | Picked item walk | Returned route walk

text \<open>
  One entry: an entry without id, name or directory, with a directory that does not exist, with an id
  seen before, or out of scope is passed over.
\<close>

definition enter_item :: "route_env \<Rightarrow> route_cfg \<Rightarrow> json \<Rightarrow> walk \<Rightarrow> (walk + item \<times> walk)" where
  "enter_item env cfg e w =
     (let i = entry_str e ''id''; n = entry_str e ''name''; sub = entry_str e ''spec_dir''; p = rt_resolve env sub in
      if i = [] \<or> n = [] \<or> sub = [] then Inl w
      else case dget (w_disk w) p of
          None \<Rightarrow> Inl w
        | Some d \<Rightarrow>
            if i \<in> set (seen_ids w) then Inl w
            else let w1 = w\<lparr>seen_ids := seen_ids w @ [i]\<rparr>
              in if cfg_scope cfg \<notin> {None, Some i} then Inl w1
                 else Inr (\<lparr>it_id = i, it_name = n, it_path = p, it_entry = e, it_dir = d\<rparr>,
                           if cfg_scope cfg = None then w1 else w1\<lparr>scope_seen := True\<rparr>))"

fun walk_queue :: "stage list \<Rightarrow> route_env \<Rightarrow> route_cfg \<Rightarrow> json list \<Rightarrow> walk \<Rightarrow> walk_end option" where
  "walk_queue ss env cfg [] w = Some (Exhausted w)"
| "walk_queue ss env cfg (e # es) w =
     (if \<not> is_obj e then None
      else case enter_item env cfg e w of
          Inl w1 \<Rightarrow> walk_queue ss env cfg es w1
        | Inr (it, w1) \<Rightarrow>
            (case run_stages ss env cfg it w1 of
               None \<Rightarrow> None
             | Some (Skip w2) \<Rightarrow> walk_queue ss env cfg es w2
             | Some (Return r w2) \<Rightarrow> Some (Returned r w2)
             | Some (Proceed w2) \<Rightarrow> Some (Picked it w2)))"

subsection \<open>After the loop\<close>

text \<open>With no other item to work on, the first gated head is taken after all, and no skip is reported.\<close>

definition fall_back :: "walk_end \<Rightarrow> (item option \<times> walk)" where
  "fall_back e =
     (case e of
        Picked it w \<Rightarrow> (Some it, w)
      | Exhausted w \<Rightarrow>
          (case fallback_head w of
             None \<Rightarrow> (None, w)
           | Some it \<Rightarrow> (Some it, w\<lparr>gated_heads := [], research_heads := [], skip_blocked := []\<rparr>))
      | Returned r w \<Rightarrow> (None, w))"

text \<open>When the guard has tripped, its facets go back into the marker.\<close>

definition persist_budget :: "route_env \<Rightarrow> item option \<times> walk \<Rightarrow> item option \<times> walk" where
  "persist_budget env c =
     (case c of (cur, w) \<Rightarrow>
        if rt_run env = None then (cur, w)
        else case budget_trip w of
            None \<Rightarrow> (cur, w)
          | Some g \<Rightarrow> (cur, w\<lparr>budget_trip := Some (case cur of None \<Rightarrow> g | Some it \<Rightarrow> g\<lparr>bg_next := Some (it_id it)\<rparr>),
                               budget_written := True\<rparr>))"

definition resumable :: "route_env \<Rightarrow> walk \<Rightarrow> json \<Rightarrow> item option" where
  "resumable env w e =
     (let i = entry_str e ''id''; n = entry_str e ''name''; sub = entry_str e ''spec_dir''; p = rt_resolve env sub in
      if i = [] \<or> n = [] \<or> sub = [] \<or> i \<notin> set (budget_skipped w) \<or> i \<in> set (w_evicted w) then None
      else case dget (w_disk w) p of
          None \<Rightarrow> None
        | Some d \<Rightarrow> if feature_is_near_complete d
                    then Some \<lparr>it_id = i, it_name = n, it_path = p, it_entry = e, it_dir = d\<rparr> else None)"

definition resume_flush :: "route_env \<Rightarrow> json list \<Rightarrow> item option \<times> walk \<Rightarrow> item option \<times> walk" where
  "resume_flush env queue c =
     (case c of (cur, w) \<Rightarrow>
        if cur \<noteq> None \<or> rt_run env = None \<or> budget_skipped w = [] then (cur, w)
        else case first_match (resumable env w) queue of
            None \<Rightarrow> (None, w)
          | Some it \<Rightarrow> (Some it, w\<lparr>budget_resumed := Some (it_id it)\<rparr>))"

definition stop_route :: "string \<Rightarrow> string option \<Rightarrow> route" where
  "stop_route reason step = blank_route\<lparr>terminal_reason := Some reason, current_step := step\<rparr>"

definition cloud_exhausted :: "route_cfg \<Rightarrow> walk \<Rightarrow> bool" where
  "cloud_exhausted cfg w = (cfg_cloud cfg \<and> cloud_skipped w \<noteq> [])"

definition device_exhausted :: "route_cfg \<Rightarrow> walk \<Rightarrow> bool" where
  "device_exhausted cfg w = (\<not> real_device cfg \<and> device_deferred w \<noteq> [])"

definition research_exhausted :: "route_cfg \<Rightarrow> walk \<Rightarrow> bool" where
  "research_exhausted cfg w = (cfg_skip_needs_research cfg \<and> research_skipped w \<noteq> [])"

definition scope_missed :: "route_cfg \<Rightarrow> walk \<Rightarrow> bool" where
  "scope_missed cfg w = (cfg_scope cfg \<noteq> None \<and> \<not> scope_seen w)"

definition exhausted_route :: "route_env \<Rightarrow> route_cfg \<Rightarrow> walk \<Rightarrow> route" where
  "exhausted_route env cfg w =
     (if rt_run env \<noteq> None \<and> budget_skipped w \<noteq> [] \<and>
         \<not> (cloud_exhausted cfg w \<or> device_exhausted cfg w \<or> host_saturated w \<noteq> [] \<or>
            research_exhausted cfg w \<or> scope_missed cfg w)
      then stop_route ''queue-exhausted-budget-deferred'' None
      else if cloud_exhausted cfg w then stop_route ''cloud-queue-exhausted'' None
      else if device_exhausted cfg w then stop_route ''device-queue-exhausted'' None
      else if host_saturated w \<noteq> [] then stop_route ''host-capability-saturated'' None
      else if operator_deferred w \<noteq> []
      then stop_route ''all-remaining-deferred'' (Some ''All remaining features are operator-deferred'')
      else if research_exhausted cfg w then stop_route ''queue-blocked-on-research'' None
      else if scope_missed cfg w then stop_route ''scoped-id-not-found'' None
      else if dep_gated w \<noteq> [] then stop_route ''queue-exhausted-dependency-gated'' None
      else if parked w \<noteq> [] then stop_route ''queue-exhausted-all-parked'' None
      else stop_route ''all-features-complete'' None)"

definition finish_walk :: "route_env \<Rightarrow> route_cfg \<Rightarrow> json list \<Rightarrow> walk_end \<Rightarrow> (item + route) \<times> walk" where
  "finish_walk env cfg queue e =
     (case e of
        Returned r w \<Rightarrow> (Inr r, w)
      | _ \<Rightarrow> (case resume_flush env queue (persist_budget env (fall_back e)) of
                (Some it, w) \<Rightarrow> (Inl it, w)
              | (None, w) \<Rightarrow> (Inr (exhausted_route env cfg w), w)))"

text \<open>The number of ready entries, which the ceiling is computed from.\<close>

fun ready_depth :: "route_env \<Rightarrow> disk \<Rightarrow> string list \<Rightarrow> string list \<Rightarrow> json list \<Rightarrow> int option" where
  "ready_depth env disk evicted seen [] = Some 0"
| "ready_depth env disk evicted seen (e # es) =
     (let i = entry_str e ''id''; n = entry_str e ''name''; sub = entry_str e ''spec_dir''; p = rt_resolve env sub in
      if \<not> is_obj e then None
      else if i = [] \<or> sub = [] \<or> n = [] \<or> i \<in> set seen then ready_depth env disk evicted seen es
      else case dget disk p of
          None \<Rightarrow> ready_depth env disk evicted (i # seen) es
        | Some d \<Rightarrow>
            Option.bind
              (if \<not> completion_claimed (rt_roadmap env) n d then Some False
               else if spec_status d = Some ''Superseded'' then Some True
               else has_completion_receipt (rt_yaml env) d ''COMPLETED.md'')
              (\<lambda>finished. map_option ((+) (if finished \<or> i \<in> set evicted then 0 else 1))
                 (ready_depth env disk evicted (i # seen) es)))"

definition cycle_ceiling :: "route_env \<Rightarrow> route_cfg \<Rightarrow> disk \<Rightarrow> json list \<Rightarrow> int option option" where
  "cycle_ceiling env cfg disk queue =
     (case rt_run env of
        None \<Rightarrow> Some None
      | Some run \<Rightarrow> map_option (\<lambda>depth. compute_per_feature_ceiling (count_of (max_cycles (rb_marker run))) depth (cfg_cycle_cap cfg))
          (ready_depth env disk (rb_evicted run) [] queue))"

text \<open>The walk over a queue: the item to work on, or the route of the probe.\<close>

definition select_item :: "route_env \<Rightarrow> route_cfg \<Rightarrow> disk \<Rightarrow> json list \<Rightarrow> ((item + route) \<times> walk) option" where
  "select_item env cfg disk queue =
     Option.bind (cycle_ceiling env cfg disk queue) (\<lambda>ceiling.
       map_option (finish_walk env cfg queue)
         (walk_queue (stages queue ceiling) env cfg queue (start_walk env disk)))"

text \<open>\<open>None\<close> also for the refused combination of the park flags.\<close>

definition route_queue :: "route_env \<Rightarrow> route_cfg \<Rightarrow> disk \<Rightarrow> json jfile \<Rightarrow> ((item + route) \<times> walk) option" where
  "route_queue env cfg disk file =
     (if cfg_park_provisional cfg \<and> \<not> cfg_park_needs_input cfg then None
      else Option.bind (load_queue env disk file) (\<lambda>queue.
        if queue \<noteq> [] then select_item env cfg disk queue
        else Option.bind (queue_autodiscover_enabled file) (\<lambda>auto.
          if auto then select_item env cfg disk queue
          else Some (Inr (stop_route ''queue-missing'' None), start_walk env disk))))"

end
