(* ===== verification/Walk_Facts.thy ===== *)
theory Walk_Facts
  imports Route_Walk
begin

text \<open>
  What the walk of \<^theory_text>\<open>Route_Walk\<close> promises. The interface \<open>walk_stage\<close> is the contract of one stage of
  the loop body; every stage of the program is an interpretation of it, and the facts about the whole
  walk are proved from the contract alone.
\<close>

named_theorems stage_defs
  \<open>the stages and what they call\<close>

declare completion_stage_def [stage_defs] cloud_stage_def [stage_defs] device_stage_def [stage_defs]
  host_stage_def [stage_defs] operator_stage_def [stage_defs] research_stage_def [stage_defs]
  park_blocked_stage_def [stage_defs] park_input_stage_def [stage_defs] provisional_stage_def [stage_defs]
  budget_stage_def [stage_defs] dep_stage_def [stage_defs] gate_stage_def [stage_defs]
  park_item_def [stage_defs] skip_or_scoped_def [stage_defs] Let_def [stage_defs]

subsection \<open>Directories up to the sentinels the walk writes\<close>

definition walk_writes :: "string set" where
  "walk_writes = {''DEFERRED_REQUIRES_HOST.md''}"

definition dir_like :: "item_dir \<Rightarrow> item_dir \<Rightarrow> bool" where
  "dir_like d d' \<longleftrightarrow> plan_docs d' = plan_docs d \<and> (\<forall>n. n \<notin> walk_writes \<longrightarrow> dget (docs d') n = dget (docs d) n)"

definition place_like :: "path \<times> item_dir \<Rightarrow> path \<times> item_dir \<Rightarrow> bool" where
  "place_like a b \<longleftrightarrow> fst b = fst a \<and> dir_like (snd a) (snd b)"

abbreviation disk_like :: "disk \<Rightarrow> disk \<Rightarrow> bool" where
  "disk_like \<equiv> list_all2 place_like"

lemma dir_like_refl [simp]: "dir_like d d"
  by (simp add: dir_like_def)

lemma place_like_refl [simp]: "place_like a a"
  by (simp add: place_like_def)

lemma disk_like_refl [simp]: "disk_like k k"
  by (simp add: list.rel_refl)

lemma dir_like_trans: "dir_like a b \<Longrightarrow> dir_like b c \<Longrightarrow> dir_like a c"
  by (auto simp: dir_like_def)

lemma disk_like_trans: "disk_like a b \<Longrightarrow> disk_like b c \<Longrightarrow> disk_like a c"
  by (rule list_all2_trans [where ?P1.0 = place_like and ?P2.0 = place_like])
    (auto simp: place_like_def intro: dir_like_trans)

lemma disk_like_lookup: "disk_like k k' \<Longrightarrow> rel_option dir_like (dget k p) (dget k' p)"
  by (induction rule: list_all2_induct) (auto simp: place_like_def)

lemma disk_like_update: "dget k p = Some d \<Longrightarrow> dir_like d d' \<Longrightarrow> disk_like k (dset p d' k)"
  by (induction k) (auto simp: place_like_def split: if_splits)

lemma dir_like_doc: "dir_like d d' \<Longrightarrow> n \<notin> walk_writes \<Longrightarrow> dget (docs d') n = dget (docs d) n"
  by (simp add: dir_like_def)

lemma dir_like_readers:
  assumes "dir_like d d'"
  shows "spec_status d' = spec_status d" "spec_text d' = spec_text d"
    "has_completion_receipt yaml d' ''COMPLETED.md'' = has_completion_receipt yaml d ''COMPLETED.md''"
proof -
  have "dget (docs d') ''SPEC.md'' = dget (docs d) ''SPEC.md''"
    and "dget (docs d') ''COMPLETED.md'' = dget (docs d) ''COMPLETED.md''"
    using assms by (simp_all add: dir_like_doc walk_writes_def)
  then show "spec_status d' = spec_status d" "spec_text d' = spec_text d"
    "has_completion_receipt yaml d' ''COMPLETED.md'' = has_completion_receipt yaml d ''COMPLETED.md''"
    by (simp_all add: spec_status_def spec_lines_def spec_text_def has_completion_receipt_def has_doc_def parse_sentinel_def)
qed

lemma store_doc_like: "n \<in> walk_writes \<Longrightarrow> disk_like (w_disk w) (w_disk (store_doc p n text w))"
  by (auto simp: store_doc_def put_doc_def dict_simps split: option.split
      intro!: disk_like_update) (simp add: dir_like_def dict_simps)

subsection \<open>The contract of a stage\<close>

definition finished_item :: "route_env \<Rightarrow> string \<Rightarrow> item_dir \<Rightarrow> bool" where
  "finished_item env n d \<longleftrightarrow> completion_claimed (rt_roadmap env) n d \<and>
     (spec_status d = Some ''Superseded'' \<or> has_completion_receipt (rt_yaml env) d ''COMPLETED.md'' = Some True)"

text \<open>Some skip of this walk is on record; and each record has the flag that allows it.\<close>

definition pending :: "walk \<Rightarrow> bool" where
  "pending w \<longleftrightarrow> cloud_skipped w \<noteq> [] \<or> device_deferred w \<noteq> [] \<or> host_saturated w \<noteq> [] \<or>
     operator_deferred w \<noteq> [] \<or> research_skipped w \<noteq> [] \<or> parked w \<noteq> [] \<or> budget_skipped w \<noteq> [] \<or>
     dep_gated w \<noteq> [] \<or> fallback_head w \<noteq> None"

definition guarded :: "route_env \<Rightarrow> route_cfg \<Rightarrow> walk \<Rightarrow> bool" where
  "guarded env cfg w \<longleftrightarrow> (cloud_skipped w \<noteq> [] \<longrightarrow> cfg_cloud cfg) \<and>
     (device_deferred w \<noteq> [] \<longrightarrow> \<not> real_device cfg) \<and>
     (research_skipped w \<noteq> [] \<longrightarrow> cfg_skip_needs_research cfg) \<and>
     (budget_skipped w \<noteq> [] \<longrightarrow> rt_run env \<noteq> None) \<and>
     (gated_heads w \<noteq> [] \<longrightarrow> fallback_head w \<noteq> None \<and> \<not> cfg_strict_research_halt cfg)"

definition keeps :: "route_env \<Rightarrow> route_cfg \<Rightarrow> walk \<Rightarrow> walk \<Rightarrow> bool" where
  "keeps env cfg w w' \<longleftrightarrow> (guarded env cfg w \<longrightarrow> guarded env cfg w') \<and> (pending w \<longrightarrow> pending w') \<and>
     (fallback_head w \<noteq> None \<longrightarrow> fallback_head w' \<noteq> None) \<and>
     seen_ids w' = seen_ids w \<and> scope_seen w' = scope_seen w \<and> disk_like (w_disk w) (w_disk w')"

lemma keeps_refl [simp]: "keeps env cfg w w"
  by (simp add: keeps_def)

lemma keeps_trans: "keeps env cfg a b \<Longrightarrow> keeps env cfg b c \<Longrightarrow> keeps env cfg a c"
  unfolding keeps_def by (metis disk_like_trans)

text \<open>The reasons to stop at an item; with none of them the item is to be worked on.\<close>

definition item_reasons :: "string option set" where
  "item_reasons = {None, Some ''feature-complete-scoped'', Some ''completion-unverified'',
     Some ''cloud-queue-exhausted-scoped'', Some ''device-queue-exhausted-scoped'',
     Some ''host-capability-saturated-scoped'', Some ''blocked'', Some ''operator-deferred'',
     Some ''blocked-scoped'', Some ''needs-input-scoped'', Some ''needs-ratification-scoped''}"

locale walk_stage =
  fixes st :: stage
  assumes proceed_keeps: "st env cfg it w = Some (Proceed w') \<Longrightarrow> keeps env cfg w w'"
    and skip_keeps: "st env cfg it w = Some (Skip w') \<Longrightarrow> keeps env cfg w w'"
    and skip_recorded: "st env cfg it w = Some (Skip w') \<Longrightarrow> guarded env cfg w \<Longrightarrow>
      finished_item env (it_name it) (it_dir it) \<or> pending w'"
    and return_names: "st env cfg it w = Some (Return r w') \<Longrightarrow>
      feature_id r = Some (it_id it) \<and> terminal_reason r \<in> item_reasons \<and>
      (sub_skill r = None \<longleftrightarrow> terminal_reason r \<noteq> None)"

text \<open>The records a stage may touch; each of them keeps the contract.\<close>

lemma store_doc_fields:
  "seen_ids (store_doc p n t w) = seen_ids w" "scope_seen (store_doc p n t w) = scope_seen w"
  "pending (store_doc p n t w) = pending w" "guarded env cfg (store_doc p n t w) = guarded env cfg w"
  "fallback_head (store_doc p n t w) = fallback_head w"
  by (simp_all add: store_doc_def pending_def guarded_def split: option.split)

lemma keeps_store: "n \<in> walk_writes \<Longrightarrow> keeps env cfg w (store_doc p n t w)"
  by (simp add: keeps_def store_doc_fields store_doc_like)

named_theorems recorded
  \<open>a record of a skip keeps the contract, and is pending\<close>

lemma keeps_records [recorded]:
  "cfg_cloud cfg \<Longrightarrow> keeps env cfg w (w\<lparr>cloud_skipped := cloud_skipped w @ [x]\<rparr>)"
  "\<not> real_device cfg \<Longrightarrow> keeps env cfg w (w\<lparr>device_deferred := device_deferred w @ [x]\<rparr>)"
  "cfg_skip_needs_research cfg \<Longrightarrow> keeps env cfg w (w\<lparr>research_skipped := research_skipped w @ [x]\<rparr>)"
  "keeps env cfg w (w\<lparr>host_saturated := host_saturated w @ [h]\<rparr>)"
  "keeps env cfg w (w\<lparr>operator_deferred := operator_deferred w @ [x]\<rparr>)"
  "keeps env cfg w (w\<lparr>parked := parked w @ [p]\<rparr>)"
  "keeps env cfg w (w\<lparr>provisional := ps\<rparr>)"
  "keeps env cfg w (w\<lparr>dep_gated := dep_gated w @ [g]\<rparr>)"
  "keeps env cfg w (w\<lparr>skip_blocked := xs\<rparr>)"
  by (simp_all add: keeps_def pending_def guarded_def)

lemma pending_records [recorded]:
  "pending (w\<lparr>cloud_skipped := cloud_skipped w @ [x]\<rparr>)"
  "pending (w\<lparr>device_deferred := device_deferred w @ [x]\<rparr>)"
  "pending (w\<lparr>research_skipped := research_skipped w @ [x]\<rparr>)"
  "pending (w\<lparr>host_saturated := host_saturated w @ [h]\<rparr>)"
  "pending (w\<lparr>operator_deferred := operator_deferred w @ [x]\<rparr>)"
  "pending (w\<lparr>parked := parked w @ [p]\<rparr>)"
  "pending (w\<lparr>dep_gated := dep_gated w @ [g]\<rparr>)"
  by (simp_all add: pending_def)

lemma item_stop_names [simp]:
  "feature_id (item_stop it step reason) = Some (it_id it)" "terminal_reason (item_stop it step reason) = Some reason"
  "feature_id (provisional_accept it a) = Some (it_id it)" "terminal_reason (provisional_accept it a) = None"
  "sub_skill (item_stop it step reason) = None" "sub_skill (provisional_accept it a) = Some ''__provisional_accept__''"
  by (simp_all add: item_stop_def item_route_def provisional_accept_def blank_route_def)

interpretation complete_st: walk_stage completion_stage
  by unfold_locales (auto simp: stage_defs finished_item_def item_reasons_def split: if_splits)

interpretation cloud_st: walk_stage cloud_stage
  by unfold_locales (auto simp: stage_defs recorded item_reasons_def split: if_splits)

interpretation device_st: walk_stage device_stage
  by unfold_locales (auto simp: stage_defs recorded item_reasons_def bind_eq_Some_conv split: if_splits)

interpretation operator_st: walk_stage operator_stage
  by unfold_locales (auto simp: stage_defs recorded item_reasons_def split: if_splits)

interpretation research_st: walk_stage research_stage
  by unfold_locales (auto simp: stage_defs recorded split: if_splits)

interpretation park_blocked_st: walk_stage park_blocked_stage
  by unfold_locales (auto simp: stage_defs recorded item_reasons_def split: if_splits option.splits)

interpretation park_input_st: walk_stage park_input_stage
  by unfold_locales (auto simp: stage_defs recorded item_reasons_def bind_eq_Some_conv split: if_splits)

lemma provisional_step:
  "keeps env cfg w (w\<lparr>provisional := ps, parked := parked w @ [p]\<rparr>)"
  "pending (w\<lparr>provisional := ps, parked := parked w @ [p]\<rparr>)"
  by (simp_all add: keeps_def pending_def guarded_def)

interpretation provisional_st: walk_stage provisional_stage
  by unfold_locales (auto simp: stage_defs recorded item_reasons_def provisional_step split: if_splits)

lemma host_writes [simp]: "''DEFERRED_REQUIRES_HOST.md'' \<in> walk_writes"
  by (simp add: walk_writes_def)

lemma host_step:
  "n \<in> walk_writes \<Longrightarrow>
    keeps env cfg w ((store_doc p n t w)\<lparr>host_saturated := host_saturated (store_doc p n t w) @ [h]\<rparr>)"
  by (rule keeps_trans [OF keeps_store keeps_records(4)])

interpretation host_st: walk_stage host_stage
  by unfold_locales (auto simp: stage_defs recorded item_reasons_def host_step split: if_splits)

lemma dep_cases:
  assumes "dep_stage queue env cfg it w = Some out"
  obtains bad where "out = Return (item_stop it ''Step 3: blocked'' ''blocked'')
      (block_item env it ''Dependency validation'' ''unknown-dependency'' w)"
      "check_deps (dep_status_in env queue (w_disk w)) (dep_ids (it_entry it)) = Some (Inl bad)"
    | "out = Proceed w" "check_deps (dep_status_in env queue (w_disk w)) (dep_ids (it_entry it)) = Some (Inr [])"
    | missing where "out = Skip (w\<lparr>dep_gated := dep_gated w @ [(it_id it, missing)]\<rparr>)" "missing \<noteq> []"
      "check_deps (dep_status_in env queue (w_disk w)) (dep_ids (it_entry it)) = Some (Inr missing)"
proof -
  from assms obtain r where r: "check_deps (dep_status_in env queue (w_disk w)) (dep_ids (it_entry it)) = Some r"
    by (auto simp: dep_stage_def)
  with assms show thesis
    by (cases r; cases "projr r") (auto simp: dep_stage_def intro: that)
qed

interpretation dep_st: walk_stage "dep_stage queue"
  by unfold_locales (erule dep_cases; auto simp: recorded item_reasons_def)+

lemma hold_head_step:
  "\<not> cfg_strict_research_halt cfg \<Longrightarrow> keeps env cfg w (hold_head it k w)" "pending (hold_head it k w)"
  by (simp_all add: hold_head_def keeps_def pending_def guarded_def)

lemma gate_pending: "guarded env cfg w \<Longrightarrow> gated_heads w \<noteq> [] \<Longrightarrow> pending (w\<lparr>skip_blocked := xs\<rparr>)"
  by (simp add: guarded_def pending_def)

interpretation gate_st: walk_stage gate_stage
  by unfold_locales (auto simp: gate_stage_def recorded hold_head_step gate_pending split: if_splits option.splits)

lemma keeps_trip: "keeps env cfg w (record_trip env run c it e a ph w)"
  by (simp add: record_trip_def keeps_def pending_def guarded_def)

lemma pending_trip: "pending (record_trip env run c it e a ph w) = pending w"
  by (simp add: record_trip_def pending_def)

lemma keeps_evicted: "rt_run env \<noteq> None \<Longrightarrow> keeps env cfg w (w\<lparr>budget_skipped := budget_skipped w @ [i]\<rparr>)"
  by (simp add: keeps_def pending_def guarded_def)

lemma apply_trip_step:
  "rt_run env \<noteq> None \<Longrightarrow> keeps env cfg w (apply_trip it a w)" "pending (apply_trip it a w)"
  by (simp_all add: apply_trip_def keeps_def pending_def guarded_def Let_def)

lemma budget_cases:
  assumes "budget_stage ceiling env cfg it w = Some out"
  obtains "out = Proceed w"
    | run c e where "out = Proceed (record_trip env run c it e Grace None w)"
    | run where "rt_run env = Some run" "it_id it \<in> set (w_evicted w)"
        "out = Skip (w\<lparr>budget_skipped := budget_skipped w @ [it_id it]\<rparr>)"
    | run c e a ph where "rt_run env = Some run" "ceiling = Some c" "a = trip_action it w"
        "it_id it \<notin> set (w_evicted w)" "fst (trip_signals run c it w)"
        "out = Skip (record_trip env run c it e a ph (apply_trip it a w))"
  using assms by (auto simp: budget_stage_def Let_def split: option.splits if_splits prod.splits)

interpretation budget_st: walk_stage "budget_stage ceiling"
proof
  fix env cfg it w w'
  assume "budget_stage ceiling env cfg it w = Some (Proceed w')"
  then show "keeps env cfg w w'" by (cases rule: budget_cases) (auto simp: keeps_trip)
next
  fix env cfg it w w'
  assume "budget_stage ceiling env cfg it w = Some (Skip w')"
  then show "keeps env cfg w w'"
    by (cases rule: budget_cases)
      (auto simp: keeps_evicted intro: keeps_trans [OF apply_trip_step(1) keeps_trip])
next
  fix env cfg it w w'
  assume "budget_stage ceiling env cfg it w = Some (Skip w')"
  then show "finished_item env (it_name it) (it_dir it) \<or> pending w'"
    by (cases rule: budget_cases) (auto simp: pending_trip apply_trip_step, simp add: pending_def)
next
  fix env cfg it w r w'
  assume "budget_stage ceiling env cfg it w = Some (Return r w')"
  then show "feature_id r = Some (it_id it) \<and> terminal_reason r \<in> item_reasons \<and>
      (sub_skill r = None \<longleftrightarrow> terminal_reason r \<noteq> None)"
    by (cases rule: budget_cases) auto
qed

subsection \<open>The loop body and the loop\<close>

lemma run_stages_contract: "list_all walk_stage ss \<Longrightarrow> walk_stage (run_stages ss)"
proof (induction ss)
  case Nil
  show ?case by unfold_locales auto
next
  case (Cons s ss)
  then have s: "walk_stage s" and ss: "walk_stage (run_stages ss)" by simp_all
  show ?case
  proof
    fix env cfg it w w'
    assume "run_stages (s # ss) env cfg it w = Some (Proceed w')"
    then show "keeps env cfg w w'"
      by (auto split: option.splits outcome.splits
          intro: keeps_trans [OF walk_stage.proceed_keeps [OF s] walk_stage.proceed_keeps [OF ss]])
  next
    fix env cfg it w w'
    assume "run_stages (s # ss) env cfg it w = Some (Skip w')"
    then show "keeps env cfg w w'"
      by (auto split: option.splits outcome.splits intro: walk_stage.skip_keeps [OF s]
          keeps_trans [OF walk_stage.proceed_keeps [OF s] walk_stage.skip_keeps [OF ss]])
  next
    fix env cfg it w w'
    assume run: "run_stages (s # ss) env cfg it w = Some (Skip w')" and g: "guarded env cfg w"
    then consider "s env cfg it w = Some (Skip w')"
      | w1 where "s env cfg it w = Some (Proceed w1)" "run_stages ss env cfg it w1 = Some (Skip w')"
      by (auto split: option.splits outcome.splits)
    then show "finished_item env (it_name it) (it_dir it) \<or> pending w'"
    proof cases
      case 1
      then show ?thesis using g by (rule walk_stage.skip_recorded [OF s])
    next
      case 2
      have "guarded env cfg w1" using walk_stage.proceed_keeps [OF s 2(1)] g by (simp add: keeps_def)
      then show ?thesis using 2(2) by (rule walk_stage.skip_recorded [OF ss, rotated])
    qed
  next
    fix env cfg it w r w'
    assume "run_stages (s # ss) env cfg it w = Some (Return r w')"
    then consider "s env cfg it w = Some (Return r w')" | w1 where "run_stages ss env cfg it w1 = Some (Return r w')"
      by (auto split: option.splits outcome.splits)
    then show "feature_id r = Some (it_id it) \<and> terminal_reason r \<in> item_reasons \<and>
        (sub_skill r = None \<longleftrightarrow> terminal_reason r \<noteq> None)"
      by cases (rule walk_stage.return_names [OF s] walk_stage.return_names [OF ss], assumption)+
  qed
qed

lemma stages_contract: "walk_stage (run_stages (stages queue ceiling))"
  by (rule run_stages_contract)
    (simp add: stages_def complete_st.walk_stage_axioms cloud_st.walk_stage_axioms device_st.walk_stage_axioms
      host_st.walk_stage_axioms operator_st.walk_stage_axioms research_st.walk_stage_axioms
      park_blocked_st.walk_stage_axioms park_input_st.walk_stage_axioms provisional_st.walk_stage_axioms
      budget_st.walk_stage_axioms dep_st.walk_stage_axioms gate_st.walk_stage_axioms)

text \<open>A queue entry with all of its fields, and the place it names.\<close>

definition named_entry :: "json \<Rightarrow> bool" where
  "named_entry e \<longleftrightarrow> entry_str e ''id'' \<noteq> [] \<and> entry_str e ''name'' \<noteq> [] \<and> entry_str e ''spec_dir'' \<noteq> []"

definition entry_dir :: "route_env \<Rightarrow> disk \<Rightarrow> json \<Rightarrow> item_dir option" where
  "entry_dir env disk e = dget disk (rt_resolve env (entry_str e ''spec_dir''))"

definition finished_entry :: "route_env \<Rightarrow> disk \<Rightarrow> json \<Rightarrow> bool" where
  "finished_entry env disk e \<longleftrightarrow> named_entry e \<and>
     (\<exists>d. entry_dir env disk e = Some d \<and> finished_item env (entry_str e ''name'') d)"

lemma finished_item_like: "dir_like d d' \<Longrightarrow> finished_item env n d' = finished_item env n d"
  by (simp add: finished_item_def completion_claimed_def dir_like_readers)

lemma disk_likeE:
  assumes "disk_like k k'" "dget k' p = Some d'"
  obtains d where "dget k p = Some d" "dir_like d d'"
proof -
  have "rel_option dir_like (dget k p) (dget k' p)" using assms(1) by (rule disk_like_lookup)
  with assms(2) show thesis by (cases "dget k p") (auto intro: that)
qed

lemma disk_likeD:
  assumes "disk_like k k'" "dget k p = Some d"
  obtains d' where "dget k' p = Some d'" "dir_like d d'"
proof -
  have "rel_option dir_like (dget k p) (dget k' p)" using assms(1) by (rule disk_like_lookup)
  with assms(2) show thesis by (cases "dget k' p") (auto intro: that)
qed

lemma finished_entry_like:
  assumes "disk_like k k'"
  shows "finished_entry env k' e = finished_entry env k e"
proof
  assume "finished_entry env k' e"
  then show "finished_entry env k e" unfolding finished_entry_def entry_dir_def
    by (auto elim!: disk_likeE [OF assms] simp: finished_item_like)
next
  assume "finished_entry env k e"
  then show "finished_entry env k' e" unfolding finished_entry_def entry_dir_def
    by (auto elim!: disk_likeD [OF assms] simp: finished_item_like)
qed

lemma guarded_seen: "guarded env cfg (w\<lparr>seen_ids := xs\<rparr>) = guarded env cfg w"
    "guarded env cfg (w\<lparr>scope_seen := b\<rparr>) = guarded env cfg w"
    "pending (w\<lparr>seen_ids := xs\<rparr>) = pending w" "pending (w\<lparr>scope_seen := b\<rparr>) = pending w"
  by (simp_all add: guarded_def pending_def)

text \<open>Entering an entry of an unscoped walk.\<close>

lemma enter_unscoped:
  assumes "cfg_scope cfg = None"
  shows "enter_item env cfg e w =
    (case entry_dir env (w_disk w) e of
       Some d \<Rightarrow>
         if named_entry e \<and> entry_str e ''id'' \<notin> set (seen_ids w)
         then Inr (\<lparr>it_id = entry_str e ''id'', it_name = entry_str e ''name'',
                it_path = rt_resolve env (entry_str e ''spec_dir''), it_entry = e, it_dir = d\<rparr>,
              w\<lparr>seen_ids := seen_ids w @ [entry_str e ''id'']\<rparr>)
         else Inl w
     | None \<Rightarrow> Inl w)"
  using assms by (auto simp: enter_item_def named_entry_def entry_dir_def Let_def split: option.splits)

text \<open>
  A walk that runs to the end has an entry on record, or every entry names no directory, has an id
  that was seen, or shares its id with a finished entry.
\<close>

definition accounted :: "route_env \<Rightarrow> disk \<Rightarrow> string list \<Rightarrow> json list \<Rightarrow> bool" where
  "accounted env disk seen es \<longleftrightarrow>
     (\<forall>e\<in>set es. named_entry e \<and> entry_dir env disk e \<noteq> None \<longrightarrow>
        entry_str e ''id'' \<in> set seen \<or>
        (\<exists>e'\<in>set es. entry_str e' ''id'' = entry_str e ''id'' \<and> finished_entry env disk e'))"

lemma entry_dir_like: "disk_like k k' \<Longrightarrow> entry_dir env k' e = None \<longleftrightarrow> entry_dir env k e = None"
proof -
  assume "disk_like k k'"
  then have "rel_option dir_like (entry_dir env k e) (entry_dir env k' e)" unfolding entry_dir_def by (rule disk_like_lookup)
  then show ?thesis by (cases "entry_dir env k e"; cases "entry_dir env k' e") simp_all
qed

lemma accounted_like: "disk_like k k' \<Longrightarrow> accounted env k' seen es = accounted env k seen es"
  by (simp add: accounted_def entry_dir_like finished_entry_like)

lemma accounted_Cons:
  assumes "finished_entry env disk e" and "accounted env disk (seen @ [entry_str e ''id'']) es"
  shows "accounted env disk seen (e # es)"
  unfolding accounted_def
proof (intro ballI impI)
  fix x assume "x \<in> set (e # es)" and n: "named_entry x \<and> entry_dir env disk x \<noteq> None"
  then consider "x = e" | "x \<in> set es" by auto
  then show "entry_str x ''id'' \<in> set seen \<or>
      (\<exists>e'\<in>set (e # es). entry_str e' ''id'' = entry_str x ''id'' \<and> finished_entry env disk e')"
  proof cases
    case 1
    then show ?thesis using assms(1) by auto
  next
    case 2
    then have "entry_str x ''id'' \<in> set (seen @ [entry_str e ''id'']) \<or>
        (\<exists>e'\<in>set es. entry_str e' ''id'' = entry_str x ''id'' \<and> finished_entry env disk e')"
      using assms(2) n unfolding accounted_def by blast
    then show ?thesis using assms(1) by auto
  qed
qed

lemma walk_exhausted:
  assumes "walk_stage (run_stages ss)" and "cfg_scope cfg = None"
  shows "walk_queue ss env cfg es w = Some (Exhausted w') \<Longrightarrow> guarded env cfg w \<Longrightarrow>
    guarded env cfg w' \<and> (pending w \<longrightarrow> pending w') \<and> disk_like (w_disk w) (w_disk w') \<and>
    (pending w' \<or> accounted env (w_disk w) (seen_ids w) es)"
proof (induction es arbitrary: w)
  case Nil
  then show ?case by (simp add: accounted_def)
next
  case (Cons e es)
  note st = assms(1)
  show ?case
  proof (cases "\<exists>d. entry_dir env (w_disk w) e = Some d \<and> named_entry e \<and> entry_str e ''id'' \<notin> set (seen_ids w)")
    case False
    then have "enter_item env cfg e w = Inl w" by (auto simp: enter_unscoped [OF assms(2)] split: option.splits)
    with Cons.prems have "walk_queue ss env cfg es w = Some (Exhausted w')" by (simp split: if_splits)
    from Cons.IH [OF this Cons.prems(2)] False show ?thesis by (auto simp: accounted_def)
  next
    case True
    then obtain d where d: "entry_dir env (w_disk w) e = Some d" "named_entry e" "entry_str e ''id'' \<notin> set (seen_ids w)"
      by blast
    obtain it w1 where enter: "enter_item env cfg e w = Inr (it, w1)" and it: "it_dir it = d" "it_name it = entry_str e ''name''"
      and w1: "w1 = w\<lparr>seen_ids := seen_ids w @ [entry_str e ''id'']\<rparr>"
      using d by (simp add: enter_unscoped [OF assms(2)])
    have g1: "guarded env cfg w1" "pending w1 = pending w" using Cons.prems(2) w1 by (simp_all add: guarded_seen)
    obtain w2 where skip: "run_stages ss env cfg it w1 = Some (Skip w2)"
      and rest: "walk_queue ss env cfg es w2 = Some (Exhausted w')"
      using Cons.prems(1) enter by (auto split: if_splits option.splits outcome.splits)
    have k: "keeps env cfg w1 w2" by (rule walk_stage.skip_keeps [OF st skip])
    then have g2: "guarded env cfg w2" and like: "disk_like (w_disk w) (w_disk w2)"
      and seen: "seen_ids w2 = seen_ids w @ [entry_str e ''id'']" and p2: "pending w1 \<longrightarrow> pending w2"
      using g1 by (simp_all add: keeps_def w1)
    have IH: "guarded env cfg w' \<and> (pending w2 \<longrightarrow> pending w') \<and> disk_like (w_disk w2) (w_disk w') \<and>
        (pending w' \<or> accounted env (w_disk w2) (seen_ids w2) es)"
      by (rule Cons.IH [OF rest g2])
    have "accounted env (w_disk w) (seen_ids w) (e # es)" if "\<not> pending w'"
    proof -
      have "\<not> pending w2" using IH that by blast
      then have fin: "finished_entry env (w_disk w) e"
        using walk_stage.skip_recorded [OF st skip g1(1)] it d by (auto simp: finished_entry_def)
      have "accounted env (w_disk w) (seen_ids w @ [entry_str e ''id'']) es"
        using IH that accounted_like [OF like] by (simp add: seen)
      with fin show ?thesis by (rule accounted_Cons)
    qed
    then show ?thesis using IH g1 p2 disk_like_trans [OF like] by blast
  qed
qed

end
