(* ===== verification/Walk_Props.thy ===== *)
theory Walk_Props
  imports Walk_Facts
begin

text \<open>
  The properties of the selection in \<^theory_text>\<open>Route_Walk\<close>: what the end of the queue means, what holds of the
  item that is selected, and which item is sure to be served.
\<close>

subsection \<open>The end of the queue\<close>

lemma start_walk_clear: "guarded env cfg (start_walk env disk)" "\<not> pending (start_walk env disk)"
    "seen_ids (start_walk env disk) = []" "w_disk (start_walk env disk) = disk"
  by (simp_all add: start_walk_def guarded_def pending_def)

lemma walk_returned:
  assumes "walk_stage (run_stages ss)"
  shows "walk_queue ss env cfg es w = Some (Returned r w') \<Longrightarrow>
    feature_id r \<noteq> None \<and> terminal_reason r \<in> item_reasons \<and>
    (sub_skill r = None \<longleftrightarrow> terminal_reason r \<noteq> None)"
proof (induction es arbitrary: w)
  case (Cons e es)
  show ?case
  proof (cases "enter_item env cfg e w")
    case (Inl w1)
    then show ?thesis using Cons by (auto split: if_splits)
  next
    case (Inr p)
    obtain it w1 where p: "p = (it, w1)" by (cases p)
    from Cons.prems Inr p consider w2 where "walk_queue ss env cfg es w2 = Some (Returned r w')"
      | w2 where "run_stages ss env cfg it w1 = Some (Return r w2)"
      by (auto split: if_splits option.splits outcome.splits)
    then show ?thesis
    proof cases
      case 1
      then show ?thesis by (rule Cons.IH)
    next
      case 2
      then show ?thesis using walk_stage.return_names [OF assms 2] by simp
    qed
  qed
qed simp

lemma persist_budget_simps [simp]:
  "fst (persist_budget env (cur, w)) = cur"
  "pending (snd (persist_budget env (cur, w))) = pending w"
  "guarded env cfg (snd (persist_budget env (cur, w))) = guarded env cfg w"
  "gated_heads (snd (persist_budget env (cur, w))) = gated_heads w"
  "w_disk (snd (persist_budget env (cur, w))) = w_disk w"
  "budget_skipped (snd (persist_budget env (cur, w))) = budget_skipped w"
  "fallback_head (snd (persist_budget env (cur, w))) = fallback_head w"
  by (auto simp: persist_budget_def pending_def guarded_def split: option.splits)

text \<open>The three ways out of a walk that has not returned.\<close>

lemma finish_cases:
  assumes "finish_walk env cfg queue e = (res, w)" and "fall_back e = (cur, w1)" and "\<nexists>r' w'. e = Returned r' w'"
  obtains it where "cur = Some it" "res = Inl it" "w = snd (persist_budget env (cur, w1))"
    | it where "cur = None" "first_match (resumable env (snd (persist_budget env (cur, w1)))) queue = Some it"
        "res = Inl it" "budget_resumed w = Some (it_id it)"
    | "cur = None" "res = Inr (exhausted_route env cfg w)" "w = snd (persist_budget env (cur, w1))"
proof -
  obtain cur' w2 where p: "persist_budget env (cur, w1) = (cur', w2)" by (cases "persist_budget env (cur, w1)")
  have cur: "cur' = cur" using persist_budget_simps(1) [of env cur w1] p by simp
  have f: "finish_walk env cfg queue e = (case resume_flush env queue (cur, w2) of
      (Some it, w) \<Rightarrow> (Inl it, w) | (None, w) \<Rightarrow> (Inr (exhausted_route env cfg w), w))"
    using assms(2,3) p cur by (cases e) (auto simp: finish_walk_def)
  show thesis
  proof (cases cur)
    case (Some it)
    then show ?thesis using that(1) f assms(1) p by (simp add: resume_flush_def)
  next
    case None
    then show ?thesis using that(2,3) f assms(1) p
      by (auto simp: resume_flush_def split: if_splits option.splits)
  qed
qed

lemma finish_stop:
  assumes "finish_walk env cfg queue e = (Inr r, w)" and "\<nexists>r' w'. e = Returned r' w'"
  obtains w0 where "e = Exhausted w0" "fallback_head w0 = None" "r = exhausted_route env cfg w"
    "pending w = pending w0" "guarded env cfg w = guarded env cfg w0" "fallback_head w = None"
proof -
  obtain cur w1 where c: "fall_back e = (cur, w1)" by (cases "fall_back e")
  from assms(1) c assms(2) show thesis
  proof (cases rule: finish_cases)
    case 3
    with c assms(2) obtain w0 where "e = Exhausted w0" "fallback_head w0 = None" "w1 = w0"
      by (cases e) (auto simp: fall_back_def split: option.splits)
    with 3 that show ?thesis by simp
  qed simp_all
qed

lemma else_branch: "x \<noteq> z \<Longrightarrow> ((if c then x else y) = z) = (\<not> c \<and> y = z)"
  by simp

lemma stop_route_reason [simp]: "terminal_reason (stop_route reason step) = Some reason"
    "feature_id (stop_route reason step) = None"
  by (simp_all add: stop_route_def blank_route_def)

lemma all_complete_lists:
  "terminal_reason (exhausted_route env cfg w) = Some ''all-features-complete'' \<longleftrightarrow>
    \<not> (rt_run env \<noteq> None \<and> budget_skipped w \<noteq> []) \<and> \<not> cloud_exhausted cfg w \<and> \<not> device_exhausted cfg w \<and>
    host_saturated w = [] \<and> operator_deferred w = [] \<and> \<not> research_exhausted cfg w \<and> \<not> scope_missed cfg w \<and>
    dep_gated w = [] \<and> parked w = []"
  unfolding exhausted_route_def if_distrib [of terminal_reason] stop_route_reason
  by (simp add: else_branch) blast

lemma all_complete_not_pending:
  assumes "terminal_reason (exhausted_route env cfg w) = Some ''all-features-complete''" and "guarded env cfg w"
    and "fallback_head w = None"
  shows "\<not> pending w"
proof -
  note lists = assms(1) [unfolded all_complete_lists]
  then have "cloud_skipped w = []" "device_deferred w = []" "research_skipped w = []" "budget_skipped w = []"
    using assms(2) unfolding guarded_def cloud_exhausted_def device_exhausted_def research_exhausted_def by blast+
  with lists assms(3) show ?thesis by (simp add: pending_def)
qed

text \<open>
  C5. The stop \<open>all-features-complete\<close> of a probe over the whole queue: every entry that names a directory
  that exists has the id of an entry that is finished, which is superseded, or claimed complete with a
  receipt of known provenance.
\<close>

theorem all_complete_means_finished:
  assumes "select_item env cfg disk queue = Some (Inr r, w)"
    and "terminal_reason r = Some ''all-features-complete''" and "cfg_scope cfg = None"
    and "e \<in> set queue" and "named_entry e" and "entry_dir env disk e \<noteq> None"
  shows "\<exists>e'\<in>set queue. entry_str e' ''id'' = entry_str e ''id'' \<and> finished_entry env disk e'"
proof -
  obtain ceiling we where we: "walk_queue (stages queue ceiling) env cfg queue (start_walk env disk) = Some we"
    and fin: "finish_walk env cfg queue we = (Inr r, w)"
    using assms(1) by (auto simp: select_item_def bind_eq_Some_conv)
  have nr: "\<nexists>r' w'. we = Returned r' w'"
  proof
    assume "\<exists>r' w'. we = Returned r' w'"
    then obtain r' w' where ret: "we = Returned r' w'" by blast
    with fin have "r' = r" by (simp add: finish_walk_def)
    then show False using walk_returned [OF stages_contract we [unfolded ret]] assms(2)
      by (simp add: item_reasons_def)
  qed
  from fin nr obtain w0 where w0: "we = Exhausted w0" "fallback_head w0 = None" "r = exhausted_route env cfg w"
    "pending w = pending w0" "guarded env cfg w = guarded env cfg w0" "fallback_head w = None"
    by (rule finish_stop)
  note ex = walk_exhausted [OF stages_contract assms(3) we [unfolded w0(1)] start_walk_clear(1)]
  have "\<not> pending w"
    using all_complete_not_pending [of env cfg w] assms(2) w0 ex by simp
  then have "accounted env disk [] queue" using ex w0(4) by (simp add: start_walk_clear)
  with assms(4-6) show ?thesis by (auto simp: accounted_def)
qed

subsection \<open>What holds of the selected item\<close>

definition early_stages :: "int option \<Rightarrow> stage list" where
  "early_stages ceiling = [completion_stage, cloud_stage, device_stage, host_stage, operator_stage, research_stage,
     park_blocked_stage, park_input_stage, provisional_stage, budget_stage ceiling]"

lemma stages_split: "stages queue ceiling = early_stages ceiling @ [dep_stage queue, gate_stage]"
  by (simp add: stages_def early_stages_def)

lemma run_stages_append:
  "run_stages (as @ bs) env cfg it w =
    (case run_stages as env cfg it w of Some (Proceed w1) \<Rightarrow> run_stages bs env cfg it w1 | r \<Rightarrow> r)"
  by (induction as arbitrary: w) (auto split: option.splits outcome.splits)

lemma run_stages_proceed:
  "run_stages (s # ss) env cfg it w = Some (Proceed w') \<longleftrightarrow>
    (\<exists>w1. s env cfg it w = Some (Proceed w1) \<and> run_stages ss env cfg it w1 = Some (Proceed w'))"
  by (auto split: option.splits outcome.splits)

definition eligible :: "route_env \<Rightarrow> route_cfg \<Rightarrow> item \<Rightarrow> bool" where
  "eligible env cfg it \<longleftrightarrow>
     (let d = it_dir it in
      \<not> completion_claimed (rt_roadmap env) (it_name it) d \<and> \<not> spec_dir_operator_deferred d \<and>
      \<not> (cfg_skip_needs_research cfg \<and> spec_dir_research_pending d) \<and>
      unknown_capability_ids (parse_requires_host (spec_text d) (it_entry it)) = [] \<and>
      \<not> (cfg_park_blocked cfg \<and> (has_doc d ''BLOCKED.md'' \<or> detect_noncanonical_blocker d \<noteq> None)) \<and>
      \<not> (cfg_park_needs_input cfg \<and> has_doc d ''NEEDS_INPUT.md'' \<and> \<not> has_doc d ''BLOCKED.md'') \<and>
      \<not> (cfg_park_needs_input cfg \<and> has_doc d provisional_sentinel \<and> has_doc d ''VALIDATED.md''))"

text \<open>What it takes to pass each of the stages.\<close>

named_theorems passed
  \<open>what holds of an item that a stage lets pass\<close>

lemma passed_completion [passed]:
  "completion_stage env cfg it w = Some (Proceed w') \<Longrightarrow> \<not> completion_claimed (rt_roadmap env) (it_name it) (it_dir it)"
  by (auto simp: stage_defs split: if_splits)

lemma passed_operator [passed]:
  "operator_stage env cfg it w = Some (Proceed w') \<Longrightarrow> \<not> spec_dir_operator_deferred (it_dir it)"
  by (auto simp: stage_defs split: if_splits)

lemma passed_research [passed]:
  "research_stage env cfg it w = Some (Proceed w') \<Longrightarrow>
    \<not> (cfg_skip_needs_research cfg \<and> spec_dir_research_pending (it_dir it))"
  by (auto simp: stage_defs split: if_splits)

lemma passed_host [passed]:
  "host_stage env cfg it w = Some (Proceed w') \<Longrightarrow>
    unknown_capability_ids (parse_requires_host (spec_text (it_dir it)) (it_entry it)) = []"
  by (auto simp: stage_defs unknown_capability_ids_def split: if_splits)

lemma passed_blocked [passed]:
  "park_blocked_stage env cfg it w = Some (Proceed w') \<Longrightarrow>
    \<not> (cfg_park_blocked cfg \<and> (has_doc (it_dir it) ''BLOCKED.md'' \<or> detect_noncanonical_blocker (it_dir it) \<noteq> None))"
  by (auto simp: stage_defs split: if_splits option.splits)

lemma passed_input [passed]:
  "park_input_stage env cfg it w = Some (Proceed w') \<Longrightarrow>
    \<not> (cfg_park_needs_input cfg \<and> has_doc (it_dir it) ''NEEDS_INPUT.md'' \<and> \<not> has_doc (it_dir it) ''BLOCKED.md'')"
  by (auto simp: stage_defs bind_eq_Some_conv split: if_splits)

lemma passed_provisional [passed]:
  "provisional_stage env cfg it w = Some (Proceed w') \<Longrightarrow>
    \<not> (cfg_park_needs_input cfg \<and> has_doc (it_dir it) provisional_sentinel \<and> has_doc (it_dir it) ''VALIDATED.md'')"
  by (auto simp: stage_defs split: if_splits)

lemma early_eligible: "run_stages (early_stages ceiling) env cfg it w = Some (Proceed w') \<Longrightarrow> eligible env cfg it"
  unfolding early_stages_def run_stages_proceed eligible_def Let_def by (elim exE conjE) (intro conjI passed)

lemma map_Cons_nonempty [simp]: "map_sum id ((#) d) z \<noteq> Inr []"
  by (cases z) simp_all

lemma deps_complete: "check_deps status ds = Some (Inr []) \<Longrightarrow> d \<in> set ds \<Longrightarrow> status d = Some DepComplete"
  by (induction ds) (auto split: option.splits dep_status.splits)

text \<open>The status of a dependency is the same on a disk to which the walk has written.\<close>

lemma disk_like_first:
  "disk_like k k' \<Longrightarrow> rel_option dir_like (first_match (dget k) ps) (first_match (dget k') ps)"
proof (induction ps)
  case (Cons p ps)
  have "rel_option dir_like (dget k p) (dget k' p)" by (rule disk_like_lookup [OF Cons.prems])
  with Cons show ?case by (cases "dget k p"; cases "dget k' p") auto
qed simp

lemma disk_like_nested: "disk_like k k' \<Longrightarrow> nested_dirs root k' dep = nested_dirs root k dep"
proof -
  assume "disk_like k k'"
  then have "map fst (filter (\<lambda>(p, d). prefix root p \<and> root \<noteq> p \<and> last p = dep \<and> has_doc d ''SPEC.md'') k') =
      map fst (filter (\<lambda>(p, d). prefix root p \<and> root \<noteq> p \<and> last p = dep \<and> has_doc d ''SPEC.md'') k)"
    by (induction rule: list_all2_induct)
      (auto simp: place_like_def has_doc_def dict_simps dir_like_doc walk_writes_def)
  then show ?thesis by (simp add: nested_dirs_def)
qed

lemma classify_like: "dir_like d d' \<Longrightarrow> classify_dep yaml d' = classify_dep yaml d"
  by (simp add: classify_dep_def dir_like_readers)

lemma dep_status_like: "disk_like k k' \<Longrightarrow> dep_status_in env queue k' dep = dep_status_in env queue k dep"
proof -
  assume like: "disk_like k k'"
  let ?ps = "dep_candidates (rt_root env) k (dep_dir_map env queue) dep"
  have "dep_candidates (rt_root env) k' (dep_dir_map env queue) dep = ?ps"
    by (simp add: dep_candidates_def disk_like_nested [OF like])
  with disk_like_first [OF like, of ?ps] show ?thesis
    unfolding dep_status_in_def dep_completion_status_def
    by (cases "first_match (dget k) ?ps"; cases "first_match (dget k') ?ps") (auto simp: classify_like)
qed

text \<open>A stage frames a field that no pass or skip of it changes.\<close>

definition frames :: "(walk \<Rightarrow> 'a) \<Rightarrow> stage \<Rightarrow> bool" where
  "frames f st \<longleftrightarrow> (\<forall>env cfg it w w'. st env cfg it w \<in> {Some (Proceed w'), Some (Skip w')} \<longrightarrow> f w' = f w)"

lemma framesI:
  assumes "\<And>env cfg it w w'. st env cfg it w = Some (Proceed w') \<Longrightarrow> f w' = f w"
    and "\<And>env cfg it w w'. st env cfg it w = Some (Skip w') \<Longrightarrow> f w' = f w"
  shows "frames f st"
  using assms by (auto simp: frames_def)

lemma frames_stages: "list_all (frames f) ss \<Longrightarrow> frames f (run_stages ss)"
proof (induction ss)
  case Nil
  show ?case by (simp add: frames_def)
next
  case (Cons s ss)
  then have s: "frames f s" and ss: "frames f (run_stages ss)" by simp_all
  show ?case
  proof (rule framesI)
    fix env cfg it w w'
    assume "run_stages (s # ss) env cfg it w = Some (Proceed w')"
    then obtain w1 where "s env cfg it w = Some (Proceed w1)" "run_stages ss env cfg it w1 = Some (Proceed w')"
      unfolding run_stages_proceed by blast
    then show "f w' = f w" using s ss unfolding frames_def by (metis insert_iff)
  next
    fix env cfg it w w'
    assume "run_stages (s # ss) env cfg it w = Some (Skip w')"
    then consider "s env cfg it w = Some (Skip w')"
      | w1 where "s env cfg it w = Some (Proceed w1)" "run_stages ss env cfg it w1 = Some (Skip w')"
      by (auto split: option.splits outcome.splits)
    then show "f w' = f w" using s ss unfolding frames_def by cases (metis insert_iff)+
  qed
qed

definition heads :: "walk \<Rightarrow> item option \<times> string list" where
  "heads w = (fallback_head w, gated_heads w)"

lemma heads_simps [simp]:
  "heads (w\<lparr>cloud_skipped := x\<rparr>) = heads w" "heads (w\<lparr>device_deferred := x\<rparr>) = heads w"
  "heads (w\<lparr>host_saturated := hs\<rparr>) = heads w" "heads (w\<lparr>operator_deferred := x\<rparr>) = heads w"
  "heads (w\<lparr>research_skipped := x\<rparr>) = heads w" "heads (w\<lparr>parked := ps\<rparr>) = heads w"
  "heads (w\<lparr>provisional := ps\<rparr>) = heads w" "heads (w\<lparr>budget_skipped := x\<rparr>) = heads w"
  "heads (w\<lparr>dep_gated := hs\<rparr>) = heads w" "heads (store_doc p n t w) = heads w"
  "heads (record_trip env run c it e a ph w) = heads w" "heads (apply_trip it a w) = heads w"
  "heads (w\<lparr>seen_ids := x\<rparr>) = heads w" "heads (w\<lparr>seen_ids := x, scope_seen := b\<rparr>) = heads w"
  by (simp_all add: heads_def store_doc_def record_trip_def apply_trip_def Let_def split: option.split)

lemma frames_budget: "frames heads (budget_stage ceiling)"
proof (rule framesI)
  fix env cfg it w w'
  assume "budget_stage ceiling env cfg it w = Some (Proceed w')"
  then show "heads w' = heads w" by (cases rule: budget_cases) auto
next
  fix env cfg it w w'
  assume "budget_stage ceiling env cfg it w = Some (Skip w')"
  then show "heads w' = heads w" by (cases rule: budget_cases) auto
qed

lemma frames_dep: "frames heads (dep_stage queue)"
proof (rule framesI)
  fix env cfg it w w'
  assume "dep_stage queue env cfg it w = Some (Proceed w')"
  then show "heads w' = heads w" by (cases rule: dep_cases) auto
next
  fix env cfg it w w'
  assume "dep_stage queue env cfg it w = Some (Skip w')"
  then show "heads w' = heads w" by (cases rule: dep_cases) auto
qed

lemma frames_early: "list_all (frames heads) (early_stages ceiling @ [dep_stage queue])"
  unfolding early_stages_def append.simps list.pred_inject
  by (intro conjI frames_budget frames_dep TrueI framesI)
    (auto simp: stage_defs bind_eq_Some_conv split: if_splits option.splits)

text \<open>An item of the queue that has passed the stages before the gate.\<close>

definition cleared :: "route_env \<Rightarrow> route_cfg \<Rightarrow> json list \<Rightarrow> disk \<Rightarrow> item \<Rightarrow> bool" where
  "cleared env cfg queue disk it \<longleftrightarrow> eligible env cfg it \<and> it_entry it \<in> set queue \<and>
     (\<forall>d\<in>set (dep_ids (it_entry it)). dep_status_in env queue disk d = Some DepComplete)"

definition before_gate :: "json list \<Rightarrow> int option \<Rightarrow> stage list" where
  "before_gate queue ceiling = early_stages ceiling @ [dep_stage queue]"

lemma early_walk_stage: "walk_stage (run_stages (early_stages ceiling))"
  by (rule run_stages_contract)
    (simp add: early_stages_def complete_st.walk_stage_axioms cloud_st.walk_stage_axioms device_st.walk_stage_axioms
      host_st.walk_stage_axioms operator_st.walk_stage_axioms research_st.walk_stage_axioms
      park_blocked_st.walk_stage_axioms park_input_st.walk_stage_axioms provisional_st.walk_stage_axioms
      budget_st.walk_stage_axioms)

lemma before_gate_stage: "walk_stage (run_stages (before_gate queue ceiling))"
  by (rule run_stages_contract)
    (simp add: before_gate_def early_stages_def complete_st.walk_stage_axioms cloud_st.walk_stage_axioms
      device_st.walk_stage_axioms host_st.walk_stage_axioms operator_st.walk_stage_axioms
      research_st.walk_stage_axioms park_blocked_st.walk_stage_axioms park_input_st.walk_stage_axioms
      provisional_st.walk_stage_axioms budget_st.walk_stage_axioms dep_st.walk_stage_axioms)

lemma before_gate_frames: "frames heads (run_stages (before_gate queue ceiling))"
  unfolding before_gate_def by (rule frames_stages [OF frames_early])

lemma stages_gate: "stages queue ceiling = before_gate queue ceiling @ [gate_stage]"
  by (simp add: stages_split before_gate_def)

lemma before_gate_cleared:
  assumes "run_stages (before_gate queue ceiling) env cfg it w = Some (Proceed w')" and "it_entry it \<in> set queue"
    and "disk_like disk (w_disk w)"
  shows "cleared env cfg queue disk it"
proof -
  obtain w1 where early: "run_stages (early_stages ceiling) env cfg it w = Some (Proceed w1)"
    and dep: "dep_stage queue env cfg it w1 = Some (Proceed w')"
    using assms(1) unfolding before_gate_def run_stages_append
    by (auto split: option.splits outcome.splits)
  have "disk_like (w_disk w) (w_disk w1)"
    using walk_stage.proceed_keeps [OF early_walk_stage early] by (simp add: keeps_def)
  then have like: "disk_like disk (w_disk w1)" using assms(3) disk_like_trans by blast
  have "check_deps (dep_status_in env queue (w_disk w1)) (dep_ids (it_entry it)) = Some (Inr [])"
    using dep by (cases rule: dep_cases) auto
  from deps_complete [OF this] have "\<forall>d\<in>set (dep_ids (it_entry it)). dep_status_in env queue disk d = Some DepComplete"
    by (simp add: dep_status_like [OF like])
  with early_eligible [OF early] assms(2) show ?thesis by (simp add: cleared_def)
qed

text \<open>The gate lets an item pass, holds it as a head, or skips it behind the heads that are held.\<close>

lemma gate_cases:
  assumes "gate_stage env cfg it w = Some out"
  obtains "out = Proceed w" "cfg_strict_research_halt cfg \<or>
      gated_head_kind (it_dir it) = None \<and> (gated_heads w \<noteq> [] \<longrightarrow> item_ready it (set (gated_heads w)))"
    | k where "out = Skip (hold_head it k w)" "\<not> cfg_strict_research_halt cfg"
    | xs where "out = Skip (w\<lparr>skip_blocked := xs\<rparr>)" "gated_heads w \<noteq> []"
  using assms by (auto simp: gate_stage_def split: if_splits option.splits)

definition well_placed :: "route_cfg \<Rightarrow> item \<Rightarrow> walk \<Rightarrow> bool" where
  "well_placed cfg it w \<longleftrightarrow> (gated_heads w \<noteq> [] \<longrightarrow>
     gated_head_kind (it_dir it) = None \<and> item_ready it (set (gated_heads w)))"

definition heads_cleared :: "route_env \<Rightarrow> route_cfg \<Rightarrow> json list \<Rightarrow> disk \<Rightarrow> walk \<Rightarrow> bool" where
  "heads_cleared env cfg queue disk w \<longleftrightarrow> guarded env cfg w \<and> disk_like disk (w_disk w) \<and>
     (\<forall>it. fallback_head w = Some it \<longrightarrow> cleared env cfg queue disk it)"

lemma enter_item_fields:
  assumes "enter_item env cfg e w = Inr (it, w1)"
  shows "it_entry it = e" "heads w1 = heads w" "w_disk w1 = w_disk w" "guarded env cfg w1 = guarded env cfg w"
  using assms by (auto simp: enter_item_def Let_def guarded_seen split: if_splits option.splits)

lemma enter_item_past:
  assumes "enter_item env cfg e w = Inl w1"
  shows "heads w1 = heads w" "w_disk w1 = w_disk w" "guarded env cfg w1 = guarded env cfg w"
  using assms by (auto simp: enter_item_def Let_def guarded_seen split: if_splits option.splits)

lemma heads_cleared_eq:
  "heads w1 = heads w \<Longrightarrow> guarded env cfg w1 \<Longrightarrow> disk_like disk (w_disk w1) \<Longrightarrow> heads_cleared env cfg queue disk w \<Longrightarrow>
    heads_cleared env cfg queue disk w1"
  by (simp add: heads_cleared_def heads_def)

lemma stages_skip_cleared:
  assumes "run_stages (stages queue ceiling) env cfg it w = Some (Skip w')" and "heads_cleared env cfg queue disk w"
    and "it_entry it \<in> set queue"
  shows "heads_cleared env cfg queue disk w'"
proof -
  have like: "disk_like disk (w_disk w)" and g: "guarded env cfg w" using assms(2) by (simp_all add: heads_cleared_def)
  have keep: "keeps env cfg w w'" by (rule walk_stage.skip_keeps [OF stages_contract assms(1)])
  then have g': "guarded env cfg w'" and like': "disk_like disk (w_disk w')"
    using g like disk_like_trans by (auto simp: keeps_def)
  from assms(1) consider (early) "run_stages (before_gate queue ceiling) env cfg it w = Some (Skip w')"
    | (gate) w1 where "run_stages (before_gate queue ceiling) env cfg it w = Some (Proceed w1)"
        "gate_stage env cfg it w1 = Some (Skip w')"
    unfolding stages_gate run_stages_append by (auto split: option.splits outcome.splits)
  then show ?thesis
  proof cases
    case early
    then have "heads w' = heads w" using before_gate_frames unfolding frames_def by blast
    then show ?thesis using g' like' assms(2) by (rule heads_cleared_eq)
  next
    case gate
    have h: "heads w1 = heads w" using gate(1) before_gate_frames unfolding frames_def by blast
    have it: "cleared env cfg queue disk it" by (rule before_gate_cleared [OF gate(1) assms(3) like])
    from gate(2) show ?thesis
      by (cases rule: gate_cases)
        (use h it g' like' assms(2) in \<open>auto simp: heads_cleared_def heads_def hold_head_def split: if_splits\<close>)
  qed
qed

lemma stages_proceed_cleared:
  assumes "run_stages (stages queue ceiling) env cfg it w = Some (Proceed w')" and "heads_cleared env cfg queue disk w"
    and "it_entry it \<in> set queue"
  shows "cleared env cfg queue disk it \<and> well_placed cfg it w'"
proof -
  have like: "disk_like disk (w_disk w)" and g: "guarded env cfg w" using assms(2) by (simp_all add: heads_cleared_def)
  from assms(1) obtain w1 where pre: "run_stages (before_gate queue ceiling) env cfg it w = Some (Proceed w1)"
    and gate: "gate_stage env cfg it w1 = Some (Proceed w')"
    unfolding stages_gate run_stages_append by (auto split: option.splits outcome.splits)
  have "guarded env cfg w1"
    using walk_stage.proceed_keeps [OF before_gate_stage pre] g by (simp add: keeps_def)
  then have "cfg_strict_research_halt cfg \<longrightarrow> gated_heads w1 = []" by (auto simp: guarded_def)
  with gate have "well_placed cfg it w'" by (cases rule: gate_cases) (auto simp: well_placed_def)
  with before_gate_cleared [OF pre assms(3) like] show ?thesis by blast
qed

text \<open>So the item that the walk ends with is cleared, the fallback included.\<close>

lemma walk_cleared:
  assumes "walk_queue (stages queue ceiling) env cfg es w = Some we" and "heads_cleared env cfg queue disk w"
    and "set es \<subseteq> set queue" and "fall_back we = (Some it, w')"
  shows "cleared env cfg queue disk it \<and> well_placed cfg it w'"
  using assms
proof (induction es arbitrary: w)
  case Nil
  then show ?case by (auto simp: fall_back_def heads_cleared_def well_placed_def split: option.splits)
next
  case (Cons e es)
  show ?case
  proof (cases "enter_item env cfg e w")
    case (Inl w1)
    note f = enter_item_past [OF Inl]
    have "heads_cleared env cfg queue disk w1"
      using Cons.prems(2) f by (simp add: heads_cleared_def heads_def)
    moreover have "walk_queue (stages queue ceiling) env cfg es w1 = Some we" using Cons.prems(1) Inl by (simp split: if_splits)
    ultimately show ?thesis using Cons.IH Cons.prems(3,4) by simp
  next
    case (Inr p)
    obtain jt w1 where p: "p = (jt, w1)" by (cases p)
    note f = enter_item_fields [OF Inr [unfolded p]]
    have hc: "heads_cleared env cfg queue disk w1" using Cons.prems(2) f by (simp add: heads_cleared_def heads_def)
    have mem: "it_entry jt \<in> set queue" using f(1) Cons.prems(3) by simp
    from Cons.prems(1) Inr p
    consider (skip) w2 where "run_stages (stages queue ceiling) env cfg jt w1 = Some (Skip w2)"
        "walk_queue (stages queue ceiling) env cfg es w2 = Some we"
      | (ret) r w2 where "we = Returned r w2"
      | (pick) w2 where "run_stages (stages queue ceiling) env cfg jt w1 = Some (Proceed w2)" "we = Picked jt w2"
      by (auto split: if_splits option.splits outcome.splits)
    then show ?thesis
    proof cases
      case skip
      show ?thesis using Cons.IH [OF skip(2) stages_skip_cleared [OF skip(1) hc mem]] Cons.prems(3,4) by simp
    next
      case ret
      with Cons.prems(4) show ?thesis by (simp add: fall_back_def)
    next
      case pick
      with stages_proceed_cleared [OF pick(1) hc mem] Cons.prems(4) show ?thesis by (simp add: fall_back_def)
    qed
  qed
qed

text \<open>
  C6. The item of a probe that does not resume a deferred one: no completion is claimed for it, no operator
  has deferred it, nothing that the run parks is in its directory, the capabilities it names are known,
  all of its dependencies are complete, and when it is taken past gated heads it is not gated itself and
  depends on none of them.
\<close>

theorem selected_item_is_eligible:
  assumes "select_item env cfg disk queue = Some (Inl it, w)" and "budget_resumed w = None"
  shows "eligible env cfg it \<and> it_entry it \<in> set queue \<and>
    (\<forall>d\<in>set (dep_ids (it_entry it)). dep_status_in env queue disk d = Some DepComplete) \<and>
    (gated_heads w \<noteq> [] \<longrightarrow> gated_head_kind (it_dir it) = None \<and> item_ready it (set (gated_heads w)))"
proof -
  obtain ceiling we where we: "walk_queue (stages queue ceiling) env cfg queue (start_walk env disk) = Some we"
    and fin: "finish_walk env cfg queue we = (Inl it, w)"
    using assms(1) by (auto simp: select_item_def bind_eq_Some_conv)
  have nr: "\<nexists>r' w'. we = Returned r' w'" using fin by (auto simp: finish_walk_def)
  obtain cur w1 where c: "fall_back we = (cur, w1)" by (cases "fall_back we")
  from fin c nr have cur: "cur = Some it" and w: "w = snd (persist_budget env (cur, w1))"
    using assms(2) by (cases rule: finish_cases; simp)+
  have "heads_cleared env cfg queue disk (start_walk env disk)"
    by (simp add: heads_cleared_def start_walk_clear) (simp add: start_walk_def)
  from walk_cleared [OF we this order_refl c [unfolded cur]]
  have "cleared env cfg queue disk it" "well_placed cfg it w" by (simp_all add: w well_placed_def)
  then show ?thesis by (simp add: cleared_def well_placed_def)
qed

end
