(* ===== verification/Walk_Live.thy ===== *)
theory Walk_Live
  imports Walk_Props
begin

text \<open>
  The item that is sure to be served: outside a run, on a disk whose sentinels all parse, the walk of
  \<^theory_text>\<open>Route_Walk\<close> does not end the process, and it does not pass over an item that nothing defers.
\<close>

subsection \<open>Readable directories\<close>

definition readable_meta :: "yaml \<Rightarrow> string \<Rightarrow> bool" where
  "readable_meta yaml text \<longleftrightarrow>
     (case frontmatter yaml text of
        None \<Rightarrow> False
      | Some m \<Rightarrow> hashable (mget m ''kind'') \<and> scenario_text (mget m ''deferred_scenarios'') \<noteq> None)"

definition readable :: "yaml \<Rightarrow> item_dir \<Rightarrow> bool" where
  "readable yaml d \<longleftrightarrow>
     (\<forall>n f. dget (docs d) n = Some f \<and> n \<notin> walk_writes \<longrightarrow> readable_meta yaml (doc_text f)) \<and>
     (\<forall>n f. dget (plan_dir d) n = Some f \<longrightarrow> readable_meta yaml (doc_text f))"

definition readable_disk :: "yaml \<Rightarrow> disk \<Rightarrow> bool" where
  "readable_disk yaml disk \<longleftrightarrow> list_all (\<lambda>(p, d). readable yaml d) disk"

lemma readable_like: "dir_like d d' \<Longrightarrow> readable yaml d \<Longrightarrow> readable yaml d'"
  unfolding readable_def dir_like_def plan_dir_def by metis

lemma readable_disk_like: "disk_like k k' \<Longrightarrow> readable_disk yaml k \<Longrightarrow> readable_disk yaml k'"
  by (induction rule: list_all2_induct) (auto simp: readable_disk_def place_like_def intro: readable_like)

lemma readable_lookup: "readable_disk yaml disk \<Longrightarrow> dget disk p = Some d \<Longrightarrow> readable yaml d"
  by (induction disk) (auto simp: readable_disk_def split: if_splits)

lemma readable_sentinel:
  assumes "readable yaml d" and "n \<notin> walk_writes"
  shows "\<exists>m. parse_sentinel yaml d n = Some m \<and> hashable (mget m ''kind'') \<and>
    scenario_text (mget m ''deferred_scenarios'') \<noteq> None"
proof (cases "dget (docs d) n")
  case None
  then show ?thesis by (simp add: parse_sentinel_def mget_def scenario_text_def)
next
  case (Some f)
  with assms have "readable_meta yaml (doc_text f)" by (auto simp: readable_def)
  with Some show ?thesis by (auto simp: readable_meta_def parse_sentinel_def split: option.splits)
qed

lemma readable_receipt:
  assumes "readable yaml d" and "n \<notin> walk_writes"
  shows "has_completion_receipt yaml d n \<noteq> None"
  using readable_sentinel [OF assms] by (auto simp: has_completion_receipt_def)

lemma frontmatter_empty: "frontmatter yaml [] = Some []"
  by (simp add: frontmatter_def splitlines_def split_lines.simps)

lemma readable_plan:
  assumes "readable yaml d"
  shows "plan_meta yaml d p \<noteq> None"
proof -
  have "readable_meta yaml (plan_text d p) \<or> plan_text d p = []"
    using assms by (cases p) (auto simp: readable_def plan_text_def walk_writes_def split: option.splits)
  then show ?thesis
    by (auto simp: plan_meta_def readable_meta_def frontmatter_empty split: option.splits)
qed

lemma readable_read_plans: "readable yaml d \<Longrightarrow> read_plans yaml d ps \<noteq> None"
  by (induction ps) (auto simp: readable_plan split: option.splits)

lemma readable_complete_plan: "readable yaml d \<Longrightarrow> any_complete_plan yaml d ps \<noteq> None"
  by (induction ps) (auto simp: readable_plan split: option.splits)

lemma readable_phases: "readable yaml d \<Longrightarrow> phases_effectively_complete yaml d \<noteq> None"
  using readable_read_plans [of yaml d "plan_candidates d"] readable_complete_plan [of yaml d "plan_candidates d"]
  by (auto simp: phases_effectively_complete_def find_implementation_plans_def has_any_complete_plan_def
      split: option.splits list.splits)

lemma readable_parked:
  "readable yaml d \<Longrightarrow> n \<notin> walk_writes \<Longrightarrow> build_parked_entry yaml i d n \<noteq> None"
  using readable_sentinel by (fastforce simp: build_parked_entry_def)

lemma readable_eligibility:
  assumes "readable yaml d"
  shows "provisional_eligibility yaml env d \<noteq> None"
proof (cases "dget (docs d) ''NEEDS_INPUT.md''")
  case None
  then show ?thesis by (simp add: provisional_eligibility_def)
next
  case (Some f)
  with assms have "readable_meta yaml (doc_text f)" unfolding readable_def by (auto simp: walk_writes_def)
  with Some show ?thesis
    by (auto simp: provisional_eligibility_def readable_meta_def Let_def split: option.splits)
qed

lemma host_not_stray: "\<not> starts_ci ''BLOCKED'' ''DEFERRED_REQUIRES_HOST.md''"
  by code_simp

lemma stray_not_written: "detect_noncanonical_blocker d = Some n \<Longrightarrow> n \<notin> walk_writes"
  using host_not_stray
  by (auto simp: detect_noncanonical_blocker_def find_Some_iff stray_blocker_def walk_writes_def split: if_splits)

subsection \<open>No stage ends the process\<close>

definition calm :: "stage \<Rightarrow> bool" where
  "calm st \<longleftrightarrow> (\<forall>env cfg it w. readable (rt_yaml env) (it_dir it) \<and> readable_disk (rt_yaml env) (w_disk w) \<longrightarrow>
     st env cfg it w \<noteq> None)"

lemma calmI:
  assumes "\<And>env cfg it w. readable (rt_yaml env) (it_dir it) \<Longrightarrow> readable_disk (rt_yaml env) (w_disk w) \<Longrightarrow>
    st env cfg it w \<noteq> None"
  shows "calm st"
  using assms by (simp add: calm_def)

lemma run_stages_calm:
  assumes "list_all walk_stage ss" and "list_all calm ss"
  shows "calm (run_stages ss)"
  using assms
proof (induction ss)
  case Nil
  show ?case by (simp add: calm_def)
next
  case (Cons s ss)
  show ?case
  proof (rule calmI)
    fix env :: route_env and cfg and it :: item and w :: walk
    assume r: "readable (rt_yaml env) (it_dir it)" "readable_disk (rt_yaml env) (w_disk w)"
    then have "s env cfg it w \<noteq> None" using Cons.prems(2) by (auto simp: calm_def)
    then obtain out where out: "s env cfg it w = Some out" by blast
    show "run_stages (s # ss) env cfg it w \<noteq> None"
    proof (cases out)
      case (Proceed w1)
      have "walk_stage s" using Cons.prems(1) by simp
      from walk_stage.proceed_keeps [OF this out [unfolded Proceed]] r(2)
      have "readable_disk (rt_yaml env) (w_disk w1)" by (auto simp: keeps_def intro: readable_disk_like)
      then show ?thesis using Cons out Proceed r(1) by (simp add: calm_def)
    qed (simp_all add: out)
  qed
qed

lemma dep_status_readable:
  assumes "readable_disk (rt_yaml env) k"
  shows "dep_status_in env queue k dep \<noteq> None"
proof -
  have "classify_dep (rt_yaml env) d \<noteq> None" if "first_match (dget k) ps = Some d" for ps d
  proof -
    from first_match_Some [OF that] have "readable (rt_yaml env) d" using readable_lookup [OF assms] by blast
    then show ?thesis by (auto simp: classify_dep_def walk_writes_def dest: readable_receipt [of _ _ "''COMPLETED.md''"])
  qed
  then show ?thesis by (auto simp: dep_status_in_def dep_completion_status_def split: option.splits)
qed

lemma check_deps_some: "(\<And>d. status d \<noteq> None) \<Longrightarrow> check_deps status ds \<noteq> None"
proof (induction ds)
  case (Cons d ds)
  obtain x where "status d = Some x" using Cons.prems by blast
  with Cons show ?case by (cases x) auto
qed simp

lemma calm_stages:
  "calm completion_stage" "calm cloud_stage" "calm device_stage" "calm host_stage" "calm operator_stage"
  "calm research_stage" "calm park_blocked_stage" "calm park_input_stage" "calm provisional_stage"
  "calm (budget_stage ceiling)" "calm (dep_stage queue)" "calm gate_stage"
proof -
  show "calm completion_stage"
    by (rule calmI) (auto simp: stage_defs walk_writes_def dest: readable_receipt [of _ _ "''COMPLETED.md''"])
  show "calm cloud_stage" "calm host_stage"
    by (rule calmI; auto simp: stage_defs dest: readable_phases)+
  show "calm device_stage"
  proof (rule calmI)
    fix env :: route_env and cfg and it :: item and w :: walk
    assume r: "readable (rt_yaml env) (it_dir it)"
    obtain b where "phases_effectively_complete (rt_yaml env) (it_dir it) = Some b" using readable_phases [OF r] by blast
    moreover obtain m where "parse_sentinel (rt_yaml env) (it_dir it) ''DEFERRED_REQUIRES_DEVICE.md'' = Some m"
      "scenario_text (mget m ''deferred_scenarios'') \<noteq> None"
      using readable_sentinel [OF r, of "''DEFERRED_REQUIRES_DEVICE.md''"] by (auto simp: walk_writes_def)
    ultimately show "device_stage env cfg it w \<noteq> None" by (simp add: stage_defs)
  qed
  show "calm operator_stage"
    by (rule calmI; auto simp: stage_defs walk_writes_def dest: readable_sentinel [of _ _ "''DEFERRED.md''"])
  show "calm research_stage" by (rule calmI) (simp add: stage_defs)
  show "calm park_blocked_stage"
    by (rule calmI) (auto simp: stage_defs walk_writes_def
        dest: stray_not_written readable_parked [of _ _ "''BLOCKED.md''"] readable_parked split: option.splits)
  show "calm park_input_stage"
  proof (rule calmI)
    fix env :: route_env and cfg and it :: item and w :: walk
    assume r: "readable (rt_yaml env) (it_dir it)"
    obtain b where "provisional_eligibility (rt_yaml env) (rt_repo env) (it_dir it) = Some b"
      using readable_eligibility [OF r] by blast
    moreover obtain p where "build_parked_entry (rt_yaml env) (it_id it) (it_dir it) ''NEEDS_INPUT.md'' = Some p"
      using readable_parked [OF r, of "''NEEDS_INPUT.md''"] by (auto simp: walk_writes_def)
    ultimately show "park_input_stage env cfg it w \<noteq> None" by (simp add: stage_defs)
  qed
  show "calm provisional_stage"
    by (rule calmI) (auto simp: stage_defs walk_writes_def provisional_sentinel_def
        dest: readable_parked [of _ _ "''NEEDS_INPUT_PROVISIONAL.md''"])
  show "calm (budget_stage ceiling)" by (rule calmI) (simp add: budget_stage_def)
  show "calm (dep_stage queue)"
    by (rule calmI) (simp add: dep_stage_def check_deps_some [OF dep_status_readable] del: not_None_eq)
  show "calm gate_stage" by (rule calmI) (simp add: gate_stage_def)
qed

subsection \<open>No stage skips an item that nothing defers\<close>

definition undeferred :: "route_env \<Rightarrow> route_cfg \<Rightarrow> item \<Rightarrow> bool" where
  "undeferred env cfg it \<longleftrightarrow>
     (let d = it_dir it in
      \<not> (cfg_cloud cfg \<and> has_doc d ''DEFERRED_NON_CLOUD.md'' \<and> \<not> has_doc d ''VALIDATED.md'') \<and>
      \<not> (\<not> real_device cfg \<and> has_doc d ''DEFERRED_REQUIRES_DEVICE.md'' \<and> \<not> has_doc d ''VALIDATED.md'') \<and>
      set (parse_requires_host (spec_text d) (it_entry it)) \<subseteq> set (rt_hosts env))"

definition servable :: "route_env \<Rightarrow> route_cfg \<Rightarrow> json list \<Rightarrow> disk \<Rightarrow> item \<Rightarrow> bool" where
  "servable env cfg queue disk it \<longleftrightarrow> eligible env cfg it \<and> undeferred env cfg it \<and>
     (\<forall>d\<in>set (dep_ids (it_entry it)). dep_status_in env queue disk d = Some DepComplete)"

lemma check_deps_complete: "\<forall>d\<in>set ds. status d = Some DepComplete \<Longrightarrow> check_deps status ds = Some (Inr [])"
  by (induction ds) auto

lemma nothing_missing: "set xs \<subseteq> H \<Longrightarrow> sort (remdups (filter (\<lambda>c. c \<notin> H) xs)) = []"
proof -
  assume "set xs \<subseteq> H"
  then have "filter (\<lambda>c. c \<notin> H) xs = []" by (auto simp: filter_empty_conv)
  then show ?thesis by simp
qed

lemma servable_unskipped:
  assumes "servable env cfg queue disk it" and "rt_run env = None" and "cfg_scope cfg = None"
    and "disk_like disk (w_disk w)"
  shows "completion_stage env cfg it w \<noteq> Some (Skip w')" "cloud_stage env cfg it w \<noteq> Some (Skip w')"
    "device_stage env cfg it w \<noteq> Some (Skip w')" "host_stage env cfg it w \<noteq> Some (Skip w')"
    "operator_stage env cfg it w \<noteq> Some (Skip w')" "research_stage env cfg it w \<noteq> Some (Skip w')"
    "park_blocked_stage env cfg it w \<noteq> Some (Skip w')" "park_input_stage env cfg it w \<noteq> Some (Skip w')"
    "provisional_stage env cfg it w \<noteq> Some (Skip w')" "budget_stage ceiling env cfg it w \<noteq> Some (Skip w')"
    "dep_stage queue env cfg it w \<noteq> Some (Skip w')"
proof -
  have el: "eligible env cfg it" and un: "undeferred env cfg it"
    and deps: "\<forall>d\<in>set (dep_ids (it_entry it)). dep_status_in env queue (w_disk w) d = Some DepComplete"
    using assms(1) by (simp_all add: servable_def dep_status_like [OF assms(4)])
  show "completion_stage env cfg it w \<noteq> Some (Skip w')" using el by (simp add: completion_stage_def eligible_def Let_def)
  show "cloud_stage env cfg it w \<noteq> Some (Skip w')" using un by (auto simp: cloud_stage_def undeferred_def Let_def)
  show "device_stage env cfg it w \<noteq> Some (Skip w')" using un by (auto simp: device_stage_def undeferred_def Let_def)
  have "sort (remdups (filter (\<lambda>c. c \<notin> set (rt_hosts env)) (parse_requires_host (spec_text (it_dir it)) (it_entry it)))) = []"
    using un by (intro nothing_missing) (simp add: undeferred_def Let_def)
  then show "host_stage env cfg it w \<noteq> Some (Skip w')" by (auto simp: host_stage_def Let_def)
  show "operator_stage env cfg it w \<noteq> Some (Skip w')" using el by (simp add: operator_stage_def eligible_def Let_def)
  show "research_stage env cfg it w \<noteq> Some (Skip w')" using el by (auto simp: research_stage_def eligible_def Let_def)
  show "park_blocked_stage env cfg it w \<noteq> Some (Skip w')"
    using el by (auto simp: park_blocked_stage_def eligible_def Let_def split: option.splits)
  show "park_input_stage env cfg it w \<noteq> Some (Skip w')" using el by (auto simp: park_input_stage_def eligible_def Let_def)
  show "provisional_stage env cfg it w \<noteq> Some (Skip w')"
    using el by (auto simp: provisional_stage_def eligible_def Let_def)
  show "budget_stage ceiling env cfg it w \<noteq> Some (Skip w')" using assms(2) by (simp add: budget_stage_def)
  show "dep_stage queue env cfg it w \<noteq> Some (Skip w')"
    by (simp add: dep_stage_def check_deps_complete [OF deps])
qed

lemma run_stages_unskipped:
  assumes "run_stages ss env cfg it w = Some (Skip w')" and "list_all walk_stage ss" and "disk_like disk (w_disk w)"
  shows "\<exists>s\<in>set ss. \<exists>w1. disk_like disk (w_disk w1) \<and> s env cfg it w1 = Some (Skip w')"
  using assms
proof (induction ss arbitrary: w)
  case (Cons s ss)
  from Cons.prems(1) consider "s env cfg it w = Some (Skip w')"
    | w1 where "s env cfg it w = Some (Proceed w1)" "run_stages ss env cfg it w1 = Some (Skip w')"
    by (auto split: option.splits outcome.splits)
  then show ?case
  proof cases
    case 1
    with Cons.prems(3) show ?thesis by auto
  next
    case 2
    have "walk_stage s" using Cons.prems(2) by simp
    from walk_stage.proceed_keeps [OF this 2(1)] Cons.prems(3) have "disk_like disk (w_disk w1)"
      by (auto simp: keeps_def intro: disk_like_trans)
    from Cons.IH [OF 2(2) _ this] Cons.prems(2) show ?thesis by auto
  qed
qed simp

text \<open>The item is not skipped, or a head is held on which the walk falls back.\<close>

lemma before_gate_stages: "list_all walk_stage (before_gate queue ceiling)"
  by (simp add: before_gate_def early_stages_def complete_st.walk_stage_axioms cloud_st.walk_stage_axioms
      device_st.walk_stage_axioms host_st.walk_stage_axioms operator_st.walk_stage_axioms
      research_st.walk_stage_axioms park_blocked_st.walk_stage_axioms park_input_st.walk_stage_axioms
      provisional_st.walk_stage_axioms budget_st.walk_stage_axioms dep_st.walk_stage_axioms)

lemma stages_serve:
  assumes "run_stages (stages queue ceiling) env cfg it w = Some (Skip w')" and "servable env cfg queue disk it"
    and "rt_run env = None" and "cfg_scope cfg = None" and "disk_like disk (w_disk w)" and "guarded env cfg w"
  shows "fallback_head w' \<noteq> None"
proof -
  have no: "run_stages (before_gate queue ceiling) env cfg it w \<noteq> Some (Skip w')"
  proof
    assume "run_stages (before_gate queue ceiling) env cfg it w = Some (Skip w')"
    from run_stages_unskipped [OF this before_gate_stages assms(5)] obtain s w1
      where "s \<in> set (before_gate queue ceiling)" "disk_like disk (w_disk w1)" "s env cfg it w1 = Some (Skip w')" by blast
    then show False using servable_unskipped [OF assms(2-4)] by (auto simp: before_gate_def early_stages_def)
  qed
  with assms(1) obtain w1 where pre: "run_stages (before_gate queue ceiling) env cfg it w = Some (Proceed w1)"
    and gate: "gate_stage env cfg it w1 = Some (Skip w')"
    unfolding stages_gate run_stages_append by (auto split: option.splits outcome.splits)
  have "guarded env cfg w1" using walk_stage.proceed_keeps [OF before_gate_stage pre] assms(6) by (simp add: keeps_def)
  then have "gated_heads w1 \<noteq> [] \<longrightarrow> fallback_head w1 \<noteq> None" by (simp add: guarded_def)
  with gate show ?thesis by (cases rule: gate_cases) (auto simp: hold_head_def)
qed

lemma spec_text_like: "dir_like d d' \<Longrightarrow> spec_text d' = spec_text d"
  by (rule dir_like_readers)

lemma has_doc_like: "dir_like d d' \<Longrightarrow> n \<notin> walk_writes \<Longrightarrow> has_doc d' n = has_doc d n"
  by (simp add: has_doc_def dir_like_doc)

lemma stray_names:
  "detect_noncanonical_blocker d = None \<longleftrightarrow>
    (\<exists>n. n = ''BLOCKED.md'' \<and> has_doc d n) \<or> (\<forall>n. stray_blocker n \<longrightarrow> \<not> has_doc d n)"
proof -
  have plans: "\<not> stray_blocker ''plans''" by code_simp
  have mem: "n \<in> set (dir_names d) \<longleftrightarrow> has_doc d n \<or> n = ''plans'' \<and> plan_docs d \<noteq> None" for n
    by (auto simp: dir_names_def has_doc_def map_of_eq_None_iff)
  show ?thesis unfolding detect_noncanonical_blocker_def using plans
    by (auto simp: find_None_iff mem)
qed

lemma eligible_like:
  assumes "dir_like (it_dir it) d"
  shows "eligible env cfg (it\<lparr>it_dir := d\<rparr>) = eligible env cfg it"
    and "undeferred env cfg (it\<lparr>it_dir := d\<rparr>) = undeferred env cfg it"
proof -
  have doc: "has_doc d n = has_doc (it_dir it) n" if "n \<noteq> ''DEFERRED_REQUIRES_HOST.md''" for n
    using has_doc_like [OF assms] that by (simp add: walk_writes_def)
  have stray: "detect_noncanonical_blocker d = None \<longleftrightarrow> detect_noncanonical_blocker (it_dir it) = None"
  proof -
    have "stray_blocker n \<Longrightarrow> n \<noteq> ''DEFERRED_REQUIRES_HOST.md''" for n
      using host_not_stray by (auto simp: stray_blocker_def)
    then show ?thesis unfolding stray_names by (simp add: doc)
  qed
  show "eligible env cfg (it\<lparr>it_dir := d\<rparr>) = eligible env cfg it"
    using stray
    by (simp add: eligible_def Let_def doc spec_text_like [OF assms] completion_claimed_def dir_like_readers [OF assms]
        spec_dir_operator_deferred_def spec_dir_research_pending_def provisional_sentinel_def)
  show "undeferred env cfg (it\<lparr>it_dir := d\<rparr>) = undeferred env cfg it"
    by (simp add: undeferred_def Let_def doc spec_text_like [OF assms])
qed

lemma servable_like:
  "dir_like (it_dir it) d \<Longrightarrow> servable env cfg queue disk it \<Longrightarrow> servable env cfg queue disk (it\<lparr>it_dir := d\<rparr>)"
  by (simp add: servable_def eligible_like)

subsection \<open>The walk reaches the item\<close>

definition entry_item :: "route_env \<Rightarrow> disk \<Rightarrow> json \<Rightarrow> item option" where
  "entry_item env disk e =
     map_option (\<lambda>d. \<lparr>it_id = entry_str e ''id'', it_name = entry_str e ''name'',
         it_path = rt_resolve env (entry_str e ''spec_dir''), it_entry = e, it_dir = d\<rparr>)
       (entry_dir env disk e)"

lemma enter_item_of:
  assumes "enter_item env cfg e w = Inr (it, w1)"
  shows "entry_item env (w_disk w) e = Some it" "seen_ids w1 = seen_ids w @ [entry_str e ''id'']"
    "dget (w_disk w) (it_path it) = Some (it_dir it)"
  using assms by (auto simp: enter_item_def entry_item_def entry_dir_def Let_def split: if_splits option.splits)

lemma walk_total:
  assumes "list_all is_obj es" and "readable_disk (rt_yaml env) (w_disk w)"
  shows "walk_queue (stages queue ceiling) env cfg es w \<noteq> None"
  using assms
proof (induction es arbitrary: w)
  case (Cons e es)
  show ?case
  proof (cases "enter_item env cfg e w")
    case (Inl w1)
    with Cons enter_item_past(2) [OF Inl] show ?thesis by simp
  next
    case (Inr p)
    obtain it w1 where p: "p = (it, w1)" by (cases p)
    note en = Inr [unfolded p]
    have r: "readable (rt_yaml env) (it_dir it)" using enter_item_of(3) [OF en] readable_lookup Cons.prems(2) by blast
    have k: "readable_disk (rt_yaml env) (w_disk w1)" using enter_item_fields(3) [OF en] Cons.prems(2) by simp
    have "calm (run_stages (stages queue ceiling))"
    proof (rule run_stages_calm)
      show "list_all walk_stage (stages queue ceiling)"
        using before_gate_stages by (simp add: stages_gate gate_st.walk_stage_axioms)
      show "list_all calm (stages queue ceiling)" by (simp add: stages_def calm_stages)
    qed
    then obtain out where out: "run_stages (stages queue ceiling) env cfg it w1 = Some out"
      using r k unfolding calm_def by blast
    show ?thesis
    proof (cases out)
      case (Skip w2)
      from walk_stage.skip_keeps [OF stages_contract out [unfolded Skip]] k
      have "readable_disk (rt_yaml env) (w_disk w2)" by (auto simp: keeps_def intro: readable_disk_like)
      with Cons.IH Cons.prems(1) en out Skip show ?thesis by simp
    qed (use Cons.prems(1) en out in simp_all)
  qed
qed simp

lemma walk_reaches:
  assumes "rt_run env = None" and "cfg_scope cfg = None"
  shows "walk_queue (stages queue ceiling) env cfg es w = Some (Exhausted w') \<Longrightarrow> guarded env cfg w \<Longrightarrow>
    disk_like disk (w_disk w) \<Longrightarrow>
    fallback_head w \<noteq> None \<or> e \<in> set es \<and> entry_str e ''id'' \<notin> set (seen_ids w) \<Longrightarrow>
    named_entry e \<Longrightarrow> entry_item env disk e = Some it \<Longrightarrow> servable env cfg queue disk it \<Longrightarrow>
    \<forall>e'\<in>set es. entry_str e' ''id'' = entry_str e ''id'' \<longrightarrow> e' = e \<Longrightarrow>
    fallback_head w' \<noteq> None"
proof (induction es arbitrary: w)
  case Nil
  then show ?case by simp
next
  case (Cons f es)
  note like = Cons.prems(3)
  show ?case
  proof (cases "enter_item env cfg f w")
    case (Inl w1)
    have w1: "w1 = w" using Inl by (auto simp: enter_unscoped [OF assms(2)] split: option.splits if_splits)
    have "e \<noteq> f" if "fallback_head w = None"
    proof
      assume "e = f"
      moreover obtain d where "entry_dir env (w_disk w) e = Some d"
        using Cons.prems(6) entry_dir_like [OF like, of env e] by (cases "entry_dir env (w_disk w) e") (auto simp: entry_item_def)
      ultimately show False using Inl that Cons.prems(4,5) by (auto simp: enter_unscoped [OF assms(2)] split: if_splits)
    qed
    then show ?thesis using Cons.IH [of w] Cons.prems Inl w1 by (auto split: if_splits)
  next
    case (Inr p)
    obtain jt w1 where p: "p = (jt, w1)" by (cases p)
    note en = Inr [unfolded p]
    obtain w2 where skip: "run_stages (stages queue ceiling) env cfg jt w1 = Some (Skip w2)"
      and rest: "walk_queue (stages queue ceiling) env cfg es w2 = Some (Exhausted w')"
      using Cons.prems(1) en by (auto split: if_splits option.splits outcome.splits)
    have g1: "guarded env cfg w1" and like1: "disk_like disk (w_disk w1)" and h1: "fallback_head w1 = fallback_head w"
      using enter_item_fields [OF en] Cons.prems(2) like by (simp_all add: heads_def)
    have k: "keeps env cfg w1 w2" by (rule walk_stage.skip_keeps [OF stages_contract skip])
    then have g2: "guarded env cfg w2" and like2: "disk_like disk (w_disk w2)"
      and s2: "seen_ids w2 = seen_ids w @ [entry_str f ''id'']" and h2: "fallback_head w1 \<noteq> None \<longrightarrow> fallback_head w2 \<noteq> None"
      using g1 disk_like_trans [OF like1] enter_item_of(2) [OF en] by (simp_all add: keeps_def)
    have "fallback_head w2 \<noteq> None \<or> e \<in> set es \<and> entry_str e ''id'' \<notin> set (seen_ids w2)"
    proof (cases "entry_str f ''id'' = entry_str e ''id''")
      case True
      then have "f = e" using Cons.prems(8) by simp
      obtain d where d: "entry_dir env disk e = Some d" "it_dir it = d" "entry_item env (w_disk w) e = Some jt"
        using Cons.prems(6) enter_item_of(1) [OF en] \<open>f = e\<close> by (auto simp: entry_item_def)
      have "rel_option dir_like (entry_dir env disk e) (entry_dir env (w_disk w) e)"
        unfolding entry_dir_def by (rule disk_like_lookup [OF like])
      then obtain d' where "entry_dir env (w_disk w) e = Some d'" "dir_like d d'" using d(1) by (auto elim: option.rel_cases)
      then have "jt = it\<lparr>it_dir := d'\<rparr>" "dir_like (it_dir it) d'"
        using d Cons.prems(6) by (cases it; auto simp: entry_item_def)+
      then have "servable env cfg queue disk jt" using servable_like Cons.prems(7) by simp
      from stages_serve [OF skip this assms like1 g1] show ?thesis by simp
    next
      case False
      then show ?thesis using Cons.prems(4) h1 h2 s2 by auto
    qed
    with Cons.IH [OF rest g2 like2] Cons.prems(5-8) show ?thesis by simp
  qed
qed

lemma fall_back_served: "fallback_head w \<noteq> None \<Longrightarrow> \<exists>it w'. fall_back (Exhausted w) = (Some it, w')"
  by (auto simp: fall_back_def)

text \<open>
  C7. Outside a run, with every sentinel readable: the probe over a queue that holds an item which is
  eligible, not deferred, and whose dependencies are complete ends with an item to work on or with a
  route that names an item. No skip, and no item before it in the queue, can leave the pipeline idle.
\<close>

theorem ready_item_is_served:
  assumes "rt_run env = None" and "cfg_scope cfg = None"
    and "list_all is_obj queue" and "readable_disk (rt_yaml env) disk"
    and "e \<in> set queue" and "named_entry e" and "entry_item env disk e = Some it"
    and "servable env cfg queue disk it"
    and "\<forall>e'\<in>set queue. entry_str e' ''id'' = entry_str e ''id'' \<longrightarrow> e' = e"
  shows "\<exists>res w. select_item env cfg disk queue = Some (res, w) \<and>
    (case res of Inl jt \<Rightarrow> True | Inr r \<Rightarrow> feature_id r \<noteq> None)"
proof -
  have ceiling: "cycle_ceiling env cfg disk queue = Some None" using assms(1) by (simp add: cycle_ceiling_def)
  obtain we where we: "walk_queue (stages queue None) env cfg queue (start_walk env disk) = Some we"
    using walk_total [OF assms(3)] assms(4) start_walk_clear(4) by fastforce
  obtain res w where fin: "finish_walk env cfg queue we = (res, w)" by (cases "finish_walk env cfg queue we")
  have sel: "select_item env cfg disk queue = Some (res, w)" using ceiling we fin by (simp add: select_item_def)
  have "case res of Inl jt \<Rightarrow> True | Inr r \<Rightarrow> feature_id r \<noteq> None"
  proof (cases res)
    case (Inr r)
    show ?thesis
    proof (cases "\<exists>r' w'. we = Returned r' w'")
      case True
      then obtain r' w' where ret: "we = Returned r' w'" by blast
      with fin Inr have "r' = r" by (simp add: finish_walk_def)
      with walk_returned [OF stages_contract we [unfolded ret]] Inr show ?thesis by simp
    next
      case False
      from fin [unfolded Inr] False obtain w0 where w0: "we = Exhausted w0" "fallback_head w0 = None" by (rule finish_stop)
      have "fallback_head w0 \<noteq> None"
        by (rule walk_reaches [OF assms(1,2) we [unfolded w0(1)] start_walk_clear(1) _ _ assms(6-9)])
          (simp_all add: start_walk_clear assms(5))
      with w0(2) show ?thesis by simp
    qed
  qed simp
  with sel show ?thesis by blast
qed

end
