(* ===== verification/Text_Lines.thy ===== *)
theory Text_Lines
  imports Item_Docs
begin

text \<open>
  Texts of printable ASCII lines. Their lines are what they were joined from, which evaluates the
  document readers on concrete files.
\<close>

definition printable :: "char \<Rightarrow> bool" where
  "printable c \<longleftrightarrow> 32 \<le> (of_char c :: nat) \<and> (of_char c :: nat) < 127"

lemma line_end_first: "t \<in> set line_ends \<Longrightarrow> t \<noteq> [] \<and> \<not> printable (hd t)"
  by (auto simp: line_ends_def bytes_def printable_def)

lemma printable_no_end:
  assumes "printable c"
  shows "find (\<lambda>t. t \<noteq> [] \<and> prefix t (c # s)) line_ends = None"
  using assms line_end_first by (fastforce simp: find_None_iff prefix_def neq_Nil_conv)

lemma split_lines_printable: "list_all printable l \<Longrightarrow> split_lines acc (l @ r) = split_lines (rev l @ acc) r"
proof (induction l arbitrary: acc)
  case (Cons c l)
  then show ?case by (subst split_lines.simps) (simp add: printable_no_end)
qed simp

lemma split_lines_newline: "split_lines acc (newline @ r) = rev acc # split_lines [] r"
  by (subst split_lines.simps) (simp add: newline_def bytes_def line_ends_def prefix_def)

lemma split_lines_nil: "split_lines acc [] = (if acc = [] then [] else [rev acc])"
  by (subst split_lines.simps) simp

lemma splitlines_join:
  "ls \<noteq> [] \<Longrightarrow> list_all (list_all printable) ls \<Longrightarrow> last ls \<noteq> [] \<Longrightarrow> splitlines (join newline ls) = ls"
  unfolding splitlines_def
proof (induction newline ls rule: join.induct)
  case (2 x)
  then show ?case using split_lines_printable [of x "[]" "[]"] by (simp add: split_lines_nil)
next
  case (3 x y xs)
  then show ?case by (simp add: split_lines_printable split_lines_newline)
qed simp

lemma splitlines_line: "list_all printable l \<Longrightarrow> l \<noteq> [] \<Longrightarrow> splitlines l = [l]"
  using splitlines_join [of "[l]"] by simp

lemma space_ws: "CHR '' '' \<in> ascii_ws"
proof -
  have "CHR '' '' = char_of (32::nat)" by code_simp
  then show ?thesis by (simp add: ascii_ws_def)
qed

lemma lstrip_space: "lstrip (CHR '' '' # s) = lstrip s"
  by (simp add: lstrip_def ws_head_def space_ws drop_ws.simps [of wide_ws "CHR '' '' # s"])

lemma strip_space: "strip (CHR '' '' # s) = strip s"
  by (simp add: strip_def lstrip_space)

lemma strip_fence: "strip fence = fence"
  by (simp add: fence_def strip_plain plain_char_def)

text \<open>A file that opens with a block between two fences.\<close>

lemma frontmatter_block:
  assumes "list_all (list_all printable) (block @ rest)" and "\<forall>l\<in>set block. strip l \<noteq> fence"
    and "rest \<noteq> [] \<longrightarrow> last rest \<noteq> []"
  shows "frontmatter yaml (join newline (fence # block @ fence # rest)) = load_mapping yaml (join newline block)"
proof -
  have f: "list_all printable fence" "fence \<noteq> []" by (simp_all add: fence_def printable_def)
  have lines: "splitlines (join newline (fence # block @ fence # rest)) = fence # block @ fence # rest"
    using assms(1,3) f by (intro splitlines_join) auto
  have take: "takeWhile (\<lambda>l. strip l \<noteq> fence) (block @ fence # rest) = block"
    using assms(2) by (simp add: takeWhile_append strip_fence)
  show ?thesis unfolding frontmatter_def lines by (simp add: strip_fence f take)
qed

end
