(* ===== verification/Walk_Samples.thy ===== *)
theory Walk_Samples
  imports Walk_Live Text_Lines
begin

text \<open>A small repository on which the properties of the walk are applied.\<close>

definition sample_yaml :: yaml where
  "sample_yaml s = Some (JObj [(''kind'', JStr ''completed''), (''provenance'', JStr ''gate'')])"

definition sample_repo :: repo_env where
  "sample_repo = \<lparr>has_app_surface = True, has_cognito_planner = False, is_claude_config = False,
     head_commit = None, diff_names = (\<lambda>a b. None)\<rparr>"

definition sample_route_env :: route_env where
  "sample_route_env = \<lparr>rt_yaml = sample_yaml, rt_dump = (\<lambda>m. []), rt_repo = sample_repo, rt_root = [''f''],
     rt_resolve = (\<lambda>s. [''f'', s]), rt_roadmap = [], rt_hosts = [], rt_now = ''now'', rt_today = ''today'',
     rt_short_head = None, rt_run = None\<rparr>"

definition sample_cfg :: route_cfg where
  "sample_cfg = \<lparr>cfg_cloud = False, cfg_skip_needs_research = False, cfg_real_device = True, cfg_scope = None,
     cfg_park_needs_input = False, cfg_park_blocked = True, cfg_park_provisional = False, cfg_cycle_cap = None,
     cfg_strict_research_halt = False\<rparr>"

definition text_doc :: "string \<Rightarrow> doc" where
  "text_doc s = \<lparr>doc_text = s, doc_mtime = 0\<rparr>"

definition done_dir :: item_dir where
  "done_dir = \<lparr>docs = [(''SPEC.md'', text_doc ''**Status:** Complete''),
     (''COMPLETED.md'', text_doc (join newline [fence, ''a'', fence]))], plan_docs = None\<rparr>"

definition new_dir :: item_dir where
  "new_dir = \<lparr>docs = [], plan_docs = None\<rparr>"

definition done_entry :: json where
  "done_entry = JObj [(''id'', JStr ''a''), (''name'', JStr ''A''), (''spec_dir'', JStr ''a'')]"

definition new_entry :: json where
  "new_entry = JObj [(''id'', JStr ''b''), (''name'', JStr ''B''), (''spec_dir'', JStr ''b''),
     (''deps'', JArr [JStr ''a''])]"

definition sample_disk :: disk where
  "sample_disk = [([''f'', ''a''], done_dir), ([''f'', ''b''], new_dir)]"

lemma done_status: "spec_status done_dir = Some ''Complete''"
  by (simp add: spec_status_def spec_lines_def done_dir_def text_doc_def splitlines_line printable_def bold_value_def
      strip_space strip_plain plain_char_def)

lemma done_receipt: "has_completion_receipt sample_yaml done_dir ''COMPLETED.md'' = Some True"
proof -
  have "strip ''a'' \<noteq> fence" by (simp add: strip_plain plain_char_def fence_def)
  then have "frontmatter sample_yaml (join newline [fence, ''a'', fence]) =
      Some [(''kind'', JStr ''completed''), (''provenance'', JStr ''gate'')]"
    using frontmatter_block [of "[''a'']" "[]" sample_yaml]
    by (simp add: printable_def load_mapping_def sample_yaml_def)
  then show ?thesis
    by (simp add: has_completion_receipt_def has_doc_def done_dir_def text_doc_def parse_sentinel_def mget_def
        strip_plain plain_char_def)
qed

lemma done_finished: "finished_item sample_route_env ''A'' done_dir"
  by (simp add: finished_item_def completion_claimed_def done_status done_receipt sample_route_env_def)

lemmas route_samples = sample_route_env_def sample_cfg_def sample_disk_def done_entry_def new_entry_def

lemma entry_samples [simp]:
  "entry_str done_entry ''id'' = ''a''" "entry_str done_entry ''name'' = ''A''" "entry_str done_entry ''spec_dir'' = ''a''"
  "entry_str new_entry ''id'' = ''b''" "entry_str new_entry ''name'' = ''B''" "entry_str new_entry ''spec_dir'' = ''b''"
  "is_obj done_entry" "is_obj new_entry" "named_entry done_entry" "named_entry new_entry"
  by (simp_all add: entry_str_def named_entry_def jget_def done_entry_def new_entry_def)

lemma dir_samples [simp]:
  "entry_dir sample_route_env sample_disk done_entry = Some done_dir"
  "entry_dir sample_route_env sample_disk new_entry = Some new_dir"
  by (simp_all add: entry_dir_def) (simp_all add: sample_disk_def sample_route_env_def)

definition done_item :: item where
  "done_item = \<lparr>it_id = ''a'', it_name = ''A'', it_path = [''f'', ''a''], it_entry = done_entry, it_dir = done_dir\<rparr>"

definition new_item :: item where
  "new_item = \<lparr>it_id = ''b'', it_name = ''B'', it_path = [''f'', ''b''], it_entry = new_entry, it_dir = new_dir\<rparr>"

lemma new_dir_empty [simp]: "has_doc new_dir n = False" "spec_status new_dir = None" "spec_text new_dir = []"
    "spec_lines new_dir = []" "plan_docs new_dir = None" "docs new_dir = []"
  by (simp_all add: has_doc_def new_dir_def spec_status_def spec_lines_def spec_text_def)

lemma done_skipped:
  "run_stages (stages queue ceiling) sample_route_env sample_cfg done_item w = Some (Skip w)"
proof -
  have "completion_stage sample_route_env sample_cfg done_item w = Some (Skip w)"
    using done_finished done_receipt
    by (simp add: completion_stage_def finished_item_def done_item_def done_status sample_route_env_def skip_or_scoped_def
        sample_cfg_def)
  then show ?thesis by (simp add: stages_def)
qed

lemma enter_done:
  "''a'' \<notin> set (seen_ids w) \<Longrightarrow> w_disk w = sample_disk \<Longrightarrow>
    enter_item sample_route_env sample_cfg done_entry w = Inr (done_item, w\<lparr>seen_ids := seen_ids w @ [''a'']\<rparr>)"
  by (simp add: enter_unscoped sample_cfg_def done_item_def) (simp add: sample_route_env_def)

lemma select_done:
  "\<exists>w. select_item sample_route_env sample_cfg sample_disk [done_entry] = Some (Inr (stop_route ''all-features-complete'' None), w)"
proof -
  let ?w = "(start_walk sample_route_env sample_disk)\<lparr>seen_ids := [''a'']\<rparr>"
  have "walk_queue (stages [done_entry] None) sample_route_env sample_cfg [done_entry] (start_walk sample_route_env sample_disk)
      = Some (Exhausted ?w)"
    by (simp add: enter_done start_walk_clear done_skipped)
  then show ?thesis
    by (simp add: select_item_def cycle_ceiling_def sample_route_env_def finish_walk_def fall_back_def start_walk_def
        persist_budget_def resume_flush_def exhausted_route_def cloud_exhausted_def device_exhausted_def
        research_exhausted_def scope_missed_def sample_cfg_def)
qed

theorem all_complete_means_finished_witness:
  "\<exists>e'\<in>set [done_entry]. entry_str e' ''id'' = entry_str done_entry ''id'' \<and>
     finished_entry sample_route_env sample_disk e'"
proof -
  obtain w where "select_item sample_route_env sample_cfg sample_disk [done_entry] =
      Some (Inr (stop_route ''all-features-complete'' None), w)" using select_done by blast
  from all_complete_means_finished [OF this, of done_entry] show ?thesis by (simp add: sample_cfg_def)
qed

lemma new_deps [simp]: "dep_ids new_entry = [''a'']"
  by (simp add: dep_ids_def new_entry_def jget_def dep_id_re_def id_char_def)

lemma new_hosts [simp]: "parse_requires_host [] new_entry = []"
  by (simp add: parse_requires_host_def coerce_capability_ids_def new_entry_def jget_def splitlines_def split_lines_nil)

lemma done_dep: "dep_status_in sample_route_env [done_entry, new_entry] sample_disk ''a'' = Some DepComplete"
proof -
  have "dep_dir_map sample_route_env [done_entry, new_entry] = [(''a'', [''f'', ''a'']), (''b'', [''f'', ''b''])]"
    by (simp add: dep_dir_map_def) (simp add: sample_route_env_def)
  then show ?thesis
    by (simp add: dep_status_in_def dep_completion_status_def dep_candidates_def)
      (simp add: sample_disk_def classify_dep_def done_status done_receipt sample_route_env_def)
qed

lemma new_no_stray [simp]: "detect_noncanonical_blocker new_dir = None"
  by (simp add: detect_noncanonical_blocker_def dir_names_def)

lemma new_eligible: "eligible sample_route_env sample_cfg new_item" "undeferred sample_route_env sample_cfg new_item"
  by (simp_all add: eligible_def undeferred_def new_item_def completion_claimed_def spec_dir_operator_deferred_def
      roadmap_marks_complete_def sample_route_env_def sample_cfg_def splitlines_def split_lines_nil
      unknown_capability_ids_def Let_def)

lemma new_servable: "servable sample_route_env sample_cfg [done_entry, new_entry] sample_disk new_item"
  by (simp add: servable_def new_eligible new_item_def done_dep) (simp add: new_item_def [symmetric] new_eligible)

lemma no_ceiling [simp]: "budget_stage None env cfg it w = Some (Proceed w)"
  by (simp add: budget_stage_def split: option.split)

lemma new_picked:
  assumes "w_disk w = sample_disk" and "gated_heads w = []"
  shows "run_stages (stages [done_entry, new_entry] None) sample_route_env sample_cfg new_item w = Some (Proceed w)"
proof -
  have claim: "\<not> completion_claimed (rt_roadmap sample_route_env) ''B'' new_dir"
    using new_eligible(1) by (simp add: eligible_def new_item_def Let_def)
  have cfg: "\<not> cfg_cloud sample_cfg" "\<not> cfg_skip_needs_research sample_cfg" "\<not> cfg_park_needs_input sample_cfg"
    by (simp_all add: sample_cfg_def)
  show ?thesis
    by (simp add: stages_def new_item_def completion_stage_def claim cloud_stage_def cfg device_stage_def host_stage_def
        operator_stage_def spec_dir_operator_deferred_def research_stage_def park_blocked_stage_def park_input_stage_def
        provisional_stage_def dep_stage_def assms done_dep gate_stage_def gated_head_kind_def
        spec_dir_research_pending_def)
qed

lemma select_new:
  "\<exists>w. select_item sample_route_env sample_cfg sample_disk [done_entry, new_entry] = Some (Inl new_item, w) \<and>
    budget_resumed w = None"
proof -
  let ?w = "(start_walk sample_route_env sample_disk)\<lparr>seen_ids := [''a'', ''b'']\<rparr>"
  have enter: "enter_item sample_route_env sample_cfg new_entry
      ((start_walk sample_route_env sample_disk)\<lparr>seen_ids := [''a'']\<rparr>) = Inr (new_item, ?w)"
    by (simp add: enter_unscoped sample_cfg_def start_walk_clear new_item_def) (simp add: sample_route_env_def)
  have "run_stages (stages [done_entry, new_entry] None) sample_route_env sample_cfg new_item ?w = Some (Proceed ?w)"
    by (rule new_picked) (simp_all add: start_walk_clear, simp add: start_walk_def)
  then have "walk_queue (stages [done_entry, new_entry] None) sample_route_env sample_cfg [done_entry, new_entry]
      (start_walk sample_route_env sample_disk) = Some (Picked new_item ?w)"
    by (simp add: enter_done start_walk_clear done_skipped enter)
  then show ?thesis
    by (simp add: select_item_def cycle_ceiling_def finish_walk_def fall_back_def start_walk_def
        persist_budget_def resume_flush_def sample_route_env_def)
qed

theorem selected_item_is_eligible_witness:
  "eligible sample_route_env sample_cfg new_item \<and>
    dep_status_in sample_route_env [done_entry, new_entry] sample_disk ''a'' = Some DepComplete"
proof -
  obtain w where w: "select_item sample_route_env sample_cfg sample_disk [done_entry, new_entry] = Some (Inl new_item, w)"
    "budget_resumed w = None" using select_new by blast
  have "it_entry new_item = new_entry" by (simp add: new_item_def)
  with selected_item_is_eligible [OF w] show ?thesis by simp
qed

lemma sample_readable: "readable_disk sample_yaml sample_disk"
proof -
  have spec: "readable_meta sample_yaml ''**Status:** Complete''"
    by (simp add: readable_meta_def frontmatter_def splitlines_line printable_def strip_plain plain_char_def fence_def mget_def scenario_text_def)
  have "strip ''a'' \<noteq> fence" by (simp add: strip_plain plain_char_def fence_def)
  then have "readable_meta sample_yaml (join newline [fence, ''a'', fence])"
    using frontmatter_block [of "[''a'']" "[]" sample_yaml]
    by (simp add: readable_meta_def printable_def load_mapping_def sample_yaml_def mget_def scenario_text_def)
  with spec have "readable sample_yaml done_dir"
    by (auto simp: readable_def done_dir_def plan_dir_def text_doc_def split: if_splits)
  moreover have "readable sample_yaml new_dir" by (simp add: readable_def plan_dir_def)
  ultimately show ?thesis by (simp add: readable_disk_def sample_disk_def)
qed

theorem ready_item_is_served_witness:
  "\<exists>res w. select_item sample_route_env sample_cfg sample_disk [done_entry, new_entry] = Some (res, w) \<and>
    (case res of Inl jt \<Rightarrow> True | Inr r \<Rightarrow> feature_id r \<noteq> None)"
proof (rule ready_item_is_served [OF _ _ _ _ _ _ _ new_servable])
  show "entry_item sample_route_env sample_disk new_entry = Some new_item"
    by (simp add: entry_item_def new_item_def) (simp add: sample_route_env_def)
qed (simp_all add: sample_readable, simp_all add: sample_route_env_def sample_cfg_def sample_readable)

end
