(* ===== verification/Walk_Budget.thy ===== *)
theory Walk_Budget
  imports Walk_Samples
begin

text \<open>
  Parking and the budget guard of the walk: the predicate that tells whether an item would be parked
  agrees with the walk, and the guard evicts an item only after an earlier probe has deferred it.
\<close>

subsection \<open>Parking\<close>

text \<open>
  The helper that tells other tools whether an item would be parked decides as the walk does, under
  every combination of the park facets.
\<close>

theorem park_decision_mirrored:
  assumes "run_stages [park_blocked_stage, park_input_stage] env cfg it w = Some out" and "cfg_scope cfg = None"
  shows "spec_dir_would_park (rt_yaml env) (rt_repo env) (cfg_park_needs_input cfg) (cfg_park_blocked cfg)
      (cfg_park_provisional cfg) (it_dir it) = Some (\<exists>w'. out = Skip w')"
  using assms
  by (auto simp: park_blocked_stage_def park_input_stage_def park_item_def spec_dir_would_park_def bind_eq_Some_conv Let_def
      split: option.splits outcome.splits if_splits)

subsection \<open>The books of the guard\<close>

primrec out_walk :: "outcome \<Rightarrow> walk" where
  "out_walk (Proceed w) = w"
| "out_walk (Skip w) = w"
| "out_walk (Return r w) = w"

definition books :: "walk \<Rightarrow> (string, int) dict \<times> string list" where
  "books w = (w_deferred w, w_evicted w)"

definition silent :: "stage \<Rightarrow> bool" where
  "silent st \<longleftrightarrow> (\<forall>env cfg it w out. st env cfg it w = Some out \<longrightarrow> books (out_walk out) = books w)"

lemma silentI: "(\<And>env cfg it w out. st env cfg it w = Some out \<Longrightarrow> books (out_walk out) = books w) \<Longrightarrow> silent st"
  by (simp add: silent_def)

lemma books_simps [simp]:
  "books (w\<lparr>cloud_skipped := x\<rparr>) = books w" "books (w\<lparr>device_deferred := x\<rparr>) = books w"
  "books (w\<lparr>host_saturated := hs\<rparr>) = books w" "books (w\<lparr>operator_deferred := x\<rparr>) = books w"
  "books (w\<lparr>research_skipped := x\<rparr>) = books w" "books (w\<lparr>parked := ps\<rparr>) = books w"
  "books (w\<lparr>provisional := ps\<rparr>) = books w" "books (w\<lparr>budget_skipped := x\<rparr>) = books w"
  "books (w\<lparr>dep_gated := hs\<rparr>) = books w" "books (w\<lparr>skip_blocked := x\<rparr>) = books w"
  "books (w\<lparr>seen_ids := x\<rparr>) = books w" "books (w\<lparr>seen_ids := x, scope_seen := b\<rparr>) = books w"
  "books (w\<lparr>budget_resumed := ob\<rparr>) = books w"
  "books (store_doc p n t w) = books w" "books (hold_head it k w) = books w"
  "books (record_trip env run c it e a ph w) = books w" "books (block_item env it s k2 w) = books w"
  by (simp_all add: books_def store_doc_def hold_head_def record_trip_def block_item_def split: option.split)

lemma silent_dep: "silent (dep_stage queue)"
proof (rule silentI)
  fix env :: route_env and cfg and it :: item and w :: walk and out
  assume "dep_stage queue env cfg it w = Some out"
  then show "books (out_walk out) = books w" by (cases rule: dep_cases) auto
qed

lemma silent_gate: "silent gate_stage"
proof (rule silentI)
  fix env :: route_env and cfg and it :: item and w :: walk and out
  assume "gate_stage env cfg it w = Some out"
  then show "books (out_walk out) = books w" by (cases rule: gate_cases) auto
qed

definition unbudgeted_stages :: "stage list" where
  "unbudgeted_stages = [completion_stage, cloud_stage, device_stage, host_stage, operator_stage, research_stage,
     park_blocked_stage, park_input_stage, provisional_stage]"

lemma stages_budget: "stages queue ceiling = unbudgeted_stages @ [budget_stage ceiling, dep_stage queue, gate_stage]"
  by (simp add: stages_def unbudgeted_stages_def)

lemma silent_unbudgeted: "list_all silent unbudgeted_stages"
  unfolding unbudgeted_stages_def list.pred_inject
  by (intro conjI TrueI silentI) (auto simp: stage_defs bind_eq_Some_conv split: if_splits option.splits)

lemma run_silent: "list_all silent ss \<Longrightarrow> run_stages ss env cfg it w = Some out \<Longrightarrow> books (out_walk out) = books w"
proof (induction ss arbitrary: w)
  case (Cons s ss)
  obtain o1 where s: "s env cfg it w = Some o1" using Cons.prems(2) by (auto split: option.splits)
  then have b: "books (out_walk o1) = books w" using Cons.prems(1) by (auto simp: silent_def)
  show ?case
  proof (cases o1)
    case (Proceed w1)
    then show ?thesis using Cons s b by simp
  qed (use Cons.prems(2) s b in auto)
qed auto

text \<open>What one item does to the books.\<close>

definition fair_entry :: "item \<Rightarrow> walk \<Rightarrow> walk \<Rightarrow> bool" where
  "fair_entry it w w' \<longleftrightarrow>
     (\<forall>j. j \<noteq> it_id it \<longrightarrow> lookup_count (w_deferred w') j = lookup_count (w_deferred w) j) \<and>
     (\<forall>j\<in>set (w_evicted w'). j \<in> set (w_evicted w) \<or>
        j = it_id it \<and> 1 \<le> lookup_count (w_deferred w) j \<and> \<not> feature_is_near_complete (it_dir it))"

lemma fair_books: "books a = books w \<Longrightarrow> books b = books w' \<Longrightarrow> fair_entry it a b = fair_entry it w w'"
  by (simp add: fair_entry_def books_def)

lemma fair_refl [simp]: "fair_entry it w w"
  by (simp add: fair_entry_def)

lemma fair_trip: "fair_entry it w (apply_trip it (trip_action it w) w)"
  by (auto simp: fair_entry_def apply_trip_def trip_action_def lookup_count_def dict_simps Let_def split: if_splits)

lemma budget_fair:
  assumes "budget_stage ceiling env cfg it w = Some out"
  shows "fair_entry it w (out_walk out)"
  using assms
proof (cases rule: budget_cases)
  case (4 run c e a ph)
  have "fair_entry it w (apply_trip it a w)" unfolding 4(3) by (rule fair_trip)
  moreover have "books (out_walk out) = books (apply_trip it a w)" unfolding 4(6) by simp
  ultimately show ?thesis using fair_books [of w w "out_walk out" "apply_trip it a w" it] by blast
next
  case (2 run c e)
  then show ?thesis using fair_books [of w w "out_walk out" w it] by simp
next
  case (3 run)
  then show ?thesis using fair_books [of w w "out_walk out" w it] by simp
qed simp

lemma stages_fair:
  assumes "run_stages (stages queue ceiling) env cfg it w = Some out"
  shows "fair_entry it w (out_walk out)"
proof -
  obtain o1 where pre: "run_stages unbudgeted_stages env cfg it w = Some o1"
    using assms unfolding stages_budget run_stages_append by (auto split: option.splits)
  have b: "books (out_walk o1) = books w" by (rule run_silent [OF silent_unbudgeted pre])
  show ?thesis
  proof (cases o1)
    case (Proceed w1)
    obtain o2 where bud: "budget_stage ceiling env cfg it w1 = Some o2"
      using assms pre Proceed unfolding stages_budget run_stages_append by (auto split: option.splits)
    have fair: "fair_entry it w (out_walk o2)"
      using budget_fair [OF bud] fair_books [of w1 w "out_walk o2" "out_walk o2" it] b Proceed by simp
    show ?thesis
    proof (cases o2)
      case p2: (Proceed w2)
      have "run_stages [dep_stage queue, gate_stage] env cfg it w2 = Some out"
        using assms pre Proceed bud p2 unfolding stages_budget run_stages_append by simp
      then have "books (out_walk out) = books w2" by (rule run_silent [rotated]) (simp add: silent_dep silent_gate)
      then show ?thesis using fair fair_books [of w w "out_walk out" w2 it] p2 by simp
    qed (use assms pre Proceed bud fair in \<open>auto simp: stages_budget run_stages_append\<close>)
  qed (use assms pre b fair_books [of w w "out_walk out" w it] in \<open>auto simp: stages_budget run_stages_append\<close>)
qed

text \<open>What the guard may have written by the time an entry is reached.\<close>

definition deferred_before :: "run_budget \<Rightarrow> json list \<Rightarrow> string \<Rightarrow> bool" where
  "deferred_before run queue i \<longleftrightarrow>
     (\<exists>it :: item. it_id it = i \<and> it_entry it \<in> set queue \<and> \<not> feature_is_near_complete (it_dir it)) \<and>
     1 \<le> lookup_count (rb_deferred run) i"

definition fair_books_of :: "run_budget \<Rightarrow> json list \<Rightarrow> walk \<Rightarrow> bool" where
  "fair_books_of run queue w \<longleftrightarrow>
     (\<forall>j. j \<notin> set (seen_ids w) \<longrightarrow> lookup_count (w_deferred w) j = lookup_count (rb_deferred run) j) \<and>
     (\<forall>i\<in>set (w_evicted w). i \<in> set (rb_evicted run) \<or> deferred_before run queue i)"

lemma fair_entry_evicted:
  assumes "fair_entry it w1 w2" and "enter_item env cfg e w = Inr (it, w1)" and "e \<in> set queue"
    and "fair_books_of run queue w"
  shows "\<forall>i\<in>set (w_evicted w2). i \<in> set (rb_evicted run) \<or> deferred_before run queue i"
proof
  fix i assume i: "i \<in> set (w_evicted w2)"
  have id: "it_id it \<notin> set (seen_ids w)" and b: "books w1 = books w" and e: "it_entry it = e"
    using assms(2) by (auto simp: enter_item_def Let_def split: if_splits option.splits)
  from i assms(1) consider "i \<in> set (w_evicted w1)"
    | "i = it_id it" "1 \<le> lookup_count (w_deferred w1) i" "\<not> feature_is_near_complete (it_dir it)"
    unfolding fair_entry_def by blast
  then show "i \<in> set (rb_evicted run) \<or> deferred_before run queue i"
  proof cases
    case 1
    then show ?thesis using b assms(4) by (simp add: books_def fair_books_of_def)
  next
    case 2
    then have "1 \<le> lookup_count (rb_deferred run) i" using b id assms(4) by (simp add: books_def fair_books_of_def)
    with 2 e assms(3) show ?thesis unfolding deferred_before_def by blast
  qed
qed

primrec end_walk :: "walk_end \<Rightarrow> walk" where
  "end_walk (Exhausted w) = w"
| "end_walk (Picked it w) = w"
| "end_walk (Returned r w) = w"

lemma walk_fair:
  assumes "walk_queue (stages queue ceiling) env cfg es w = Some we" and "set es \<subseteq> set queue"
    and "fair_books_of run queue w"
  shows "\<forall>i\<in>set (w_evicted (end_walk we)). i \<in> set (rb_evicted run) \<or> deferred_before run queue i"
  using assms
proof (induction es arbitrary: w)
  case Nil
  then show ?case by (auto simp: fair_books_of_def)
next
  case (Cons e es)
  show ?case
  proof (cases "enter_item env cfg e w")
    case (Inl w1)
    have "fair_books_of run queue w1"
      using Inl Cons.prems(3)
      by (auto simp: enter_item_def fair_books_of_def Let_def split: if_splits option.splits)
    with Cons Inl show ?thesis by (auto split: if_splits)
  next
    case (Inr p)
    obtain it w1 where p: "p = (it, w1)" by (cases p)
    note en = Inr [unfolded p]
    have q: "e \<in> set queue" using Cons.prems(2) by simp
    obtain out where out: "run_stages (stages queue ceiling) env cfg it w1 = Some out"
      using Cons.prems(1) en by (auto split: if_splits option.splits)
    note fair = stages_fair [OF out]
    note ev = fair_entry_evicted [OF fair en q Cons.prems(3)]
    show ?thesis
    proof (cases out)
      case (Skip w2)
      have seen: "seen_ids w2 = seen_ids w @ [entry_str e ''id'']"
        using walk_stage.skip_keeps [OF stages_contract out [unfolded Skip]] enter_item_of(2) [OF en] by (simp add: keeps_def)
      have id: "it_id it = entry_str e ''id''" and b: "books w1 = books w"
        using en by (auto simp: enter_item_def Let_def split: if_splits option.splits)
      have "lookup_count (w_deferred w2) j = lookup_count (rb_deferred run) j" if "j \<notin> set (seen_ids w2)" for j
      proof -
        from that have "j \<noteq> it_id it" "j \<notin> set (seen_ids w)" using seen id by auto
        with fair Skip b Cons.prems(3) show ?thesis by (simp add: fair_entry_def books_def fair_books_of_def)
      qed
      with ev Skip have "fair_books_of run queue w2" by (simp add: fair_books_of_def)
      with Cons en out Skip show ?thesis by (auto split: if_splits)
    qed (use Cons.prems(1) en out ev in \<open>auto split: if_splits\<close>)
  qed
qed

lemma finish_books:
  assumes "finish_walk env cfg queue we = (res, w)"
  shows "w_evicted w = w_evicted (end_walk we)"
proof -
  have fb: "w_evicted (snd (fall_back we)) = w_evicted (end_walk we)"
    by (auto simp: fall_back_def split: walk_end.split option.split)
  have pb: "w_evicted (snd (persist_budget env c)) = w_evicted (snd c)" for c
    by (auto simp: persist_budget_def split: option.split prod.split)
  have rf: "w_evicted (snd (resume_flush env queue c)) = w_evicted (snd c)" for c
    by (auto simp: resume_flush_def split: option.split prod.split)
  show ?thesis
  proof (cases "\<exists>r w'. we = Returned r w'")
    case True
    then show ?thesis using assms by (auto simp: finish_walk_def)
  next
    case False
    then have "w = snd (resume_flush env queue (persist_budget env (fall_back we)))"
      using assms by (cases we) (auto simp: finish_walk_def split: prod.splits option.splits)
    then show ?thesis by (simp add: fb pb rf)
  qed
qed

text \<open>
  The budget guard never drops an item at its first trip: an item that a probe evicts from the run had
  been deferred by an earlier probe, and is not near its completion.
\<close>

theorem evicted_item_was_deferred:
  assumes "select_item env cfg disk queue = Some (res, w)" and "rt_run env = Some run"
    and "i \<in> set (w_evicted w)" and "i \<notin> set (rb_evicted run)"
  shows "1 \<le> lookup_count (rb_deferred run) i \<and>
    (\<exists>it :: item. it_id it = i \<and> it_entry it \<in> set queue \<and> \<not> feature_is_near_complete (it_dir it))"
proof -
  obtain ceiling we where we: "walk_queue (stages queue ceiling) env cfg queue (start_walk env disk) = Some we"
    and fin: "finish_walk env cfg queue we = (res, w)"
    using assms(1) by (auto simp: select_item_def bind_eq_Some_conv)
  have "fair_books_of run queue (start_walk env disk)"
    using assms(2) by (simp add: fair_books_of_def start_walk_def)
  from walk_fair [OF we order_refl this] finish_books [OF fin] assms(3,4)
  have "deferred_before run queue i" by auto
  then show ?thesis by (simp add: deferred_before_def)
qed

text \<open>The counts that the guard reads from the marker for one item.\<close>

definition same_counts :: "string \<Rightarrow> run_budget \<Rightarrow> run_budget \<Rightarrow> bool" where
  "same_counts i a b \<longleftrightarrow>
     lookup_count (read_per_feature_forward_cycles (Some (rb_marker a))) i =
       lookup_count (read_per_feature_forward_cycles (Some (rb_marker b))) i \<and>
     count_validation_corrective_cycles (Some (rb_marker a)) i = count_validation_corrective_cycles (Some (rb_marker b)) i"

text \<open>
  A deferral does not lead to a second turn. The counts of the item stay where they were, so the first
  probe after the one that deferred it evicts it, whatever was done in between for other items.
\<close>

theorem deferred_item_is_evicted_next:
  assumes "budget_stage (Some c) env cfg it w = Some (Skip w1)" and "rt_run env = Some run"
    and "it_id it \<notin> set (w_evicted w)" and "\<not> feature_is_near_complete (it_dir it)"
    and "rt_run env' = Some run'" and "same_counts (it_id it) run run'"
    and "lookup_count (w_deferred w') (it_id it) = lookup_count (w_deferred w1) (it_id it)"
    and "it_id it \<notin> set (w_evicted w')" and "0 \<le> lookup_count (w_deferred w) (it_id it)"
  shows "\<exists>w2. budget_stage (Some c) env' cfg it w' = Some (Skip w2) \<and> it_id it \<in> set (w_evicted w2)"
proof -
  have trip: "fst (trip_signals run c it w)"
    using assms(1-3) by (auto simp: budget_stage_def Let_def split: prod.splits if_splits)
  then have trip': "fst (trip_signals run' c it w')"
    using assms(4,6) by (simp add: trip_signals_def same_counts_def)
  from assms(1) obtain e ph where w1: "w1 = record_trip env run c it e (trip_action it w) ph (apply_trip it (trip_action it w) w)"
    using trip assms(2,3) by (auto simp: budget_stage_def Let_def split: prod.splits if_splits)
  then have "books w1 = books (apply_trip it (trip_action it w) w)" by simp
  then have "lookup_count (w_deferred w1) (it_id it) \<ge> 1"
    using assms(4,9) by (auto simp: books_def apply_trip_def trip_action_def lookup_count_def dict_simps Let_def split: if_splits)
  then have act: "trip_action it w' = Evict" using assms(4,7) by (simp add: trip_action_def)
  obtain e' t' where sig: "trip_signals run' c it w' = (True, e', t')"
    using trip' by (cases "trip_signals run' c it w'") auto
  have "budget_stage (Some c) env' cfg it w' =
      Some (Skip (record_trip env' run' c it e' Evict (audit_phase (it_dir it)) (apply_trip it Evict w')))"
    using assms(5,8) by (simp add: budget_stage_def sig act)
  moreover have "books (record_trip env' run' c it e' Evict (audit_phase (it_dir it)) (apply_trip it Evict w')) =
      books (apply_trip it Evict w')" by simp
  ultimately show ?thesis using assms(8) by (auto simp: books_def apply_trip_def Let_def)
qed

subsection \<open>Applications\<close>

definition blocked_item :: item where
  "blocked_item = new_item\<lparr>it_dir := new_dir\<lparr>docs := [(''BLOCKED.md'', text_doc [])]\<rparr>\<rparr>"

theorem park_decision_mirrored_witness:
  "spec_dir_would_park sample_yaml sample_repo False True False (it_dir blocked_item) = Some True"
proof -
  let ?w = "start_walk sample_route_env sample_disk"
  have "\<exists>w'. run_stages [park_blocked_stage, park_input_stage] sample_route_env sample_cfg blocked_item ?w = Some (Skip w')"
    by (simp add: park_blocked_stage_def park_item_def blocked_item_def build_parked_entry_def parse_sentinel_def
        has_doc_def text_doc_def frontmatter_empty sample_cfg_def)
  then obtain w' where w': "run_stages [park_blocked_stage, park_input_stage] sample_route_env sample_cfg blocked_item ?w =
      Some (Skip w')" by blast
  have "cfg_scope sample_cfg = None" by (simp add: sample_cfg_def)
  from park_decision_mirrored [OF w' this] show ?thesis by (simp add: sample_route_env_def sample_cfg_def)
qed

text \<open>A run in which the item has used its five cycles.\<close>

definition spent_run :: "int \<Rightarrow> run_budget" where
  "spent_run defers = \<lparr>rb_marker = (new_marker sample_args ''main'' 2000000)\<lparr>per_feature_forward := Some [(''b'', 5)]\<rparr>,
     rb_deferred = [(''b'', defers)], rb_evicted = []\<rparr>"

definition spent_env :: "int \<Rightarrow> route_env" where
  "spent_env defers = sample_route_env\<lparr>rt_run := Some (spent_run defers)\<rparr>"

definition capped_cfg :: route_cfg where
  "capped_cfg = sample_cfg\<lparr>cfg_cycle_cap := Some 5\<rparr>"

lemma spent_counts:
  "lookup_count (read_per_feature_forward_cycles (Some (rb_marker (spent_run k)))) ''b'' = 5"
  "count_validation_corrective_cycles (Some (rb_marker (spent_run k))) ''b'' = 0"
  by (simp_all add: spent_run_def read_per_feature_forward_cycles_def count_validation_corrective_cycles_def
      map_of_counts_def lookup_count_def new_marker_def)

lemma new_not_near [simp]: "\<not> feature_is_near_complete new_dir"
  by (simp add: feature_is_near_complete_def)

lemma spent_trip:
  assumes "w_evicted w = []"
  shows "budget_stage (Some 5) (spent_env k) cfg new_item w =
    Some (Skip (record_trip (spent_env k) (spent_run k) 5 new_item 5 (trip_action new_item w) None
      (apply_trip new_item (trip_action new_item w) w)))"
proof -
  have "trip_signals (spent_run k) 5 new_item w = (True, 5, OverCeiling)"
    by (simp add: trip_signals_def new_item_def spent_counts budget_trip_signals_def)
  moreover have "audit_phase (it_dir new_item) = None" by (simp add: audit_phase_def new_item_def)
  ultimately show ?thesis by (simp add: budget_stage_def spent_env_def assms Let_def)
qed

theorem deferred_item_is_evicted_next_witness:
  "\<exists>w2. budget_stage (Some 5) (spent_env 1) sample_cfg new_item (start_walk (spent_env 1) sample_disk) = Some (Skip w2) \<and>
     ''b'' \<in> set (w_evicted w2)"
proof -
  let ?w = "start_walk (spent_env 0) sample_disk" and ?w' = "start_walk (spent_env 1) sample_disk"
  have ev: "w_evicted ?w = []" "w_evicted ?w' = []" by (simp_all add: start_walk_def spent_env_def spent_run_def)
  have act: "trip_action new_item ?w = Defer" by (simp add: trip_action_def start_walk_def spent_env_def spent_run_def
      lookup_count_def new_item_def)
  have books: "lookup_count (w_deferred (record_trip (spent_env 0) (spent_run 0) 5 new_item 5 Defer None
      (apply_trip new_item Defer ?w))) ''b'' = 1"
    by (simp add: record_trip_def apply_trip_def Let_def start_walk_def spent_env_def spent_run_def lookup_count_def
        dict_simps new_item_def)
  have "\<exists>w2. budget_stage (Some 5) (spent_env 1) sample_cfg new_item ?w' = Some (Skip w2) \<and>
      it_id new_item \<in> set (w_evicted w2)"
  proof (rule deferred_item_is_evicted_next [OF spent_trip [OF ev(1), unfolded act],
        where run = "spent_run 0" and env' = "spent_env 1" and run' = "spent_run 1"])
    show "same_counts (it_id new_item) (spent_run 0) (spent_run 1)" by (simp add: same_counts_def new_item_def spent_counts)
    show "lookup_count (w_deferred ?w') (it_id new_item) = lookup_count (w_deferred (record_trip (spent_env 0) (spent_run 0)
        5 new_item 5 Defer None (apply_trip new_item Defer ?w))) (it_id new_item)"
      using books by (simp add: new_item_def) (simp add: start_walk_def spent_env_def spent_run_def lookup_count_def)
    show "0 \<le> lookup_count (w_deferred ?w) (it_id new_item)"
      by (simp add: start_walk_def spent_env_def spent_run_def lookup_count_def new_item_def)
  qed (simp_all add: ev, simp_all add: spent_env_def new_item_def)
  then show ?thesis by (auto simp: new_item_def)
qed

text \<open>A probe that finds the item deferred already.\<close>

lemma early_new:
  "run_stages unbudgeted_stages (spent_env k) capped_cfg new_item w = Some (Proceed w)"
proof -
  have claim: "\<not> completion_claimed (rt_roadmap (spent_env k)) ''B'' new_dir"
    using new_eligible(1) by (simp add: eligible_def new_item_def Let_def spent_env_def)
  have cfg: "\<not> cfg_cloud capped_cfg" "\<not> cfg_skip_needs_research capped_cfg" "\<not> cfg_park_needs_input capped_cfg"
    by (simp_all add: sample_cfg_def capped_cfg_def)
  show ?thesis
    by (simp add: unbudgeted_stages_def new_item_def completion_stage_def claim cloud_stage_def cfg device_stage_def
        host_stage_def operator_stage_def spec_dir_operator_deferred_def research_stage_def park_blocked_stage_def
        park_input_stage_def provisional_stage_def)
qed

lemma select_spent:
  "\<exists>res w. select_item (spent_env 1) capped_cfg sample_disk [new_entry] = Some (res, w) \<and> ''b'' \<in> set (w_evicted w)"
proof -
  let ?w = "start_walk (spent_env 1) sample_disk" and ?w1 = "(start_walk (spent_env 1) sample_disk)\<lparr>seen_ids := [''b'']\<rparr>"
  have ceiling: "cycle_ceiling (spent_env 1) capped_cfg sample_disk [new_entry] = Some (Some 5)"
    by (simp add: cycle_ceiling_def compute_per_feature_ceiling_def spent_env_def sample_route_env_def sample_disk_def
        capped_cfg_def completion_claimed_def roadmap_marks_complete_def splitlines_def split_lines_nil)
  have enter: "enter_item (spent_env 1) capped_cfg new_entry ?w = Inr (new_item, ?w1)"
    by (simp add: enter_item_def start_walk_def spent_env_def capped_cfg_def sample_cfg_def new_item_def)
      (simp add: sample_route_env_def sample_disk_def Let_def)
  have ev: "w_evicted ?w1 = []" by (simp add: start_walk_def spent_env_def spent_run_def)
  obtain w2 where w2: "run_stages (stages [new_entry] (Some 5)) (spent_env 1) capped_cfg new_item ?w1 = Some (Skip w2)"
    and b: "books w2 = books (apply_trip new_item (trip_action new_item ?w1) ?w1)"
    by (simp add: stages_budget run_stages_append early_new spent_trip [OF ev])
  have "trip_action new_item ?w1 = Evict"
    by (simp add: trip_action_def start_walk_def spent_env_def spent_run_def lookup_count_def new_item_def)
  then have "''b'' \<in> set (w_evicted w2)" using b by (simp add: books_def apply_trip_def new_item_def Let_def)
  moreover have "walk_queue (stages [new_entry] (Some 5)) (spent_env 1) capped_cfg [new_entry] ?w = Some (Exhausted w2)"
    by (simp add: enter w2)
  moreover obtain res w where "finish_walk (spent_env 1) capped_cfg [new_entry] (Exhausted w2) = (res, w)"
    by (cases "finish_walk (spent_env 1) capped_cfg [new_entry] (Exhausted w2)")
  ultimately show ?thesis using finish_books by (fastforce simp: select_item_def ceiling)
qed

theorem evicted_item_was_deferred_witness:
  "1 \<le> lookup_count (rb_deferred (spent_run 1)) ''b'' \<and>
    (\<exists>it::item. it_id it = ''b'' \<and> it_entry it \<in> set [new_entry] \<and> \<not> feature_is_near_complete (it_dir it))"
proof -
  obtain res w where w: "select_item (spent_env 1) capped_cfg sample_disk [new_entry] = Some (res, w)"
    "''b'' \<in> set (w_evicted w)" using select_spent by blast
  have run: "rt_run (spent_env 1) = Some (spent_run 1)" and "''b'' \<notin> set (rb_evicted (spent_run 1))"
    by (simp_all add: spent_env_def spent_run_def)
  from evicted_item_was_deferred [OF w(1) run w(2) this(2)] show ?thesis .
qed

end
