(* ===== verification/Upstream_Docs.thy ===== *)
theory Upstream_Docs
  imports Route_Walk
begin

text \<open>
  What the later steps of \<open>compute_state\<close> read (\<^verbatim>\<open>user/scripts/lazy-state.py\<close>, with readers of
  \<^verbatim>\<open>lazy_core/docmodel.py\<close> and \<^verbatim>\<open>gates.py\<close>): stub markers, the directories a specification depends
  on and whether it has been realigned with them, the headers of \<^verbatim>\<open>PHASES.md\<close> that choose a route, and
  the verification rows that the recorded evidence does not cover.
\<close>

subsection \<open>Stub specifications\<close>

text \<open>The multi-line patterns may start with blank lines, so every tail of the text at a line is tried.\<close>

fun tails_at_lines :: "string \<Rightarrow> string list" where
  "tails_at_lines [] = []"
| "tails_at_lines (c # cs) = (if c = hd newline then cs # tails_at_lines cs else tails_at_lines cs)"

definition line_tails :: "string \<Rightarrow> string list" where
  "line_tails text = text # tails_at_lines text"

definition not_newline :: rx where
  "not_newline = One (\<lambda>c. c \<noteq> hd newline)"

definition stub_status_rx :: rx where
  "stub_status_rx = seqs [Star White, Lit ''**Status:**'', Star White, Star not_newline, Lit ''Draft (pre-Gemini)'']"

definition stub_quote_rx :: rx where
  "stub_quote_rx = seqs [Star White, Lit ''>'', Star not_newline, Lit ''Draft (pre-Gemini)'']"

definition spec_text_has_stub_marker :: "string \<Rightarrow> bool" where
  "spec_text_has_stub_marker text =
     (contains ''**Status:** Draft (research stub)'' text \<or>
      contains ''> Stub generated from advanced feature research'' text \<or>
      list_ex (rx_match stub_status_rx) (line_tails text) \<or> list_ex (rx_match stub_quote_rx) (line_tails text))"

definition queue_stub :: "json \<Rightarrow> bool" where
  "queue_stub entry \<longleftrightarrow> jget entry ''stub'' = JBool True"

definition is_stub_spec :: "string \<Rightarrow> json \<Rightarrow> bool" where
  "is_stub_spec text entry = (spec_text_has_stub_marker text \<or> queue_stub entry)"

definition stub_is_queue_flag_only :: "string \<Rightarrow> json \<Rightarrow> bool" where
  "stub_is_queue_flag_only text entry = (queue_stub entry \<and> \<not> spec_text_has_stub_marker text)"

subsection \<open>Upstream directories\<close>

text \<open>
  \<open>se_sha\<close> is SHA-256, \<open>se_root_resolve\<close> is \<open>(repo_root / sub).resolve()\<close>, and \<open>se_plan_errors\<close> tells whether
  the structural checks of \<^verbatim>\<open>validate-plan.py\<close> report an error on a plan.
\<close>

record step_env =
  se_walk :: route_env
  se_sha :: "string \<Rightarrow> string"
  se_root_resolve :: "string \<Rightarrow> path"
  se_plan_errors :: "string \<Rightarrow> bool"
  se_disk :: disk
  se_queue :: "json jfile"

definition has_spec :: "disk \<Rightarrow> path \<Rightarrow> bool" where
  "has_spec disk p = (case dget disk p of None \<Rightarrow> False | Some d \<Rightarrow> has_doc d ''SPEC.md'')"

text \<open>The entries of the queue file with the id, in order; an entry that is no object ends the process.\<close>

fun queue_dir :: "step_env \<Rightarrow> string \<Rightarrow> json list \<Rightarrow> path option option" where
  "queue_dir env i [] = Some None"
| "queue_dir env i (e # es) =
     (if \<not> is_obj e then None
      else if jget e ''id'' \<noteq> JStr i \<or> \<not> truthy (jget e ''spec_dir'') then queue_dir env i es
      else case jget e ''spec_dir'' of
          JStr s \<Rightarrow>
            (if has_spec (se_disk env) (rt_resolve (se_walk env) s) then Some (Some (rt_resolve (se_walk env) s))
             else if has_spec (se_disk env) (se_root_resolve env s) then Some (Some (se_root_resolve env s))
             else queue_dir env i es)
        | _ \<Rightarrow> None)"

definition queue_fallback :: "step_env \<Rightarrow> string \<Rightarrow> path option option" where
  "queue_fallback env i =
     (case se_queue env of
        Content data \<Rightarrow>
          if \<not> is_obj data then None
          else (case (if jhas data ''queue'' then jget data ''queue'' else JArr []) of
                  JArr es \<Rightarrow> queue_dir env i es | _ \<Rightarrow> None)
      | _ \<Rightarrow> Some None)"

definition resolve_upstream_dir :: "step_env \<Rightarrow> path \<Rightarrow> string \<Rightarrow> path option option" where
  "resolve_upstream_dir env here i =
     (if has_spec (se_disk env) (butlast here @ [i]) then Some (Some (butlast here @ [i]))
      else case queue_fallback env i of
          None \<Rightarrow> None
        | Some (Some p) \<Rightarrow> Some (Some p)
        | Some None \<Rightarrow> Some (case nested_dirs (rt_root (se_walk env)) (se_disk env) i of [p] \<Rightarrow> Some p | _ \<Rightarrow> None))"

definition status_complete_line :: "string \<Rightarrow> bool" where
  "status_complete_line l \<longleftrightarrow> bold_value ''**Status:**'' l = Some ''Complete''"

definition upstream_is_complete :: "step_env \<Rightarrow> path \<Rightarrow> bool" where
  "upstream_is_complete env p =
     (roadmap_marks_complete (rt_roadmap (se_walk env)) (last p) \<or>
      (case dget (se_disk env) p of None \<Rightarrow> False | Some d \<Rightarrow> list_ex status_complete_line (spec_lines d)))"

text \<open>The complete directories that the specification has a hard dependency on.\<close>

fun complete_upstreams :: "step_env \<Rightarrow> path \<Rightarrow> spec_dep list \<Rightarrow> path list option" where
  "complete_upstreams env here [] = Some []"
| "complete_upstreams env here (d # ds) =
     (if dep_kind d \<noteq> ''hard'' then complete_upstreams env here ds
      else case resolve_upstream_dir env here (dep_feature d) of
          None \<Rightarrow> None
        | Some None \<Rightarrow> complete_upstreams env here ds
        | Some (Some p) \<Rightarrow>
            map_option (\<lambda>ps. if upstream_is_complete env p then p # ps else ps) (complete_upstreams env here ds))"

subsection \<open>Realignment\<close>

definition realign_name :: "string \<Rightarrow> bool" where
  "realign_name n \<longleftrightarrow> prefix ''realign-'' n \<and> suffix ''.md'' n \<and> 11 \<le> length n"

definition plan_mtime :: "item_dir \<Rightarrow> string \<Rightarrow> int" where
  "plan_mtime d n = (case dget (plan_dir d) n of None \<Rightarrow> 0 | Some f \<Rightarrow> doc_mtime f)"

definition newest_realign_plan :: "item_dir \<Rightarrow> string option" where
  "newest_realign_plan d =
     (case sort (filter realign_name (dkeys (plan_dir d))) of
        [] \<Rightarrow> None
      | n # ns \<Rightarrow> Some (foldl (\<lambda>a b. if plan_mtime d a < plan_mtime d b then b else a) n ns))"

text \<open>What is recorded for a directory: \<open>name in recorded\<close>, then \<open>recorded[name]\<close>, over any JSON value.\<close>

definition recorded_hash :: "json \<Rightarrow> string \<Rightarrow> json option option" where
  "recorded_hash r n =
     (case r of
        JObj m \<Rightarrow> Some (dget m n)
      | JArr xs \<Rightarrow> if JStr n \<in> set xs then None else Some None
      | JStr s \<Rightarrow> if contains n s then None else Some None
      | _ \<Rightarrow> None)"

definition upstream_phases :: "step_env \<Rightarrow> path \<Rightarrow> doc option" where
  "upstream_phases env p = Option.bind (dget (se_disk env) p) (\<lambda>d. dget (docs d) ''PHASES.md'')"

fun hashes_match :: "step_env \<Rightarrow> json \<Rightarrow> path list \<Rightarrow> bool option" where
  "hashes_match env r [] = Some True"
| "hashes_match env r (p # ps) =
     (case upstream_phases env p of
        None \<Rightarrow> hashes_match env r ps
      | Some f \<Rightarrow>
          (case recorded_hash r (last p) of
             None \<Rightarrow> None
           | Some None \<Rightarrow> Some False
           | Some (Some v) \<Rightarrow> if v = JStr (se_sha env (doc_text f)) then hashes_match env r ps else Some False))"

definition older_than :: "step_env \<Rightarrow> int \<Rightarrow> path \<Rightarrow> bool" where
  "older_than env t p = (case upstream_phases env p of None \<Rightarrow> True | Some f \<Rightarrow> doc_mtime f \<le> t)"

definition realign_is_fresh :: "step_env \<Rightarrow> item_dir \<Rightarrow> path list \<Rightarrow> bool option" where
  "realign_is_fresh env d ups =
     (case newest_realign_plan d of
        None \<Rightarrow> Some False
      | Some n \<Rightarrow>
          Option.bind (plan_meta (rt_yaml (se_walk env)) d (InPlans n)) (\<lambda>m.
            if mget m ''upstream_phases_hashes'' \<noteq> JNull
            then hashes_match env (mget m ''upstream_phases_hashes'') ups
            else Some (list_all (older_than env (plan_mtime d n)) ups)))"

subsection \<open>Headers of PHASES.md\<close>

definition phases_doc :: "item_dir \<Rightarrow> string option" where
  "phases_doc d = map_option doc_text (dget (docs d) ''PHASES.md'')"

definition header_value :: "string \<Rightarrow> string \<Rightarrow> rx" where
  "header_value label v = seqs [LitI label, Star White, LitI v, Bound]"

definition phases_header :: "string \<Rightarrow> string \<Rightarrow> item_dir \<Rightarrow> bool" where
  "phases_header label v d =
     (case phases_doc d of None \<Rightarrow> False | Some t \<Rightarrow> list_ex (rx_match (header_value label v)) (line_tails t))"

definition phases_mcp_runtime_not_required :: "item_dir \<Rightarrow> bool" where
  "phases_mcp_runtime_not_required = phases_header ''**mcp runtime:**'' ''not-required''"

definition phases_spike_required :: "item_dir \<Rightarrow> bool" where
  "phases_spike_required = phases_header ''**spike:**'' ''required''"

definition structurally_skipped :: "repo_env \<Rightarrow> item_dir \<Rightarrow> bool" where
  "structurally_skipped repo d = (phases_mcp_runtime_not_required d \<and> \<not> has_app_surface repo)"

text \<open>The decision that names the goal of the runtime proof: the first line of the header counts.\<close>

definition em_dash :: string where
  "em_dash = bytes [226, 128, 148]"

definition arrow :: string where
  "arrow = bytes [226, 134, 146]"

fun after_first :: "string \<Rightarrow> string \<Rightarrow> string option" where
  "after_first w [] = None"
| "after_first w (c # cs) = (if prefix w (c # cs) then Some (drop (length w) (c # cs)) else after_first w cs)"

definition no_goal :: string where
  "no_goal = ''the phase declares a runtime proof but names no goal''"

definition spike_goal :: "string \<Rightarrow> string" where
  "spike_goal s =
     (case after_first em_dash s of
        Some t \<Rightarrow> if strip t = [] then no_goal else strip t
      | None \<Rightarrow> (case after_first ''-'' s of
            Some t \<Rightarrow> if strip t = [] then no_goal else strip t
          | None \<Rightarrow> no_goal))"

definition read_spike_decision :: "item_dir \<Rightarrow> string option" where
  "read_spike_decision d =
     (case find (\<lambda>l. prefix ''**Spike:**'' (strip l)) (splitlines (case phases_doc d of None \<Rightarrow> [] | Some t \<Rightarrow> t)) of
        None \<Rightarrow> None
      | Some l \<Rightarrow> if rx_match (header_value ''**spike:**'' ''required'') (strip l) then Some (spike_goal (strip l)) else None)"

subsection \<open>Verification rows without evidence\<close>

definition not_gt :: "char \<Rightarrow> bool" where
  "not_gt c \<longleftrightarrow> c \<noteq> CHR ''>''"

text \<open>The value of a comment \<open>requires-host: v\<close> that starts here.\<close>

definition host_comment :: "string \<Rightarrow> string option" where
  "host_comment s =
     (let r = lstrip (drop 4 s); q = lstrip (drop 13 r); body = takeWhile not_gt (tl q) in
      if prefix ''<!--'' s \<and> prefix ''requires-host'' (to_lower r) \<and> prefix '':'' q \<and>
         length body < length (tl q) \<and> suffix ''--'' body
      then Some (strip (take (length body - 2) body)) else None)"

fun host_marker :: "string \<Rightarrow> string option" where
  "host_marker [] = None"
| "host_marker (c # cs) = (case host_comment (c # cs) of Some v \<Rightarrow> Some v | None \<Rightarrow> host_marker cs)"

definition row_requires_host :: "string \<Rightarrow> string option" where
  "row_requires_host row = (case host_marker row of Some cap \<Rightarrow> if dep_id_re cap then Some cap else None | None \<Rightarrow> None)"

definition unchecked_row_rx :: rx where
  "unchecked_row_rx = seqs [Star White, Lit ''-'', Plus White, Lit ''['', Plus White, Lit '']'', White]"

record cover_scope =
  cs_marker :: bool
  cs_shim :: bool
  cs_descope :: bool
  cs_host :: bool
  cs_superseded :: bool

definition fresh_cover :: cover_scope where
  "fresh_cover = \<lparr>cs_marker = False, cs_shim = False, cs_descope = False, cs_host = False, cs_superseded = False\<rparr>"

definition heading_cover :: "string \<Rightarrow> string \<Rightarrow> cover_scope \<Rightarrow> cover_scope" where
  "heading_cover raw h sc =
     (if numbered_phase h then fresh_cover
      else sc\<lparr>cs_marker := contains verification_only_marker raw, cs_shim := rx_search verification_section_rx h,
              cs_descope := contains descoped_marker raw, cs_host := row_requires_host raw \<noteq> None\<rparr>)"

definition bold_cover :: "string \<Rightarrow> string \<Rightarrow> cover_scope \<Rightarrow> cover_scope" where
  "bold_cover raw b sc =
     (if superseded_status b (strip raw) then sc\<lparr>cs_superseded := True\<rparr>
      else (if contains verification_only_marker raw then sc\<lparr>cs_marker := True, cs_shim := False\<rparr>
            else if rx_search verification_section_rx b then sc\<lparr>cs_shim := True, cs_marker := False\<rparr>
            else if rx_search deliverables_section_rx b then sc\<lparr>cs_shim := False, cs_marker := False\<rparr>
            else sc)\<lparr>cs_descope := contains descoped_marker raw, cs_host := row_requires_host raw \<noteq> None\<rparr>)"

text \<open>A row that is collected: its text, whether it is deferred to a host, whether only its header marks it.\<close>

record verif_row =
  vr_text :: string
  vr_host :: bool
  vr_shim :: bool

definition cover_row :: "string \<Rightarrow> cover_scope \<Rightarrow> verif_row option" where
  "cover_row raw sc =
     (let canonical = contains verification_only_marker raw \<or> cs_marker sc in
      if \<not> rx_match unchecked_row_rx raw \<or> cs_superseded sc \<or>
         (cs_descope sc \<or> contains descoped_marker raw \<or> row_is_descoped_in_place raw) \<or>
         \<not> (canonical \<or> cs_shim sc) then None
      else Some \<lparr>vr_text = strip raw, vr_host = (cs_host sc \<or> row_requires_host raw \<noteq> None), vr_shim = (\<not> canonical)\<rparr>)"

fun cover_walk :: "cover_scope \<Rightarrow> string list \<Rightarrow> verif_row list" where
  "cover_walk sc [] = []"
| "cover_walk sc (raw # ls) =
     (case line_kind raw of
        Heading h \<Rightarrow> cover_walk (heading_cover raw h sc) ls
      | Bold b \<Rightarrow> cover_walk (bold_cover raw b sc) ls
      | _ \<Rightarrow> (case cover_row raw sc of None \<Rightarrow> cover_walk sc ls | Some r \<Rightarrow> r # cover_walk sc ls))"

definition collect_uncovered_verification_rows :: "string \<Rightarrow> verif_row list" where
  "collect_uncovered_verification_rows text = cover_walk fresh_cover (phase_lines text)"

definition covered_count :: "int option \<Rightarrow> int" where
  "covered_count p = (case p of None \<Rightarrow> 0 | Some n \<Rightarrow> if n < 0 then 0 else n)"

definition reroutable_rows :: "int \<Rightarrow> verif_row list \<Rightarrow> verif_row list" where
  "reroutable_rows passed rows =
     (let canonical = filter (\<lambda>r. \<not> vr_shim r) rows; shim = filter vr_shim rows in
      filter (\<lambda>r. \<not> vr_host r) shim @
      (if int (length canonical) \<le> passed then [] else filter (\<lambda>r. \<not> vr_host r) canonical))"

definition uncovered_verification_rows_remain ::
  "yaml \<Rightarrow> repo_env \<Rightarrow> item_dir \<Rightarrow> string \<Rightarrow> verif_row list option" where
  "uncovered_verification_rows_remain yaml repo d phases =
     Option.bind (parse_sentinel yaml d ''MCP_TEST_RESULTS.md'') (\<lambda>r.
       if observation_gap_promotable r then Some []
       else map_option (\<lambda>v. reroutable_rows (covered_count (snd v)) (collect_uncovered_verification_rows phases))
              (evaluate_completion_evidence yaml repo d))"

end
