(* ===== verification/Pseudo_Skills.thy ===== *)
theory Pseudo_Skills
  imports Upstream_Docs
begin

text \<open>
  \<open>apply_pseudo\<close> of \<^verbatim>\<open>user/scripts/lazy_core/pseudo.py\<close>, the author of the sentinels and receipts that a probe
  asks for, without the two completion skills (\<^theory_text>\<open>Completion\<close>). A skill ends, and leaves the file writes it made,
  in order; each write replaces a file as a whole, so what a crash leaves behind is a prefix of them. \<open>Died\<close> is the
  end of the process, by \<open>_die\<close>, the containment guard or an exception.
\<close>

subsection \<open>Files\<close>

text \<open>The directory of the item, and \<^verbatim>\<open>queue.json\<close> and \<^verbatim>\<open>ROADMAP.md\<close> of the features.\<close>

record plant =
  pl_dir :: item_dir
  pl_queue :: "json jfile"
  pl_roadmap :: "string option"
  pl_now :: int

datatype effect =
    Put string string      \<comment> \<open>a file of the directory\<close>
  | PutPlan string string  \<comment> \<open>a file of its subdirectory \<open>plans\<close>\<close>
  | Erase string
  | SetQueue json
  | SetRoadmap string

definition put_plan :: "string \<Rightarrow> doc \<Rightarrow> item_dir \<Rightarrow> item_dir" where
  "put_plan n f d = d\<lparr>plan_docs := map_option (dset n f) (plan_docs d)\<rparr>"

definition erase_doc :: "string \<Rightarrow> item_dir \<Rightarrow> item_dir" where
  "erase_doc n d = d\<lparr>docs := ddel n (docs d)\<rparr>"

fun do_effect :: "effect \<Rightarrow> plant \<Rightarrow> plant" where
  "do_effect (Put n t) p = p\<lparr>pl_dir := put_doc n \<lparr>doc_text = t, doc_mtime = pl_now p\<rparr> (pl_dir p)\<rparr>"
| "do_effect (PutPlan n t) p = p\<lparr>pl_dir := put_plan n \<lparr>doc_text = t, doc_mtime = pl_now p\<rparr> (pl_dir p)\<rparr>"
| "do_effect (Erase n) p = p\<lparr>pl_dir := erase_doc n (pl_dir p)\<rparr>"
| "do_effect (SetQueue q) p = p\<lparr>pl_queue := Content q\<rparr>"
| "do_effect (SetRoadmap t) p = p\<lparr>pl_roadmap := Some t\<rparr>"

definition do_effects :: "effect list \<Rightarrow> plant \<Rightarrow> plant" where
  "do_effects es p = fold do_effect es p"

subsection \<open>Outcomes\<close>

datatype refusal =
    SurfaceExists | RuntimeRequired
  | NoWaiver | WaiverRefused waiver_refusal
  | NotResults | NoScenarios | NotPassing | BadCounts | CountMismatch | StaleResults
  | NoPlan | AmbiguousPlan | BadPlan
  | NoEvidence | StaleRetro | Unratified | GateVerdict | Incoherent
  | UnknownSkill

datatype pseudo_end = Refused refusal | Noop | Applied | Died

type_synonym outcome = "pseudo_end \<times> effect list"

text \<open>
  \<open>ps_flow\<close> and \<open>ps_block\<close> are the two styles of \<open>yaml.safe_dump\<close>, \<open>ps_resolve\<close> is \<open>_resolve_under_repo\<close> at the
  root, \<open>ps_here\<close> its value for the directory; \<open>ps_gated\<close> tells whether the commits of the item touch the
  control-surface manifest, \<open>ps_contained\<close> whether the containment guard of a cycle refuses the call;
  \<open>ps_provenance\<close> is the text that the provenance ledger writes into the directory, if it writes.
\<close>

record pseudo_env =
  ps_yaml :: yaml
  ps_repo :: repo_env
  ps_flow :: "json \<Rightarrow> string"
  ps_block :: "json \<Rightarrow> string"
  ps_date :: string
  ps_name :: string
  ps_feature :: string
  ps_resolve :: "string \<Rightarrow> string"
  ps_here :: string
  ps_contained :: bool
  ps_strict :: bool
  ps_gated :: bool
  ps_provenance :: "string option"

definition sentinel_doc :: "string list \<Rightarrow> string \<Rightarrow> string \<Rightarrow> string" where
  "sentinel_doc ls title body = join newline ([fence] @ ls @ [fence, [], ''# '' @ title, [], body, []])"

definition doc_kind :: "pseudo_env \<Rightarrow> item_dir \<Rightarrow> string \<Rightarrow> json option" where
  "doc_kind env d n = map_option (\<lambda>m. mget m ''kind'') (parse_sentinel (ps_yaml env) d n)"

definition is_arr :: "json \<Rightarrow> bool" where
  "is_arr v = (case v of JArr xs \<Rightarrow> True | _ \<Rightarrow> False)"

definition arr_size :: "json \<Rightarrow> int" where
  "arr_size v = (case v of JArr xs \<Rightarrow> int (length xs) | _ \<Rightarrow> 0)"

subsection \<open>Waivers and validations\<close>

definition skip_frontmatter :: "pseudo_env \<Rightarrow> string list" where
  "skip_frontmatter env =
     [''kind: skip-mcp-test'', ''feature_id: '' @ ps_feature env,
      ''reason: repo has no MCP-reachable surface (no src-tauri/, no package.json) '' @ em_dash @
        '' nothing to boot, nothing to probe; the MCP gate is structurally vacuous.'',
      ''alternative_validation: per-phase quality gates ran during /execute-plan (tests + lint green on each plan part before commit); this repo has no Tauri app or dev server to validate against.'',
      ''date: '' @ ps_date env, ''skipped_by: pipeline'', ''granted_by: pipeline-structural'',
      ''spec_class: standalone '' @ em_dash @ '' no app integration (no Tauri/MCP surface in repo)''] @
     (case head_commit (ps_repo env) of None \<Rightarrow> [] | Some c \<Rightarrow> if c = [] then [] else [''validated_commit: '' @ c])"

definition skip_body :: string where
  "skip_body =
     ''Granted inline by the state machine: this repo contains no `src-tauri/` and no `package.json`, so there is no MCP HTTP server / dev runtime to drive any MCP tool against. The `**MCP runtime:** not-required` PHASES declaration is re-verified structurally here, so no /mcp-test subagent is dispatched. `skip_waiver_refusal()` re-checks the same structural predicate before this waiver can validate '' @ em_dash @
     '' an app repo (src-tauri/ or package.json present) would be refused.''"

definition grant_skip :: "pseudo_env \<Rightarrow> item_dir \<Rightarrow> outcome" where
  "grant_skip env d =
     (if has_app_surface (ps_repo env) then (Refused SurfaceExists, [])
      else if \<not> phases_mcp_runtime_not_required d then (Refused RuntimeRequired, [])
      else case doc_kind env d ''SKIP_MCP_TEST.md'' of
          None \<Rightarrow> (Died, [])
        | Some k \<Rightarrow>
            if has_doc d ''SKIP_MCP_TEST.md'' \<and> k = JStr ''skip-mcp-test'' then (Noop, [])
            else (Applied, [Put ''SKIP_MCP_TEST.md''
                   (sentinel_doc (skip_frontmatter env) (''MCP Test Skip '' @ em_dash @ '' structural (no app surface)'') skip_body)]))"

definition validated_frontmatter :: "pseudo_env \<Rightarrow> string \<Rightarrow> string \<Rightarrow> string list \<Rightarrow> string list" where
  "validated_frontmatter env scenarios result extra =
     [''kind: validated'', ''feature_id: '' @ ps_feature env, ''date: '' @ ps_date env,
      ''mcp_scenarios: '' @ scenarios, ''result: '' @ result] @ extra"

definition validate :: "pseudo_env \<Rightarrow> item_dir \<Rightarrow> string list \<Rightarrow> string \<Rightarrow> outcome" where
  "validate env d ls body =
     (case doc_kind env d ''VALIDATED.md'' of
        None \<Rightarrow> (Died, [])
      | Some k \<Rightarrow> if k = JStr ''validated'' then (Noop, [])
                  else (Applied, [Put ''VALIDATED.md'' (sentinel_doc ls ''Validated'' body)]))"

definition validated_from_skip :: "pseudo_env \<Rightarrow> item_dir \<Rightarrow> outcome" where
  "validated_from_skip env d =
     (case parse_sentinel (ps_yaml env) d ''SKIP_MCP_TEST.md'' of
        None \<Rightarrow> (Died, [])
      | Some m \<Rightarrow>
          if \<not> has_doc d ''SKIP_MCP_TEST.md'' then (Refused NoWaiver, [])
          else case skip_waiver_refusal (ps_repo env) m of
              Some r \<Rightarrow> (Refused (WaiverRefused r), [])
            | None \<Rightarrow> validate env d (validated_frontmatter env ''[]'' ''all-passing'' [])
                (''Validated from SKIP_MCP_TEST.md '' @ em_dash @
                 '' MCP test was explicitly skipped per the skip sentinel; validation recorded by apply_pseudo.''))"

text \<open>Are the recorded results fresh enough to be promoted?\<close>

definition results_fresh :: "pseudo_env \<Rightarrow> meta \<Rightarrow> bool" where
  "results_fresh env m =
     (case opt_str (mget m ''validated_commit'') of
        None \<Rightarrow> True
      | Some c \<Rightarrow> (case head_commit (ps_repo env) of
            None \<Rightarrow> True
          | Some h \<Rightarrow> c = h \<or> commit_drift_verdict (ps_repo env) (Some c) = DocsOnly))"

definition commit_line :: "meta \<Rightarrow> string list" where
  "commit_line m = (case opt_str (mget m ''validated_commit'') of None \<Rightarrow> [] | Some c \<Rightarrow> [''validated_commit: '' @ c])"

definition indent :: "string \<Rightarrow> string" where
  "indent l = (if l = [] then [] else ''  '' @ l)"

definition results_frontmatter :: "pseudo_env \<Rightarrow> meta \<Rightarrow> string list" where
  "results_frontmatter env m =
     (let scenarios = strip (ps_flow env (mget m ''scenarios'')) in
      if observation_gap_promotable m
      then validated_frontmatter env scenarios ''validated-modulo-observation-gaps''
             (''observation_gap_exemptions:'' #
              map indent (splitlines (strip (ps_block env (mget m ''observation_gap_exemptions'')))) @ commit_line m)
      else validated_frontmatter env scenarios ''all-passing'' (commit_line m))"

definition counts_text :: "meta \<Rightarrow> string" where
  "counts_text m =
     (case (evidence_count (mget m ''pass_count''), evidence_count (mget m ''total_count'')) of
        (Some p, Some t) \<Rightarrow> decimal p @ ''/'' @ decimal t
      | _ \<Rightarrow> [])"

definition results_body :: "meta \<Rightarrow> string" where
  "results_body m =
     ''Derived from MCP_TEST_RESULTS.md by the __write_validated_from_results__ gate (apply_pseudo): '' @
     (if observation_gap_promotable m
      then ''SCOPED-validated '' @ em_dash @ '' every MCP-driveable assertion passed ('' @ counts_text m @
        ''), and the remaining surfaces are documented observation-gap exemptions ('' @
        decimal (arr_size (mget m ''observation_gap_exemptions'')) @
        '') verified against docs/features/mcp-testing/SPEC.md'' @ bytes [39] @
        ''s unit/WDIO test tier. Building MCP UI drivers for these surfaces would contradict that SPEC-locked decision, so this is the SPEC-consistent disposition.''
      else ''result all-passing, '' @ counts_text m @ '' scenarios passing.'')"

definition results_refusal :: "pseudo_env \<Rightarrow> meta \<Rightarrow> refusal option" where
  "results_refusal env m =
     (if mget m ''result'' \<noteq> JStr ''all-passing'' \<and> \<not> observation_gap_promotable m then Some NotPassing
      else case (evidence_count (mget m ''pass_count''), evidence_count (mget m ''total_count'')) of
          (Some p, Some t) \<Rightarrow> if p \<noteq> t then Some CountMismatch
                              else if \<not> results_fresh env m then Some StaleResults else None
        | _ \<Rightarrow> Some BadCounts)"

definition validated_from_results :: "pseudo_env \<Rightarrow> item_dir \<Rightarrow> outcome" where
  "validated_from_results env d =
     (case parse_sentinel (ps_yaml env) d ''MCP_TEST_RESULTS.md'' of
        None \<Rightarrow> (Died, [])
      | Some m \<Rightarrow>
          if mget m ''kind'' \<noteq> JStr ''mcp-test-results'' then (Refused NotResults, [])
          else if \<not> is_arr (mget m ''scenarios'') then (Refused NoScenarios, [])
          else case doc_kind env d ''VALIDATED.md'' of
              None \<Rightarrow> (Died, [])
            | Some k \<Rightarrow>
                if k = JStr ''validated'' then (Noop, [])
                else case results_refusal env m of
                    Some r \<Rightarrow> (Refused r, [])
                  | None \<Rightarrow> validate env d (results_frontmatter env m) (results_body m))"

definition deferred_non_cloud :: "pseudo_env \<Rightarrow> int option \<Rightarrow> string option \<Rightarrow> item_dir \<Rightarrow> outcome" where
  "deferred_non_cloud env step reason d =
     (if has_doc d ''DEFERRED_NON_CLOUD.md'' then (Noop, [])
      else (Applied, [Put ''DEFERRED_NON_CLOUD.md'' (sentinel_doc
        [''kind: deferred-non-cloud'', ''feature_id: '' @ ps_feature env,
         ''deferred_step: '' @ decimal (case step of None \<Rightarrow> 8 | Some n \<Rightarrow> n),
         ''reason: '' @ (case reason of None \<Rightarrow> ''deferred to workstation (no Tauri/MCP in cloud)'' | Some r \<Rightarrow> r),
         ''deferred_by: lazy-cloud'', ''date: '' @ ps_date env] ''Deferred Non-Cloud''
        ''This feature step requires a local Tauri/MCP environment and has been deferred to the workstation for completion.'')]))"

subsection \<open>Lines with their ends\<close>

text \<open>\<open>splitlines(keepends=True)\<close>: each line with its terminator.\<close>

function keep_lines :: "string \<Rightarrow> string \<Rightarrow> (string \<times> string) list" where
  "keep_lines acc s =
     (if s = [] then (if acc = [] then [] else [(rev acc, [])])
      else case find (\<lambda>t. t \<noteq> [] \<and> prefix t s) line_ends of
             Some t \<Rightarrow> (rev acc, t) # keep_lines [] (drop (length t) s)
           | None \<Rightarrow> keep_lines (hd s # acc) (tl s))"
  by pat_completeness auto

termination
  by (relation "measure (\<lambda>(acc, s). length s)") (auto simp: find_Some_iff)

declare keep_lines.simps [simp del]

definition raw_line :: "string \<times> string \<Rightarrow> string" where
  "raw_line l = fst l @ snd l"

definition raw_text :: "(string \<times> string) list \<Rightarrow> string" where
  "raw_text ls = concat (map raw_line ls)"

text \<open>The ends that a rewritten line keeps; a line with another terminator counts it to its body.\<close>

definition plain_end :: "string \<Rightarrow> bool" where
  "plain_end e \<longleftrightarrow> e \<in> {bytes [13, 10], bytes [10], bytes [13], []}"

definition line_body :: "string \<times> string \<Rightarrow> string" where
  "line_body l = (if plain_end (snd l) then fst l else raw_line l)"

definition line_end :: "string \<times> string \<Rightarrow> string" where
  "line_end l = (if plain_end (snd l) then snd l else [])"

subsection \<open>Flipping a plan\<close>

definition status_row :: "string \<times> string \<Rightarrow> bool" where
  "status_row l = (prefix ''status:'' (fst l) \<and> strip (drop 7 (fst l)) \<noteq> [])"

text \<open>The first status line of the block is rewritten.\<close>

fun flip_status :: "(string \<times> string) list \<Rightarrow> (string \<times> string) list option" where
  "flip_status [] = None"
| "flip_status (l # ls) =
     (if status_row l then Some ((''status: Complete'', line_end l) # ls) else map_option (Cons l) (flip_status ls))"

definition flip_plan_text :: "string \<Rightarrow> string option" where
  "flip_plan_text text =
     (let ls = keep_lines [] text;
          blank = takeWhile (\<lambda>l. strip (fst l) = []) ls;
          rest = dropWhile (\<lambda>l. strip (fst l) = []) ls;
          block = takeWhile (\<lambda>l. strip (fst l) \<noteq> fence) (tl rest);
          tail = dropWhile (\<lambda>l. strip (fst l) \<noteq> fence) (tl rest)
      in if rest = [] \<or> strip (fst (hd rest)) \<noteq> fence \<or> tail = [] then None
         else map_option (\<lambda>block'. raw_text (blank @ hd rest # block' @ tail)) (flip_status block))"

definition plan_write :: "plan_ref \<Rightarrow> string \<Rightarrow> effect" where
  "plan_write p t = (case p of InPlans n \<Rightarrow> PutPlan n t | LegacyPlan \<Rightarrow> Put ''PLAN.md'' t)"

definition plan_exists :: "item_dir \<Rightarrow> plan_ref \<Rightarrow> bool" where
  "plan_exists d p = (case p of InPlans n \<Rightarrow> dhas (plan_dir d) n | LegacyPlan \<Rightarrow> has_doc d ''PLAN.md'')"

definition flip_plan_file :: "pseudo_env \<Rightarrow> item_dir \<Rightarrow> plan_ref \<Rightarrow> outcome" where
  "flip_plan_file env d p =
     (if \<not> plan_exists d p then (Refused NoPlan, [])
      else case plan_meta (ps_yaml env) d p of
          None \<Rightarrow> (Died, [])
        | Some m \<Rightarrow>
            if \<not> dhas m ''status'' then (Refused BadPlan, [])
            else if strip (py_str (mget m ''status'')) = ''Complete'' then (Noop, [])
            else case flip_plan_text (plan_text d p) of
                None \<Rightarrow> (Refused BadPlan, [])
              | Some t \<Rightarrow> (Applied, [plan_write p t]))"

definition flip_plan_complete :: "pseudo_env \<Rightarrow> plan_ref option \<Rightarrow> item_dir \<Rightarrow> outcome" where
  "flip_plan_complete env plan d =
     (case plan of
        Some p \<Rightarrow> flip_plan_file env d p
      | None \<Rightarrow>
          if plan_docs d = None then (Refused NoPlan, [])
          else case find_implementation_plans (ps_yaml env) d of
              None \<Rightarrow> (Died, [])
            | Some [] \<Rightarrow> (Refused NoPlan, [])
            | Some [p] \<Rightarrow> flip_plan_file env d p
            | _ \<Rightarrow> (Refused AmbiguousPlan, []))"

end
