(* ===== verification/Line_Facts.thy ===== *)
theory Line_Facts
  imports Completion Text_Lines
begin

text \<open>
  Texts as lines: splitting at newlines and joining again, lines with their ends, and the rewriting of single lines
  by \<^theory_text>\<open>Completion\<close>.
\<close>

subsection \<open>Newlines\<close>

definition one_line :: "string \<Rightarrow> bool" where
  "one_line l \<longleftrightarrow> hd newline \<notin> set l"

lemma newline_single: "newline = [hd newline]"
  by (simp add: newline_def bytes_def)

lemma prefix_newline [simp]: "prefix newline s \<longleftrightarrow> s \<noteq> [] \<and> hd s = hd newline"
  by (subst newline_single) (cases s; auto)

lemma length_newline [simp]: "length newline = 1" "newline \<noteq> []"
  by (simp_all add: newline_def bytes_def)

lemma split_newline:
  "split_on newline acc [] = [rev acc]"
  "split_on newline acc (c # s) = (if c = hd newline then rev acc # split_on newline [] s else split_on newline (c # acc) s)"
  by (subst split_on.simps, simp)+

lemma join_Cons: "xs \<noteq> [] \<Longrightarrow> join sep (x # xs) = x @ sep @ join sep xs"
  by (cases xs) auto

lemma split_at_newline: "split_on newline acc (newline @ r) = rev acc # split_on newline [] r"
  using split_newline(2) [of acc "hd newline" r] newline_single by (metis append_Cons append_Nil)

lemma split_newline_not_Nil: "split_on newline acc s \<noteq> []"
  by (induction s arbitrary: acc) (auto simp: split_newline)

lemma lines_not_Nil [simp]: "lines_of t \<noteq> []"
  by (simp add: lines_of_def py_split_def split_newline_not_Nil)

lemma join_split: "join newline (split_on newline acc s) = rev acc @ s"
proof (induction s arbitrary: acc)
  case (Cons c s)
  then show ?case
    using newline_single by (auto simp: split_newline join_Cons split_newline_not_Nil)
qed (simp add: split_newline)

lemma join_lines [simp]: "join newline (lines_of t) = t"
  by (simp add: lines_of_def py_split_def join_split)

lemma split_one_line: "one_line (rev acc) \<Longrightarrow> list_all one_line (split_on newline acc s)"
  by (induction s arbitrary: acc) (auto simp: split_newline one_line_def)

lemma lines_one_line: "list_all one_line (lines_of t)"
  using split_one_line [of "[]"] by (simp add: lines_of_def py_split_def one_line_def)

lemma split_line: "one_line l \<Longrightarrow> split_on newline acc (l @ s) = split_on newline (rev l @ acc) s"
  by (induction l arbitrary: acc) (auto simp: split_newline one_line_def)

lemma lines_join:
  assumes "ls \<noteq> []" and "list_all one_line ls"
  shows "lines_of (join newline ls) = ls"
  using assms unfolding lines_of_def py_split_def
proof (induction newline ls rule: join.induct)
  case (2 x)
  then show ?case using split_line [of x "[]" "[]"] by (simp add: split_newline)
next
  case (3 x y xs)
  have "split_on newline [] (x @ newline @ r) = x # split_on newline [] r" for r
    using 3 split_line [of x "[]" "newline @ r"] by (simp add: split_at_newline)
  then show ?case using 3 by simp
qed simp

subsection \<open>Other terminators\<close>

definition no_end :: "string \<Rightarrow> bool" where
  "no_end s \<longleftrightarrow> (\<forall>t\<in>set line_ends. \<not> sublist t s)"

lemma ends_shape: "t \<in> set line_ends \<Longrightarrow> t \<noteq> [] \<and> list_all (\<lambda>c. \<not> printable c) t"
  by (auto simp: line_ends_def bytes_def printable_def)

lemma no_end_sublist: "no_end s \<Longrightarrow> sublist r s \<Longrightarrow> no_end r"
  unfolding no_end_def by (meson sublist_order.order_trans)

lemma no_end_printable: "list_all printable s \<Longrightarrow> no_end s"
  unfolding no_end_def sublist_def using ends_shape by (fastforce simp: neq_Nil_conv)

lemma no_end_append:
  assumes "no_end a" "no_end b" and edge: "a = [] \<or> b = [] \<or> printable (last a) \<or> printable (hd b)"
  shows "no_end (a @ b)"
  unfolding no_end_def
proof (intro ballI notI)
  fix t assume t: "t \<in> set line_ends" and sub: "sublist t (a @ b)"
  from sub assms t obtain u v where uv: "t = u @ v" "suffix u a" "prefix v b" "u \<noteq> []" "v \<noteq> []"
    unfolding no_end_def sublist_append by (metis append_Nil append_Nil2 prefix_imp_sublist suffix_imp_sublist)
  then have "last a = last u" "hd b = hd v" "a \<noteq> []" "b \<noteq> []"
    by (auto simp: suffix_def prefix_def)
  moreover have "\<not> printable (last u)" "\<not> printable (hd v)"
    using ends_shape [OF t] uv by (auto simp: list_all_iff)
  ultimately have "\<not> printable (last a)" "\<not> printable (hd b)" "a \<noteq> []" "b \<noteq> []" by auto
  with edge show False by blast
qed

lemma no_end_one_line: "no_end s \<Longrightarrow> one_line s"
proof -
  have "newline \<in> set line_ends" by (simp add: newline_def line_ends_def)
  then show "no_end s \<Longrightarrow> one_line s"
    using newline_single unfolding no_end_def one_line_def by (metis append_Cons append_Nil split_list sublist_appendI)
qed

lemma no_end_nil [simp]: "no_end []"
  by (simp add: no_end_printable)

subsection \<open>Lines with their ends\<close>

fun ended_lines :: "string list \<Rightarrow> (string \<times> string) list" where
  "ended_lines [] = []"
| "ended_lines [l] = (if l = [] then [] else [(l, [])])"
| "ended_lines (l # ls) = (l, newline) # ended_lines ls"

lemma no_end_start: "no_end s \<Longrightarrow> s \<noteq> [] \<Longrightarrow> find (\<lambda>t. t \<noteq> [] \<and> prefix t s) line_ends = None"
  unfolding no_end_def find_None_iff by (meson prefix_imp_sublist)

text \<open>Before a newline too no other terminator starts: none has a newline after another character but one.\<close>

lemma newline_inside: "t \<in> set line_ends \<Longrightarrow> t = u @ newline @ v \<Longrightarrow> u = [] \<or> u = bytes [13]"
proof -
  assume "t \<in> set line_ends" "t = u @ newline @ v"
  then show ?thesis
    by (auto simp: line_ends_def newline_def bytes_def append_eq_Cons_conv Cons_eq_append_conv)
qed

lemma no_end_before_newline:
  assumes "no_end s" and "s \<noteq> []"
  shows "find (\<lambda>t. t \<noteq> [] \<and> prefix t (s @ newline @ r)) line_ends = None"
  unfolding find_None_iff
proof (intro notI, elim exE conjE)
  fix t assume t: "t \<in> set line_ends" "t \<noteq> []" "prefix t (s @ newline @ r)"
  then have "\<not> prefix t s" using assms by (auto simp: no_end_def dest: prefix_imp_sublist)
  with t(3) obtain v where v: "t = s @ v" "v \<noteq> []" "prefix v (newline @ r)" by (auto simp: prefix_append)
  then have "hd v = hd newline" by (cases v) (auto simp: prefix_def newline_def bytes_def)
  then have w: "v = newline @ tl v"
    using v(2) newline_single by (metis append_Cons append_Nil list.collapse)
  then have "s = bytes [13]" using newline_inside [OF t(1), of s "tl v"] v assms by auto
  moreover have "bytes [13] \<in> set line_ends" by (simp add: line_ends_def)
  ultimately show False using assms(1) by (auto simp: no_end_def)
qed

lemma keep_body:
  assumes "no_end l"
  shows "keep_lines acc (l @ newline @ r) = (rev acc @ l, newline) # keep_lines [] r"
  using assms
proof (induction l arbitrary: acc)
  case Nil
  have "find (\<lambda>t. t \<noteq> [] \<and> prefix t (newline @ r)) line_ends = Some newline"
    by (simp add: line_ends_def newline_def bytes_def prefix_def)
  then show ?case by (subst keep_lines.simps) simp
next
  case (Cons c l)
  have "no_end l" using Cons.prems by (rule no_end_sublist) (simp add: sublist_Cons_right)
  then have "keep_lines (c # acc) (l @ newline @ r) = (rev (c # acc) @ l, newline) # keep_lines [] r"
    by (rule Cons.IH)
  then show ?case
    using no_end_before_newline [OF Cons.prems, of r] by (subst keep_lines.simps) simp
qed

lemma keep_last:
  assumes "no_end l"
  shows "keep_lines acc l = (if rev acc @ l = [] then [] else [(rev acc @ l, [])])"
  using assms
proof (induction l arbitrary: acc)
  case Nil
  then show ?case by (subst keep_lines.simps) simp
next
  case (Cons c l)
  have "no_end l" using Cons.prems by (rule no_end_sublist) (simp add: sublist_Cons_right)
  then show ?case
    using Cons.IH [of "c # acc"] no_end_start [OF Cons.prems] by (subst keep_lines.simps) simp
qed

lemma keep_join: "list_all no_end ls \<Longrightarrow> ls \<noteq> [] \<Longrightarrow> keep_lines [] (join newline ls) = ended_lines ls"
proof (induction ls rule: ended_lines.induct)
  case (2 l)
  then show ?case by (simp add: keep_last)
next
  case (3 l x xs)
  then show ?case using keep_body [of l "[]"] by simp
qed simp

lemma keep_split: "split_lines acc s = map fst (keep_lines acc s)"
proof (induction acc s rule: keep_lines.induct)
  case (1 acc s)
  show ?case
    by (subst split_lines.simps, subst keep_lines.simps) (auto simp: 1 split: option.splits)
qed

lemma splitlines_keep: "splitlines s = map fst (keep_lines [] s)"
  by (simp add: splitlines_def keep_split)

lemma ended_set: "(l, e) \<in> set (ended_lines ls) \<Longrightarrow> l \<in> set ls \<and> e \<in> {newline, []}"
  by (induction ls rule: ended_lines.induct) (auto split: if_splits)

lemma raw_ended: "raw_text (ended_lines ls) = join newline ls"
  by (induction ls rule: ended_lines.induct) (auto simp: raw_text_def raw_line_def)

text \<open>Keeping the ends loses nothing.\<close>

lemma raw_keep: "raw_text (keep_lines acc s) = rev acc @ s"
proof (induction acc s rule: keep_lines.induct)
  case (1 acc s)
  have "t @ drop (length t) s = s" if "find (\<lambda>t. t \<noteq> [] \<and> prefix t s) line_ends = Some t" for t
    using that by (auto simp: find_Some_iff prefix_def)
  with 1 show ?case
    by (subst keep_lines.simps) (auto simp: raw_text_def raw_line_def split: option.splits)
qed

lemma fst_ended: "map fst (ended_lines ls) = (if ls \<noteq> [] \<and> last ls = [] then butlast ls else ls)"
  by (induction ls rule: ended_lines.induct) auto

text \<open>A file that opens with a block between two fences and ends with a newline.\<close>

lemma frontmatter_ended:
  assumes "list_all (list_all printable) (block @ rest)" and "\<forall>l\<in>set block. strip l \<noteq> fence"
  shows "frontmatter yaml (join newline (fence # block @ fence # rest @ [[]])) = load_mapping yaml (join newline block)"
proof -
  have "list_all no_end (fence # block @ fence # rest @ [[]])"
    using assms(1) no_end_printable by (auto simp: list_all_iff fence_def printable_def)
  then have lines: "splitlines (join newline (fence # block @ fence # rest @ [[]])) = fence # block @ fence # rest"
    by (simp add: splitlines_keep keep_join fst_ended butlast_append)
  have first: "takeWhile (\<lambda>l. strip l \<noteq> fence) (block @ fence # rest) = block"
    using assms(2) by (simp add: takeWhile_append strip_fence)
  show ?thesis unfolding frontmatter_def lines by (simp add: strip_fence first) (simp add: fence_def)
qed

subsection \<open>The first status line\<close>

lemma status_line_one [simp]: "v \<in> {''Complete'', ''Fixed''} \<Longrightarrow> one_line (status_label @ '' '' @ v)"
  by (rule no_end_one_line, rule no_end_printable) (auto simp: status_label_def printable_def)

lemma flip_first_Nil [simp]: "flip_first v ls = [] \<longleftrightarrow> ls = []"
  by (cases ls) auto

lemma flip_first_lines: "list_all one_line ls \<Longrightarrow> one_line (status_label @ '' '' @ v) \<Longrightarrow> list_all one_line (flip_first v ls)"
  by (induction ls) auto

lemma find_flip_first:
  "find (prefix status_label) (flip_first v ls) =
     (if find (prefix status_label) ls = None then None else Some (status_label @ '' '' @ v))"
  by (induction ls) (auto simp: prefix_def)

lemma status_values: "status_value fixed \<in> {''Complete'', ''Fixed''}"
  by (simp add: status_value_def)

lemma strip_value: "strip ('' '' @ status_value fixed) = status_value fixed"
  by (simp add: status_value_def strip_space strip_plain plain_char_def)

lemma top_status_flipped: "top_status_is (status_value fixed) (flip_top_status (status_value fixed) t)"
proof -
  have "lines_of (flip_top_status (status_value fixed) t) = flip_first (status_value fixed) (lines_of t)"
    unfolding flip_top_status_def
    by (rule lines_join, simp, rule flip_first_lines [OF lines_one_line status_line_one [OF status_values]])
  then show ?thesis
    using strip_value [of fixed] by (simp add: top_status_is_def find_flip_first)
qed

lemma status_write_done:
  "doc_top_status (status_value fixed) (pl_dir (do_effects (status_write (status_value fixed) (pl_dir p) n) p)) n"
proof (cases "dget (docs (pl_dir p)) n")
  case (Some f)
  then show ?thesis
    using top_status_flipped [of fixed "doc_text f"]
    by (auto simp: doc_top_status_def status_write_def do_effects_def put_doc_def dict_simps)
qed (simp add: doc_top_status_def status_write_def do_effects_def)

subsection \<open>The roadmap\<close>

lemma token_no_end: "no_end complete_token"
proof -
  have "no_end (bytes [226, 156, 133])"
    unfolding no_end_def contains_sublist [symmetric] by (simp add: line_ends_def bytes_def prefix_def)
  then show ?thesis
    unfolding complete_token_def by (rule no_end_append) (auto simp: printable_def intro: no_end_printable)
qed

lemma drop_ws_suffix: "suffix (drop_ws wide s) s"
proof (induction wide s rule: drop_ws.induct)
  case (1 wide s)
  then show ?case by (subst drop_ws.simps) (auto intro: suffix_order.order_trans suffix_drop)
qed

lemma sublist_drop_ws: "sublist (drop_ws wide s) s"
  by (rule suffix_imp_sublist [OF drop_ws_suffix])

lemma sublist_lstrip: "sublist (lstrip s) s"
  by (simp add: lstrip_def sublist_drop_ws)

lemma sublist_rstrip: "sublist (rstrip s) s"
  using sublist_drop_ws [of "map rev wide_ws" "rev s"] by (simp add: rstrip_def sublist_rev_left)

lemma sublist_strip: "sublist (strip s) s"
  unfolding strip_def by (rule sublist_order.order_trans [OF sublist_rstrip sublist_lstrip])

lemma sublist_strip_bars: "sublist (strip_bars s) s"
proof -
  have "sublist (dropWhile P (rev t)) (rev t)" for P :: "char \<Rightarrow> bool" and t
    by (rule suffix_imp_sublist [OF suffix_dropWhile])
  then have "sublist (rev (dropWhile P (rev t))) t" for P :: "char \<Rightarrow> bool" and t
    by (simp add: sublist_rev_left)
  then show ?thesis
    unfolding strip_bars_def
    by (rule sublist_order.order_trans) (rule suffix_imp_sublist [OF suffix_dropWhile])
qed

lemma sublist_take: "sublist (take n s) s"
  by (rule prefix_imp_sublist [OF take_is_prefix])

lemma no_end_glue:
  assumes "list_all printable x" "x \<noteq> []" "no_end a" "no_end r"
  shows "no_end (a @ x @ r)"
proof (rule no_end_append)
  have "printable (hd x)" "printable (last x)" using assms(1,2) by (auto simp: list_all_iff)
  then show "a = [] \<or> x @ r = [] \<or> printable (last a) \<or> printable (hd (x @ r))" using assms(2) by simp
  show "no_end (x @ r)" using assms \<open>printable (last x)\<close> by (blast intro: no_end_append no_end_printable)
qed (rule assms(3))

lemma token_tail: "list_all printable e \<Longrightarrow> no_end (complete_token @ e)"
proof -
  have "printable (last complete_token)" by (simp add: complete_token_def printable_def)
  then show "list_all printable e \<Longrightarrow> no_end (complete_token @ e)"
    by (intro no_end_append [OF token_no_end]) (simp_all add: no_end_printable)
qed

lemma strike_no_end:
  assumes "no_end b"
  shows "no_end (strike_row b)"
proof -
  have cell: "no_end (strip (strip_bars (strip b)))"
    using assms by (meson no_end_sublist sublist_strip sublist_strip_bars)
  have lead: "no_end (take n b)" "no_end (rstrip b)" for n
    using assms no_end_sublist sublist_take sublist_rstrip by blast+
  have table: "no_end (take n b @ ''| ~~'' @ strip (strip_bars (strip b)) @ ''~~  '' @ complete_token @ '' |'')" for n
    by (intro no_end_glue cell lead token_tail) (simp_all add: printable_def)
  have "no_end ([] @ ''~~'' @ rstrip b @ ''~~  '' @ complete_token @ [])"
    by (intro no_end_glue lead token_tail no_end_nil) (simp_all add: printable_def)
  with table show ?thesis by (simp add: strike_row_def)
qed

lemma strike_struck: "contains complete_token (strike_row b)"
proof -
  have "\<exists>a e. strike_row b = a @ complete_token @ e"
    unfolding strike_row_def by (metis append.assoc append_Nil2)
  then show ?thesis unfolding contains_sublist by (auto simp: sublist_def)
qed

definition strike :: "pseudo_env \<Rightarrow> string \<Rightarrow> string" where
  "strike env b = (if unstruck env b then strike_row b else b)"

lemma strike_done: "\<not> unstruck env (strike env b)"
  using strike_struck by (simp add: strike_def unstruck_def)

lemma unstruck_Nil [simp]: "\<not> unstruck env []"
  by (simp add: unstruck_def names_item_def)

lemma strike_Nil [simp]: "strike env [] = []"
  by (simp add: strike_def)

lemma cut_ended: "(l, e) \<in> set (ended_lines ls) \<Longrightarrow> cut_newline (l, e) = (l, e)"
  by (auto simp: cut_newline_def raw_line_def dest: ended_set)

lemma strike_join: "concat (map (strike_line env) (ended_lines ls)) = join newline (map (strike env) ls)"
proof (induction ls rule: ended_lines.induct)
  case (2 l)
  then show ?case by (simp add: strike_line_def cut_newline_def strike_def raw_line_def)
next
  case (3 l x xs)
  then show ?case by (simp add: strike_line_def cut_newline_def strike_def)
qed simp

text \<open>A roadmap whose lines end with newlines only.\<close>

definition newlines_only :: "string \<Rightarrow> bool" where
  "newlines_only t = list_all no_end (lines_of t)"

lemma newlines_keep: "newlines_only t \<Longrightarrow> keep_lines [] t = ended_lines (lines_of t)"
  using keep_join [of "lines_of t"] by (simp add: newlines_only_def)

definition struck_map :: "pseudo_env \<Rightarrow> string \<Rightarrow> string" where
  "struck_map env t = join newline (map (strike env) (lines_of t))"

lemma struck_lines:
  assumes "newlines_only t"
  shows "lines_of (struck_map env t) = map (strike env) (lines_of t)" and "newlines_only (struck_map env t)"
proof -
  have ends: "list_all no_end (map (strike env) (lines_of t))"
    using assms strike_no_end by (auto simp: newlines_only_def list_all_iff strike_def)
  then show "lines_of (struck_map env t) = map (strike env) (lines_of t)"
    unfolding struck_map_def using no_end_one_line by (intro lines_join) (auto simp: list_all_iff)
  with ends show "newlines_only (struck_map env t)" by (simp add: newlines_only_def)
qed

lemma unstruck_rows:
  assumes "newlines_only t"
  shows "roadmap_has_unstruck_row env t \<longleftrightarrow> list_ex (unstruck env) (lines_of t)"
proof -
  have "list_ex P (map fst (ended_lines ls)) \<longleftrightarrow> list_ex P ls" if "\<not> P []" for P ls
    using that by (induction ls rule: ended_lines.induct) auto
  then show ?thesis
    by (simp add: roadmap_has_unstruck_row_def splitlines_keep newlines_keep [OF assms])
qed

lemma strike_write:
  assumes "newlines_only t"
  shows "strike_roadmap_row env (Some t) = (if roadmap_has_unstruck_row env t then [SetRoadmap (struck_map env t)] else [])"
proof -
  have "list_ex (\<lambda>l. unstruck env (fst (cut_newline l))) (ended_lines ls) \<longleftrightarrow> list_ex (unstruck env) ls" for ls
    by (induction ls rule: ended_lines.induct) (auto simp: cut_newline_def raw_line_def)
  then show ?thesis
    by (simp add: strike_roadmap_row_def newlines_keep [OF assms] unstruck_rows [OF assms] strike_join struck_map_def)
qed

lemma struck_map_done: "newlines_only t \<Longrightarrow> \<not> roadmap_has_unstruck_row env (struck_map env t)"
  using strike_done by (simp add: unstruck_rows struck_lines list_ex_iff)

end
