(* ===== verification/Completion_Facts.thy ===== *)
theory Completion_Facts
  imports Line_Facts
begin

text \<open>
  What the writes of a completion leave alone, what its tail establishes, and where each of its ends comes from.
\<close>

subsection \<open>Writes\<close>

lemma do_effects_simps [simp]:
  "do_effects [] p = p"
  "do_effects (e # es) p = do_effects es (do_effect e p)"
  "do_effects (es @ es') p = do_effects es' (do_effects es p)"
  by (simp_all add: do_effects_def)

fun touches :: "string \<Rightarrow> effect \<Rightarrow> bool" where
  "touches n (Put m t) = (m = n)"
| "touches n (Erase m) = (m = n)"
| "touches n e = False"

lemma touches_iff: "touches n e \<longleftrightarrow> e = Erase n \<or> (\<exists>t. e = Put n t)"
  by (cases e) auto

definition the_doc :: "plant \<Rightarrow> string \<Rightarrow> doc option" where
  "the_doc p n = dget (docs (pl_dir p)) n"

lemma frame_doc: "list_all (\<lambda>e. \<not> touches n e) es \<Longrightarrow> the_doc (do_effects es p) n = the_doc p n"
proof (induction es arbitrary: p)
  case (Cons e es)
  have "the_doc (do_effect e p) n = the_doc p n"
    using Cons.prems by (cases e) (auto simp: the_doc_def put_doc_def put_plan_def erase_doc_def dict_simps)
  then show ?case using Cons by simp
qed simp

fun sets_queue :: "effect \<Rightarrow> bool" where
  "sets_queue (SetQueue q) = True"
| "sets_queue e = False"

fun sets_roadmap :: "effect \<Rightarrow> bool" where
  "sets_roadmap (SetRoadmap t) = True"
| "sets_roadmap e = False"

lemma frame_queue: "list_all (\<lambda>e. \<not> sets_queue e) es \<Longrightarrow> pl_queue (do_effects es p) = pl_queue p"
proof (induction es arbitrary: p)
  case (Cons e es)
  then show ?case by (cases e) auto
qed simp

lemma frame_roadmap: "list_all (\<lambda>e. \<not> sets_roadmap e) es \<Longrightarrow> pl_roadmap (do_effects es p) = pl_roadmap p"
proof (induction es arbitrary: p)
  case (Cons e es)
  then show ?case by (cases e) auto
qed simp

text \<open>Readers of one document.\<close>

lemma has_the_doc: "has_doc (pl_dir p) n \<longleftrightarrow> the_doc p n \<noteq> None"
  by (simp add: has_doc_def the_doc_def)

lemma parse_the_doc: "parse_sentinel yaml (pl_dir p) n = (case the_doc p n of None \<Rightarrow> Some [] | Some f \<Rightarrow> frontmatter yaml (doc_text f))"
  by (simp add: parse_sentinel_def the_doc_def)

lemma kind_the_doc: "the_doc p n = the_doc q n \<Longrightarrow> doc_kind env (pl_dir p) n = doc_kind env (pl_dir q) n"
  by (simp add: doc_kind_def parse_the_doc)

lemma top_the_doc: "doc_top_status v (pl_dir p) n = (case the_doc p n of None \<Rightarrow> True | Some f \<Rightarrow> top_status_is v (doc_text f))"
  by (simp add: doc_top_status_def the_doc_def)

lemma status_write_cong: "the_doc p n = the_doc q n \<Longrightarrow> status_write v (pl_dir p) n = status_write v (pl_dir q) n"
  by (simp add: status_write_def the_doc_def)

lemma status_write_touches: "m \<noteq> n \<Longrightarrow> list_all (\<lambda>e. \<not> touches m e) (status_write v d n)"
  by (simp add: status_write_def split: option.splits)

subsection \<open>The writes of a completion\<close>

text \<open>Every write is one of these, so the evidence of the tests and the waiver are never touched.\<close>

definition written_names :: "string set" where
  "written_names = {''SPEC.md'', ''PHASES.md'', ''RUNTIME_GATES.md'', ''COMPLETED.md'', ''FIXED.md'', ''IMPLEMENTED.md''}"

fun completion_effect :: "effect \<Rightarrow> bool" where
  "completion_effect (Put n t) = (n \<in> written_names)"
| "completion_effect (PutPlan n t) = False"
| "completion_effect (Erase n) = (n \<in> set cleanup_names)"
| "completion_effect (SetQueue q) = is_obj q"
| "completion_effect (SetRoadmap t) = True"

lemma status_write_effects: "n \<in> written_names \<Longrightarrow> list_all completion_effect (status_write v d n)"
  by (simp add: status_write_def split: option.splits)

lemma trim_cases:
  assumes "trim_queue env file = Some qs"
  obtains "completion_items file = Some None" "qs = []"
    | q es where "completion_items file = Some (Some (q, es))" "\<not> list_ex (entry_matches env) es" "qs = []"
    | q es where "completion_items file = Some (Some (q, es))" "list_ex (entry_matches env) es"
        "qs = [SetQueue (jset ''queue'' (JArr (filter (\<lambda>e. \<not> entry_matches env e) es)) q)]"
proof -
  from assms obtain x where "completion_items file = Some x" by (auto simp: trim_queue_def)
  then show ?thesis using assms that by (cases x) (auto simp: trim_queue_def split: if_splits)
qed

lemma trim_effects: "trim_queue env file = Some qs \<Longrightarrow> list_all completion_effect qs"
  by (erule trim_cases) (simp_all add: jset_def)

lemma tail_effects:
  assumes "completion_tail env fixed p = (e, es)"
  shows "list_all completion_effect es"
proof -
  have "list_all completion_effect (cleanup d)" for d by (auto simp: cleanup_def list_all_iff)
  moreover have "list_all completion_effect (strike_roadmap_row env r)" for r
    by (simp add: strike_roadmap_row_def Let_def split: option.splits)
  moreover have "list_all completion_effect (provenance_write env)"
    by (simp add: provenance_write_def written_names_def split: option.splits)
  ultimately show ?thesis
    using assms trim_effects by (auto simp: completion_tail_def Let_def status_write_effects written_names_def split: if_splits option.splits)
qed

lemma coherence_effects:
  assumes "coherence env p = (e, es, n)"
  shows "list_all (\<lambda>x. \<exists>t. x = Put ''PHASES.md'' t \<or> x = Put ''RUNTIME_GATES.md'' t) es"
proof -
  have "list_all (\<lambda>x. \<exists>t. x = Put ''PHASES.md'' t \<or> x = Put ''RUNTIME_GATES.md'' t) ts" if "tick_rows env d t = Some (k, ts)" for d t k ts
    using that by (auto simp: tick_rows_def split: option.splits prod.splits if_splits)
  then show ?thesis
    using assms by (auto simp: coherence_def Let_def ledger_write_def phase_completion_plan_def split: option.splits prod.splits if_splits)
qed

lemma completion_writes:
  assumes "mark_complete env fixed p = (e, es)"
  shows "list_all completion_effect es"
proof -
  have coh: "list_all completion_effect xs" if "coherence env q = (r, xs, n)" for q r xs n
    using coherence_effects [OF that] by (auto simp: list_all_iff written_names_def)
  have receipt: "receipt_name fixed \<in> written_names" by (simp add: receipt_name_def written_names_def)
  have fresh: "list_all completion_effect es" if "mark_fresh env fixed v p = (e, es)" for v
    using that coh tail_effects receipt
    by (auto simp: mark_fresh_def Let_def split: option.splits bool.splits if_splits prod.splits)
  show ?thesis
    using assms fresh tail_effects
    by (auto simp: mark_complete_def mark_resume_def Let_def split: option.splits if_splits list.splits)
qed

lemma effect_touches: "completion_effect e \<Longrightarrow> n \<notin> written_names \<Longrightarrow> n \<notin> set cleanup_names \<Longrightarrow> \<not> touches n e"
  by (cases e) auto

lemma evidence_frame:
  assumes "list_all completion_effect es" and "n \<in> {''SKIP_MCP_TEST.md'', ''MCP_TEST_RESULTS.md''}"
  shows "the_doc (do_effects es p) n = the_doc p n"
proof (rule frame_doc)
  have "n \<notin> written_names" "n \<notin> set cleanup_names"
    using assms(2) by (auto simp: written_names_def cleanup_names_def)
  then show "list_all (\<lambda>e. \<not> touches n e) es"
    using assms(1) effect_touches by (auto simp: list_all_iff)
qed

text \<open>A document that was erased and that nothing writes is gone.\<close>

lemma erased_gone:
  "Erase n \<in> set es \<Longrightarrow> list_all (\<lambda>e. \<forall>t. e \<noteq> Put n t) es \<Longrightarrow> the_doc (do_effects es p) n = None"
proof (induction es rule: rev_induct)
  case (snoc e es)
  show ?case
  proof (cases "e = Erase n")
    case True
    then show ?thesis by (simp add: the_doc_def erase_doc_def dict_simps)
  next
    case False
    then have "the_doc (do_effects es p) n = None" using snoc by auto
    then show ?thesis
      using snoc.prems False
      by (cases e) (auto simp: the_doc_def put_doc_def put_plan_def erase_doc_def dict_simps)
  qed
qed simp

subsection \<open>What the tail establishes\<close>

lemma cleanup_done:
  assumes "n \<in> set cleanup_names"
  shows "\<not> has_doc (pl_dir (do_effects (cleanup (pl_dir p)) p)) n"
proof (cases "has_doc (pl_dir p) n")
  case True
  then have "Erase n \<in> set (cleanup (pl_dir p))" using assms by (simp add: cleanup_def)
  moreover have "list_all (\<lambda>e. \<forall>t. e \<noteq> Put n t) (cleanup (pl_dir p))" by (auto simp: cleanup_def list_all_iff)
  ultimately show ?thesis using erased_gone by (simp add: has_the_doc)
next
  case False
  then have "list_all (\<lambda>e. \<not> touches n e) (cleanup (pl_dir p))" by (auto simp: cleanup_def list_all_iff)
  then show ?thesis using False frame_doc by (simp add: has_the_doc)
qed

lemma jset_items: "completion_items (Content (jset ''queue'' (JArr es) q)) = Some (Some (jset ''queue'' (JArr es) q, es))"
  by (simp add: completion_items_def jset_def jhas_def jget_def dict_simps)

lemma trim_done:
  assumes "trim_queue env (pl_queue p) = Some qs"
  shows "queue_left env (do_effects qs p) = Some False"
  using assms by (cases rule: trim_cases) (simp_all add: queue_left_def jset_items list_ex_iff)

lemma queue_left_cong: "pl_queue p = pl_queue q \<Longrightarrow> queue_left env p = queue_left env q"
  by (simp add: queue_left_def)

lemma strike_done_left:
  assumes "\<And>t. pl_roadmap p = Some t \<Longrightarrow> newlines_only t"
  shows "\<not> roadmap_left env (do_effects (strike_roadmap_row env (pl_roadmap p)) p)"
proof (cases "pl_roadmap p")
  case (Some t)
  then show ?thesis
    using assms struck_map_done by (simp add: strike_write roadmap_left_def)
qed (simp add: roadmap_left_def strike_roadmap_row_def)

lemma tail_shape:
  assumes "completion_tail env fixed p = (Applied, es)"
  obtains qs rs where
    "es = status_write (status_value fixed) (pl_dir p) ''SPEC.md'' @ status_write (status_value fixed) (pl_dir p) ''PHASES.md'' @
       cleanup (pl_dir p) @ qs @ rs @ provenance_write env"
    "fixed \<Longrightarrow> qs = [] \<and> rs = []"
    "\<not> fixed \<Longrightarrow> trim_queue env (pl_queue p) = Some qs \<and> rs = strike_roadmap_row env (pl_roadmap p)"
  using assms by (auto simp: completion_tail_def Let_def split: if_splits option.splits)

text \<open>None of these writes is to a document of the item.\<close>

lemma trim_side: "trim_queue env file = Some qs \<Longrightarrow> list_all (\<lambda>e. \<not> touches n e \<and> \<not> sets_roadmap e) qs"
  by (erule trim_cases) simp_all

lemma strike_side: "list_all (\<lambda>e. \<not> touches n e \<and> \<not> sets_queue e) (strike_roadmap_row env r)"
  by (simp add: strike_roadmap_row_def Let_def split: option.splits)

lemma provenance_side:
  "list_all (\<lambda>e. \<not> sets_queue e \<and> \<not> sets_roadmap e) (provenance_write env)"
  "n \<noteq> ''IMPLEMENTED.md'' \<Longrightarrow> list_all (\<lambda>e. \<not> touches n e) (provenance_write env)"
  by (simp_all add: provenance_write_def split: option.splits)

lemma status_side: "list_all (\<lambda>e. \<not> sets_queue e \<and> \<not> sets_roadmap e) (status_write v d m)"
  by (simp add: status_write_def split: option.splits)

lemma cleanup_side:
  "list_all (\<lambda>e. \<not> sets_queue e \<and> \<not> sets_roadmap e) (cleanup d)"
  "n \<notin> set cleanup_names \<Longrightarrow> list_all (\<lambda>e. \<not> touches n e) (cleanup d)"
  by (auto simp: cleanup_def list_all_iff)

lemmas side_writes = trim_side strike_side provenance_side status_side cleanup_side

lemma tail_docs:
  assumes "completion_tail env fixed p = (Applied, es)"
  shows "doc_top_status (status_value fixed) (pl_dir (do_effects es p)) ''SPEC.md''"
    and "doc_top_status (status_value fixed) (pl_dir (do_effects es p)) ''PHASES.md''"
    and "n \<in> set cleanup_names \<Longrightarrow> \<not> has_doc (pl_dir (do_effects es p)) n"
proof -
  let ?v = "status_value fixed" and ?d = "pl_dir p"
  let ?A = "status_write ?v ?d ''SPEC.md''" and ?B = "status_write ?v ?d ''PHASES.md''" and ?C = "cleanup ?d"
  obtain qs rs where es: "es = ?A @ ?B @ ?C @ qs @ rs @ provenance_write env"
    and side: "\<And>m. m \<noteq> ''IMPLEMENTED.md'' \<Longrightarrow> list_all (\<lambda>e. \<not> touches m e) (qs @ rs @ provenance_write env)"
  proof (rule tail_shape [OF assms])
    fix qs rs assume es: "es = ?A @ ?B @ ?C @ qs @ rs @ provenance_write env" and none: "fixed \<Longrightarrow> qs = [] \<and> rs = []"
      and some: "\<not> fixed \<Longrightarrow> trim_queue env (pl_queue p) = Some qs \<and> rs = strike_roadmap_row env (pl_roadmap p)"
    have "list_all (\<lambda>e. \<not> touches m e) qs \<and> list_all (\<lambda>e. \<not> touches m e) rs" for m
      using none some trim_side [of env "pl_queue p" qs m] strike_side [of m env "pl_roadmap p"]
      by (cases fixed) (auto simp: list_all_iff)
    then show thesis using that [OF es] provenance_side(2) by simp
  qed
  let ?p1 = "do_effects ?A p"
  let ?p2 = "do_effects ?B ?p1"
  let ?p3 = "do_effects ?C ?p2"
  have final: "the_doc (do_effects es p) m = the_doc ?p3 m" if "m \<noteq> ''IMPLEMENTED.md''" for m
    using frame_doc [OF side [OF that], of ?p3] by (simp add: es)
  have kept: "the_doc ?p3 m = the_doc ?p2 m" if "m \<notin> set cleanup_names" for m
    by (rule frame_doc, rule cleanup_side(2), rule that)
  have other: "the_doc (do_effects (status_write ?v d m) q) m' = the_doc q m'" if "m' \<noteq> m" for d m q m'
    by (rule frame_doc, rule status_write_touches, rule that)
  have spec: "the_doc (do_effects es p) ''SPEC.md'' = the_doc ?p1 ''SPEC.md''"
    using final [of "''SPEC.md''"] kept [of "''SPEC.md''"] other [of "''SPEC.md''" "''PHASES.md''" ?d ?p1]
    by (simp add: cleanup_names_def)
  then show "doc_top_status ?v (pl_dir (do_effects es p)) ''SPEC.md''"
    using status_write_done [of fixed p "''SPEC.md''"] by (simp add: top_the_doc)
  have phases: "the_doc (do_effects es p) ''PHASES.md'' = the_doc ?p2 ''PHASES.md''"
    using final [of "''PHASES.md''"] kept [of "''PHASES.md''"] by (simp add: cleanup_names_def)
  have B: "status_write ?v (pl_dir ?p1) ''PHASES.md'' = ?B" by (rule status_write_cong [OF other]) simp
  show "doc_top_status ?v (pl_dir (do_effects es p)) ''PHASES.md''"
    using status_write_done [of fixed ?p1 "''PHASES.md''"] unfolding B top_the_doc phases .
  show "\<not> has_doc (pl_dir (do_effects es p)) n" if n: "n \<in> set cleanup_names"
  proof -
    have "the_doc ?p2 m = the_doc p m" if "m \<in> set cleanup_names" for m
    proof -
      have m: "m \<noteq> ''SPEC.md''" "m \<noteq> ''PHASES.md''" using that by (auto simp: cleanup_names_def)
      show ?thesis by (rule trans [OF other [OF m(2)] other [OF m(1)]])
    qed
    then have C: "cleanup (pl_dir ?p2) = ?C" unfolding cleanup_def has_the_doc by (simp cong: filter_cong)
    have "n \<noteq> ''IMPLEMENTED.md''" using n by (auto simp: cleanup_names_def)
    then show ?thesis
      using cleanup_done [OF n, of ?p2] unfolding C has_the_doc by (simp add: final)
  qed
qed

lemma tail_side:
  assumes "completion_tail env False p = (Applied, es)" and nl: "\<And>t. pl_roadmap p = Some t \<Longrightarrow> newlines_only t"
  shows "queue_left env (do_effects es p) = Some False" and "\<not> roadmap_left env (do_effects es p)"
proof -
  let ?v = "status_value False" and ?d = "pl_dir p"
  let ?X = "status_write ?v ?d ''SPEC.md'' @ status_write ?v ?d ''PHASES.md'' @ cleanup ?d"
  obtain qs where es: "es = ?X @ qs @ strike_roadmap_row env (pl_roadmap p) @ provenance_write env"
    and qs: "trim_queue env (pl_queue p) = Some qs"
    using assms(1) by (auto elim: tail_shape)
  let ?p1 = "do_effects ?X p"
  let ?p2 = "do_effects qs ?p1"
  let ?p3 = "do_effects (strike_roadmap_row env (pl_roadmap p)) ?p2"
  have quiet: "list_all (\<lambda>e. \<not> sets_queue e \<and> \<not> sets_roadmap e) ?X"
    unfolding list_all_append by (intro conjI status_side cleanup_side(1))
  have same: "pl_queue ?p1 = pl_queue p" "pl_roadmap ?p1 = pl_roadmap p"
    by (rule frame_queue frame_roadmap, rule list.pred_mono_strong [OF quiet], simp)+
  have "pl_roadmap ?p2 = pl_roadmap ?p1"
    using trim_side [OF qs] by (intro frame_roadmap) (simp add: list_all_iff)
  then have road: "pl_roadmap ?p2 = pl_roadmap p" using same by simp
  have queue: "pl_queue (do_effects es p) = pl_queue ?p2"
    using strike_side provenance_side(1) unfolding es by (simp add: frame_queue list_all_iff)
  show "queue_left env (do_effects es p) = Some False"
    using trim_done [of env ?p1 qs] qs same queue_left_cong [OF queue] by simp
  have "pl_roadmap (do_effects es p) = pl_roadmap ?p3"
    using provenance_side(1) unfolding es by (simp add: frame_roadmap list_all_iff)
  then show "\<not> roadmap_left env (do_effects es p)"
    using strike_done_left [of ?p2 env] nl road by (simp add: roadmap_left_def)
qed

lemma tail_done:
  assumes "completion_tail env fixed p = (Applied, es)" and "\<And>t. pl_roadmap p = Some t \<Longrightarrow> newlines_only t"
  shows "completion_postconditions_missing env fixed (do_effects es p) = Some []"
proof -
  have here: "filter (\<lambda>n. \<not> doc_top_status (status_value fixed) (pl_dir (do_effects es p)) n) [''SPEC.md'', ''PHASES.md''] = []"
      "filter (has_doc (pl_dir (do_effects es p))) cleanup_names = []"
    using tail_docs [OF assms(1)] by (auto simp: filter_empty_conv)
  show ?thesis
  proof (cases fixed)
    case True
    then show ?thesis using here by (simp add: completion_postconditions_missing_def)
  next
    case False
    then show ?thesis using here tail_side [of env p es] assms by (simp add: completion_postconditions_missing_def)
  qed
qed

lemma coherence_end: "coherence env p = (Some e, es, n) \<Longrightarrow> e \<in> {Died, Refused Incoherent}"
  by (auto simp: coherence_def Let_def phase_completion_plan_def split: option.splits prod.splits if_splits)

text \<open>A completion from the start that writes a receipt has passed every gate.\<close>

lemma fresh_cases:
  assumes "mark_fresh env fixed v p = (e, es)"
  obtains "e \<noteq> Applied" "list_all (\<lambda>x. \<not> touches (receipt_name fixed) x) es"
    | xs n r tl where "coherence env p = (None, xs, n)"
        "parse_sentinel (ps_yaml env) (pl_dir p) ''MCP_TEST_RESULTS.md'' = Some r"
        "es = (xs @ [Put (receipt_name fixed) (receipt_text env fixed v r n)]) @ tl"
        "completion_tail env fixed (do_effects (xs @ [Put (receipt_name fixed) (receipt_text env fixed v r n)]) p) = (e, tl)"
        "retro_staleness (ps_yaml env) (pl_dir p) = Some False" "\<not> has_doc (pl_dir p) provisional_sentinel"
        "gate_verdict_ok (ps_yaml env) (ps_gated env) (pl_dir p)"
proof -
  obtain c xs n where coh: "coherence env p = (c, xs, n)" by (cases "coherence env p") auto
  have quiet: "list_all (\<lambda>x. \<not> touches (receipt_name fixed) x) xs"
    using coherence_effects [OF coh] by (auto simp: list_all_iff receipt_name_def)
  show thesis
  proof (cases c)
    case (Some e')
    then have "e' \<noteq> Applied" using coherence_end coh by fastforce
    then show thesis
      using that(1) assms coh Some quiet by (auto simp: mark_fresh_def Let_def split: option.splits bool.splits if_splits)
  next
    case None
    then show thesis
      using that assms coh quiet
      by (auto simp: mark_fresh_def Let_def split: option.splits bool.splits if_splits prod.splits)
  qed
qed

lemma tail_keeps_receipt:
  assumes "completion_tail env fixed p = (Applied, es)"
  shows "list_all (\<lambda>x. \<not> touches (receipt_name fixed) x) es"
proof (rule tail_shape [OF assms])
  fix qs rs assume es: "es = status_write (status_value fixed) (pl_dir p) ''SPEC.md'' @ status_write (status_value fixed) (pl_dir p) ''PHASES.md'' @
       cleanup (pl_dir p) @ qs @ rs @ provenance_write env"
    and none: "fixed \<Longrightarrow> qs = [] \<and> rs = []"
    and some: "\<not> fixed \<Longrightarrow> trim_queue env (pl_queue p) = Some qs \<and> rs = strike_roadmap_row env (pl_roadmap p)"
  let ?n = "receipt_name fixed"
  have n: "?n \<noteq> ''SPEC.md''" "?n \<noteq> ''PHASES.md''" "?n \<noteq> ''IMPLEMENTED.md''" "?n \<notin> set cleanup_names"
    by (simp_all add: receipt_name_def cleanup_names_def)
  have "list_all (\<lambda>x. \<not> touches ?n x) qs \<and> list_all (\<lambda>x. \<not> touches ?n x) rs"
    using none some trim_side [of env "pl_queue p" qs ?n] strike_side [of ?n env "pl_roadmap p"]
    by (cases fixed) (auto simp: list_all_iff)
  then show ?thesis
    unfolding es using n status_write_touches cleanup_side(2) provenance_side(2) by simp
qed

lemma tail_no_receipt:
  assumes "completion_tail env fixed p = (e, es)"
  shows "Put (receipt_name fixed) t \<notin> set es"
proof (cases "e = Applied")
  case True
  then show ?thesis using tail_keeps_receipt [of env fixed p es] assms by (force simp: list_all_iff)
next
  case False
  then have "es = status_write (status_value fixed) (pl_dir p) ''SPEC.md'' @
      status_write (status_value fixed) (pl_dir p) ''PHASES.md'' @ cleanup (pl_dir p)"
    using assms by (auto simp: completion_tail_def Let_def split: if_splits option.splits)
  then show ?thesis by (auto simp: status_write_def cleanup_def receipt_name_def split: option.splits if_splits)
qed

subsection \<open>The gate of the phases\<close>

lemma ticks_need_evidence:
  assumes "tick_rows env d t = Some (n, es)" and "es \<noteq> []"
  obtains v k where "evaluate_completion_evidence (ps_yaml env) (ps_repo env) d = Some (v, k)" "v \<noteq> Refuse"
  using assms by (auto simp: tick_rows_def split: option.splits prod.splits if_splits)

lemma coherence_passed:
  assumes "coherence env p = (None, es, n)"
  obtains ticks rest exempt where "es = ticks @ rest"
    "ticks \<noteq> [] \<Longrightarrow> \<not> ps_strict env \<and>
       (\<exists>v k. evaluate_completion_evidence (ps_yaml env) (ps_repo env) (pl_dir p) = Some (v, k) \<and> v \<noteq> Refuse)"
    "exempt \<Longrightarrow> \<not> ps_strict env \<and>
       evaluate_deferred_runtime_exemption (ps_yaml env) (ps_repo env) (pl_dir (do_effects ticks p)) = Some True"
    "\<And>text. phases_doc (pl_dir (do_effects ticks p)) = Some text \<Longrightarrow>
       list_all (\<lambda>ph. \<not> incoherent exempt ph) (parse_phases text) \<and>
       (exempt \<longrightarrow> Put ''RUNTIME_GATES.md'' (runtime_gates_ledger (ps_date env)
          (enumerate_deferred_verification_rows text)) \<in> set rest) \<and>
       (filter (will_flip exempt) (parse_phases text) \<noteq> [] \<longrightarrow>
          Put ''PHASES.md'' (flip_phases_text (filter (will_flip exempt) (parse_phases text)) text) \<in> set rest)"
proof (cases "phases_doc (pl_dir p)")
  case None
  then show thesis using that [of "[]" "[]" False] assms by (simp add: coherence_def)
next
  case (Some t0)
  define d where "d ticks = pl_dir (do_effects ticks p)" for ticks
  define t where "t ticks = (case phases_doc (d ticks) of None \<Rightarrow> [] | Some t \<Rightarrow> t)" for ticks
  obtain ticks where ticks: "(if ps_strict env then Some (0, []) else tick_rows env (pl_dir p) t0) = Some (n, ticks)"
    using assms Some by (auto simp: coherence_def Let_def phase_completion_plan_def split: option.splits prod.splits if_splits)
  obtain rows where rows: "deferred_rows env (d ticks) (t ticks) = Some rows"
    and coherent: "filter (incoherent (rows \<noteq> [])) (parse_phases (t ticks)) = []"
    and es: "es = ticks @ ledger_write env rows @ (let flips = filter (will_flip (rows \<noteq> [])) (parse_phases (t ticks)) in
        if flips = [] then [] else [Put ''PHASES.md'' (flip_phases_text flips (t ticks))])" (is "_ = _ @ _ @ ?fl")
    using assms Some ticks unfolding coherence_def d_def t_def
    by (auto simp: Let_def phase_completion_plan_def split: option.splits prod.splits if_splits)
  show thesis
  proof (rule that [OF es, of "rows \<noteq> []"])
    show "ticks \<noteq> [] \<Longrightarrow> \<not> ps_strict env \<and>
       (\<exists>v k. evaluate_completion_evidence (ps_yaml env) (ps_repo env) (pl_dir p) = Some (v, k) \<and> v \<noteq> Refuse)"
      using ticks ticks_need_evidence by (metis Pair_inject option.inject)
    show "rows \<noteq> [] \<Longrightarrow> \<not> ps_strict env \<and>
       evaluate_deferred_runtime_exemption (ps_yaml env) (ps_repo env) (pl_dir (do_effects ticks p)) = Some True"
      using rows by (auto simp: deferred_rows_def d_def split: if_splits)
    fix u assume u: "phases_doc (pl_dir (do_effects ticks p)) = Some u"
    then have tu: "t ticks = u" by (simp add: t_def d_def)
    have "rows \<noteq> [] \<Longrightarrow> rows = enumerate_deferred_verification_rows u"
      using rows by (auto simp: deferred_rows_def tu split: if_splits)
    then show "list_all (\<lambda>ph. \<not> incoherent (rows \<noteq> []) ph) (parse_phases u) \<and>
       (rows \<noteq> [] \<longrightarrow> Put ''RUNTIME_GATES.md'' (runtime_gates_ledger (ps_date env)
          (enumerate_deferred_verification_rows u)) \<in> set (ledger_write env rows @ ?fl)) \<and>
       (filter (will_flip (rows \<noteq> [])) (parse_phases u) \<noteq> [] \<longrightarrow>
          Put ''PHASES.md'' (flip_phases_text (filter (will_flip (rows \<noteq> [])) (parse_phases u)) u)
            \<in> set (ledger_write env rows @ ?fl))"
      using coherent by (auto simp: tu filter_empty_conv list_all_iff ledger_write_def Let_def)
  qed
qed

subsection \<open>Ticking\<close>

lemma tick_marks_length [simp]: "length (tick_marks inside mk old ls) = length ls"
  by (induction inside mk old ls rule: tick_marks.induct) (auto simp: Let_def split: option.splits)

lemma tick_marks_rows:
  "i < length ls \<Longrightarrow> tick_marks inside mk old ls ! i \<Longrightarrow>
    tick_box (line_body (ls ! i)) \<noteq> None \<and> \<not> contains audit_prefix (raw_line (ls ! i))"
proof (induction inside mk old ls arbitrary: i rule: tick_marks.induct)
  case (2 inside mk old l ls)
  then show ?case
    by (cases i) (auto simp: Let_def to_tick_def split: option.splits if_splits)
qed simp

end
