(* ===== verification/Route_Steps.thy ===== *)
theory Route_Steps
  imports Upstream_Docs Queue_Store
begin

text \<open>
  The steps of \<open>compute_state\<close> in \<^verbatim>\<open>user/scripts/lazy-state.py\<close> after an item has been selected (Steps 2.9
  to 10). Each step passes, or halts the probe with a route and what it writes. A step that passes may
  have cleared the stub flag in the queue file. The result \<open>None\<close> is the end of the process.
\<close>

subsection \<open>Routes\<close>

datatype doc_write = NoWrite | WriteDoc string string  \<comment> \<open>the name and the text of a file in the item directory\<close>

datatype step_result = Onward | Halt route doc_write

type_synonym step = "step_env \<Rightarrow> route_cfg \<Rightarrow> item \<Rightarrow> item_dir \<Rightarrow> step_result option"

definition dispatch :: "item \<Rightarrow> string \<Rightarrow> string \<Rightarrow> string \<Rightarrow> route" where
  "dispatch it step skill args = (item_route it step)\<lparr>sub_skill := Some skill, sub_skill_args := Some args\<rparr>"

definition halt_stop :: "item \<Rightarrow> string \<Rightarrow> string \<Rightarrow> step_result" where
  "halt_stop it step reason = Halt (item_stop it step reason) NoWrite"

definition halt_run :: "item \<Rightarrow> string \<Rightarrow> string \<Rightarrow> string \<Rightarrow> step_result" where
  "halt_run it step skill args = Halt (dispatch it step skill args) NoWrite"

definition spec_file :: "item \<Rightarrow> string" where
  "spec_file it = path_str (it_path it) @ ''/SPEC.md''"

definition the_yaml :: "step_env \<Rightarrow> yaml" where
  "the_yaml env = rt_yaml (se_walk env)"

definition the_repo :: "step_env \<Rightarrow> repo_env" where
  "the_repo env = rt_repo (se_walk env)"

text \<open>A sentinel \<open>NEEDS_INPUT.md\<close> that the script writes itself, with one decision.\<close>

definition needs_input_text :: "step_env \<Rightarrow> item \<Rightarrow> string \<Rightarrow> string list \<Rightarrow> string \<Rightarrow> string list \<Rightarrow> string" where
  "needs_input_text env it writer extra title body = join newline
     ([fence, ''kind: needs-input'', ''feature_id: '' @ last (it_path it), ''written_by: '' @ writer] @ extra @
      [''decisions:'', ''  - \"'' @ title @ ''\"'', ''date: '' @ rt_today (se_walk env), fence, [],
       ''## Decision Context'', [], ''### 1. '' @ title, []] @ body @ [[]])"

subsection \<open>Steps 2.9 to 3.6: what halts an item\<close>

definition stale_step :: step where
  "stale_step env cfg it d =
     Some (if has_doc d ''STALE_UPSTREAM.md''
           then halt_stop it ''Step 2.9: stale-upstream'' ''stale_upstream'' else Onward)"

definition spike_cap_body :: "item \<Rightarrow> string \<Rightarrow> string list" where
  "spike_cap_body it rounds =
     [''**Problem:** The Spike role for `'' @ it_name it @ ''` has run through '' @ rounds @
      '' corrective tooling rounds without resolving the required tooling gap (SPEC \"The tooling-existence loop (bounded)\"). '' @
      ''The loop is bounded to prevent an unbounded corrective cycle '' @ em_dash @
      '' operator input is needed to decide how to proceed (e.g. install/author the missing tooling manually, '' @
      ''relax the Spike'' @ [quote_char] @ ''s runtime-proof requirement, or reassess the goal).'']"

definition spike_cap_text :: "step_env \<Rightarrow> item \<Rightarrow> string \<Rightarrow> string" where
  "spike_cap_text env it rounds = needs_input_text env it ''spike'' [''spike_verdict: pending'']
     (''Spike tooling gap persists after '' @ rounds @ '' corrective rounds '' @ em_dash @ '' operator decision needed'')
     (spike_cap_body it rounds)"

definition spike_cap_stop :: "step_env \<Rightarrow> item \<Rightarrow> string \<Rightarrow> meta \<Rightarrow> step_result" where
  "spike_cap_stop env it step m =
     Halt (item_stop it step ''needs-input'')
       (WriteDoc ''NEEDS_INPUT.md'' (spike_cap_text env it (py_str (mget m ''spike_tooling_rounds''))))"

definition blocked_step :: step where
  "blocked_step env cfg it d =
     (if \<not> has_doc d ''BLOCKED.md'' then Some Onward
      else map_option
        (\<lambda>m. if mget m ''blocker_kind'' = JStr ''runtime-spike-verdict-pending'' then
               if spike_tooling_cap_exceeded m
               then spike_cap_stop env it ''Step 3: spike tooling-round cap exceeded'' m
               else halt_run it ''Step 3: spike verdict pending (blocked resolver)'' ''spike''
                 (''resolve the spike blocker for '' @ it_name it @
                  '': run the runtime proof and write SPIKE_VERDICT.md (verdict: PASS|FAIL, with observed evidence) in '' @
                  path_str (it_path it) @ '', then neutralize BLOCKED.md. See '' @ spec_file it @ ''.'')
             else Halt ((item_stop it ''Step 3: blocked'' ''blocked'')\<lparr>escalated := validation_escalation m\<rparr>) NoWrite)
        (parse_sentinel (the_yaml env) d ''BLOCKED.md''))"

definition misnamed_step :: step where
  "misnamed_step env cfg it d =
     Some (if detect_noncanonical_blocker d \<noteq> None
           then halt_stop it ''Step 3: mis-named blocker'' ''blocked-misnamed'' else Onward)"

definition input_step :: step where
  "input_step env cfg it d =
     (if \<not> has_doc d ''NEEDS_INPUT.md'' then Some Onward
      else map_option (\<lambda>_. halt_stop it ''Step 3.5: needs-input'' ''needs-input'')
             (parse_sentinel (the_yaml env) d ''NEEDS_INPUT.md''))"

definition ratify_step :: step where
  "ratify_step env cfg it d =
     (if has_doc d provisional_sentinel \<and> \<not> cfg_park_needs_input cfg
      then map_option (\<lambda>_. halt_stop it ''Step 3.6: needs-ratification'' ''needs-ratification'')
             (parse_sentinel (the_yaml env) d provisional_sentinel)
      else Some Onward)"

subsection \<open>Steps 4 to 6: specification, research, phases\<close>

definition spec_step :: step where
  "spec_step env cfg it d =
     Some (if has_doc d ''SPEC.md'' then Onward
       else if list_all (\<lambda>n. n \<in> {''BLOCKED.md'', ''NEEDS_INPUT.md''}) (dkeys (docs d))
       then halt_stop it ''Step 4: no SPEC, no research'' ''needs-spec-input''
       else if has_doc d ''ADHOC_BRIEF.md''
       then halt_run it (''Step 4: ad-hoc brief '' @ arrow @ '' spec'') ''spec''
              (it_name it @ '' '' @ em_dash @ '' ad-hoc task; see '' @ path_str (it_path it) @ ''/ADHOC_BRIEF.md for the brief'')
       else halt_run it ''Step 4: SPEC missing, research files present'' ''spec''
              (it_name it @ '' '' @ em_dash @ '' see '' @ path_str (it_path it) @ '' for prior research''))"

text \<open>When the flag in the queue is the last trace of the stub it is cleared, and the probe goes on.\<close>

definition stub_step :: step where
  "stub_step env cfg it d =
     (if stub_is_queue_flag_only (spec_text d) (it_entry it) then
        (case fst (clear_queue_stub (it_id it) (se_queue env)) of Inl x \<Rightarrow> None | Inr _ \<Rightarrow> Some Onward)
      else Some (if is_stub_spec (spec_text d) (it_entry it)
        then halt_run it ''Step 4.5: stub-spec detected'' ''spec''
               (it_name it @ '' '' @ em_dash @ '' existing stub at '' @ spec_file it @
                '' is auto-generated from research summary; treat as starting context for Phase 1 brainstorming and overwrite when baseline is locked in'')
        else Onward))"

definition realign_step :: step where
  "realign_step env cfg it d =
     Option.bind (complete_upstreams env (it_path it) (parse_dep_block (spec_text d))) (\<lambda>ups.
       if ups = [] then Some Onward
       else map_option
         (\<lambda>is_fresh. if is_fresh then Onward
            else halt_run it ''Step 4.6: upstream realign needed'' ''realign-spec'' (spec_file it @ '' --apply''))
         (realign_is_fresh env d ups))"

definition researched :: "item_dir \<Rightarrow> bool" where
  "researched d = (has_doc d ''RESEARCH.md'' \<or> has_doc d ''RESEARCH_SUMMARY.md'')"

definition past_research :: "item_dir \<Rightarrow> bool" where
  "past_research d = (case phases_doc d of None \<Rightarrow> False | Some t \<Rightarrow> phases_show_implementation t d)"

definition research_step :: step where
  "research_step env cfg it d =
     (if \<not> researched d \<and> \<not> past_research d then
        if has_doc d ''NEEDS_RESEARCH.md''
        then map_option (\<lambda>_. halt_stop it ''Step 5: needs-research (persistent)'' ''needs-research'')
               (parse_sentinel (the_yaml env) d ''NEEDS_RESEARCH.md'')
        else Some (if has_doc d ''RESEARCH_PROMPT.md''
          then halt_stop it ''Step 5: prompt exists, awaiting research'' ''needs-research''
          else halt_run it ''Step 5: generate research prompt'' ''spec''
                 (it_name it @ '' '' @ em_dash @ '' SPEC.md already exists at '' @ spec_file it @
                  '', skip to Phase 2 (research prompt generation)''))
      else Some (if has_doc d ''RESEARCH.md'' \<and> \<not> has_doc d ''RESEARCH_SUMMARY.md''
        then halt_run it ''Step 5: integrate research'' ''spec''
               (it_name it @ '' '' @ em_dash @ '' SPEC.md and RESEARCH.md exist at '' @ path_str (it_path it) @
                '', skip to Phase 3 (integrate research and finalize spec)'')
        else Onward))"

definition phases_step :: step where
  "phases_step env cfg it d =
     Some (if has_doc d ''PHASES.md'' then Onward
           else halt_run it ''Step 6: plan feature (phases + plan)'' ''plan-feature'' (spec_file it))"

subsection \<open>Step 7: plans\<close>

definition plan_file :: "item \<Rightarrow> plan_ref \<Rightarrow> string" where
  "plan_file it p = path_str (it_path it) @ (case p of InPlans n \<Rightarrow> ''/plans/'' @ n | LegacyPlan \<Rightarrow> ''/PLAN.md'')"

text \<open>All work in the scope of the plan is done already, except for what the test gate will tick.\<close>

definition plan_is_stale :: "string \<Rightarrow> string \<Rightarrow> int set \<Rightarrow> bool" where
  "plan_is_stale phases plan ps =
     (ps \<noteq> {} \<and>
      (if all_wus_in_plan_scope phases ps \<noteq> []
       then unchecked_wus_in_plan_scope phases ps = [] \<or>
            remaining_unchecked_are_verification_only (phases_text_scoped_to phases ps)
       else 0 < snd (plan_wu_checkbox_counts plan) \<and>
            (fst (plan_wu_checkbox_counts plan) = 0 \<or> remaining_unchecked_are_verification_only plan)))"

definition plan_structural_backstop :: "step_env \<Rightarrow> string \<Rightarrow> bool" where
  "plan_structural_backstop env plan =
     (\<not> se_plan_errors env plan \<or> 0 < snd (plan_wu_checkbox_counts plan) \<or> plan_wu_checkbox_counts plan = (0, 0))"

definition run_plan :: "step_env \<Rightarrow> item \<Rightarrow> item_dir \<Rightarrow> plan_ref \<Rightarrow> step_result" where
  "run_plan env it d p =
     (if plan_structural_backstop env (plan_text d p)
      then halt_run it ''Step 7a: execute plan'' ''execute-plan'' (plan_file it p)
      else Halt (item_stop it ''Step 7a: blocked (plan structurally invalid)'' ''blocked'')
        (if has_doc d ''BLOCKED.md'' then NoWrite
         else WriteDoc ''BLOCKED.md''
           (blocked_text (se_walk env) (it_id it) ''Plan structural validation'' ''plan-structural-invalid'')))"

definition route_plan :: "step_env \<Rightarrow> route_cfg \<Rightarrow> item \<Rightarrow> item_dir \<Rightarrow> string \<Rightarrow> plan_ref \<Rightarrow> step_result option" where
  "route_plan env cfg it d phases p =
     Option.bind (plan_phase_set (the_yaml env) d p) (\<lambda>ps.
       if plan_is_stale phases (plan_text d p) ps
       then Some (halt_run it (''Step 7a: flip plan Complete (stale '' @ em_dash @
              '' all referenced implementation deliverables already checked)'') ''__flip_plan_complete_stale__'' (plan_file it p))
       else if cfg_cloud cfg \<and> plan_status (the_yaml env) d p = Some ''In-progress'' then
         map_option
           (\<lambda>full. if full then halt_run it ''Step 7a: flip plan Complete (cloud-saturated)''
                                 ''__flip_plan_complete_cloud_saturated__'' (plan_file it p)
                   else run_plan env it d p)
           (plan_cloud_saturated (the_yaml env) d p phases)
       else Some (run_plan env it d p))"

text \<open>The implementation is done although rows are open: the later gates own what is left.\<close>

definition plan_bypass :: "step_env \<Rightarrow> route_cfg \<Rightarrow> item_dir \<Rightarrow> string \<Rightarrow> bool option" where
  "plan_bypass env cfg d phases =
     (if cfg_cloud cfg then has_any_complete_plan (the_yaml env) d
      else Some (remaining_unchecked_are_verification_only phases))"

definition plan_step :: step where
  "plan_step env cfg it d =
     (case phases_doc d of
        None \<Rightarrow> Some Onward
      | Some phases \<Rightarrow>
          if fst (count_deliverables phases) = 0 then Some Onward
          else Option.bind (find_implementation_plans (the_yaml env) d) (\<lambda>plans.
            case plans of
              p # _ \<Rightarrow> route_plan env cfg it d phases p
            | [] \<Rightarrow> map_option
                (\<lambda>bypass. if bypass then Onward
                   else halt_run it ''Step 7a: write plan''
                     (if has_cognito_planner (the_repo env) then ''write-plan-cognito'' else ''write-plan'')
                     (path_str (it_path it) @ ''/PHASES.md''))
                (plan_bypass env cfg d phases)))"

subsection \<open>Step 9: validation\<close>

definition device_step :: step where
  "device_step env cfg it d =
     (if \<not> has_doc d ''DEFERRED_REQUIRES_DEVICE.md'' then Some Onward
      else if \<not> real_device cfg
      then Some (halt_stop it ''Step 9: device-deferred (no real device on this host)'' ''device-queue-exhausted'')
      else Option.bind (parse_sentinel (the_yaml env) d ''DEFERRED_REQUIRES_DEVICE.md'') (\<lambda>m.
        map_option
          (\<lambda>scen. halt_run it ''Step 9: re-open device-deferred scenarios (real-device host)'' ''mcp-test''
             (''re-validate '' @ it_name it @ '' deferred real-device assertions ['' @ scen @
              ''] on THIS real-device host '' @ em_dash @ '' see '' @ path_str (it_path it) @
              ''/DEFERRED_REQUIRES_DEVICE.md. On pass, delete that sentinel and write VALIDATED.md; on a genuine failure treat it as a real bug (BLOCKED.md), not an environment skip.''))
          (scenario_text (mget m ''deferred_scenarios''))))"

text \<open>A waiver of the tests is taken over, or an operator has to confirm it.\<close>

definition waiver_route :: "step_env \<Rightarrow> item \<Rightarrow> item_dir \<Rightarrow> step_result option" where
  "waiver_route env it d =
     map_option
       (\<lambda>m. if skip_waiver_refusal (the_repo env) m \<noteq> None
            then halt_stop it ''Step 9: pipeline-granted skip needs operator confirmation'' ''needs-input''
            else halt_run it (''Step 9: skip-mcp-test '' @ arrow @ '' validated'') ''__write_validated_from_skip__''
                   (path_str (it_path it)))
       (parse_sentinel (the_yaml env) d ''SKIP_MCP_TEST.md'')"

definition results_promotable :: "meta \<Rightarrow> bool" where
  "results_promotable m =
     (mget m ''result'' = JStr ''all-passing'' \<or>
      observation_gap_promotable m \<and> evidence_count (mget m ''pass_count'') \<noteq> None \<and>
      evidence_count (mget m ''pass_count'') = evidence_count (mget m ''total_count''))"

definition test_route :: "step_env \<Rightarrow> item \<Rightarrow> item_dir \<Rightarrow> step_result" where
  "test_route env it d =
     (if structurally_skipped (the_repo env) d
      then halt_run it ''Step 9: structural MCP-skip (no app surface)'' ''__grant_skip_no_mcp_surface__'' (path_str (it_path it))
      else halt_run it ''Step 9: run MCP tests'' ''mcp-test''
             (''validate '' @ it_name it @ '' '' @ em_dash @ '' see '' @ spec_file it))"

definition results_route :: "step_env \<Rightarrow> item \<Rightarrow> item_dir \<Rightarrow> step_result option" where
  "results_route env it d =
     (if \<not> has_doc d ''MCP_TEST_RESULTS.md'' then Some (test_route env it d)
      else map_option
        (\<lambda>m. if \<not> results_promotable m then test_route env it d
             else if commit_drift_verdict (the_repo env) (opt_str (mget m ''validated_commit'')) \<in> {NonDocsDrift, Unresolvable}
             then halt_run it (''Step 9: stale MCP results '' @ em_dash @ '' re-verify'') ''mcp-test''
                    (''re-validate '' @ it_name it @ '' '' @ em_dash @
                     '' MCP_TEST_RESULTS.md was validated against a stale commit; see '' @ spec_file it)
             else halt_run it ''Step 9b: write validated'' ''__write_validated_from_results__'' (path_str (it_path it)))
        (parse_sentinel (the_yaml env) d ''MCP_TEST_RESULTS.md''))"

definition validation_step :: step where
  "validation_step env cfg it d =
     (if has_doc d ''VALIDATED.md'' then Some Onward
      else if has_doc d ''SKIP_MCP_TEST.md'' then waiver_route env it d
      else if cfg_cloud cfg then
        Some (if has_doc d ''DEFERRED_NON_CLOUD.md'' then Onward
              else halt_run it ''Step 9: cloud defers MCP test'' ''__write_deferred_non_cloud__'' (path_str (it_path it)))
      else results_route env it d)"

definition spike_step :: step where
  "spike_step env cfg it d =
     (if \<not> phases_spike_required d then Some Onward
      else Option.bind (spike_verdict_is_pass (the_yaml env) d) (\<lambda>pass.
        if pass then Some Onward
        else map_option
          (\<lambda>m. if spike_tooling_cap_exceeded m
               then spike_cap_stop env it ''Step 9.5: spike tooling-round cap exceeded'' m
               else halt_run it ''Step 9.5: spike verdict pending'' ''spike''
                 (''run the runtime proof for '' @ it_name it @ '' '' @ em_dash @ '' goal: '' @
                  (case read_spike_decision d of None \<Rightarrow> ''None'' | Some g \<Rightarrow> g) @
                  ''. Write SPIKE_VERDICT.md (verdict: PASS|FAIL, with observed evidence) in '' @ path_str (it_path it) @
                  ''; see '' @ spec_file it @ ''.''))
          (parse_sentinel (the_yaml env) d ''SPIKE_VERDICT.md'')))"

subsection \<open>Step 10: completion\<close>

definition rows_route :: "item \<Rightarrow> nat \<Rightarrow> step_result" where
  "rows_route it n =
     halt_run it ''Step 10: re-route to mcp-test (uncovered verification rows)'' ''mcp-test''
       (''finish the runtime-verification matrix for '' @ it_name it @ '' '' @ em_dash @ '' '' @ decimal (int n) @
        '' uncovered row(s) remain after a partial VALIDATED.md; author/run the missing scenario(s), and where a row lacks the canonical <!-- verification-only --> marker migrate it to the marker once its verification ACTUALLY runs, then re-validate. See '' @
        spec_file it @ '' and PHASES.md.'')"

definition step10_body :: "item \<Rightarrow> string list" where
  "step10_body it =
     [''**Problem:** All PHASES.md deliverables are complete but none of the expected validation sentinels exist: '' @
      ''no `VALIDATED.md`, no `SKIP_MCP_TEST.md`, and no `DEFERRED_NON_CLOUD.md`. This state is defensively unreachable '' @
      ''via the normal pipeline '' @ em_dash @ '' it most likely means sentinels were deleted or renamed manually for `'' @
      it_name it @ ''`. The pipeline cannot proceed to Step 10 (mark complete) without knowing whether MCP validation was performed.'', [],
      ''**Options:**'',
      ''- **Re-open for MCP validation** '' @ em_dash @ '' re-run `/lazy` so the pipeline re-dispatches `/mcp-test`. '' @
      ''Use this when the feature was never actually validated.'',
      ''- **Restore a missing sentinel** '' @ em_dash @ '' if `VALIDATED.md` or `SKIP_MCP_TEST.md` was accidentally deleted, '' @
      ''recreate it (check git history for the original content) and re-run `/lazy`. Use this when validation DID happen but the file was lost.'',
      ''- **Investigate and reset** '' @ em_dash @ '' if the root cause is unclear, check `git log -- docs/features/ ` and '' @
      ''`git log --diff-filter=D` to find when the sentinels were removed, then decide which of the above options applies.'', [],
      ''**Recommendation:** Re-open for MCP validation '' @ em_dash @ '' this is the safest option because it forces a confirmed '' @
      ''validation pass before `Complete` is written.'']"

definition complete_step :: step where
  "complete_step env cfg it d =
     (if \<not> has_doc d ''VALIDATED.md'' \<and> \<not> (cfg_cloud cfg \<and> has_doc d ''DEFERRED_NON_CLOUD.md'')
      then Some (Halt (item_stop it ''Step 10: unexpected state'' ''needs-input'')
        (WriteDoc ''NEEDS_INPUT.md'' (needs_input_text env it ''lazy-state-step10'' []
          ''Resolve unexpected Step 10 state: phases complete without a validation sentinel'' (step10_body it))))
      else if \<not> has_doc d ''VALIDATED.md''
      then Some (halt_stop it ''Step 10a: cloud halt'' ''cloud-queue-exhausted'')
      else if has_doc d provisional_sentinel
      then Some (halt_stop it ''Step 3.6: needs-ratification'' ''needs-ratification'')
      else map_option
        (\<lambda>rows. if rows \<noteq> [] then rows_route it (length rows)
                else halt_run it ''Step 10: mark complete'' ''__mark_complete__'' (path_str (it_path it)))
        (if structurally_skipped (the_repo env) d then Some []
         else uncovered_verification_rows_remain (the_yaml env) (the_repo env) d
                (case phases_doc d of None \<Rightarrow> [] | Some t \<Rightarrow> t)))"

subsection \<open>The probe\<close>

definition route_steps :: "step list" where
  "route_steps = [stale_step, blocked_step, misnamed_step, input_step, ratify_step, spec_step, stub_step, realign_step,
     research_step, phases_step, plan_step, device_step, validation_step, spike_step, complete_step]"

fun run_steps :: "step list \<Rightarrow> step" where
  "run_steps [] env cfg it d = Some Onward"
| "run_steps (s # ss) env cfg it d =
     (case s env cfg it d of None \<Rightarrow> None | Some Onward \<Rightarrow> run_steps ss env cfg it d | Some (Halt r w) \<Rightarrow> Some (Halt r w))"

definition route_item :: step where
  "route_item = run_steps route_steps"

text \<open>The queue file after the probe: the flag of a stub is cleared when the probe gets to that step.\<close>

definition queue_after :: "step_env \<Rightarrow> route_cfg \<Rightarrow> item \<Rightarrow> item_dir \<Rightarrow> json jfile" where
  "queue_after env cfg it d =
     (if run_steps (take 6 route_steps) env cfg it d = Some Onward \<and> stub_is_queue_flag_only (spec_text d) (it_entry it)
      then snd (clear_queue_stub (it_id it) (se_queue env)) else se_queue env)"

definition apply_write :: "doc_write \<Rightarrow> item_dir \<Rightarrow> item_dir" where
  "apply_write w d = (case w of NoWrite \<Rightarrow> d | WriteDoc n t \<Rightarrow> put_doc n \<lparr>doc_text = t, doc_mtime = 0\<rparr> d)"

text \<open>What a probe leaves behind: the route, the walk, the directory of the item and the queue file.\<close>

record probe_end =
  pe_route :: route
  pe_walk :: walk
  pe_dir :: "item_dir option"
  pe_queue :: "json jfile"

definition step_dir :: "item \<Rightarrow> walk \<Rightarrow> item_dir" where
  "step_dir it w = (case dget (w_disk w) (it_path it) of Some d \<Rightarrow> d | None \<Rightarrow> it_dir it)"

definition compute_state :: "step_env \<Rightarrow> route_cfg \<Rightarrow> probe_end option" where
  "compute_state env cfg =
     Option.bind (route_queue (se_walk env) cfg (se_disk env) (se_queue env)) (\<lambda>(res, w).
       case res of
         Inr r \<Rightarrow> Some \<lparr>pe_route = r, pe_walk = w, pe_dir = None, pe_queue = se_queue env\<rparr>
       | Inl it \<Rightarrow>
           (let d = step_dir it w; env1 = env\<lparr>se_disk := w_disk w\<rparr> in
            case route_item env1 cfg it d of
              Some (Halt r wr) \<Rightarrow> Some \<lparr>pe_route = r, pe_walk = w, pe_dir = Some (apply_write wr d),
                                     pe_queue = queue_after env1 cfg it d\<rparr>
            | _ \<Rightarrow> None))"

end
