(* ===== verification/Route_Facts.thy ===== *)
theory Route_Facts
  imports Route_Steps Walk_Props
begin

text \<open>
  The properties of the routing in \<^theory_text>\<open>Route_Steps\<close>. The interface \<open>route_step\<close> is the contract of one step:
  it halts with one decision, for its own item; every step of the program is an interpretation.
\<close>

named_theorems step_defs
  \<open>the steps and what they build\<close>

declare stale_step_def [step_defs] blocked_step_def [step_defs] misnamed_step_def [step_defs]
  input_step_def [step_defs] ratify_step_def [step_defs] spec_step_def [step_defs] stub_step_def [step_defs]
  realign_step_def [step_defs] research_step_def [step_defs] phases_step_def [step_defs]
  device_step_def [step_defs] spike_step_def [step_defs] complete_step_def [step_defs]
  halt_stop_def [step_defs] halt_run_def [step_defs] spike_cap_stop_def [step_defs] rows_route_def [step_defs]

lemma dispatch_fields [simp]:
  "sub_skill (dispatch it step skill args) = Some skill" "terminal_reason (dispatch it step skill args) = None"
  "feature_id (dispatch it step skill args) = Some (it_id it)" "current_step (dispatch it step skill args) = Some step"
  "sub_skill_args (dispatch it step skill args) = Some args"
  by (simp_all add: dispatch_def item_route_def blank_route_def)

lemma item_stop_step [simp]: "current_step (item_stop it step reason) = Some step"
  by (simp add: item_stop_def item_route_def blank_route_def)

text \<open>A decision for an item: a skill to run or a reason to stop, and never both.\<close>

definition decision :: "route \<Rightarrow> bool" where
  "decision r \<longleftrightarrow> (sub_skill r = None \<longleftrightarrow> terminal_reason r \<noteq> None)"

lemma decision_simps [simp]:
  "decision (dispatch it step skill args)" "decision (item_stop it step reason)" "decision (stop_route reason st)"
  "decision ((item_stop it step reason)\<lparr>escalated := b\<rparr>)"
  by (simp_all add: decision_def stop_route_def blank_route_def)

text \<open>
  The steps before the last one hand over to no other skill than those named here, and the step they report
  is their own.
\<close>

locale route_step =
  fixes st :: step and skills :: "string set"
  assumes halts: "st env cfg it d = Some (Halt r w) \<Longrightarrow> decision r \<and> feature_id r = Some (it_id it)"
    and runs: "st env cfg it d = Some (Halt r w) \<Longrightarrow> sub_skill r = Some k \<Longrightarrow> k \<in> skills"

lemma item_stop_escalated [simp]:
  "sub_skill ((item_stop it step reason)\<lparr>escalated := b\<rparr>) = None"
  "feature_id ((item_stop it step reason)\<lparr>escalated := b\<rparr>) = Some (it_id it)"
  "terminal_reason ((item_stop it step reason)\<lparr>escalated := b\<rparr>) = Some reason"
  by (simp_all add: item_stop_def item_route_def blank_route_def)

interpretation stale_st: route_step stale_step "{}"
  by unfold_locales (auto simp: step_defs split: if_splits)

interpretation blocked_st: route_step blocked_step "{''spike''}"
  by unfold_locales (auto simp: step_defs split: if_splits)

interpretation misnamed_st: route_step misnamed_step "{}"
  by unfold_locales (auto simp: step_defs split: if_splits)

interpretation input_st: route_step input_step "{}"
  by unfold_locales (auto simp: step_defs split: if_splits)

interpretation ratify_st: route_step ratify_step "{}"
  by unfold_locales (auto simp: step_defs split: if_splits)

interpretation spec_st: route_step spec_step "{''spec''}"
  by unfold_locales (auto simp: step_defs split: if_splits)

interpretation stub_st: route_step stub_step "{''spec''}"
  by unfold_locales (auto simp: step_defs split: if_splits sum.splits)

interpretation realign_st: route_step realign_step "{''realign-spec''}"
  by unfold_locales (auto simp: step_defs bind_eq_Some_conv split: if_splits)

interpretation research_st: route_step research_step "{''spec''}"
  by unfold_locales (auto simp: step_defs split: if_splits)

interpretation phases_st: route_step phases_step "{''plan-feature''}"
  by unfold_locales (auto simp: step_defs split: if_splits)

definition plan_skills :: "string set" where
  "plan_skills = {''write-plan'', ''write-plan-cognito'', ''execute-plan'', ''__flip_plan_complete_stale__'',
     ''__flip_plan_complete_cloud_saturated__''}"

lemma run_plan_halts:
  "run_plan env it d p = Halt r w \<Longrightarrow> decision r \<and> feature_id r = Some (it_id it)"
  "run_plan env it d p = Halt r w \<Longrightarrow> sub_skill r = Some k \<Longrightarrow> k \<in> plan_skills"
  "run_plan env it d p \<noteq> Onward"
  by (auto simp: run_plan_def halt_run_def plan_skills_def split: if_splits)

lemma route_plan_cases:
  assumes "route_plan env cfg it d t p = Some out"
  obtains "out = run_plan env it d p"
    | step args where "out = halt_run it step ''__flip_plan_complete_stale__'' args"
    | step args where "out = halt_run it step ''__flip_plan_complete_cloud_saturated__'' args"
  using assms by (auto simp: route_plan_def bind_eq_Some_conv split: if_splits)

lemma route_plan_halts:
  assumes "route_plan env cfg it d t p = Some (Halt r w)"
  shows "decision r \<and> feature_id r = Some (it_id it) \<and> (\<forall>k. sub_skill r = Some k \<longrightarrow> k \<in> plan_skills)"
  using assms
proof (cases rule: route_plan_cases)
  case 1
  then have "run_plan env it d p = Halt r w" by simp
  then show ?thesis using run_plan_halts by blast
qed (simp_all add: halt_run_def plan_skills_def)

text \<open>The plan step halts on its first open plan, or asks for a plan to be written.\<close>

lemma plan_step_cases:
  assumes "plan_step env cfg it d = Some (Halt r w)"
  obtains t p where "route_plan env cfg it d t p = Some (Halt r w)"
    | skill args where "skill \<in> {''write-plan'', ''write-plan-cognito''}"
        "Halt r w = halt_run it ''Step 7a: write plan'' skill args"
proof -
  obtain t where t: "phases_doc d = Some t" "fst (count_deliverables t) \<noteq> 0"
    using assms by (auto simp: plan_step_def split: option.splits if_splits)
  obtain plans where plans: "find_implementation_plans (the_yaml env) d = Some plans"
    using assms t by (auto simp: plan_step_def bind_eq_Some_conv)
  show thesis
  proof (cases plans)
    case Nil
    define skill where
      "skill = (if has_cognito_planner (the_repo env) then ''write-plan-cognito'' else ''write-plan'')"
    have "Halt r w = halt_run it ''Step 7a: write plan'' skill (path_str (it_path it) @ ''/PHASES.md'')"
      using assms t plans Nil by (auto simp: plan_step_def skill_def split: if_splits)
    moreover have "skill \<in> {''write-plan'', ''write-plan-cognito''}" by (cases "has_cognito_planner (the_repo env)") (simp_all only: skill_def if_True if_False insertI1 insertI2)
    ultimately show ?thesis by (rule that(2) [rotated])
  next
    case (Cons p ps)
    then have "route_plan env cfg it d t p = Some (Halt r w)" using assms t plans by (simp add: plan_step_def)
    then show ?thesis by (rule that(1))
  qed
qed

lemma plan_step_halts:
  assumes "plan_step env cfg it d = Some (Halt r w)"
  shows "decision r \<and> feature_id r = Some (it_id it) \<and> (\<forall>k. sub_skill r = Some k \<longrightarrow> k \<in> plan_skills)"
  using assms
proof (cases rule: plan_step_cases)
  case (1 t p)
  then show ?thesis by (rule route_plan_halts)
next
  case (2 skill args)
  then show ?thesis by (auto simp: halt_run_def plan_skills_def)
qed

interpretation plan_st: route_step plan_step plan_skills
  by unfold_locales (use plan_step_halts in blast)+

interpretation device_st: route_step device_step "{''mcp-test''}"
  by unfold_locales (auto simp: step_defs bind_eq_Some_conv split: if_splits)

definition validation_skills :: "string set" where
  "validation_skills = {''mcp-test'', ''__write_validated_from_skip__'', ''__write_validated_from_results__'',
     ''__grant_skip_no_mcp_surface__'', ''__write_deferred_non_cloud__''}"

lemma validation_halts:
  assumes "validation_step env cfg it d = Some (Halt r w)"
  shows "decision r \<and> feature_id r = Some (it_id it) \<and> (\<forall>k. sub_skill r = Some k \<longrightarrow> k \<in> validation_skills)"
  using assms
  by (auto simp: validation_step_def waiver_route_def results_route_def test_route_def halt_run_def halt_stop_def
      validation_skills_def split: if_splits)

interpretation validation_st: route_step validation_step validation_skills
  by unfold_locales (use validation_halts in blast)+

interpretation spike_st: route_step spike_step "{''spike''}"
  by unfold_locales (auto simp: step_defs bind_eq_Some_conv split: if_splits)

interpretation complete_st10: route_step complete_step "{''mcp-test'', ''__mark_complete__''}"
  by unfold_locales (auto simp: step_defs split: if_splits)

end
