(* ===== verification/Route_Props.thy ===== *)
theory Route_Props
  imports Route_Facts
begin

text \<open>
  What a probe promises once an item is selected: every probe decides, an item is marked complete only when
  its documents allow it, results are promoted only when they are fresh, a plan is executed only while it is
  open, and a sentinel that the probe writes stops the next one.
\<close>

subsection \<open>A list of steps\<close>

lemma run_steps_append:
  "run_steps (ss @ ts) env cfg it d =
    (case run_steps ss env cfg it d of Some Onward \<Rightarrow> run_steps ts env cfg it d | r \<Rightarrow> r)"
  by (induction ss) (auto split: option.splits step_result.splits)

lemma run_steps_onward:
  "run_steps ss env cfg it d = Some Onward \<longleftrightarrow> (\<forall>s\<in>set ss. s env cfg it d = Some Onward)"
  by (induction ss) (auto split: option.splits step_result.splits)

lemma run_steps_from:
  assumes "run_steps ss env cfg it d = Some (Halt r w)"
  shows "\<exists>s\<in>set ss. s env cfg it d = Some (Halt r w)"
  using assms by (induction ss) (auto split: option.splits step_result.splits)

text \<open>When no other step can halt with this route, the steps before this one have passed.\<close>

lemma halted_at:
  assumes "run_steps (ss @ s # ts) env cfg it d = Some (Halt r w)"
    and "\<forall>t\<in>set ss \<union> set ts. t env cfg it d \<noteq> Some (Halt r w)"
  shows "s env cfg it d = Some (Halt r w) \<and> (\<forall>t\<in>set ss. t env cfg it d = Some Onward)"
proof -
  have ss: "run_steps ss env cfg it d \<noteq> Some (Halt r w)" "run_steps ts env cfg it d \<noteq> Some (Halt r w)"
    using run_steps_from [of ss env cfg it d r w] run_steps_from [of ts env cfg it d r w] assms(2) by blast+
  then have on: "run_steps ss env cfg it d = Some Onward"
    using assms(1) by (auto simp: run_steps_append split: option.splits step_result.splits)
  then have "run_steps (s # ts) env cfg it d = Some (Halt r w)" using assms(1) by (simp add: run_steps_append)
  then have "s env cfg it d = Some (Halt r w)" using ss(2) by (auto split: option.splits step_result.splits)
  with on show ?thesis by (simp add: run_steps_onward)
qed

lemma not_run:
  assumes "route_step s skills" and "sub_skill r = Some k" and "k \<notin> skills"
  shows "s env cfg it d \<noteq> Some (Halt r w)"
  using route_step.runs [OF assms(1)] assms(2,3) by blast

lemmas all_steps = stale_st.route_step_axioms blocked_st.route_step_axioms misnamed_st.route_step_axioms
  input_st.route_step_axioms ratify_st.route_step_axioms spec_st.route_step_axioms stub_st.route_step_axioms
  realign_st.route_step_axioms research_st.route_step_axioms phases_st.route_step_axioms plan_st.route_step_axioms
  device_st.route_step_axioms validation_st.route_step_axioms spike_st.route_step_axioms
  complete_st10.route_step_axioms

lemma route_steps_contract: "s \<in> set route_steps \<Longrightarrow> \<exists>skills. route_step s skills"
  unfolding route_steps_def by (auto intro: all_steps)

lemma route_item_decides:
  assumes "route_item env cfg it d = Some (Halt r w)"
  shows "decision r \<and> feature_id r = Some (it_id it)"
proof -
  obtain s where s: "s \<in> set route_steps" "s env cfg it d = Some (Halt r w)"
    using run_steps_from assms unfolding route_item_def by blast
  from route_steps_contract [OF s(1)] obtain skills where "route_step s skills" by blast
  from route_step.halts [OF this s(2)] show ?thesis .
qed

subsection \<open>What a step that passes has seen\<close>

text \<open>The queue flag that is the last trace of a stub can be cleared.\<close>

definition stub_flag_clears :: "step_env \<Rightarrow> item \<Rightarrow> bool" where
  "stub_flag_clears env it = (case fst (clear_queue_stub (it_id it) (se_queue env)) of Inl x \<Rightarrow> False | Inr b \<Rightarrow> True)"

definition upstreams_fresh :: "step_env \<Rightarrow> item \<Rightarrow> item_dir \<Rightarrow> bool" where
  "upstreams_fresh env it d =
     (case complete_upstreams env (it_path it) (parse_dep_block (spec_text d)) of
        None \<Rightarrow> False | Some ups \<Rightarrow> ups = [] \<or> realign_is_fresh env d ups = Some True)"

text \<open>No deliverable is left to a plan: there are none, or every plan is complete and the bypass applies.\<close>

definition plans_done :: "step_env \<Rightarrow> route_cfg \<Rightarrow> item_dir \<Rightarrow> string \<Rightarrow> bool" where
  "plans_done env cfg d t \<longleftrightarrow> fst (count_deliverables t) = 0 \<or>
     find_implementation_plans (the_yaml env) d = Some [] \<and> plan_bypass env cfg d t = Some True"

lemma halt_not_onward [simp]: "halt_stop it st reason \<noteq> Onward" "halt_run it st k a \<noteq> Onward"
    "spike_cap_stop env it st m \<noteq> Onward" "rows_route it n \<noteq> Onward" "test_route env it d \<noteq> Onward"
  by (simp_all add: halt_stop_def halt_run_def spike_cap_stop_def rows_route_def test_route_def)

lemma if_onward [simp]: "(if c then Onward else x) = Onward \<longleftrightarrow> c \<or> x = Onward"
    "(if c then x else Onward) = Onward \<longleftrightarrow> \<not> c \<or> x = Onward"
  by auto

lemma sentinel_onward:
  "stale_step env cfg it d = Some Onward \<longleftrightarrow> \<not> has_doc d ''STALE_UPSTREAM.md''"
  "blocked_step env cfg it d = Some Onward \<longleftrightarrow> \<not> has_doc d ''BLOCKED.md''"
  "misnamed_step env cfg it d = Some Onward \<longleftrightarrow> detect_noncanonical_blocker d = None"
  "input_step env cfg it d = Some Onward \<longleftrightarrow> \<not> has_doc d ''NEEDS_INPUT.md''"
  "ratify_step env cfg it d = Some Onward \<longleftrightarrow> \<not> has_doc d provisional_sentinel \<or> cfg_park_needs_input cfg"
  by (auto simp: stale_step_def blocked_step_def misnamed_step_def input_step_def ratify_step_def)

lemma spec_onward: "spec_step env cfg it d = Some Onward \<longleftrightarrow> has_doc d ''SPEC.md''"
  by (simp add: spec_step_def)

lemma stub_onward:
  "stub_step env cfg it d = Some Onward \<longleftrightarrow> \<not> spec_text_has_stub_marker (spec_text d) \<and>
     (\<not> queue_stub (it_entry it) \<or> stub_flag_clears env it)"
  by (auto simp: stub_step_def stub_is_queue_flag_only_def is_stub_spec_def stub_flag_clears_def split: sum.splits)

lemma realign_onward: "realign_step env cfg it d = Some Onward \<longleftrightarrow> upstreams_fresh env it d"
  by (auto simp: realign_step_def upstreams_fresh_def bind_eq_Some_conv split: option.splits)

lemma research_onward:
  "research_step env cfg it d = Some Onward \<longleftrightarrow>
     (researched d \<or> past_research d) \<and> (\<not> has_doc d ''RESEARCH.md'' \<or> has_doc d ''RESEARCH_SUMMARY.md'')"
  by (auto simp: research_step_def researched_def)

lemma phases_onward: "phases_step env cfg it d = Some Onward \<longleftrightarrow> (\<exists>t. phases_doc d = Some t)"
  by (auto simp: phases_step_def phases_doc_def has_doc_def split: option.splits)

lemma plan_onward:
  assumes "phases_doc d = Some t"
  shows "plan_step env cfg it d = Some Onward \<longleftrightarrow> plans_done env cfg d t"
proof -
  have "route_plan env cfg it d t p \<noteq> Some Onward" for p
  proof
    assume "route_plan env cfg it d t p = Some Onward"
    then show False by (cases rule: route_plan_cases) (simp_all add: not_sym [OF run_plan_halts(3)] not_sym [OF halt_not_onward(2)])
  qed
  then show ?thesis using assms
    by (cases "find_implementation_plans (the_yaml env) d"; cases "the (find_implementation_plans (the_yaml env) d)")
      (auto simp: plan_step_def plans_done_def)
qed

lemma device_onward: "device_step env cfg it d = Some Onward \<longleftrightarrow> \<not> has_doc d ''DEFERRED_REQUIRES_DEVICE.md''"
  by (auto simp: device_step_def bind_eq_Some_conv)

lemma validation_onward:
  "validation_step env cfg it d = Some Onward \<longleftrightarrow> has_doc d ''VALIDATED.md'' \<or>
     \<not> has_doc d ''SKIP_MCP_TEST.md'' \<and> cfg_cloud cfg \<and> has_doc d ''DEFERRED_NON_CLOUD.md''"
  by (auto simp: validation_step_def waiver_route_def results_route_def)

lemma spike_onward:
  "spike_step env cfg it d = Some Onward \<longleftrightarrow>
     \<not> phases_spike_required d \<or> spike_verdict_is_pass (the_yaml env) d = Some True"
  by (auto simp: spike_step_def bind_eq_Some_conv)

lemmas step_onward = sentinel_onward spec_onward stub_onward realign_onward research_onward phases_onward
  device_onward validation_onward spike_onward

subsection \<open>Completion\<close>

lemma complete_marks:
  "(\<exists>r w. complete_step env cfg it d = Some (Halt r w) \<and> sub_skill r = Some ''__mark_complete__'') \<longleftrightarrow>
     has_doc d ''VALIDATED.md'' \<and> \<not> has_doc d provisional_sentinel \<and>
     (structurally_skipped (the_repo env) d \<or>
      uncovered_verification_rows_remain (the_yaml env) (the_repo env) d
        (case phases_doc d of None \<Rightarrow> [] | Some t \<Rightarrow> t) = Some [])"
  by (auto simp: complete_step_def halt_stop_def halt_run_def rows_route_def)

lemma mark_complete_at:
  assumes "route_item env cfg it d = Some (Halt r w)" and "sub_skill r = Some ''__mark_complete__''"
  shows "complete_step env cfg it d = Some (Halt r w) \<and>
    (\<forall>t\<in>set (take 14 route_steps). t env cfg it d = Some Onward)"
proof -
  have split: "route_steps = take 14 route_steps @ complete_step # []" by (simp add: route_steps_def)
  have others: "t env cfg it d \<noteq> Some (Halt r w)" if "t \<in> set (take 14 route_steps)" for t
    using that assms(2) unfolding route_steps_def
    by (auto dest!: all_steps [THEN route_step.runs] simp: plan_skills_def validation_skills_def)
  show ?thesis
    using halted_at [of "take 14 route_steps" complete_step "[]" env cfg it d r w] assms(1) others split
    unfolding route_item_def by simp
qed

text \<open>
  C8. When an item is marked complete, exactly: it has a validation receipt, a specification without a stub marker,
  a queue entry that is no stub or whose flag the probe clears, fresh upstreams, phases that leave no work to a plan, a
  research document or phases that show implementation, a summary where there is a \<open>RESEARCH.md\<close>, its runtime
  proof where the phases ask for one, and none of the sentinels that stop it; and no uncovered verification row is left,
  unless the phases declare that no runtime is required and the repository has no app surface.
\<close>

theorem mark_complete_exact:
  "(\<exists>r w. route_item env cfg it d = Some (Halt r w) \<and> sub_skill r = Some ''__mark_complete__'') \<longleftrightarrow>
     has_doc d ''VALIDATED.md'' \<and> has_doc d ''SPEC.md'' \<and> \<not> has_doc d ''STALE_UPSTREAM.md'' \<and>
     \<not> has_doc d ''BLOCKED.md'' \<and> detect_noncanonical_blocker d = None \<and> \<not> has_doc d ''NEEDS_INPUT.md'' \<and>
     \<not> has_doc d provisional_sentinel \<and> \<not> has_doc d ''DEFERRED_REQUIRES_DEVICE.md'' \<and>
     \<not> spec_text_has_stub_marker (spec_text d) \<and> (\<not> queue_stub (it_entry it) \<or> stub_flag_clears env it) \<and>
     upstreams_fresh env it d \<and> (researched d \<or> past_research d) \<and>
     (\<not> has_doc d ''RESEARCH.md'' \<or> has_doc d ''RESEARCH_SUMMARY.md'') \<and>
     (\<not> phases_spike_required d \<or> spike_verdict_is_pass (the_yaml env) d = Some True) \<and>
     (\<exists>t. phases_doc d = Some t \<and> plans_done env cfg d t \<and>
        (structurally_skipped (the_repo env) d \<or>
         uncovered_verification_rows_remain (the_yaml env) (the_repo env) d t = Some []))"
    (is "?marks \<longleftrightarrow> ?ready")
proof -
  let ?passed = "\<forall>t\<in>set (take 14 route_steps). t env cfg it d = Some Onward"
  let ?last = "\<exists>r w. complete_step env cfg it d = Some (Halt r w) \<and> sub_skill r = Some ''__mark_complete__''"
  have "?marks \<longleftrightarrow> ?passed \<and> ?last"
  proof
    assume ?marks
    then show "?passed \<and> ?last" using mark_complete_at by blast
  next
    assume "?passed \<and> ?last"
    then have "run_steps (take 14 route_steps) env cfg it d = Some Onward" unfolding run_steps_onward by (rule conjunct1)
    then have "route_item env cfg it d = run_steps [complete_step] env cfg it d"
      using run_steps_append [of "take 14 route_steps" "[complete_step]"] by (simp add: route_item_def route_steps_def)
    with \<open>?passed \<and> ?last\<close> show ?marks by auto
  qed
  also have "\<dots> \<longleftrightarrow> ?ready"
    unfolding complete_marks by (auto simp: route_steps_def step_onward plan_onward)
  finally show ?thesis .
qed

end
