(* ===== verification/Route_Ends.thy ===== *)
theory Route_Ends
  imports Route_Props
begin

text \<open>
  Every probe decides; results are promoted only when they were earned; the plan that is executed is the
  first open one; and a sentinel that a probe writes stops the next probe.
\<close>

subsection \<open>Every probe decides\<close>

lemma decision_walk: "decision r \<longleftrightarrow> (sub_skill r = None \<longleftrightarrow> terminal_reason r \<noteq> None)"
  by (simp add: decision_def)

lemma stop_route_skill [simp]: "sub_skill (stop_route reason st) = None"
  by (simp add: stop_route_def blank_route_def)

lemma exhausted_route_stops: "\<exists>reason st. exhausted_route env cfg w = stop_route reason st"
  unfolding exhausted_route_def by (auto split: if_splits)

lemma select_item_decides:
  assumes "select_item env cfg disk queue = Some (Inr r, w)"
  shows "decision r \<and> (sub_skill r = None \<or> feature_id r \<noteq> None)"
proof -
  obtain ceiling we where we: "walk_queue (stages queue ceiling) env cfg queue (start_walk env disk) = Some we"
    and fin: "finish_walk env cfg queue we = (Inr r, w)"
    using assms by (auto simp: select_item_def bind_eq_Some_conv)
  show ?thesis
  proof (cases "\<exists>r' w'. we = Returned r' w'")
    case True
    then obtain w' where "we = Returned r w'" using fin by (auto simp: finish_walk_def)
    with walk_returned [OF stages_contract] we show ?thesis unfolding decision_walk by blast
  next
    case False
    obtain reason st where "r = stop_route reason st"
      using finish_stop [OF fin False] exhausted_route_stops by metis
    then show ?thesis by simp
  qed
qed

lemma route_queue_decides:
  assumes "route_queue env cfg disk file = Some (Inr r, w)"
  shows "decision r \<and> (sub_skill r = None \<or> feature_id r \<noteq> None)"
proof -
  consider queue where "select_item env cfg disk queue = Some (Inr r, w)" | "r = stop_route ''queue-missing'' None"
    using assms by (auto simp: route_queue_def bind_eq_Some_conv split: if_splits)
  then show ?thesis by cases (rule select_item_decides, assumption, simp)
qed

text \<open>
  C12. Every probe that ends returns a decision: a skill to run, for an item that it names, or the reason to
  stop, and never both or neither.
\<close>

theorem probe_decides:
  assumes "compute_state env cfg = Some e"
  shows "(sub_skill (pe_route e) = None) = (terminal_reason (pe_route e) \<noteq> None) \<and>
    (sub_skill (pe_route e) = None \<or> feature_id (pe_route e) \<noteq> None)"
proof -
  obtain res w where q: "route_queue (se_walk env) cfg (se_disk env) (se_queue env) = Some (res, w)"
    using assms by (auto simp: compute_state_def bind_eq_Some_conv)
  show ?thesis
  proof (cases res)
    case (Inr r)
    then have "pe_route e = r" using assms q by (auto simp: compute_state_def)
    then show ?thesis using route_queue_decides q Inr unfolding decision_walk by blast
  next
    case (Inl it)
    then obtain d env1 r wr where "route_item env1 cfg it d = Some (Halt r wr)" "pe_route e = r"
      using assms q by (auto simp: compute_state_def Let_def split: option.splits step_result.splits)
    then show ?thesis using route_item_decides unfolding decision_walk by fastforce
  qed
qed

subsection \<open>Promotion of results\<close>

lemma validation_at:
  assumes "route_item env cfg it d = Some (Halt r w)"
    and "sub_skill r \<in> {Some ''__write_validated_from_results__'', Some ''__write_validated_from_skip__''}"
  shows "validation_step env cfg it d = Some (Halt r w) \<and>
    (\<forall>t\<in>set (take 12 route_steps). t env cfg it d = Some Onward)"
proof -
  have split: "route_steps = take 12 route_steps @ validation_step # [spike_step, complete_step]"
    by (simp add: route_steps_def)
  have others: "t env cfg it d \<noteq> Some (Halt r w)"
    if "t \<in> set (take 12 route_steps) \<union> set [spike_step, complete_step]" for t
  proof -
    from assms(2) obtain k where k: "sub_skill r = Some k" "prefix ''__write_validated'' k" by auto
    show ?thesis using that k unfolding route_steps_def
      by (auto dest!: all_steps [THEN route_step.runs] simp: plan_skills_def)
  qed
  show ?thesis
    using halted_at [of "take 12 route_steps" validation_step "[spike_step, complete_step]" env cfg it d r w]
      assms(1) others split unfolding route_item_def by simp
qed

lemma accepted_verdict: "v \<in> {Fresh, DocsOnly} \<longleftrightarrow> v \<notin> {NonDocsDrift, Unresolvable}"
  by (cases v) simp_all

lemma test_route_runs:
  "test_route env it d = Halt r w \<Longrightarrow> sub_skill r \<in> {Some ''__grant_skip_no_mcp_surface__'', Some ''mcp-test''}"
  by (auto simp: test_route_def halt_run_def split: if_splits)

lemma promoted_results:
  assumes "validation_step env cfg it d = Some (Halt r w)" and "sub_skill r = Some ''__write_validated_from_results__''"
  obtains m where "parse_sentinel (the_yaml env) d ''MCP_TEST_RESULTS.md'' = Some m" "results_promotable m"
    "commit_drift_verdict (the_repo env) (opt_str (mget m ''validated_commit'')) \<in> {Fresh, DocsOnly}"
    "\<not> has_doc d ''VALIDATED.md''" "\<not> has_doc d ''SKIP_MCP_TEST.md''" "\<not> cfg_cloud cfg" "has_doc d ''MCP_TEST_RESULTS.md''"
proof -
  have runs: "\<not> has_doc d ''VALIDATED.md''" "\<not> has_doc d ''SKIP_MCP_TEST.md''" "\<not> cfg_cloud cfg"
      "results_route env it d = Some (Halt r w)"
    using assms by (auto simp: validation_step_def waiver_route_def halt_run_def halt_stop_def split: if_splits)
  have untested: "test_route env it d \<noteq> Halt r w" using test_route_runs [of env it d r w] assms(2) by auto
  with runs(4) obtain m where "has_doc d ''MCP_TEST_RESULTS.md''"
      "parse_sentinel (the_yaml env) d ''MCP_TEST_RESULTS.md'' = Some m" "results_promotable m"
      "commit_drift_verdict (the_repo env) (opt_str (mget m ''validated_commit'')) \<notin> {NonDocsDrift, Unresolvable}"
    using assms(2) unfolding results_route_def by (auto simp: halt_run_def split: if_splits)
  with runs that show thesis unfolding accepted_verdict by blast
qed

lemma promoted_skip:
  assumes "validation_step env cfg it d = Some (Halt r w)" and "sub_skill r = Some ''__write_validated_from_skip__''"
  obtains m where "parse_sentinel (the_yaml env) d ''SKIP_MCP_TEST.md'' = Some m"
    "skip_waiver_refusal (the_repo env) m = None" "has_doc d ''SKIP_MCP_TEST.md''" "\<not> has_doc d ''VALIDATED.md''"
  using assms
  by (auto simp: validation_step_def waiver_route_def results_route_def test_route_def halt_run_def halt_stop_def
      split: if_splits)

lemma drift_accepted:
  "commit_drift_verdict env c \<in> {Fresh, DocsOnly} \<longleftrightarrow>
     (let commit = stripped c; head = stripped (head_commit env) in
        commit = [] \<or> head = [] \<or> commit = head \<or>
        (\<exists>changed. diff_names env commit head = Some changed \<and> list_all is_noninvalidating_drift_path changed))"
  by (auto simp: commit_drift_verdict_def Let_def split: option.splits)

text \<open>
  C9. A receipt of validation is written for an item only when no deliverable is left to a plan, and either a waiver of
  the tests is on file that the rules on its provenance accept, or, on a workstation, the recorded results pass and
  are not known to be stale: they record no commit, or HEAD cannot be read, or the commit is HEAD, or the diff
  between the two can be read and holds nothing but documents and test scenarios.
\<close>

theorem validation_is_earned:
  assumes "route_item env cfg it d = Some (Halt r w)"
    and "sub_skill r \<in> {Some ''__write_validated_from_results__'', Some ''__write_validated_from_skip__''}"
  shows "(\<exists>t. phases_doc d = Some t \<and> plans_done env cfg d t) \<and> \<not> has_doc d ''VALIDATED.md'' \<and>
    \<not> has_doc d ''DEFERRED_REQUIRES_DEVICE.md'' \<and> \<not> has_doc d ''BLOCKED.md'' \<and> \<not> has_doc d ''NEEDS_INPUT.md'' \<and>
    ((\<exists>m. has_doc d ''SKIP_MCP_TEST.md'' \<and> parse_sentinel (the_yaml env) d ''SKIP_MCP_TEST.md'' = Some m \<and>
        skip_waiver_refusal (the_repo env) m = None) \<or>
     (\<exists>m. \<not> cfg_cloud cfg \<and> has_doc d ''MCP_TEST_RESULTS.md'' \<and>
        parse_sentinel (the_yaml env) d ''MCP_TEST_RESULTS.md'' = Some m \<and> results_promotable m \<and>
        (let commit = stripped (opt_str (mget m ''validated_commit'')); head = stripped (head_commit (the_repo env)) in
           commit = [] \<or> head = [] \<or> commit = head \<or>
           (\<exists>changed. diff_names (the_repo env) commit head = Some changed \<and>
              list_all is_noninvalidating_drift_path changed))))"
proof -
  note at = validation_at [OF assms]
  then have "phases_step env cfg it d = Some Onward" "plan_step env cfg it d = Some Onward"
      "device_step env cfg it d = Some Onward" "blocked_step env cfg it d = Some Onward"
      "input_step env cfg it d = Some Onward"
    by (simp_all add: route_steps_def)
  then have passed: "\<exists>t. phases_doc d = Some t \<and> plans_done env cfg d t"
      "\<not> has_doc d ''DEFERRED_REQUIRES_DEVICE.md''" "\<not> has_doc d ''BLOCKED.md''" "\<not> has_doc d ''NEEDS_INPUT.md''"
    by (auto simp: step_onward plan_onward)
  from assms(2) consider "sub_skill r = Some ''__write_validated_from_results__''"
    | "sub_skill r = Some ''__write_validated_from_skip__''" by blast
  then show ?thesis
  proof cases
    case 1
    with at obtain m where "parse_sentinel (the_yaml env) d ''MCP_TEST_RESULTS.md'' = Some m" "results_promotable m"
      "commit_drift_verdict (the_repo env) (opt_str (mget m ''validated_commit'')) \<in> {Fresh, DocsOnly}"
      "\<not> has_doc d ''VALIDATED.md''" "\<not> cfg_cloud cfg" "has_doc d ''MCP_TEST_RESULTS.md''"
      by (blast elim: promoted_results)
    then show ?thesis unfolding drift_accepted using passed by blast
  next
    case 2
    with at obtain m where "parse_sentinel (the_yaml env) d ''SKIP_MCP_TEST.md'' = Some m"
      "skip_waiver_refusal (the_repo env) m = None" "has_doc d ''SKIP_MCP_TEST.md''" "\<not> has_doc d ''VALIDATED.md''"
      by (blast elim: promoted_skip)
    with passed show ?thesis by blast
  qed
qed

subsection \<open>The plan that is executed\<close>

lemma read_plans_lookup:
  "read_plans yaml d ps = Some pms \<Longrightarrow> map fst pms = ps \<and> (\<forall>(p, m)\<in>set pms. plan_meta yaml d p = Some m)"
  by (induction ps arbitrary: pms) (auto split: option.splits)

text \<open>The first open plan has the least key among the open plans.\<close>

lemma first_open_plan:
  assumes "find_implementation_plans yaml d = Some (p # ps)"
  obtains m where "p \<in> set (plan_candidates d)" "plan_meta yaml d p = Some m" "\<not> is_complete_plan m"
    "\<forall>q\<in>set (plan_candidates d). \<forall>n. plan_meta yaml d q = Some n \<and> \<not> is_complete_plan n \<longrightarrow>
       plan_sort_key m p \<le> plan_sort_key n q"
proof -
  let ?key = "\<lambda>(p, m). plan_sort_key m p" and ?open = "filter (\<lambda>(p, m). \<not> is_complete_plan m)"
  obtain pms where pms: "read_plans yaml d (plan_candidates d) = Some pms"
    and sorted: "map fst (sort_key ?key (?open pms)) = p # ps"
    using assms by (auto simp: find_implementation_plans_def)
  from read_plans_lookup [OF pms] have fst: "map fst pms = plan_candidates d"
    and meta: "\<And>q n. (q, n) \<in> set pms \<Longrightarrow> plan_meta yaml d q = Some n" by auto
  from sorted obtain m rest where sk: "sort_key ?key (?open pms) = (p, m) # rest"
    by (cases "sort_key ?key (?open pms)") auto
  then have mem: "set (?open pms) = insert (p, m) (set rest)" by (metis set_sort list.simps(15))
  then have pm: "(p, m) \<in> set pms" "\<not> is_complete_plan m" by auto
  have "sorted (map ?key ((p, m) # rest))" using sk sorted_sort_key [of ?key "?open pms"] by simp
  then have least: "\<forall>x\<in>set rest. plan_sort_key m p \<le> ?key x" by simp
  show thesis
  proof (rule that)
    have "fst (p, m) \<in> set (map fst pms)" unfolding set_map using pm(1) by (rule imageI)
    then show "p \<in> set (plan_candidates d)" by (simp add: fst)
    show "plan_meta yaml d p = Some m" using pm(1) by (rule meta)
    show "\<forall>q\<in>set (plan_candidates d). \<forall>n. plan_meta yaml d q = Some n \<and> \<not> is_complete_plan n \<longrightarrow>
        plan_sort_key m p \<le> plan_sort_key n q"
    proof (intro ballI allI impI)
      fix q n assume q: "q \<in> set (plan_candidates d)" and n: "plan_meta yaml d q = Some n \<and> \<not> is_complete_plan n"
      then have "q \<in> fst ` set pms" by (simp add: fst [symmetric])
      then obtain n' where "(q, n') \<in> set pms" by auto
      with n meta have "(q, n) \<in> set (?open pms)" by fastforce
      then show "plan_sort_key m p \<le> plan_sort_key n q" using mem least by auto
    qed
  qed (rule pm(2))
qed

lemma plan_step_open:
  assumes "plan_step env cfg it d = Some (Halt r w)" and "sub_skill r = Some ''execute-plan''"
  obtains t p ps where "phases_doc d = Some t" "0 < fst (count_deliverables t)"
    "find_implementation_plans (the_yaml env) d = Some (p # ps)" "route_plan env cfg it d t p = Some (Halt r w)"
proof -
  obtain t where t: "phases_doc d = Some t" "0 < fst (count_deliverables t)"
    using assms(1) by (auto simp: plan_step_def split: option.splits if_splits)
  obtain plans where plans: "find_implementation_plans (the_yaml env) d = Some plans"
    using assms(1) t by (auto simp: plan_step_def bind_eq_Some_conv)
  show thesis
  proof (cases plans)
    case Nil
    then show ?thesis using assms t plans by (auto simp: plan_step_def halt_run_def split: if_splits)
  next
    case (Cons p ps)
    then show ?thesis using assms(1) t plans by (intro that [of t p ps]) (simp_all add: plan_step_def)
  qed
qed

lemma plan_at:
  assumes "route_item env cfg it d = Some (Halt r w)" and "sub_skill r = Some ''execute-plan''"
  shows "plan_step env cfg it d = Some (Halt r w) \<and> (\<forall>t\<in>set (take 10 route_steps). t env cfg it d = Some Onward)"
proof -
  have split: "route_steps = take 10 route_steps @ plan_step # drop 11 route_steps" by (simp add: route_steps_def)
  have others: "t env cfg it d \<noteq> Some (Halt r w)"
    if "t \<in> set (take 10 route_steps) \<union> set (drop 11 route_steps)" for t
    using that assms(2) unfolding route_steps_def
    by (auto dest!: all_steps [THEN route_step.runs] simp: validation_skills_def)
  show ?thesis
    using halted_at [of "take 10 route_steps" plan_step "drop 11 route_steps" env cfg it d r w]
      assms(1) others split unfolding route_item_def by simp
qed

lemma run_plan_executes:
  assumes "run_plan env it d p = Halt r w" and "sub_skill r = Some ''execute-plan''"
  shows "sub_skill_args r = Some (plan_file it p) \<and> plan_structural_backstop env (plan_text d p)"
  using assms by (auto simp: run_plan_def halt_run_def split: if_splits)

lemma route_plan_executes:
  assumes "route_plan env cfg it d t p = Some (Halt r w)" and "sub_skill r = Some ''execute-plan''"
  obtains ps where "plan_phase_set (the_yaml env) d p = Some ps" "\<not> plan_is_stale t (plan_text d p) ps"
    "sub_skill_args r = Some (plan_file it p)" "plan_structural_backstop env (plan_text d p)"
proof -
  obtain ps where ps: "plan_phase_set (the_yaml env) d p = Some ps"
    using assms(1) by (auto simp: route_plan_def bind_eq_Some_conv)
  then have "\<not> plan_is_stale t (plan_text d p) ps" "run_plan env it d p = Halt r w"
    using assms by (auto simp: route_plan_def halt_run_def split: if_splits)
  with ps run_plan_executes assms(2) that show thesis by blast
qed

text \<open>
  C10. A plan is executed only when the item has phases with an open deliverable, a specification, and no \<open>BLOCKED.md\<close> or
  \<open>NEEDS_INPUT.md\<close>: the plan is one of its plans, is not complete, comes first in the order of series, phase and name
  among the plans that are not complete, and is not stale; and either the structural validator finds no error in it,
  or one of its work units is ticked already, or it has no work-unit box at all.
\<close>

theorem executed_plan_is_first_open:
  assumes "route_item env cfg it d = Some (Halt r w)" and "sub_skill r = Some ''execute-plan''"
  shows "\<not> has_doc d ''BLOCKED.md'' \<and> \<not> has_doc d ''NEEDS_INPUT.md'' \<and> has_doc d ''SPEC.md'' \<and>
    (\<exists>t p m ps. phases_doc d = Some t \<and> 0 < fst (count_deliverables t) \<and> p \<in> set (plan_candidates d) \<and>
       sub_skill_args r = Some (plan_file it p) \<and> plan_meta (the_yaml env) d p = Some m \<and> \<not> is_complete_plan m \<and>
       plan_phase_set (the_yaml env) d p = Some ps \<and> \<not> plan_is_stale t (plan_text d p) ps \<and>
       (\<not> se_plan_errors env (plan_text d p) \<or> 0 < snd (plan_wu_checkbox_counts (plan_text d p)) \<or>
        plan_wu_checkbox_counts (plan_text d p) = (0, 0)) \<and>
       (\<forall>q\<in>set (plan_candidates d). \<forall>n. plan_meta (the_yaml env) d q = Some n \<and> \<not> is_complete_plan n \<longrightarrow>
          plan_sort_key m p \<le> plan_sort_key n q))"
proof -
  note at = plan_at [OF assms]
  then have "blocked_step env cfg it d = Some Onward" "input_step env cfg it d = Some Onward"
      "spec_step env cfg it d = Some Onward"
    by (simp_all add: route_steps_def)
  then have passed: "\<not> has_doc d ''BLOCKED.md''" "\<not> has_doc d ''NEEDS_INPUT.md''" "has_doc d ''SPEC.md''"
    by (simp_all add: step_onward)
  obtain t p ps where p: "phases_doc d = Some t" "0 < fst (count_deliverables t)"
    "find_implementation_plans (the_yaml env) d = Some (p # ps)" "route_plan env cfg it d t p = Some (Halt r w)"
    using at assms(2) by (blast elim: plan_step_open)
  obtain m where "p \<in> set (plan_candidates d)" "plan_meta (the_yaml env) d p = Some m" "\<not> is_complete_plan m"
    "\<forall>q\<in>set (plan_candidates d). \<forall>n. plan_meta (the_yaml env) d q = Some n \<and> \<not> is_complete_plan n \<longrightarrow>
       plan_sort_key m p \<le> plan_sort_key n q"
    using p(3) by (rule first_open_plan)
  moreover obtain phs where "plan_phase_set (the_yaml env) d p = Some phs" "\<not> plan_is_stale t (plan_text d p) phs"
    "sub_skill_args r = Some (plan_file it p)" "plan_structural_backstop env (plan_text d p)"
    using p(4) assms(2) by (rule route_plan_executes)
  ultimately show ?thesis unfolding plan_structural_backstop_def using passed p(1,2) by blast
qed

subsection \<open>A sentinel that is written stops the next probe\<close>

lemma put_doc_lookup [simp]:
  "dget (docs (put_doc n f d)) k = (if k = n then Some f else dget (docs d) k)" "plan_docs (put_doc n f d) = plan_docs d"
  by (simp_all add: put_doc_def dget_dset)

lemma has_put_doc [simp]: "has_doc (put_doc n f d) k = (k = n \<or> has_doc d k)"
  by (simp add: has_doc_def)

lemma parse_put_doc: "k \<noteq> n \<Longrightarrow> parse_sentinel yaml (put_doc n f d) k = parse_sentinel yaml d k"
  by (simp add: parse_sentinel_def)

lemma dir_names_put_doc: "set (dir_names (put_doc n f d)) = insert n (set (dir_names d))"
proof -
  have "set (dkeys (docs (put_doc n f d))) = insert n (set (dkeys (docs d)))"
    by (simp add: put_doc_def AList.dom_update)
  then show ?thesis by (auto simp: dir_names_def)
qed

lemma misnamed_put_input:
  assumes "detect_noncanonical_blocker d = None"
  shows "detect_noncanonical_blocker (put_doc ''NEEDS_INPUT.md'' f d) = None"
proof -
  have "\<not> stray_blocker ''NEEDS_INPUT.md''" by (simp add: stray_blocker_def starts_ci_def to_lower_def)
  with assms show ?thesis
    by (auto simp: detect_noncanonical_blocker_def dir_names_put_doc find_None_iff split: if_splits)
qed

lemma parse_put_blocked:
  "blocked_step env cfg it (put_doc ''NEEDS_INPUT.md'' f d) = blocked_step env cfg it d"
  by (simp add: blocked_step_def parse_put_doc)

lemma run_steps_halt:
  assumes "list_all (\<lambda>s. s env cfg it d = Some Onward) ss" and "s env cfg it d = Some (Halt r w)"
  shows "run_steps (ss @ s # ts) env cfg it d = Some (Halt r w)"
  using assms by (induction ss) simp_all

lemma run_steps_past:
  assumes "run_steps (s # ss) env cfg it d = Some (Halt r w)" and "s env cfg it d \<noteq> Some (Halt r w)"
  shows "s env cfg it d = Some Onward \<and> run_steps ss env cfg it d = Some (Halt r w)"
  using assms by (auto split: option.splits step_result.splits)

text \<open>The steps that write no sentinel.\<close>

lemma silent_step:
  assumes "s \<in> {stale_step, misnamed_step, input_step, ratify_step, spec_step, stub_step, realign_step, research_step,
      phases_step, device_step, validation_step}"
  shows "s env cfg it d \<noteq> Some (Halt r (WriteDoc n t))"
  using assms
  by (elim insertE emptyE)
    (auto simp: step_defs validation_step_def waiver_route_def results_route_def test_route_def bind_eq_Some_conv
      split: if_splits sum.splits)

lemma input_writers:
  assumes "s \<in> {blocked_step, spike_step, complete_step}" and "s env cfg it d = Some (Halt r (WriteDoc n t))"
  shows "n = ''NEEDS_INPUT.md'' \<and> terminal_reason r = Some ''needs-input''"
  using assms by (elim insertE emptyE) (auto simp: step_defs bind_eq_Some_conv split: if_splits)

lemma plan_writer:
  assumes "plan_step env cfg it d = Some (Halt r (WriteDoc n t))"
  shows "n = ''BLOCKED.md'' \<and> terminal_reason r = Some ''blocked''"
  using assms
proof (cases rule: plan_step_cases)
  case (1 t' p)
  then show ?thesis
    by (cases rule: route_plan_cases) (auto simp: run_plan_def halt_run_def split: if_splits)
qed (simp add: halt_run_def)

text \<open>The step that wrote the sentinel, and what the steps before it have seen.\<close>

lemma writer_cases:
  assumes "route_item env cfg it d = Some (Halt r (WriteDoc n t))"
  obtains "stale_step env cfg it d = Some Onward" "blocked_step env cfg it d = Some (Halt r (WriteDoc n t))"
    | "stale_step env cfg it d = Some Onward" "plan_step env cfg it d = Some (Halt r (WriteDoc n t))"
    | s where "stale_step env cfg it d = Some Onward" "blocked_step env cfg it d = Some Onward"
      "misnamed_step env cfg it d = Some Onward" "s \<in> {spike_step, complete_step}"
      "s env cfg it d = Some (Halt r (WriteDoc n t))"
proof -
  let ?w = "Some (Halt r (WriteDoc n t))"
  have 1: "stale_step env cfg it d = Some Onward" "run_steps (drop 1 route_steps) env cfg it d = ?w"
    using run_steps_past [of stale_step "drop 1 route_steps"] assms silent_step [of stale_step]
    by (simp_all add: route_item_def route_steps_def)
  show thesis
  proof (cases "blocked_step env cfg it d = ?w")
    case True
    with 1 show ?thesis by (blast intro: that(1))
  next
    case False
    then have 2: "blocked_step env cfg it d = Some Onward" "run_steps (drop 2 route_steps) env cfg it d = ?w"
      using run_steps_past [of blocked_step "drop 2 route_steps"] 1(2) by (simp_all add: route_steps_def)
    then have 3: "misnamed_step env cfg it d = Some Onward" "run_steps (drop 3 route_steps) env cfg it d = ?w"
      using run_steps_past [of misnamed_step "drop 3 route_steps"] silent_step [of misnamed_step]
      by (simp_all add: route_steps_def)
    then obtain s where "s \<in> set (drop 3 route_steps)" "s env cfg it d = ?w" using run_steps_from by blast
    then have "s \<in> {plan_step, spike_step, complete_step}" "s env cfg it d = ?w"
      using silent_step by (auto simp: route_steps_def)
    then show ?thesis using that(2,3) 1(1) 2(1) 3(1) by blast
  qed
qed

text \<open>
  C11. A probe that writes a sentinel for its item reports the stop that the sentinel stands for, and as long as
  the file is there and parses, the next probe of the item stops with the same reason and runs no skill.
\<close>

theorem written_sentinel_stops:
  assumes "route_item env cfg it d = Some (Halt r (WriteDoc n t))"
    and "parse_sentinel (the_yaml env) (apply_write (WriteDoc n t) d) n = Some m"
    and "mget m ''blocker_kind'' \<noteq> JStr ''runtime-spike-verdict-pending''"
  shows "terminal_reason r \<in> {Some ''blocked'', Some ''needs-input''} \<and>
    (\<exists>r' w'. route_item env cfg it (apply_write (WriteDoc n t) d) = Some (Halt r' w') \<and>
       terminal_reason r' = terminal_reason r \<and> sub_skill r' = None)"
proof -
  let ?f = "\<lparr>doc_text = t, doc_mtime = 0\<rparr>"
  have d': "apply_write (WriteDoc n t) d = put_doc n ?f d" by (simp add: apply_write_def)
  note m = assms(2) [unfolded d']
  from assms(1) show ?thesis
  proof (cases rule: writer_cases)
    case 1
    then have n: "n = ''NEEDS_INPUT.md''" "terminal_reason r = Some ''needs-input''"
      using input_writers [of blocked_step] by simp_all
    have "stale_step env cfg it (put_doc n ?f d) = Some Onward"
      "blocked_step env cfg it (put_doc n ?f d) = Some (Halt r (WriteDoc n t))"
      using 1 by (simp_all add: stale_step_def parse_put_blocked n)
    moreover have "decision r" using blocked_st.halts 1(2) by blast
    ultimately show ?thesis using n(2) unfolding d'
      by (auto simp: route_item_def route_steps_def decision_def)
  next
    case 2
    then have n: "n = ''BLOCKED.md''" "terminal_reason r = Some ''blocked''" using plan_writer by blast+
    have "stale_step env cfg it (put_doc n ?f d) = Some Onward" using 2(1) by (simp add: sentinel_onward n)
    moreover have "blocked_step env cfg it (put_doc n ?f d) = Some (Halt
        ((item_stop it ''Step 3: blocked'' ''blocked'')\<lparr>escalated := validation_escalation m\<rparr>) NoWrite)"
      using m assms(3) by (simp add: blocked_step_def n)
    ultimately show ?thesis using n(2) unfolding d' by (auto simp: route_item_def route_steps_def)
  next
    case (3 s)
    then have n: "n = ''NEEDS_INPUT.md''" "terminal_reason r = Some ''needs-input''"
      using input_writers [of s] by auto
    have "list_all (\<lambda>s. s env cfg it (put_doc n ?f d) = Some Onward) [stale_step, blocked_step, misnamed_step]"
      using 3(1-3) by (simp add: sentinel_onward n misnamed_put_input)
    moreover have "input_step env cfg it (put_doc n ?f d) =
        Some (halt_stop it ''Step 3.5: needs-input'' ''needs-input'')"
      using m by (simp add: input_step_def n)
    ultimately show ?thesis using n(2) unfolding d' by (auto simp: route_item_def route_steps_def halt_stop_def)
  qed
qed

end
