(* ===== verification/Route_Samples.thy ===== *)
theory Route_Samples
  imports Route_Ends Walk_Samples
begin

text \<open>A directory in its last states, on which the properties of the routing are applied.\<close>

definition empty_doc :: doc where
  "empty_doc = text_doc []"

definition sample_step_env :: step_env where
  "sample_step_env = \<lparr>se_walk = sample_route_env, se_sha = (\<lambda>s. s), se_root_resolve = (\<lambda>s. [s]),
     se_plan_errors = (\<lambda>s. True), se_disk = sample_disk, se_queue = Absent\<rparr>"

definition ready_dir :: item_dir where
  "ready_dir = \<lparr>docs = [(''SPEC.md'', empty_doc), (''RESEARCH_SUMMARY.md'', empty_doc), (''PHASES.md'', empty_doc),
     (''VALIDATED.md'', empty_doc)], plan_docs = None\<rparr>"

lemma no_lines [simp]: "splitlines [] = []"
  by (simp add: splitlines_def split_lines_nil)

lemma no_frontmatter [simp]: "frontmatter yaml [] = Some []"
  by (simp add: frontmatter_def)

lemma ready_docs [simp]: "dget (docs ready_dir) n =
    (if n \<in> {''SPEC.md'', ''RESEARCH_SUMMARY.md'', ''PHASES.md'', ''VALIDATED.md''} then Some empty_doc else None)"
  "plan_docs ready_dir = None"
  by (simp_all add: ready_dir_def)

lemma empty_text [simp]: "doc_text empty_doc = []"
  by (simp add: empty_doc_def text_doc_def)

lemma ready_has [simp]: "has_doc ready_dir n \<longleftrightarrow> n \<in> {''SPEC.md'', ''RESEARCH_SUMMARY.md'', ''PHASES.md'', ''VALIDATED.md''}"
  by (simp add: has_doc_def)

lemma ready_parse [simp]: "parse_sentinel yaml ready_dir n = Some []"
  by (simp add: parse_sentinel_def)

lemma ready_spec [simp]: "spec_text ready_dir = []" "phases_doc ready_dir = Some []"
  by (simp_all add: spec_text_def phases_doc_def)

lemma no_stub [simp]: "\<not> spec_text_has_stub_marker []"
  by (simp add: spec_text_has_stub_marker_def line_tails_def stub_status_rx_def stub_quote_rx_def rx_match_def)

lemma no_deps [simp]: "parse_dep_block [] = []"
  by (simp add: parse_dep_block_def)

lemma no_phase_lines [simp]: "phase_lines [] = []"
  by (simp add: phase_lines_def)

lemma ready_no_stray: "detect_noncanonical_blocker ready_dir = None"
  by (simp add: detect_noncanonical_blocker_def find_None_iff dir_names_def)
    (simp add: ready_dir_def stray_blocker_def starts_ci_def to_lower_def)

lemma ready_no_spike: "\<not> phases_spike_required ready_dir"
  by (simp add: phases_spike_required_def phases_header_def line_tails_def header_value_def rx_match_def
      to_lower_def)

lemma ready_rows: "uncovered_verification_rows_remain yaml repo ready_dir [] = Some []"
  by (simp add: uncovered_verification_rows_remain_def observation_gap_promotable_def mget_def
      evaluate_completion_evidence_def collect_uncovered_verification_rows_def reroutable_rows_def)

theorem mark_complete_exact_witness:
  "\<exists>r w. route_item sample_step_env sample_cfg new_item ready_dir = Some (Halt r w) \<and>
     sub_skill r = Some ''__mark_complete__''"
  unfolding mark_complete_exact
  by (simp add: ready_no_stray ready_no_spike ready_rows provisional_sentinel_def queue_stub_def new_item_def
      new_entry_def jget_def upstreams_fresh_def researched_def plans_done_def count_deliverables_def)

text \<open>A waiver of the operator on file instead of the receipt.\<close>

definition waived_dir :: item_dir where
  "waived_dir = \<lparr>docs = [(''SPEC.md'', empty_doc), (''RESEARCH_SUMMARY.md'', empty_doc), (''PHASES.md'', empty_doc),
     (''SKIP_MCP_TEST.md'', empty_doc)], plan_docs = None\<rparr>"

text \<open>One open deliverable, and one plan with an open work unit.\<close>

definition planned_dir :: item_dir where
  "planned_dir = \<lparr>docs = [(''SPEC.md'', empty_doc), (''RESEARCH_SUMMARY.md'', empty_doc),
     (''PHASES.md'', text_doc ''- [ ] a'')], plan_docs = Some [(''p.md'', text_doc ''- [ ] WU-1'')]\<rparr>"

lemma plain_line: "splitlines ''- [ ] a'' = [''- [ ] a'']" "splitlines ''- [ ] WU-1'' = [''- [ ] WU-1'']"
  by (simp_all add: splitlines_line printable_def)

lemma plain_strip: "strip ''- [ ] a'' = ''- [ ] a''" "strip ''- [ ] WU-1'' = ''- [ ] WU-1''"
  by (simp_all add: strip_plain plain_char_def)

lemma planned_lines: "phase_lines ''- [ ] a'' = [''- [ ] a'']" "phase_lines ''- [ ] WU-1'' = [''- [ ] WU-1'']"
  by (simp_all add: phase_lines_def plain_line plain_strip code_fence_def)

lemma planned_phases: "phases_doc planned_dir = Some ''- [ ] a''"
  by (simp add: phases_doc_def planned_dir_def text_doc_def)

lemma planned_count: "count_deliverables ''- [ ] a'' = (1, 0)"
  by (simp add: count_deliverables_def planned_lines open_row_def after_dash_def close_box_def lstrip_space
      lstrip_plain plain_char_def)

lemma white_plain: "plain_char c \<Longrightarrow> rests White (p, c # s) = []"
  using ws_head_plain [of c wide_ws] wide_ws_high by simp

lemma white_space: "rests White (p, CHR '' '' # s) = [(Some (CHR '' ''), s)]"
  by (simp add: ws_head_def space_ws advance_def)

lemma star_plain: "plain_char c \<Longrightarrow> rests (Star White) (p, c # s) = [(p, c # s)]"
  using white_plain [of c p s] by simp

lemma star_space:
  "plain_char c \<Longrightarrow> rests (Star White) (p, CHR '' '' # c # s) = [(p, CHR '' '' # c # s), (Some (CHR '' ''), c # s)]"
  using white_plain [of c "Some (CHR '' '')" s] white_space [of p "c # s"] by simp

lemma work_unit: "rests (Plus (One wu_char)) (Some CHR ''-'', ''1'') = [(Some CHR ''1'', [])]" "at_bound (Some CHR ''1'', [])"
  by (simp_all add: Plus_def wu_char_def word_char_def advance_def at_bound_def)

lemma planned_work: "plan_wu_checkbox_counts ''- [ ] WU-1'' = (1, 0)"
  by (simp add: plan_wu_checkbox_counts_def planned_lines rx_match_def wu_row_rx_def star_plain star_space plain_char_def
      advance_def mark_char_def work_unit del: rests.simps(9))

text \<open>What the plan step finds, with the plan valid and not.\<close>

lemma planned_meta: "plan_text planned_dir (InPlans ''p.md'') = ''- [ ] WU-1''"
    "plan_meta yaml planned_dir (InPlans ''p.md'') = Some []"
  by (simp_all add: plan_meta_def plan_text_def plan_dir_def planned_dir_def text_doc_def frontmatter_def plain_line
      plain_strip fence_def)

lemma planned_plans: "find_implementation_plans yaml planned_dir = Some [InPlans ''p.md'']"
proof -
  have "plan_candidates planned_dir = [InPlans ''p.md'']"
    by (simp add: plan_candidates_def planned_dir_def plan_dir_def impl_plan_name_def has_doc_def
        suffix_to_prefix)
  then show ?thesis
    by (simp add: find_implementation_plans_def planned_meta is_complete_plan_def mget_def)
qed

lemma planned_route:
  "plan_step env sample_cfg it planned_dir = Some (run_plan env it planned_dir (InPlans ''p.md''))"
proof -
  have "plan_phase_set (the_yaml env) planned_dir (InPlans ''p.md'') = Some {}"
    by (simp add: plan_phase_set_def planned_meta phase_entries_def mget_def)
  then show ?thesis
    by (simp add: plan_step_def planned_phases planned_count planned_plans route_plan_def plan_is_stale_def sample_cfg_def)
qed

lemma planned_docs [simp]: "dget (docs planned_dir) n =
    (if n \<in> {''SPEC.md'', ''RESEARCH_SUMMARY.md''} then Some empty_doc
     else if n = ''PHASES.md'' then Some (text_doc ''- [ ] a'') else None)"
  by (simp add: planned_dir_def)

lemma planned_has [simp]: "has_doc planned_dir n \<longleftrightarrow> n \<in> {''SPEC.md'', ''RESEARCH_SUMMARY.md'', ''PHASES.md''}"
  by (simp add: has_doc_def)

lemma planned_no_stray: "detect_noncanonical_blocker planned_dir = None"
proof -
  have "set (dir_names planned_dir) = {''SPEC.md'', ''RESEARCH_SUMMARY.md'', ''PHASES.md'', ''plans''}"
    by (auto simp: dir_names_def planned_dir_def)
  moreover have "\<not> stray_blocker ''SPEC.md''" "\<not> stray_blocker ''RESEARCH_SUMMARY.md''" "\<not> stray_blocker ''PHASES.md''"
      "\<not> stray_blocker ''plans''"
    by (simp_all add: stray_blocker_def starts_ci_def to_lower_def)
  ultimately show ?thesis by (auto simp: detect_noncanonical_blocker_def find_None_iff)
qed

lemma planned_passes: "list_all (\<lambda>s. s env sample_cfg new_item planned_dir = Some Onward) (take 10 route_steps)"
  by (simp add: route_steps_def step_onward planned_no_stray provisional_sentinel_def spec_text_def upstreams_fresh_def
      researched_def queue_stub_def new_item_def new_entry_def jget_def planned_phases)

lemma planned_item:
  "route_item env sample_cfg new_item planned_dir = Some (run_plan env new_item planned_dir (InPlans ''p.md''))"
proof -
  obtain r w where r: "run_plan env new_item planned_dir (InPlans ''p.md'') = Halt r w"
    using run_plan_halts(3) by (metis step_result.exhaust)
  have "route_steps = take 10 route_steps @ plan_step # drop 11 route_steps" by (simp add: route_steps_def)
  then show ?thesis
    using run_steps_halt [OF planned_passes, where s = plan_step and r = r and w = w and ts = "drop 11 route_steps"]
    by (simp add: route_item_def planned_route r)
qed

definition valid_plan_env :: step_env where
  "valid_plan_env = sample_step_env\<lparr>se_plan_errors := (\<lambda>s. False)\<rparr>"

theorem executed_plan_is_first_open_witness:
  "\<exists>r w. route_item valid_plan_env sample_cfg new_item planned_dir = Some (Halt r w) \<and>
     sub_skill r = Some ''execute-plan'' \<and> sub_skill_args r = Some (plan_file new_item (InPlans ''p.md''))"
proof -
  let ?r = "dispatch new_item ''Step 7a: execute plan'' ''execute-plan'' (plan_file new_item (InPlans ''p.md''))"
  have run: "route_item valid_plan_env sample_cfg new_item planned_dir = Some (Halt ?r NoWrite)"
    by (simp add: planned_item run_plan_def plan_structural_backstop_def valid_plan_env_def halt_run_def)
  have "plan_candidates planned_dir = [InPlans ''p.md'']"
    by (simp add: plan_candidates_def planned_dir_def plan_dir_def impl_plan_name_def has_doc_def suffix_to_prefix)
  with executed_plan_is_first_open [OF run] have "sub_skill_args ?r = Some (plan_file new_item (InPlans ''p.md''))"
    by auto
  with run show ?thesis by (intro exI [of _ ?r] exI [of _ NoWrite]) simp
qed

text \<open>The blocker that is written for the plan, read back.\<close>

definition planned_blocker :: string where
  "planned_blocker = blocked_text (se_walk sample_step_env) ''b'' ''Plan structural validation'' ''plan-structural-invalid''"

lemma blocker_lines: "splitlines planned_blocker = [fence, [], fence, [], ''# Sentinel'']"
proof -
  have parts: "list_all printable fence" "list_all printable ''# Sentinel''" "fence \<noteq> []"
    by (simp_all add: fence_def printable_def)
  have blocker: "planned_blocker = fence @ newline @ newline @ fence @ newline @ newline @ ''# Sentinel'' @ newline"
    by (simp add: planned_blocker_def blocked_text_def sentinel_text_def sample_step_env_def sample_route_env_def)
  have last: "split_lines acc newline = [rev acc]" for acc using split_lines_newline [of acc "[]"] by (simp add: split_lines_nil)
  have title: "split_lines acc (''# Sentinel'' @ newline) = [rev acc @ ''# Sentinel'']" for acc
    unfolding split_lines_printable [OF parts(2)] last by simp
  show ?thesis unfolding blocker splitlines_def split_lines_printable [OF parts(1)] split_lines_newline title by simp
qed

lemma planned_blocks:
  "route_item sample_step_env sample_cfg new_item planned_dir =
     Some (Halt (item_stop new_item ''Step 7a: blocked (plan structurally invalid)'' ''blocked'')
       (WriteDoc ''BLOCKED.md'' planned_blocker))"
  by (simp add: planned_item run_plan_def plan_structural_backstop_def planned_meta planned_work planned_blocker_def)
    (simp add: sample_step_env_def new_item_def)

theorem written_sentinel_stops_witness:
  "\<exists>r w. route_item sample_step_env sample_cfg new_item (apply_write (WriteDoc ''BLOCKED.md'' planned_blocker) planned_dir) =
     Some (Halt r w) \<and> terminal_reason r = Some ''blocked'' \<and> sub_skill r = None"
proof -
  have fence: "fence \<noteq> []" by (simp add: fence_def)
  let ?m = "[(''kind'', JStr ''completed''), (''provenance'', JStr ''gate'')]"
  have "parse_sentinel (the_yaml sample_step_env) (apply_write (WriteDoc ''BLOCKED.md'' planned_blocker) planned_dir)
      ''BLOCKED.md'' = Some ?m"
    using fence by (simp add: parse_sentinel_def apply_write_def frontmatter_def blocker_lines strip_fence load_mapping_def
        the_yaml_def sample_step_env_def sample_route_env_def sample_yaml_def)
  from written_sentinel_stops [OF planned_blocks this] show ?thesis by (simp add: mget_def)
qed

text \<open>A probe over an absent queue file.\<close>

theorem probe_decides_witness:
  "\<exists>e. compute_state sample_step_env sample_cfg = Some e \<and>
     (sub_skill (pe_route e) = None) = (terminal_reason (pe_route e) \<noteq> None)"
proof -
  obtain e where "compute_state sample_step_env sample_cfg = Some e"
    by (simp add: compute_state_def route_queue_def load_queue_def sample_step_env_def queue_autodiscover_enabled_def
        sample_cfg_def)
  note e = this
  show ?thesis by (intro exI [of _ e] conjI e probe_decides [OF e, THEN conjunct1])
qed

lemma waived_docs [simp]: "dget (docs waived_dir) n =
    (if n \<in> {''SPEC.md'', ''RESEARCH_SUMMARY.md'', ''PHASES.md'', ''SKIP_MCP_TEST.md''} then Some empty_doc else None)"
  by (simp add: waived_dir_def)

lemma waived_has [simp]:
  "has_doc waived_dir n \<longleftrightarrow> n \<in> {''SPEC.md'', ''RESEARCH_SUMMARY.md'', ''PHASES.md'', ''SKIP_MCP_TEST.md''}"
  by (simp add: has_doc_def)

lemma waived_no_stray: "detect_noncanonical_blocker waived_dir = None"
  by (simp add: detect_noncanonical_blocker_def find_None_iff dir_names_def)
    (simp add: waived_dir_def stray_blocker_def starts_ci_def to_lower_def)

lemma waived_item:
  "route_item sample_step_env sample_cfg new_item waived_dir =
     Some (Halt (dispatch new_item (''Step 9: skip-mcp-test '' @ arrow @ '' validated'') ''__write_validated_from_skip__''
       (path_str (it_path new_item))) NoWrite)" (is "_ = Some (Halt ?r NoWrite)")
proof -
  have 1: "list_all (\<lambda>s. s sample_step_env sample_cfg new_item waived_dir = Some Onward) (take 12 route_steps)"
    by (simp add: route_steps_def step_onward waived_no_stray provisional_sentinel_def spec_text_def upstreams_fresh_def
        researched_def queue_stub_def new_item_def new_entry_def jget_def plan_onward phases_doc_def plans_done_def
        count_deliverables_def)
  have 2: "validation_step sample_step_env sample_cfg new_item waived_dir = Some (Halt ?r NoWrite)"
    by (simp add: validation_step_def waiver_route_def parse_sentinel_def skip_waiver_refusal_def mget_def halt_run_def)
  have "route_steps = take 12 route_steps @ validation_step # drop 13 route_steps" by (simp add: route_steps_def)
  then show ?thesis unfolding route_item_def 
    using run_steps_halt [OF 1, where s = validation_step and r = ?r and w = NoWrite and ts = "drop 13 route_steps"] 2
    by simp
qed

theorem validation_is_earned_witness:
  "\<exists>m. parse_sentinel (the_yaml sample_step_env) waived_dir ''SKIP_MCP_TEST.md'' = Some m \<and>
     skip_waiver_refusal (the_repo sample_step_env) m = None"
  using validation_is_earned [OF waived_item] by simp

text \<open>A verification row that is open for Step 7 and invisible to Step 10.\<close>

definition slip_row :: string where
  "slip_row = ''- [] <!-- verification-only -->''"

lemma slip_lines: "phase_lines slip_row = [slip_row]"
  by (simp add: phase_lines_def slip_row_def splitlines_line printable_def strip_plain plain_char_def code_fence_def)

lemma slip_open: "open_row slip_row \<noteq> None"
  by (simp add: open_row_def after_dash_def close_box_def slip_row_def lstrip_space lstrip_plain plain_char_def)

lemma slip_kind: "\<exists>r. line_kind slip_row = Row r"
proof -
  have s: "strip slip_row = slip_row" by (simp add: slip_row_def strip_plain plain_char_def)
  have "heading_text slip_row = None" "bold_text slip_row = None"
    by (simp_all add: heading_text_def is_hash_def bold_text_def slip_row_def)
  then show ?thesis by (simp add: line_kind_def s slip_open)
qed

lemma slip_unseen: "\<not> rx_match unchecked_row_rx slip_row"
  by (simp add: rx_match_def unchecked_row_rx_def slip_row_def star_plain plain_char_def advance_def Plus_def white_plain
      white_space del: rests.simps(4,9))

theorem open_row_slips_through:
  "fst (count_deliverables slip_row) = 1 \<and> remaining_unchecked_are_verification_only slip_row \<and>
    collect_uncovered_verification_rows slip_row = []"
proof -
  have m: "contains verification_only_marker slip_row" by (simp add: verification_only_marker_def slip_row_def)
  obtain r where r: "line_kind slip_row = Row r" using slip_kind by blast
  have "cover_row slip_row sc = None" for sc by (simp add: cover_row_def slip_unseen Let_def)
  then show ?thesis using slip_open
    by (simp add: count_deliverables_def remaining_unchecked_are_verification_only_def slip_lines r row_exempt_def m
        collect_uncovered_verification_rows_def)
qed

end
