(* ===== verification/Completion_Props.thy ===== *)
theory Completion_Props
  imports Completion_Facts Route_Samples
begin

text \<open>
  What a completion promises: the receipt is earned, the audit finds nothing left, an interrupted completion is
  taken up again as long as its evidence is on disk, and refused for good once the evidence is gone.
\<close>

subsection \<open>Where a completion comes from\<close>

lemma applied_shape:
  assumes "mark_complete env fixed p = (Applied, es)"
  obtains pre tl v s where "es = pre @ tl" "completion_tail env fixed (do_effects pre p) = (Applied, tl)"
    "list_all (\<lambda>e. \<not> sets_queue e \<and> \<not> sets_roadmap e) pre"
    "parse_sentinel (ps_yaml env) (pl_dir p) ''MCP_TEST_RESULTS.md'' \<noteq> None"
    "doc_kind env (pl_dir p) ''VALIDATED.md'' = Some v" "doc_kind env (pl_dir p) ''SKIP_MCP_TEST.md'' = Some s"
    "v = JStr ''validated'' \<or> s = JStr ''skip-mcp-test''"
proof -
  let ?d = "pl_dir p"
  obtain v s where vs: "doc_kind env ?d ''VALIDATED.md'' = Some v" "doc_kind env ?d ''SKIP_MCP_TEST.md'' = Some s"
      "v = JStr ''validated'' \<or> s = JStr ''skip-mcp-test''"
    using assms by (auto simp: mark_complete_def Let_def split: option.splits if_splits)
  from assms vs consider b where "mark_fresh env fixed b p = (Applied, es)" | "mark_resume env fixed p = (Applied, es)"
    by (auto simp: mark_complete_def Let_def split: option.splits if_splits list.splits)
  then show thesis
  proof cases
    case 1
    then show thesis
    proof (cases rule: fresh_cases)
      case (2 xs n r tl)
      have "list_all (\<lambda>e. \<not> sets_queue e \<and> \<not> sets_roadmap e) (xs @ [Put (receipt_name fixed) (receipt_text env fixed b r n)])"
        using coherence_effects [OF 2(1)] by (auto simp: list_all_iff)
      then show thesis using that [OF 2(3,4)] 2(2) vs by simp
    qed simp
  next
    case 2
    then show thesis using that [of "[]" es] vs by (auto simp: mark_resume_def split: option.splits)
  qed
qed

lemma applied_evidence:
  assumes "mark_complete env fixed p = (Applied, es)"
  shows "\<exists>v s. doc_kind env (pl_dir p) ''VALIDATED.md'' = Some v \<and> doc_kind env (pl_dir p) ''SKIP_MCP_TEST.md'' = Some s \<and>
      (v = JStr ''validated'' \<or> s = JStr ''skip-mcp-test'')"
    and "parse_sentinel (ps_yaml env) (pl_dir p) ''MCP_TEST_RESULTS.md'' \<noteq> None"
  by (rule applied_shape [OF assms]; blast)+

lemma applied_tail:
  assumes "mark_complete env fixed p = (Applied, es)"
  obtains pre rest where "es = pre @ rest" "completion_tail env fixed (do_effects pre p) = (Applied, rest)"
    "list_all (\<lambda>e. \<not> sets_queue e \<and> \<not> sets_roadmap e) pre"
    "pl_queue (do_effects pre p) = pl_queue p" "pl_roadmap (do_effects pre p) = pl_roadmap p"
proof (rule applied_shape [OF assms])
  fix pre rest v s assume a: "es = pre @ rest" "completion_tail env fixed (do_effects pre p) = (Applied, rest)"
    and quiet: "list_all (\<lambda>e. \<not> sets_queue e \<and> \<not> sets_roadmap e) pre"
  have "pl_queue (do_effects pre p) = pl_queue p" "pl_roadmap (do_effects pre p) = pl_roadmap p"
    by (rule frame_queue frame_roadmap, rule list.pred_mono_strong [OF quiet], simp)+
  then show thesis using that [OF a quiet] by simp
qed

lemma applied_after:
  assumes "mark_complete env fixed p = (Applied, es1 @ es2)"
  shows "the_doc (do_effects es1 p) ''SKIP_MCP_TEST.md'' = the_doc p ''SKIP_MCP_TEST.md''"
    and "the_doc (do_effects es1 p) ''MCP_TEST_RESULTS.md'' = the_doc p ''MCP_TEST_RESULTS.md''"
    and "Erase ''VALIDATED.md'' \<in> set es1 \<Longrightarrow> the_doc (do_effects es1 p) ''VALIDATED.md'' = None"
    and "Erase ''VALIDATED.md'' \<notin> set es1 \<Longrightarrow> the_doc (do_effects es1 p) ''VALIDATED.md'' = the_doc p ''VALIDATED.md''"
proof -
  have writes: "list_all completion_effect es1" using completion_writes [OF assms] by simp
  show "the_doc (do_effects es1 p) ''SKIP_MCP_TEST.md'' = the_doc p ''SKIP_MCP_TEST.md''"
    "the_doc (do_effects es1 p) ''MCP_TEST_RESULTS.md'' = the_doc p ''MCP_TEST_RESULTS.md''"
    by (rule evidence_frame [OF writes], simp)+
  have no_put: "list_all (\<lambda>e. \<forall>t. e \<noteq> Put ''VALIDATED.md'' t) es1"
    using writes by (auto simp: list_all_iff written_names_def)
  then show "Erase ''VALIDATED.md'' \<in> set es1 \<Longrightarrow> the_doc (do_effects es1 p) ''VALIDATED.md'' = None"
    by (rule erased_gone [rotated])
  have "\<not> touches ''VALIDATED.md'' e" if "e \<in> set es1" "Erase ''VALIDATED.md'' \<notin> set es1" for e
    using that no_put by (auto simp: touches_iff list_all_iff)
  then show "Erase ''VALIDATED.md'' \<notin> set es1 \<Longrightarrow> the_doc (do_effects es1 p) ''VALIDATED.md'' = the_doc p ''VALIDATED.md''"
    by (intro frame_doc) (simp add: list_all_iff)
qed

subsection \<open>The properties\<close>

text \<open>
  C15. Once a completion has run to its end, its own audit finds nothing left: the top status of the specification
  and of the phases is the final one, the sentinels are gone, and for a feature the queue has no entry and the
  roadmap no open row of it (the lines of the roadmap end with newlines).
\<close>

theorem completion_leaves_nothing:
  assumes "mark_complete env fixed p = (Applied, es)" and "case_option True newlines_only (pl_roadmap p)"
  shows "completion_postconditions_missing env fixed (do_effects es p) = Some []"
proof -
  obtain pre rest where "es = pre @ rest" "pl_roadmap (do_effects pre p) = pl_roadmap p"
    and rest: "completion_tail env fixed (do_effects pre p) = (Applied, rest)"
    by (rule applied_tail [OF assms(1)])
  then show ?thesis using tail_done [OF rest] assms(2) by (auto split: option.splits)
qed

text \<open>
  C16. A completion that dies after it has erased \<open>VALIDATED.md\<close>, or that is run again after it has finished, is
  refused for lack of evidence without a write, unless a waiver is on file: what the tail had not yet done is never
  done, and the receipt does not make the second run a no-op.
\<close>

theorem interrupted_after_erase_is_refused:
  assumes "mark_complete env fixed p = (Applied, es1 @ es2)" and "Erase ''VALIDATED.md'' \<in> set es1"
    and "doc_kind env (pl_dir p) ''SKIP_MCP_TEST.md'' \<noteq> Some (JStr ''skip-mcp-test'')"
  shows "mark_complete env fixed (do_effects es1 p) = (Refused NoEvidence, [])"
proof -
  obtain s where s: "doc_kind env (pl_dir p) ''SKIP_MCP_TEST.md'' = Some s"
    using applied_evidence(1) [OF assms(1)] by blast
  have "doc_kind env (pl_dir (do_effects es1 p)) ''VALIDATED.md'' = Some JNull"
    using applied_after(3) [OF assms(1,2)] by (simp add: doc_kind_def parse_the_doc mget_def)
  moreover have "doc_kind env (pl_dir (do_effects es1 p)) ''SKIP_MCP_TEST.md'' = Some s"
    using kind_the_doc [OF applied_after(1) [OF assms(1)]] s by simp
  ultimately show ?thesis using assms(3) s by (simp add: mark_complete_def)
qed

lemma items_frame:
  assumes "list_all completion_effect es" and "completion_items (pl_queue p) \<noteq> None"
  shows "completion_items (pl_queue (do_effects es p)) \<noteq> None"
  using assms
proof (induction es arbitrary: p)
  case (Cons e es)
  have "completion_items (pl_queue (do_effect e p)) \<noteq> None"
    using Cons.prems by (cases e) (auto simp: completion_items_def split: json.splits)
  then show ?case using Cons by simp
qed simp

lemma tail_total:
  assumes "\<not> fixed \<longrightarrow> completion_items (pl_queue p) \<noteq> None"
  shows "\<exists>tl. completion_tail env fixed p = (Applied, tl)"
  using assms by (auto simp: completion_tail_def Let_def trim_queue_def)

lemma audit_total:
  "\<not> fixed \<longrightarrow> completion_items (pl_queue p) \<noteq> None \<Longrightarrow> completion_postconditions_missing env fixed p \<noteq> None"
  by (auto simp: completion_postconditions_missing_def Let_def queue_left_def)

lemma applied_items:
  assumes "mark_complete env fixed p = (Applied, es)"
  shows "\<not> fixed \<longrightarrow> completion_items (pl_queue p) \<noteq> None"
proof -
  obtain pre rest where "completion_tail env fixed (do_effects pre p) = (Applied, rest)" "pl_queue (do_effects pre p) = pl_queue p"
    by (rule applied_tail [OF assms])
  then show ?thesis by (auto simp: completion_tail_def Let_def trim_queue_def split: if_splits option.splits)
qed

text \<open>Every roadmap that a completion writes has newlines only.\<close>

lemma roadmap_frame:
  assumes "list_all (\<lambda>e. \<forall>t. e = SetRoadmap t \<longrightarrow> newlines_only t) es" and "case_option True newlines_only (pl_roadmap p)"
  shows "case_option True newlines_only (pl_roadmap (do_effects es p))"
  using assms
proof (induction es arbitrary: p)
  case (Cons e es)
  have "case_option True newlines_only (pl_roadmap (do_effect e p))" using Cons.prems by (cases e) auto
  then show ?case using Cons by simp
qed simp

lemma tail_roadmap:
  assumes "completion_tail env fixed p = (Applied, es)" and "case_option True newlines_only (pl_roadmap p)"
  shows "list_all (\<lambda>e. \<forall>t. e = SetRoadmap t \<longrightarrow> newlines_only t) es"
proof (rule tail_shape [OF assms(1)])
  fix qs rs assume es: "es = status_write (status_value fixed) (pl_dir p) ''SPEC.md'' @ status_write (status_value fixed) (pl_dir p) ''PHASES.md'' @
       cleanup (pl_dir p) @ qs @ rs @ provenance_write env"
    and none: "fixed \<Longrightarrow> qs = [] \<and> rs = []"
    and some: "\<not> fixed \<Longrightarrow> trim_queue env (pl_queue p) = Some qs \<and> rs = strike_roadmap_row env (pl_roadmap p)"
  have weak: "list_all (\<lambda>e. \<forall>t. e = SetRoadmap t \<longrightarrow> newlines_only t) xs" if "list_all (\<lambda>e. R e \<and> \<not> sets_roadmap e) xs" for R xs
    using that by (auto simp: list_all_iff)
  have "list_all (\<lambda>e. \<forall>t. e = SetRoadmap t \<longrightarrow> newlines_only t) (strike_roadmap_row env (pl_roadmap p))"
    using assms(2) struck_lines(2) by (cases "pl_roadmap p") (auto simp: strike_write, simp add: strike_roadmap_row_def)
  then have "list_all (\<lambda>e. \<forall>t. e = SetRoadmap t \<longrightarrow> newlines_only t) qs"
    "list_all (\<lambda>e. \<forall>t. e = SetRoadmap t \<longrightarrow> newlines_only t) rs"
    using none some weak [OF trim_side [of env "pl_queue p" qs]] by (cases fixed; simp)+
  then show ?thesis
    unfolding es using weak [OF status_side] weak [OF cleanup_side(1)] weak [OF provenance_side(1)] by simp
qed

lemma applied_roadmap:
  assumes "mark_complete env fixed p = (Applied, es1 @ es2)" and "case_option True newlines_only (pl_roadmap p)"
  shows "case_option True newlines_only (pl_roadmap (do_effects es1 p))"
proof -
  obtain pre rest where es: "es1 @ es2 = pre @ rest" and rest: "completion_tail env fixed (do_effects pre p) = (Applied, rest)"
    and pre: "list_all (\<lambda>e. \<not> sets_queue e \<and> \<not> sets_roadmap e) pre" "pl_roadmap (do_effects pre p) = pl_roadmap p"
    by (rule applied_tail [OF assms(1)])
  have "list_all (\<lambda>e. \<forall>t. e = SetRoadmap t \<longrightarrow> newlines_only t) rest" using tail_roadmap [OF rest] assms(2) pre(2) by simp
  then have "list_all (\<lambda>e. \<forall>t. e = SetRoadmap t \<longrightarrow> newlines_only t) (es1 @ es2)"
    unfolding es using pre(1) by (auto simp: list_all_iff)
  then show ?thesis using assms(2) by (intro roadmap_frame) simp_all
qed

text \<open>
  C14. A completion that dies once its receipt is on disk and before its evidence is gone is taken up again: the
  next call ends, writes no second receipt, and leaves the state in which the audit finds nothing.
\<close>

theorem interrupted_completion_resumes:
  assumes "mark_complete env fixed p = (Applied, es1 @ es2)" and "case_option True newlines_only (pl_roadmap p)"
    and "doc_kind env (pl_dir (do_effects es1 p)) (receipt_name fixed) = Some (JStr (receipt_kind fixed))"
    and "Erase ''VALIDATED.md'' \<notin> set es1 \<or> doc_kind env (pl_dir p) ''SKIP_MCP_TEST.md'' = Some (JStr ''skip-mcp-test'')"
  shows "\<exists>e es3. mark_complete env fixed (do_effects es1 p) = (e, es3) \<and> e \<in> {Noop, Applied} \<and>
    list_all (\<lambda>x. \<not> touches (receipt_name fixed) x) es3 \<and>
    completion_postconditions_missing env fixed (do_effects (es1 @ es3) p) = Some []"
proof -
  let ?q = "do_effects es1 p"
  obtain v s where vs: "doc_kind env (pl_dir p) ''VALIDATED.md'' = Some v" "doc_kind env (pl_dir p) ''SKIP_MCP_TEST.md'' = Some s"
      "v = JStr ''validated'' \<or> s = JStr ''skip-mcp-test''"
    and res: "parse_sentinel (ps_yaml env) (pl_dir p) ''MCP_TEST_RESULTS.md'' \<noteq> None"
    using applied_evidence [OF assms(1)] by blast
  note after = applied_after [OF assms(1)]
  obtain v' where ev: "doc_kind env (pl_dir ?q) ''VALIDATED.md'' = Some v'" "v' = JStr ''validated'' \<or> s = JStr ''skip-mcp-test''"
  proof (cases "Erase ''VALIDATED.md'' \<in> set es1")
    case True
    then have "doc_kind env (pl_dir ?q) ''VALIDATED.md'' = Some JNull"
      using after(3) by (simp add: doc_kind_def parse_the_doc mget_def)
    then show thesis using that assms(4) True vs by simp
  next
    case False
    then show thesis using that [of v] kind_the_doc [OF after(4)] vs by simp
  qed
  have skip: "doc_kind env (pl_dir ?q) ''SKIP_MCP_TEST.md'' = Some s" using kind_the_doc [OF after(1)] vs by simp
  have res': "parse_sentinel (ps_yaml env) (pl_dir ?q) ''MCP_TEST_RESULTS.md'' \<noteq> None"
    using res after(2) by (simp add: parse_the_doc)
  have items: "\<not> fixed \<longrightarrow> completion_items (pl_queue ?q) \<noteq> None"
    using applied_items [OF assms(1)] items_frame completion_writes [OF assms(1)] by auto
  from audit_total [OF items] obtain xs where xs: "completion_postconditions_missing env fixed ?q = Some xs" by blast
  show ?thesis
  proof (cases xs)
    case Nil
    then show ?thesis using ev skip assms(3) xs by (auto simp: mark_complete_def)
  next
    case (Cons x rest)
    obtain tl where tl: "completion_tail env fixed ?q = (Applied, tl)" using tail_total [OF items] by blast
    have "mark_complete env fixed ?q = (Applied, tl)"
      using ev skip assms(3) xs Cons res' tl by (auto simp: mark_complete_def mark_resume_def split: option.splits)
    moreover have "list_all (\<lambda>x. \<not> touches (receipt_name fixed) x) tl"
      by (rule tail_keeps_receipt [OF tl])
    ultimately show ?thesis using tail_done [OF tl] applied_roadmap [OF assms(1,2)] by (auto split: option.splits)
  qed
qed


lemma changed_marked:
  "length ms = length ls \<Longrightarrow>
    length (filter (\<lambda>(a, b). a \<noteq> b) (zip (map2 (\<lambda>m l. if m then f l else l) ms ls) ls)) \<le> length (filter id ms)"
  by (induction ms ls rule: list_induct2) auto

text \<open>
  C23. The automatic tick rewrites no more rows than tests passed; every line that differs afterwards was an open row
  that had not been ticked before, and it keeps its end.
\<close>

theorem autotick_is_bounded:
  assumes "autotick_verification_rows text commit pass = Some (n, text')"
  shows "int n \<le> pass \<and>
    (\<exists>ls. text' = raw_text ls \<and> length ls = length (keep_lines [] text) \<and>
      length (filter (\<lambda>(a, b). a \<noteq> b) (zip ls (keep_lines [] text))) \<le> n \<and>
      (\<forall>i<length ls. ls ! i = keep_lines [] text ! i \<or>
        tick_box (line_body (keep_lines [] text ! i)) \<noteq> None \<and> \<not> contains audit_prefix (raw_line (keep_lines [] text ! i)) \<and>
        ls ! i = ticked_line commit (keep_lines [] text ! i)))"
proof -
  let ?ls = "keep_lines [] text" and ?ms = "tick_marks False False False (keep_lines [] text)"
  let ?new = "map2 (\<lambda>m l. if m then ticked_line commit l else l) ?ms ?ls"
  have out: "n = length (filter id ?ms)" "text' = raw_text ?new" "int n \<le> pass"
    using assms by (auto simp: autotick_verification_rows_def Let_def split: if_splits)
  have "length (filter (\<lambda>(a, b). a \<noteq> b) (zip ?new ?ls)) \<le> n"
    unfolding out(1) by (rule changed_marked) simp
  moreover have "\<forall>i<length ?new. ?new ! i = ?ls ! i \<or>
      tick_box (line_body (?ls ! i)) \<noteq> None \<and> \<not> contains audit_prefix (raw_line (?ls ! i)) \<and> ?new ! i = ticked_line commit (?ls ! i)"
    using tick_marks_rows [of _ ?ls False False False] by auto
  ultimately show ?thesis using out by (intro conjI exI [of _ ?new]) simp_all
qed

lemma flip_status_split:
  "flip_status ls = Some ls' \<Longrightarrow>
    \<exists>a l b. ls = a @ l # b \<and> ls' = a @ (''status: Complete'', line_end l) # b \<and> status_row l \<and> list_all (\<lambda>x. \<not> status_row x) a"
proof (induction ls arbitrary: ls')
  case (Cons l ls)
  show ?case
  proof (cases "status_row l")
    case True
    then show ?thesis using Cons.prems by (intro exI [of _ "[]"]) auto
  next
    case False
    then obtain r where r: "flip_status ls = Some r" "ls' = l # r" using Cons.prems by auto
    from Cons.IH [OF r(1)] obtain a k b where "ls = a @ k # b" "r = a @ (''status: Complete'', line_end k) # b" "status_row k"
      "list_all (\<lambda>x. \<not> status_row x) a" by blast
    then show ?thesis using r False by (intro exI [of _ "l # a"]) auto
  qed
qed simp

text \<open>
  C24. Flipping a plan changes one line of it: the first status line of the leading block becomes
  \<open>status: Complete\<close> and keeps its end, and every other byte stays.
\<close>

theorem flip_changes_one_line:
  assumes "flip_plan_text t = Some t'"
  shows "\<exists>a l b. keep_lines [] t = a @ l # b \<and> status_row l \<and> t = raw_text a @ raw_line l @ raw_text b \<and>
    t' = raw_text a @ ''status: Complete'' @ line_end l @ raw_text b \<and>
    (\<exists>blank op block. a = blank @ op # block \<and> list_all (\<lambda>x. strip (fst x) = []) blank \<and> strip (fst op) = fence \<and>
       list_all (\<lambda>x. \<not> status_row x \<and> strip (fst x) \<noteq> fence) block)"
proof -
  let ?ls = "keep_lines [] t"
  let ?blank = "takeWhile (\<lambda>l. strip (fst l) = []) ?ls" and ?rest = "dropWhile (\<lambda>l. strip (fst l) = []) ?ls"
  let ?block = "takeWhile (\<lambda>l. strip (fst l) \<noteq> fence) (tl ?rest)" and ?tail = "dropWhile (\<lambda>l. strip (fst l) \<noteq> fence) (tl ?rest)"
  obtain block' where r: "?rest \<noteq> []" "strip (fst (hd ?rest)) = fence" "flip_status ?block = Some block'"
      "t' = raw_text (?blank @ hd ?rest # block' @ ?tail)"
    using assms by (auto simp: flip_plan_text_def Let_def split: if_splits)
  obtain a l b where f: "?block = a @ l # b" "block' = a @ (''status: Complete'', line_end l) # b" "status_row l"
      "list_all (\<lambda>x. \<not> status_row x) a"
    using flip_status_split [OF r(3)] by blast
  obtain A B where A: "A = ?blank @ hd ?rest # a" and B: "B = b @ ?tail" by blast
  have "?ls = ?blank @ hd ?rest # tl ?rest" using r(1) by (metis list.collapse takeWhile_dropWhile_id)
  also have "tl ?rest = a @ l # B" unfolding B using f(1) by (metis append.assoc append_Cons takeWhile_dropWhile_id)
  finally have ls: "?ls = A @ l # B" unfolding A by (simp only: append.assoc append_Cons)
  have raw: "raw_text (xs @ ys) = raw_text xs @ raw_text ys" "raw_text (x # ys) = raw_line x @ raw_text ys" for xs x ys
    by (simp_all add: raw_text_def)
  have "t = raw_text ?ls" using raw_keep [of "[]" t] by simp
  also have "\<dots> = raw_text A @ raw_line l @ raw_text B" unfolding ls by (simp only: raw)
  finally have 1: "t = raw_text A @ raw_line l @ raw_text B" .
  have "t' = raw_text (A @ (''status: Complete'', line_end l) # B)" unfolding r(4) f(2) A B by (simp only: append.assoc append_Cons)
  then have 2: "t' = raw_text A @ ''status: Complete'' @ line_end l @ raw_text B"
    by (simp only: raw) (simp add: raw_line_def)
  have 3: "list_all (\<lambda>x. \<not> status_row x \<and> strip (fst x) \<noteq> fence) a"
    using set_takeWhileD [of _ "\<lambda>l. strip (fst l) \<noteq> fence" "tl ?rest"] f(1,4) by (fastforce simp: list_all_iff)
  have 4: "list_all (\<lambda>x. strip (fst x) = []) ?blank" by (auto simp: list_all_iff dest: set_takeWhileD)
  show ?thesis using ls f(3) 1 2 A 4 r(2) 3 by blast
qed

end
