(* ===== verification/Completion_Samples.thy ===== *)
theory Completion_Samples
  imports Completion_Props
begin

text \<open>A completion on a small directory, the properties applied to it, and completions that never come to an end.\<close>

subsection \<open>A completion\<close>

definition kind_yaml :: yaml where
  "kind_yaml s = (if prefix ''kind: completed'' s then Some (JObj [(''kind'', JStr ''completed'')])
     else Some (JObj [(''kind'', JStr ''validated'')]))"

definition sample_pseudo :: pseudo_env where
  "sample_pseudo = \<lparr>ps_yaml = kind_yaml, ps_repo = the_repo sample_step_env, ps_flow = (\<lambda>v. []), ps_block = (\<lambda>v. []),
     ps_date = ''d'', ps_name = ''f'', ps_feature = ''f'', ps_resolve = (\<lambda>s. s), ps_here = ''f'', ps_contained = False,
     ps_strict = False, ps_gated = False, ps_provenance = None\<rparr>"

definition validated_doc :: doc where
  "validated_doc = text_doc (join newline [fence, ''kind: validated'', fence])"

definition sample_plant :: plant where
  "sample_plant = \<lparr>pl_dir = \<lparr>docs = [(''VALIDATED.md'', validated_doc)], plan_docs = None\<rparr>, pl_queue = Absent,
     pl_roadmap = None, pl_now = 0\<rparr>"

definition sample_receipt :: effect where
  "sample_receipt = Put ''COMPLETED.md'' (receipt_text sample_pseudo False True [] 0)"

lemma validated_front: "frontmatter kind_yaml (doc_text validated_doc) = Some [(''kind'', JStr ''validated'')]"
proof -
  have s: "strip ''kind: validated'' \<noteq> fence" by (simp add: strip_plain plain_char_def fence_def)
  have "join newline [fence, ''kind: validated'', fence] = join newline (fence # [''kind: validated''] @ fence # [])" by simp
  then show ?thesis
    unfolding validated_doc_def text_doc_def
    using frontmatter_block [of "[''kind: validated'']" "[]" kind_yaml] s
    by (simp add: load_mapping_def kind_yaml_def printable_def)
qed

lemma sample_kinds:
  "doc_kind sample_pseudo (pl_dir sample_plant) ''VALIDATED.md'' = Some (JStr ''validated'')"
  "n \<noteq> ''VALIDATED.md'' \<Longrightarrow> parse_sentinel kind_yaml (pl_dir sample_plant) n = Some []"
  by (simp_all add: doc_kind_def parse_sentinel_def sample_plant_def sample_pseudo_def validated_front mget_def)

lemma sample_run: "mark_complete sample_pseudo False sample_plant = (Applied, [sample_receipt, Erase ''VALIDATED.md''])"
proof -
  let ?d = "pl_dir sample_plant"
  have none: "phases_doc ?d = None" "\<not> has_doc ?d provisional_sentinel" "doc_kind sample_pseudo ?d n = Some JNull" if "n \<noteq> ''VALIDATED.md''" for n
    using that sample_kinds(2)
    by (simp_all add: phases_doc_def has_doc_def sample_plant_def doc_kind_def sample_pseudo_def mget_def provisional_sentinel_def)
  have retro: "retro_staleness kind_yaml ?d = Some False"
    using sample_kinds(2) by (simp add: retro_staleness_def mget_def evidence_count_def)
  have coh: "coherence sample_pseudo sample_plant = (None, [], 0)"
    using none(1) [of "[]"] by (simp add: coherence_def)
  let ?p = "do_effects [sample_receipt] sample_plant"
  have gone: "dget (docs (pl_dir ?p)) n = (if n = ''COMPLETED.md'' then Some \<lparr>doc_text = receipt_text sample_pseudo False True [] 0, doc_mtime = 0\<rparr>
      else if n = ''VALIDATED.md'' then Some validated_doc else None)" for n
    by (simp add: sample_receipt_def sample_plant_def put_doc_def dict_simps)
  have tail: "completion_tail sample_pseudo False ?p = (Applied, [Erase ''VALIDATED.md''])"
    using gone by (simp add: completion_tail_def Let_def status_write_def cleanup_def cleanup_names_def has_doc_def trim_queue_def completion_items_def
        sample_plant_def sample_receipt_def strike_roadmap_row_def provenance_write_def sample_pseudo_def)
  show ?thesis
    using none [of "''SKIP_MCP_TEST.md''"] none(3) [of "''COMPLETED.md''"] sample_kinds retro coh tail
    by (simp add: mark_complete_def mark_fresh_def gate_verdict_ok_def Let_def receipt_name_def receipt_kind_def sample_pseudo_def
        sample_receipt_def)
qed

lemma small_values: "decimal 0 = ''0''" "to_lower ''Complete'' = ''complete''"
  by code_simp+

lemma sample_receipt_text:
  "receipt_text sample_pseudo False True [] 0 = join newline (fence #
     [''kind: completed'', ''feature_id: f'', ''date: d'', ''provenance: gated'', ''validated_via: mcp'',
      ''auto_ticked_rows: 0''] @
     fence # [[], ''# Completion Receipt'', [], ''Feature f marked complete via apply_pseudo on d. Validated via: mcp.''] @ [[]])"
  by (simp add: receipt_text_def sentinel_doc_def receipt_kind_def receipt_count_def mget_def status_value_def small_values
      sample_pseudo_def the_repo_def sample_step_env_def sample_route_env_def sample_repo_def)

lemma sample_receipt_front:
  "frontmatter kind_yaml (receipt_text sample_pseudo False True [] 0) = Some [(''kind'', JStr ''completed'')]"
proof -
  let ?block = "[''kind: completed'', ''feature_id: f'', ''date: d'', ''provenance: gated'', ''validated_via: mcp'', ''auto_ticked_rows: 0'']"
  let ?rest = "[[], ''# Completion Receipt'', [], ''Feature f marked complete via apply_pseudo on d. Validated via: mcp.'']"
  have "list_all (list_all printable) (?block @ ?rest)" by (simp add: printable_def)
  moreover have "\<forall>l\<in>set ?block. strip l \<noteq> fence" by (simp add: strip_plain plain_char_def fence_def)
  moreover have "load_mapping kind_yaml (join newline ?block) = Some [(''kind'', JStr ''completed'')]"
    by (simp add: load_mapping_def kind_yaml_def)
  ultimately show ?thesis
    unfolding sample_receipt_text using frontmatter_ended [of ?block ?rest kind_yaml] by (simp only:)
qed

theorem completion_leaves_nothing_witness:
  "completion_postconditions_missing sample_pseudo False (do_effects [sample_receipt, Erase ''VALIDATED.md''] sample_plant) = Some []"
  using completion_leaves_nothing [OF sample_run] by (simp add: sample_plant_def)

theorem interrupted_after_erase_is_refused_witness:
  "mark_complete sample_pseudo False (do_effects [sample_receipt, Erase ''VALIDATED.md''] sample_plant) = (Refused NoEvidence, [])"
proof (rule interrupted_after_erase_is_refused [of _ _ _ _ "[]"])
  show "mark_complete sample_pseudo False sample_plant = (Applied, [sample_receipt, Erase ''VALIDATED.md''] @ [])"
    using sample_run by simp
  show "doc_kind sample_pseudo (pl_dir sample_plant) ''SKIP_MCP_TEST.md'' \<noteq> Some (JStr ''skip-mcp-test'')"
    using sample_kinds(2) by (simp add: doc_kind_def sample_pseudo_def mget_def)
qed simp

theorem interrupted_completion_resumes_witness:
  "\<exists>e es. mark_complete sample_pseudo False (do_effects [sample_receipt] sample_plant) = (e, es) \<and> e \<in> {Noop, Applied} \<and>
     completion_postconditions_missing sample_pseudo False (do_effects ([sample_receipt] @ es) sample_plant) = Some []"
proof -
  have "mark_complete sample_pseudo False sample_plant = (Applied, [sample_receipt] @ [Erase ''VALIDATED.md''])"
    using sample_run by simp
  moreover have "doc_kind sample_pseudo (pl_dir (do_effects [sample_receipt] sample_plant)) (receipt_name False) =
      Some (JStr (receipt_kind False))"
    using sample_receipt_front
    by (simp add: doc_kind_def parse_sentinel_def receipt_name_def receipt_kind_def sample_receipt_def sample_plant_def put_doc_def
        dict_simps mget_def sample_pseudo_def)
  ultimately show ?thesis
    using interrupted_completion_resumes [of sample_pseudo False sample_plant "[sample_receipt]" "[Erase ''VALIDATED.md'']"]
    by (auto simp: sample_plant_def sample_receipt_def)
qed


subsection \<open>Ticking one row\<close>

definition sample_row :: string where
  "sample_row = ''- [ ] a <!-- verification-only -->''"

lemma sample_row_lines: "keep_lines [] sample_row = [(sample_row, [])]"
proof -
  have "no_end sample_row" by (rule no_end_printable) (simp add: sample_row_def printable_def)
  then show ?thesis using keep_last [of sample_row "[]"] by (simp add: sample_row_def)
qed

lemma sample_row_ticks: "tick_box sample_row = Some ''- [x] a <!-- verification-only -->''"
  by (simp add: tick_box_def sample_row_def lstrip_plain lstrip_space plain_char_def ws_head_def space_ws)

theorem autotick_is_bounded_witness:
  "autotick_verification_rows sample_row ''c'' 1 =
     Some (1, ''- [x] a <!-- verification-only --> '' @ audit_prefix @ ''c -->'') \<and> int 1 \<le> (1::int)"
proof -
  have s: "strip sample_row = sample_row" "line_body (sample_row, []) = sample_row" "raw_line (sample_row, []) = sample_row"
    by (simp_all add: sample_row_def strip_plain plain_char_def line_body_def raw_line_def plain_end_def)
  have marked: "contains verification_only_marker sample_row" "\<not> contains audit_prefix sample_row"
    "heading_text sample_row = None" "bold_text sample_row = None" "\<not> prefix code_fence sample_row"
    by (simp_all add: sample_row_def verification_only_marker_def audit_prefix_def heading_text_def is_hash_def bold_text_def code_fence_def)
  have run: "autotick_verification_rows sample_row ''c'' 1 =
     Some (1, ''- [x] a <!-- verification-only --> '' @ audit_prefix @ ''c -->'')"
    by (simp add: autotick_verification_rows_def sample_row_lines Let_def s marked to_tick_def sample_row_ticks ticked_line_def
        raw_text_def raw_line_def line_end_def plain_end_def)
  with autotick_is_bounded [OF run] show ?thesis by simp
qed

subsection \<open>Flipping a plan\<close>

definition sample_plan :: string where
  "sample_plan = join newline [fence, ''status: Ready'', fence]"

lemma sample_plan_lines: "keep_lines [] sample_plan = [(fence, newline), (''status: Ready'', newline), (fence, [])]"
proof -
  have "list_all no_end [fence, ''status: Ready'', fence]"
    by (auto simp: fence_def printable_def intro!: no_end_printable)
  from keep_join [OF this] show ?thesis unfolding sample_plan_def by (simp add: fence_def)
qed

lemma sample_plan_flip: "\<exists>t. flip_plan_text sample_plan = Some t"
proof -
  have s: "strip fence = fence" "fence \<noteq> []" "strip ''status: Ready'' = ''status: Ready''" "''status: Ready'' \<noteq> fence"
    by (simp_all add: strip_fence fence_def strip_plain plain_char_def)
  have "status_row (''status: Ready'', newline)" by (simp add: status_row_def strip_space strip_plain plain_char_def)
  then show ?thesis by (simp add: flip_plan_text_def sample_plan_lines s)
qed

theorem flip_changes_one_line_witness:
  "\<exists>t a l b. flip_plan_text sample_plan = Some t \<and> t = raw_text a @ ''status: Complete'' @ line_end l @ raw_text b"
proof -
  obtain t where t: "flip_plan_text sample_plan = Some t" using sample_plan_flip by blast
  from flip_changes_one_line [OF t] show ?thesis using t by blast
qed

subsection \<open>Probes that are never satisfied\<close>

text \<open>
  A directory that every step before the validation passes: a specification, a summary of the research, and phases
  that list no deliverable, with further documents.
\<close>

definition base_dir :: "string \<Rightarrow> (string \<times> doc) list \<Rightarrow> item_dir" where
  "base_dir phases extra = \<lparr>docs = [(''SPEC.md'', empty_doc), (''RESEARCH_SUMMARY.md'', empty_doc), (''PHASES.md'', text_doc phases)] @ extra,
     plan_docs = None\<rparr>"

definition with_yaml :: "meta \<Rightarrow> step_env" where
  "with_yaml m = sample_step_env\<lparr>se_walk := sample_route_env\<lparr>rt_yaml := (\<lambda>s. Some (JObj m))\<rparr>\<rparr>"

definition its_pseudo :: "step_env \<Rightarrow> pseudo_env" where
  "its_pseudo env = sample_pseudo\<lparr>ps_yaml := the_yaml env, ps_repo := the_repo env\<rparr>"

definition its_plant :: "item_dir \<Rightarrow> plant" where
  "its_plant d = \<lparr>pl_dir = d, pl_queue = Absent, pl_roadmap = None, pl_now = 0\<rparr>"

lemma with_yaml_simps [simp]: "the_yaml (with_yaml m) = (\<lambda>s. Some (JObj m))" "the_repo (with_yaml m) = sample_repo"
  by (simp_all add: the_yaml_def the_repo_def with_yaml_def sample_step_env_def sample_route_env_def)

lemma its_pseudo_simps [simp]: "ps_yaml (its_pseudo env) = the_yaml env" "ps_repo (its_pseudo env) = the_repo env"
    "ps_gated (its_pseudo env) = False" "pl_dir (its_plant d) = d"
  by (simp_all add: its_pseudo_def its_plant_def sample_pseudo_def)

lemma any_front: "m \<noteq> [] \<Longrightarrow> frontmatter (\<lambda>s. Some (JObj m)) (doc_text validated_doc) = Some m"
proof -
  have "strip ''kind: validated'' \<noteq> fence" by (simp add: strip_plain plain_char_def fence_def)
  then show "m \<noteq> [] \<Longrightarrow> ?thesis"
    unfolding validated_doc_def text_doc_def
    using frontmatter_block [of "[''kind: validated'']" "[]" "\<lambda>s. Some (JObj m)"]
    by (simp add: load_mapping_def printable_def)
qed

lemma base_docs [simp]: "dget (docs (base_dir phases extra)) n =
    (if n \<in> {''SPEC.md'', ''RESEARCH_SUMMARY.md''} then Some empty_doc
     else if n = ''PHASES.md'' then Some (text_doc phases) else dget extra n)"
  by (auto simp: base_dir_def)

lemma base_has [simp]: "has_doc (base_dir phases extra) n \<longleftrightarrow> n \<in> {''SPEC.md'', ''RESEARCH_SUMMARY.md'', ''PHASES.md''} \<or> dhas extra n"
  by (simp add: has_doc_def)

lemma base_no_stray:
  assumes "\<forall>n\<in>set (dkeys extra). \<not> stray_blocker n" and "''BLOCKED.md'' \<notin> set (dkeys extra)"
  shows "detect_noncanonical_blocker (base_dir phases extra) = None"
proof -
  have "set (dir_names (base_dir phases extra)) = {''SPEC.md'', ''RESEARCH_SUMMARY.md'', ''PHASES.md''} \<union> set (dkeys extra)"
    by (auto simp: dir_names_def base_dir_def set_insort_key)
  moreover have "\<not> stray_blocker ''SPEC.md''" "\<not> stray_blocker ''RESEARCH_SUMMARY.md''" "\<not> stray_blocker ''PHASES.md''"
    by (simp_all add: stray_blocker_def starts_ci_def to_lower_def)
  ultimately show ?thesis using assms by (auto simp: detect_noncanonical_blocker_def find_None_iff)
qed

lemma base_passes:
  assumes "\<forall>n\<in>set (dkeys extra). n \<in> {''VALIDATED.md'', ''RETRO_DONE.md'', ''MCP_TEST_RESULTS.md''}"
    and "fst (count_deliverables phases) = 0"
  shows "list_all (\<lambda>s. s env sample_cfg new_item (base_dir phases extra) = Some Onward) (take 12 route_steps)"
proof -
  have none: "dget extra n = None" if "n \<notin> {''VALIDATED.md'', ''RETRO_DONE.md'', ''MCP_TEST_RESULTS.md''}" for n
    using assms(1) that by (auto simp: map_of_eq_None_iff)
  have "\<not> stray_blocker ''VALIDATED.md''" "\<not> stray_blocker ''RETRO_DONE.md''" "\<not> stray_blocker ''MCP_TEST_RESULTS.md''"
    by (simp_all add: stray_blocker_def starts_ci_def to_lower_def)
  then have "detect_noncanonical_blocker (base_dir phases extra) = None"
    using assms(1) by (intro base_no_stray) auto
  then show ?thesis
    using none assms(2)
    by (simp add: route_steps_def step_onward provisional_sentinel_def spec_text_def upstreams_fresh_def
        researched_def queue_stub_def new_item_def new_entry_def jget_def plan_onward phases_doc_def plans_done_def text_doc_def)
qed

text \<open>Results that carry the passing literal and no counts.\<close>

definition bare_results :: meta where
  "bare_results = [(''kind'', JStr ''mcp-test-results''), (''result'', JStr ''all-passing''), (''scenarios'', JArr [])]"

definition bare_dir :: item_dir where
  "bare_dir = base_dir [] [(''MCP_TEST_RESULTS.md'', validated_doc)]"

lemma bare_parse: "parse_sentinel (\<lambda>s. Some (JObj bare_results)) bare_dir ''MCP_TEST_RESULTS.md'' = Some bare_results"
    "parse_sentinel (\<lambda>s. Some (JObj bare_results)) bare_dir ''VALIDATED.md'' = Some []"
  by (simp_all add: parse_sentinel_def bare_dir_def any_front bare_results_def)

text \<open>
  A probe can ask for a promotion that its handler refuses: results that say \<open>all-passing\<close> and record no counts
  are routed to \<open>__write_validated_from_results__\<close>, which refuses them without a write, so the next probe
  asks for the same again.
\<close>

theorem bare_results_never_promote:
  "\<exists>r w. route_item (with_yaml bare_results) sample_cfg new_item bare_dir = Some (Halt r w) \<and>
     sub_skill r = Some ''__write_validated_from_results__'' \<and>
     apply_pseudo (its_pseudo (with_yaml bare_results)) FromResults (its_plant bare_dir) = (Refused BadCounts, [])"
proof -
  let ?env = "with_yaml bare_results"
  let ?r = "dispatch new_item ''Step 9b: write validated'' ''__write_validated_from_results__'' (path_str (it_path new_item))"
  have counts: "fst (count_deliverables []) = 0" by (simp add: count_deliverables_def)
  have "list_all (\<lambda>s. s ?env sample_cfg new_item bare_dir = Some Onward) (take 12 route_steps)"
    unfolding bare_dir_def by (rule base_passes [OF _ counts]) simp
  moreover have "validation_step ?env sample_cfg new_item bare_dir = Some (Halt ?r NoWrite)"
    using bare_parse(1)
    by (simp add: validation_step_def results_route_def results_promotable_def sample_cfg_def)
      (simp add: bare_dir_def bare_results_def mget_def opt_str_def commit_drift_verdict_def stripped_def halt_run_def)
  moreover have "route_steps = take 12 route_steps @ validation_step # drop 13 route_steps" by (simp add: route_steps_def)
  ultimately have "route_item ?env sample_cfg new_item bare_dir = Some (Halt ?r NoWrite)"
    unfolding route_item_def
    using run_steps_halt [where s = validation_step and r = ?r and w = NoWrite and ts = "drop 13 route_steps"] by metis
  moreover have "apply_pseudo (its_pseudo ?env) FromResults (its_plant bare_dir) = (Refused BadCounts, [])"
    using bare_parse
    by (simp add: apply_pseudo_def validated_from_results_def doc_kind_def results_refusal_def bare_results_def mget_def is_arr_def
        evidence_count_def) (simp add: its_pseudo_def sample_pseudo_def)
  ultimately show ?thesis by (intro exI [of _ ?r] exI [of _ NoWrite]) simp
qed

text \<open>One phase, added after a retrospective that counted none.\<close>

definition stale_meta :: meta where
  "stale_meta = [(''kind'', JStr ''validated''), (''phase_count_at_retro'', JInt 0)]"

definition one_phase :: string where
  "one_phase = ''## Phase 1''"

definition stale_dir :: item_dir where
  "stale_dir = base_dir one_phase [(''VALIDATED.md'', validated_doc), (''RETRO_DONE.md'', validated_doc)]"

lemma one_phase_lines: "phase_lines one_phase = [one_phase]"
  by (simp add: phase_lines_def one_phase_def splitlines_line printable_def strip_plain plain_char_def code_fence_def)

lemma one_phase_heading: "rx_match phase_heading_rx one_phase"
  by (simp add: rx_match_def phase_heading_rx_def one_phase_def star_plain star_space plain_char_def advance_def Plus_def Opt_def
      white_plain white_space digit_def is_digit_def phase_word_def del: rests.simps(4))

lemma one_phase_strip: "strip one_phase = one_phase"
  by (simp add: one_phase_def strip_plain plain_char_def)

lemma one_phase_parsed: "parse_phases one_phase = [new_phase one_phase]"
  by (simp add: parse_phases_def one_phase_lines one_phase_heading one_phase_strip)

lemma one_phase_count: "fst (count_deliverables one_phase) = 0"
proof -
  have "open_row one_phase = None"
    by (simp add: open_row_def after_dash_def one_phase_def lstrip_plain plain_char_def)
  then show ?thesis by (simp add: count_deliverables_def one_phase_lines)
qed

lemma one_phase_uncovered: "collect_uncovered_verification_rows one_phase = []"
proof -
  obtain h where "line_kind one_phase = Heading h"
    by (simp add: line_kind_def one_phase_strip)
      (simp add: one_phase_def heading_text_def is_hash_def ws_head_def space_ws)
  then show ?thesis by (simp add: collect_uncovered_verification_rows_def one_phase_lines)
qed

lemma one_phase_no_spike: "\<not> phases_spike_required (base_dir one_phase extra)"
proof -
  have "printable c \<Longrightarrow> c \<noteq> hd newline" for c by (auto simp: printable_def newline_def bytes_def)
  then have "list_all printable t \<Longrightarrow> tails_at_lines t = []" for t by (induction t) auto
  moreover have "list_all printable one_phase" by (simp add: one_phase_def printable_def)
  ultimately have "line_tails one_phase = [one_phase]" by (simp add: line_tails_def)
  then have "\<not> list_ex (rx_match (header_value ''**spike:**'' ''required'')) (line_tails one_phase)"
    by (simp add: header_value_def rx_match_def) (simp add: one_phase_def to_lower_def)
  then show ?thesis by (simp add: phases_spike_required_def phases_header_def phases_doc_def text_doc_def)
qed

text \<open>
  A probe can ask for a completion that never comes: the steps before it do not read \<open>RETRO_DONE.md\<close>, and
  where a design phase follows the retrospective recorded there the completion is refused without a write, so the
  next probe asks for the same again.
\<close>

theorem stale_retro_never_completes:
  "\<exists>r w. route_item (with_yaml stale_meta) sample_cfg new_item stale_dir = Some (Halt r w) \<and>
     sub_skill r = Some ''__mark_complete__'' \<and>
     apply_pseudo (its_pseudo (with_yaml stale_meta)) MarkComplete (its_plant stale_dir) = (Refused StaleRetro, [])"
proof -
  let ?env = "with_yaml stale_meta" and ?y = "\<lambda>s. Some (JObj stale_meta) :: json option"
  let ?r = "dispatch new_item ''Step 10: mark complete'' ''__mark_complete__'' (path_str (it_path new_item))"
  have parse: "parse_sentinel ?y stale_dir n =
      Some (if n \<in> {''VALIDATED.md'', ''RETRO_DONE.md''} then stale_meta else [])" if "n \<notin> {''SPEC.md'', ''RESEARCH_SUMMARY.md'', ''PHASES.md''}" for n
    using that any_front [of stale_meta] by (simp add: parse_sentinel_def stale_dir_def stale_meta_def)
  have phases: "phases_doc stale_dir = Some one_phase" by (simp add: phases_doc_def stale_dir_def text_doc_def)
  have rows: "uncovered_verification_rows_remain ?y repo stale_dir one_phase = Some []" for repo
    by (simp add: uncovered_verification_rows_remain_def parse evaluate_completion_evidence_def one_phase_uncovered reroutable_rows_def)
  have "list_all (\<lambda>s. s ?env sample_cfg new_item stale_dir = Some Onward) (take 12 route_steps)"
    unfolding stale_dir_def by (rule base_passes [OF _ one_phase_count]) simp
  moreover have "validation_step ?env sample_cfg new_item stale_dir = Some Onward"
    by (simp add: validation_step_def stale_dir_def)
  moreover have "spike_step ?env sample_cfg new_item stale_dir = Some Onward"
    by (simp add: spike_step_def stale_dir_def one_phase_no_spike)
  ultimately have passes: "list_all (\<lambda>s. s ?env sample_cfg new_item stale_dir = Some Onward) (take 14 route_steps)"
    by (simp add: route_steps_def)
  have "complete_step ?env sample_cfg new_item stale_dir = Some (Halt ?r NoWrite)"
    using rows phases by (simp add: complete_step_def halt_run_def) (simp add: stale_dir_def provisional_sentinel_def)
  moreover have "route_steps = take 14 route_steps @ complete_step # drop 15 route_steps" by (simp add: route_steps_def)
  ultimately have "route_item ?env sample_cfg new_item stale_dir = Some (Halt ?r NoWrite)"
    unfolding route_item_def
    using run_steps_halt [OF passes, where s = complete_step and r = ?r and w = NoWrite and ts = "drop 15 route_steps"] by metis
  moreover have "retro_staleness ?y stale_dir = Some True"
    by (simp add: retro_staleness_def parse phases)
      (simp add: stale_meta_def mget_def evidence_count_def one_phase_parsed post_retro_design_def new_phase_def)
  then have "apply_pseudo (its_pseudo ?env) MarkComplete (its_plant stale_dir) = (Refused StaleRetro, [])"
    by (simp add: apply_pseudo_def mark_complete_def mark_fresh_def doc_kind_def parse receipt_name_def receipt_kind_def Let_def)
      (simp add: its_pseudo_def sample_pseudo_def stale_meta_def mget_def)
  ultimately show ?thesis by (intro exI [of _ ?r] exI [of _ NoWrite]) simp
qed

text \<open>A verdict file without a block passes the gate of the control surfaces.\<close>

theorem blank_verdict_passes: "gate_verdict_ok yaml True (base_dir [] [(''GATE_VERDICT.md'', empty_doc)])"
  by (simp add: gate_verdict_ok_def parse_sentinel_def grades_def mget_def)

text \<open>A waiver file without a block is accepted, and mints the validation.\<close>

theorem blank_waiver_validates:
  "\<exists>t. apply_pseudo (its_pseudo (with_yaml m)) FromSkip (its_plant (base_dir [] [(''SKIP_MCP_TEST.md'', empty_doc)])) =
     (Applied, [Put ''VALIDATED.md'' t])"
proof -
  have "\<not> ps_contained (its_pseudo (with_yaml m))" by (simp add: its_pseudo_def sample_pseudo_def)
  then show ?thesis
    by (simp add: apply_pseudo_def validated_from_skip_def validate_def doc_kind_def parse_sentinel_def skip_waiver_refusal_def mget_def)
qed

text \<open>Without a top status, the end of a bug overwrites the status of its first phase, which then is no end of a phase.\<close>

definition phase_status_doc :: "string \<Rightarrow> string" where
  "phase_status_doc v = join newline [''## Phase 1'', ''**Status:** '' @ v]"

theorem first_phase_becomes_fixed:
  "flip_top_status (status_value True) (phase_status_doc ''Complete'') = phase_status_doc ''Fixed'' \<and>
    ended_phase (new_phase h\<lparr>ph_status := Some ''Complete''\<rparr>) \<and> \<not> ended_phase (new_phase h\<lparr>ph_status := Some ''Fixed''\<rparr>)"
proof -
  have "list_all one_line [''## Phase 1'', ''**Status:** Complete'']"
    by (auto intro!: no_end_one_line no_end_printable simp: printable_def)
  from lines_join [OF _ this] have "lines_of (phase_status_doc ''Complete'') = [''## Phase 1'', ''**Status:** Complete'']"
    by (simp add: phase_status_doc_def)
  moreover have "strip ''Complete'' = ''Complete''" "strip ''Fixed'' = ''Fixed''" by (simp_all add: strip_plain plain_char_def)
  moreover have "to_lower ''Fixed'' = ''fixed''" by code_simp
  ultimately show ?thesis
    by (simp add: flip_top_status_def status_label_def status_value_def phase_status_doc_def ended_phase_def norm_status_def
        small_values)
qed

text \<open>The row of another feature that mentions the completed one is struck too, and then claims its completion.\<close>

definition other_row :: string where
  "other_row = ''g'' @ dash_sep @ ''after f''"

lemma other_row_strikes: "unstruck sample_pseudo other_row" "strike_row other_row = ''~~'' @ other_row @ ''~~  '' @ complete_token"
proof -
  have "names_item sample_pseudo other_row"
    by (simp add: names_item_def sample_pseudo_def other_row_def dash_sep_def bytes_def slug_char_def word_char_def)
  then show "unstruck sample_pseudo other_row"
    by (simp add: unstruck_def other_row_def dash_sep_def complete_token_def bytes_def)
  show "strike_row other_row = ''~~'' @ other_row @ ''~~  '' @ complete_token"
    by (simp add: strike_row_def other_row_def lstrip_plain rstrip_plain plain_char_def)
qed

lemma other_row_line: "no_end other_row" "lines_of other_row = [other_row]"
proof -
  have dash: "no_end dash_sep"
    unfolding no_end_def contains_sublist [symmetric] by (simp add: dash_sep_def line_ends_def bytes_def prefix_def)
  have "no_end (dash_sep @ ''after f'')" by (rule no_end_append [OF dash]) (auto simp: printable_def intro: no_end_printable)
  from no_end_append [OF no_end_printable this, of "''g''"] have "no_end (''g'' @ dash_sep @ ''after f'')"
    by (simp add: printable_def)
  then show "no_end other_row" unfolding other_row_def .
  then show "lines_of other_row = [other_row]"
    using lines_join [of "[other_row]"] no_end_one_line by simp
qed

theorem other_row_is_struck:
  "\<exists>t. strike_roadmap_row sample_pseudo (Some other_row) = [SetRoadmap t] \<and>
     \<not> roadmap_marks_complete other_row ''g'' \<and> roadmap_marks_complete t ''g''"
proof -
  let ?t = "strike_row other_row"
  have nl: "newlines_only other_row" by (simp add: newlines_only_def other_row_line)
  have struck: "struck_map sample_pseudo other_row = ?t"
    by (simp add: struck_map_def other_row_line strike_def other_row_strikes)
  have written: "strike_roadmap_row sample_pseudo (Some other_row) = [SetRoadmap ?t]"
    using strike_write [OF nl] unstruck_rows [OF nl] struck by (simp add: other_row_line other_row_strikes)
  have line: "splitlines r = [r]" if "no_end r" "r \<noteq> []" for r
    using that keep_last [of r "[]"] by (simp add: splitlines_keep)
  have "other_row \<noteq> []" "?t \<noteq> []" by (simp_all add: other_row_strikes(2)) (simp add: other_row_def)
  then have lines: "splitlines other_row = [other_row]" "splitlines ?t = [?t]"
    using line other_row_line(1) strike_no_end by blast+
  have before: "\<not> contains ''COMPLETE'' other_row" by (simp add: other_row_def dash_sep_def bytes_def)
  have "list_all not_tilde other_row" by code_simp
  then have taken: "takeWhile not_tilde (other_row @ ''~~  '' @ complete_token) = other_row"
    by (simp add: takeWhile_append list_all_iff not_tilde_def)
  then have words: "struck_text ?t = Some other_row"
    using \<open>other_row \<noteq> []\<close> by (simp add: other_row_strikes(2) struck_at_def)
  have head: "hd (py_split dash_sep other_row) = ''g''"
    by (simp add: py_split_def other_row_def split_on.simps dash_sep_def bytes_def)
  have after: "contains ''COMPLETE'' ?t"
    unfolding other_row_strikes(2) complete_token_def contains_sublist by (metis append.assoc append_Cons append_Nil sublist_append_leftI)
  have "row_struck_complete ''g'' ?t"
    using words after by (simp add: row_struck_complete_def head strip_plain plain_char_def)
  then show ?thesis
    using written before by (intro exI [of _ ?t]) (simp add: roadmap_marks_complete_def lines row_struck_complete_def)
qed

end
