(* ===== verification/Bug_Walk.thy ===== *)
theory Bug_Walk
  imports Route_Steps Merged_Priority
begin

text \<open>
  The bug pipeline up to its selected item (\<^verbatim>\<open>user/scripts/bug-state.py\<close>, the twin of
  \<^verbatim>\<open>lazy-state.py\<close>): loading the bug queue, which lists the queued bugs and then the open directories by
  severity and age, and Step 2 of \<open>compute_state\<close>, which walks it. The environment, the record \<open>walk\<close> and
  the outcomes of a stage are those of \<^theory_text>\<open>Route_Walk\<close>; \<open>rt_root\<close> is here \<open>docs/bugs\<close>, and \<open>today\<close> the
  ordinal of the date. An id, name or directory in the queue file that is no string is read as missing.
\<close>

subsection \<open>What a bug declares\<close>

definition bug_severity :: "item_dir \<Rightarrow> string option" where
  "bug_severity d = first_match (bold_value ''**Severity:**'') (spec_lines d)"

definition bug_discovered :: "item_dir \<Rightarrow> string option" where
  "bug_discovered d = first_match (bold_value ''**Discovered:**'') (spec_lines d)"

definition wont_fix :: string where
  "wont_fix = ''Won'' @ [quote_char] @ ''t-fix''"

definition bug_severity_default :: int where
  "bug_severity_default = 99"

text \<open>The rank of a directory, lowered with its age, and the day it was found.\<close>

definition bug_base_rank :: "item_dir \<Rightarrow> int" where
  "bug_base_rank d =
     (case bug_severity d of
        None \<Rightarrow> bug_severity_default
      | Some s \<Rightarrow> (case dget severity_rank s of None \<Rightarrow> bug_severity_default | Some r \<Rightarrow> r))"

definition bug_rank :: "int \<Rightarrow> item_dir \<Rightarrow> int" where
  "bug_rank today d =
     (if bug_base_rank d = bug_severity_default then bug_severity_default
      else age_escalated_rank (bug_base_rank d) (json_opt (bug_discovered d)) today)"

definition bug_sort_key :: "int \<Rightarrow> path \<times> item_dir \<Rightarrow> int \<times> string" where
  "bug_sort_key today pd =
     (bug_rank today (snd pd),
      case bug_discovered (snd pd) of None \<Rightarrow> ''9999-99-99'' | Some s \<Rightarrow> if s = [] then ''9999-99-99'' else s)"

subsection \<open>The queue\<close>

definition open_bug :: "yaml \<Rightarrow> item_dir \<Rightarrow> bool option" where
  "open_bug yaml d =
     (if \<not> has_doc d ''SPEC.md'' \<or> spec_status d = Some wont_fix \<or> spec_status d = Some ''Superseded'' then Some False
      else if spec_status d = Some ''Fixed'' then map_option Not (has_completion_receipt yaml d ''FIXED.md'')
      else Some True)"

fun open_bugs :: "yaml \<Rightarrow> path \<Rightarrow> string set \<Rightarrow> disk \<Rightarrow> disk option" where
  "open_bugs yaml root queued [] = Some []"
| "open_bugs yaml root queued ((p, d) # rest) =
     (if p = [] \<or> butlast p \<noteq> root \<or> prefix ''_'' (last p) \<or> last p \<in> queued then open_bugs yaml root queued rest
      else case open_bug yaml d of
          None \<Rightarrow> None
        | Some b \<Rightarrow> map_option (\<lambda>ds. if b then (p, d) # ds else ds) (open_bugs yaml root queued rest))"

definition find_open_bug_dirs :: "yaml \<Rightarrow> path \<Rightarrow> string set \<Rightarrow> int \<Rightarrow> disk \<Rightarrow> disk option" where
  "find_open_bug_dirs yaml root queued today disk =
     map_option (sort_key (bug_sort_key today)) (open_bugs yaml root queued disk)"

record bug_entry =
  be_id :: string
  be_name :: string
  be_path :: path
  be_severity :: json
  be_queue_entry :: json
  be_discovered :: "string option"
  be_spec_severity :: "string option"
  be_pinned_at :: json
  be_pinned_until :: json

text \<open>A queue entry without a directory of its own is looked for under its id.\<close>

definition queued_dir_name :: "json \<Rightarrow> string" where
  "queued_dir_name e = entry_str e (if jhas e ''spec_dir'' then ''spec_dir'' else ''id'')"

definition queued_bug :: "path \<Rightarrow> item_dir \<Rightarrow> json \<Rightarrow> bug_entry" where
  "queued_bug p d e = \<lparr>be_id = entry_str e ''id'', be_name = entry_str e ''name'', be_path = p,
     be_severity = jget e ''severity'', be_queue_entry = e, be_discovered = bug_discovered d,
     be_spec_severity = bug_severity d, be_pinned_at = jget e ''pinned_at'', be_pinned_until = jget e ''pinned_until''\<rparr>"

text \<open>Entries that are no object, lack a field, name no directory or repeat an id are passed over.\<close>

fun queued_bugs :: "route_env \<Rightarrow> disk \<Rightarrow> string list \<Rightarrow> json list \<Rightarrow> bug_entry list" where
  "queued_bugs env disk seen [] = []"
| "queued_bugs env disk seen (e # es) =
     (let i = entry_str e ''id''; p = rt_resolve env (queued_dir_name e) in
      if \<not> is_obj e \<or> i = [] \<or> entry_str e ''name'' = [] \<or> queued_dir_name e = [] then queued_bugs env disk seen es
      else case dget disk p of
          None \<Rightarrow> queued_bugs env disk seen es
        | Some d \<Rightarrow>
            if i \<in> set seen then queued_bugs env disk seen es
            else queued_bug p d e # queued_bugs env disk (i # seen) es)"

definition discovered_bug :: "path \<times> item_dir \<Rightarrow> bug_entry" where
  "discovered_bug pd =
     (case pd of (p, d) \<Rightarrow>
        \<lparr>be_id = last p, be_name = (case first_match title_line (spec_lines d) of Some s \<Rightarrow> s | None \<Rightarrow> last p),
         be_path = p, be_severity = json_opt (bug_severity d), be_queue_entry = JNull,
         be_discovered = bug_discovered d, be_spec_severity = bug_severity d, be_pinned_at = JNull,
         be_pinned_until = JNull\<rparr>)"

definition with_open_dirs :: "route_env \<Rightarrow> int \<Rightarrow> disk \<Rightarrow> bug_entry list \<Rightarrow> bug_entry list option" where
  "with_open_dirs env today disk queued =
     map_option (\<lambda>ds. queued @ map discovered_bug ds)
       (find_open_bug_dirs (rt_yaml env) (rt_root env) (set (map be_id queued)) today disk)"

definition load_bug_queue :: "route_env \<Rightarrow> int \<Rightarrow> disk \<Rightarrow> json jfile \<Rightarrow> bug_entry list option" where
  "load_bug_queue env today disk file =
     (case file of
        Absent \<Rightarrow> with_open_dirs env today disk []
      | Corrupt \<Rightarrow> None
      | Content data \<Rightarrow>
          if \<not> is_obj data then None
          else case (if jhas data ''queue'' then jget data ''queue'' else JArr []) of
              JArr items \<Rightarrow>
                (case validate_queue_deps items of
                   Inl e \<Rightarrow> None
                 | Inr _ \<Rightarrow> with_open_dirs env today disk (queued_bugs env disk [] items))
            | _ \<Rightarrow> None)"

text \<open>An entry as the dictionary that the walk passes on, and the item it stands for.\<close>

definition bug_entry_json :: "bug_entry \<Rightarrow> json" where
  "bug_entry_json e = JObj
     [(''id'', JStr (be_id e)), (''name'', JStr (be_name e)), (''spec_path'', JStr (path_str (be_path e))),
      (''severity'', be_severity e), (''queue_entry'', be_queue_entry e), (''discovered'', json_opt (be_discovered e)),
      (''spec_severity'', json_opt (be_spec_severity e)), (''pinned_at'', be_pinned_at e),
      (''pinned_until'', be_pinned_until e)]"

definition bug_item :: "disk \<Rightarrow> bug_entry \<Rightarrow> item" where
  "bug_item disk e = \<lparr>it_id = be_id e, it_name = be_name e, it_path = be_path e, it_entry = bug_entry_json e,
     it_dir = (case dget disk (be_path e) of Some d \<Rightarrow> d | None \<Rightarrow> \<lparr>docs = [], plan_docs = None\<rparr>)\<rparr>"

subsection \<open>The stages\<close>

definition bug_phases_effectively_complete :: "yaml \<Rightarrow> item_dir \<Rightarrow> bool option" where
  "bug_phases_effectively_complete yaml d =
     (case phases_doc d of
        None \<Rightarrow> Some False
      | Some text \<Rightarrow>
          if fst (count_deliverables text) = 0 then Some True
          else Option.bind (find_implementation_plans yaml d) (\<lambda>plans.
            if plans \<noteq> [] then Some False
            else Option.bind (has_any_complete_plan yaml d) (\<lambda>complete.
              Some (complete \<and> remaining_unchecked_are_verification_only text))))"

definition bug_completion_stage :: stage where
  "bug_completion_stage env cfg it w =
     (let settled = skip_or_scoped cfg it ''Fixed (scoped)'' ''bug-fixed-scoped'' w w in
      if spec_status (it_dir it) = Some wont_fix then Some settled
      else if spec_status (it_dir it) = Some ''Fixed'' then
        map_option
          (\<lambda>receipt. if receipt then settled
             else Return (item_stop it ''Step 2: completion claimed without receipt'' ''completion-unverified'') w)
          (has_completion_receipt (rt_yaml env) (it_dir it) ''FIXED.md'')
      else Some (Proceed w))"

definition bug_cloud_stage :: stage where
  "bug_cloud_stage env cfg it w =
     (if \<not> cfg_cloud cfg \<or> \<not> has_doc (it_dir it) ''DEFERRED_NON_CLOUD.md'' \<or> has_doc (it_dir it) ''VALIDATED.md''
      then Some (Proceed w)
      else map_option
        (\<lambda>past. if past
           then skip_or_scoped cfg it ''Cloud-deferred (scoped)'' ''cloud-queue-exhausted-scoped'' w
                  (w\<lparr>cloud_skipped := cloud_skipped w @ [it_name it]\<rparr>)
           else Proceed w)
        (bug_phases_effectively_complete (rt_yaml env) (it_dir it)))"

definition bug_device_stage :: stage where
  "bug_device_stage env cfg it w =
     (if real_device cfg \<or> \<not> has_doc (it_dir it) ''DEFERRED_REQUIRES_DEVICE.md'' \<or> has_doc (it_dir it) ''VALIDATED.md''
      then Some (Proceed w)
      else Option.bind (bug_phases_effectively_complete (rt_yaml env) (it_dir it)) (\<lambda>past.
        if \<not> past then Some (Proceed w)
        else Option.bind (parse_sentinel (rt_yaml env) (it_dir it) ''DEFERRED_REQUIRES_DEVICE.md'') (\<lambda>m.
          map_option
            (\<lambda>scenarios. skip_or_scoped cfg it ''Device-deferred (scoped)'' ''device-queue-exhausted-scoped'' w
               (w\<lparr>device_deferred := device_deferred w @ [it_name it]\<rparr>))
            (scenario_text (mget m ''deferred_scenarios'')))))"

text \<open>Only the fail-fast on an unknown capability; a missing one does not defer a bug.\<close>

definition bug_host_stage :: stage where
  "bug_host_stage env cfg it w =
     Some (if unknown_capability_ids (parse_requires_host (spec_text (it_dir it)) (it_entry it)) \<noteq> []
           then Return (item_stop it ''Step 3: blocked'' ''blocked'')
                  (block_item env it ''Host-capability validation'' ''unknown-host-capability'' w)
           else Proceed w)"

definition bug_operator_stage :: stage where
  "bug_operator_stage env cfg it w =
     (if \<not> has_doc (it_dir it) ''DEFERRED.md'' then Some (Proceed w)
      else if cfg_scope cfg = Some (it_id it)
      then Some (Return (item_stop it ''Operator-deferred (scoped)'' ''operator-deferred'') w)
      else map_option (\<lambda>m. Skip (w\<lparr>operator_deferred := operator_deferred w @ [it_name it]\<rparr>))
             (parse_sentinel (rt_yaml env) (it_dir it) ''DEFERRED.md''))"

definition bug_park_blocked_stage :: stage where
  "bug_park_blocked_stage env cfg it w =
     (if cfg_park_blocked cfg \<and> has_doc (it_dir it) ''BLOCKED.md''
      then park_item env cfg it ''BLOCKED.md'' ''Blocked, parked (scoped)'' ''blocked-scoped'' w
      else Some (Proceed w))"

definition bug_park_stray_stage :: stage where
  "bug_park_stray_stage env cfg it w =
     (if cfg_park_blocked cfg \<and> \<not> has_doc (it_dir it) ''BLOCKED.md''
      then (case detect_noncanonical_blocker (it_dir it) of
              None \<Rightarrow> Some (Proceed w)
            | Some stray \<Rightarrow> park_item env cfg it stray ''Blocked, parked (scoped)'' ''blocked-scoped'' w)
      else Some (Proceed w))"

definition bug_park_input_stage :: stage where
  "bug_park_input_stage env cfg it w =
     (if \<not> cfg_park_needs_input cfg \<or> \<not> has_doc (it_dir it) ''NEEDS_INPUT.md'' \<or> has_doc (it_dir it) ''BLOCKED.md''
      then Some (Proceed w)
      else Option.bind
        (if cfg_park_provisional cfg then provisional_eligibility (rt_yaml env) (rt_repo env) (it_dir it) else Some False)
        (\<lambda>eligible.
           if eligible then Some (Return (provisional_accept it (path_str (it_path it))) w)
           else park_item env cfg it ''NEEDS_INPUT.md'' ''Needs-input, parked (scoped)'' ''needs-input-scoped'' w))"

definition bug_provisional_stage :: stage where
  "bug_provisional_stage env cfg it w =
     (if \<not> cfg_park_needs_input cfg \<or> \<not> has_doc (it_dir it) provisional_sentinel then Some (Proceed w)
      else map_option
        (\<lambda>entry.
           let w1 = (if it_id it \<in> parked_id ` set (provisional w) then w
                     else w\<lparr>provisional := provisional w @ [entry]\<rparr>)
           in if has_doc (it_dir it) ''VALIDATED.md''
              then skip_or_scoped cfg it ''Provisional, parked (scoped)'' ''needs-ratification-scoped'' w1
                     (w1\<lparr>parked := parked w1 @ [entry]\<rparr>)
              else Proceed w1)
        (build_parked_entry (rt_yaml env) (it_id it) (it_dir it) provisional_sentinel))"

subsection \<open>The dependency gate\<close>

text \<open>A fixed bug is archived, so its directory is looked for in the archive too.\<close>

definition bug_dep_candidates :: "path \<Rightarrow> (string, path) dict \<Rightarrow> string \<Rightarrow> path list" where
  "bug_dep_candidates root ids dep =
     (case dget ids dep of None \<Rightarrow> [] | Some p \<Rightarrow> [p]) @ [root @ [dep], root @ [''_archive'', dep]]"

definition classify_bug_dep :: "yaml \<Rightarrow> item_dir \<Rightarrow> dep_status option" where
  "classify_bug_dep yaml d =
     (if spec_status d = Some wont_fix then Some DepRetired
      else if spec_status d = Some ''Fixed'' then
        map_option (\<lambda>r. if r then DepComplete else DepIncomplete) (has_completion_receipt yaml d ''FIXED.md'')
      else Some DepIncomplete)"

definition bug_dep_completion_status ::
  "yaml \<Rightarrow> path \<Rightarrow> disk \<Rightarrow> (string, path) dict \<Rightarrow> string \<Rightarrow> dep_status option" where
  "bug_dep_completion_status yaml root disk ids dep =
     (case first_match (dget disk) (bug_dep_candidates root ids dep) of
        None \<Rightarrow> Some DepMissing
      | Some d \<Rightarrow> classify_bug_dep yaml d)"

definition bug_dir_map :: "bug_entry list \<Rightarrow> (string, path) dict" where
  "bug_dir_map queue = fold (\<lambda>e m. dset (be_id e) (be_path e) m) queue []"

definition bug_dep_stage :: "bug_entry list \<Rightarrow> stage" where
  "bug_dep_stage queue env cfg it w =
     map_option
       (\<lambda>r. case r of
          Inl bad \<Rightarrow> Return (item_stop it ''Step 3: blocked'' ''blocked'')
                     (block_item env it ''Dependency validation'' ''unknown-dependency'' w)
        | Inr missing \<Rightarrow>
            if missing = [] then Proceed w else Skip (w\<lparr>dep_gated := dep_gated w @ [(it_id it, missing)]\<rparr>))
       (check_deps (bug_dep_completion_status (rt_yaml env) (rt_root env) (w_disk w) (bug_dir_map queue))
          (dep_ids (jget (it_entry it) ''queue_entry'')))"

subsection \<open>The loop\<close>

definition bug_stages :: "bug_entry list \<Rightarrow> stage list" where
  "bug_stages queue =
     [bug_completion_stage, bug_cloud_stage, bug_device_stage, bug_host_stage, bug_operator_stage,
      bug_park_blocked_stage, bug_park_stray_stage, bug_park_input_stage, bug_provisional_stage, bug_dep_stage queue]"

fun walk_bugs :: "stage list \<Rightarrow> route_env \<Rightarrow> route_cfg \<Rightarrow> bug_entry list \<Rightarrow> walk \<Rightarrow> walk_end option" where
  "walk_bugs ss env cfg [] w = Some (Exhausted w)"
| "walk_bugs ss env cfg (e # es) w =
     (if be_id e = [] \<or> be_name e = [] \<or> cfg_scope cfg \<notin> {None, Some (be_id e)} then walk_bugs ss env cfg es w
      else let it = bug_item (w_disk w) e; w1 = (if cfg_scope cfg = None then w else w\<lparr>scope_seen := True\<rparr>)
        in case run_stages ss env cfg it w1 of
             None \<Rightarrow> None
           | Some (Skip w2) \<Rightarrow> walk_bugs ss env cfg es w2
           | Some (Return r w2) \<Rightarrow> Some (Returned r w2)
           | Some (Proceed w2) \<Rightarrow> Some (Picked it w2))"

definition bugs_exhausted_route :: "route_cfg \<Rightarrow> bool \<Rightarrow> walk \<Rightarrow> route" where
  "bugs_exhausted_route cfg queue_absent w =
     (if cloud_exhausted cfg w then stop_route ''cloud-queue-exhausted'' None
      else if device_exhausted cfg w then stop_route ''device-queue-exhausted'' None
      else if operator_deferred w \<noteq> []
      then stop_route ''all-remaining-deferred'' (Some ''All remaining bugs are operator-deferred'')
      else if queue_absent then stop_route ''queue-missing'' None
      else if scope_missed cfg w then stop_route ''scoped-id-not-found'' None
      else if dep_gated w \<noteq> [] then stop_route ''queue-exhausted-dependency-gated'' None
      else if parked w \<noteq> [] then stop_route ''queue-exhausted-all-parked'' None
      else stop_route ''all-bugs-fixed'' None)"

text \<open>The bug to work on, or the route of the probe; \<open>None\<close> also for the refused combination of flags.\<close>

definition select_bug :: "route_env \<Rightarrow> int \<Rightarrow> route_cfg \<Rightarrow> disk \<Rightarrow> json jfile \<Rightarrow> ((item + route) \<times> walk) option" where
  "select_bug env today cfg disk file =
     (if cfg_park_provisional cfg \<and> \<not> cfg_park_needs_input cfg then None
      else Option.bind (load_bug_queue env today disk file) (\<lambda>queue.
        map_option
          (\<lambda>e. case e of
             Picked it w \<Rightarrow> (Inl it, w)
           | Returned r w \<Rightarrow> (Inr r, w)
           | Exhausted w \<Rightarrow> (Inr (bugs_exhausted_route cfg (file = Absent) w), w))
          (walk_bugs (bug_stages queue) env cfg queue (start_walk env disk))))"

end
