(* ===== verification/Bug_Steps.thy ===== *)
theory Bug_Steps
  imports Bug_Walk
begin

text \<open>
  Steps 2.9 to 10 of \<open>compute_state\<close> in \<^verbatim>\<open>user/scripts/bug-state.py\<close>, and the whole probe of the bug
  pipeline. A bug has no stub, realignment or research step: without phases it is investigated or, when its
  investigation is concluded, planned, unless a fix that nobody has reconciled is on record.
\<close>

subsection \<open>Steps 2.9 to 3.6: what halts a bug\<close>

definition bug_stale_step :: step where
  "bug_stale_step env cfg it d =
     Some (if \<not> has_doc d ''STALE_UPSTREAM.md'' then Onward
           else halt_stop it ''Step 2.9: stale-upstream'' ''stale_upstream'')"

definition bug_blocked_step :: step where
  "bug_blocked_step env cfg it d =
     (if \<not> has_doc d ''BLOCKED.md'' then Some Onward
      else Option.bind (parse_sentinel (the_yaml env) d ''BLOCKED.md'') (\<lambda>m. Some (
        if mget m ''blocker_kind'' = JStr ''runtime-spike-verdict-pending'' \<and> spike_tooling_cap_exceeded m
        then spike_cap_stop env it ''Step 3: spike tooling-round cap exceeded'' m
        else if mget m ''blocker_kind'' = JStr ''runtime-spike-verdict-pending''
        then halt_run it ''Step 3: spike verdict pending (blocked resolver)'' ''spike''
               (''resolve the spike blocker for '' @ it_name it @
                '': run the runtime proof and write SPIKE_VERDICT.md (verdict: PASS|FAIL, with observed evidence) in '' @
                path_str (it_path it) @ '', then neutralize BLOCKED.md. See '' @ path_str (it_path it) @ ''/SPEC.md.'')
        else Halt ((item_stop it ''Step 3: blocked'' ''blocked'')\<lparr>escalated := validation_escalation m\<rparr>) NoWrite)))"

definition bug_misnamed_step :: step where
  "bug_misnamed_step env cfg it d =
     Some (case detect_noncanonical_blocker d of
             None \<Rightarrow> Onward
           | Some stray \<Rightarrow> halt_stop it ''Step 3: mis-named blocker'' ''blocked-misnamed'')"

definition bug_input_step :: step where
  "bug_input_step env cfg it d =
     (if has_doc d ''NEEDS_INPUT.md''
      then Option.bind (parse_sentinel (the_yaml env) d ''NEEDS_INPUT.md'')
             (\<lambda>m. Some (halt_stop it ''Step 3.5: needs-input'' ''needs-input''))
      else Some Onward)"

definition bug_ratify_step :: step where
  "bug_ratify_step env cfg it d =
     (if cfg_park_needs_input cfg \<or> \<not> has_doc d provisional_sentinel then Some Onward
      else Option.bind (parse_sentinel (the_yaml env) d provisional_sentinel)
             (\<lambda>m. Some (halt_stop it ''Step 3.6: needs-ratification'' ''needs-ratification'')))"

subsection \<open>Steps 4 and 5: investigation and planning\<close>

definition fixed_annotation :: "item_dir \<Rightarrow> string option" where
  "fixed_annotation d =
     (case spec_fixed_annotation d of
        Some s \<Rightarrow> if s \<noteq> [] then Some s else spec_fix_implemented_heading d
      | None \<Rightarrow> spec_fix_implemented_heading d)"

definition fixed_unreconciled_lines :: "step_env \<Rightarrow> string \<Rightarrow> string \<Rightarrow> string list" where
  "fixed_unreconciled_lines env i evid =
     [fence, ''kind: blocked'', ''feature_id: '' @ i,
      ''phase: routing '' @ em_dash @ '' already-implemented-out-of-pipeline (fixed-unreconciled) detection'',
      ''blocked_at: '' @ rt_now (se_walk env), ''retry_count: 0'', ''blocker_kind: fixed-unreconciled'', fence, [],
      ''# Blocked '' @ em_dash @ '' fix already implemented out-of-pipeline (unreconciled)'', [],
      ''## Details'', [],
      ''Bug `'' @ i @ ''` carries a `**Fixed:** '' @ evid @ ''` evidence annotation '' @
      ''(the fix already landed out-of-pipeline '' @ em_dash @ '' a `/harden-harness` round or a '' @
      ''manual in-session fix), but its `**Status:**` is still a pre-fix status '' @
      ''and there is no valid `FIXED.md` completion receipt. The fix is on disk; '' @
      ''re-planning it would burn a full `/plan-bug` spec-phases + write-plan '' @
      ''dispatch on work that is already done (blocker_kind: fixed-unreconciled).'', [],
      ''## What was tried'', [],
      ''During routing (bug-state.py Step 4 / `/plan-bug` Step 0.4) the pipeline '' @
      ''detected the `**Fixed:**` annotation with no `FIXED.md` receipt and '' @
      ''diverted here instead of dispatching the planning round.'', [],
      ''## Recovery Suggestion'', [],
      ''Reconcile via the `docs/bugs/CLAUDE.md` receipt + `--archive-fixed` '' @
      ''contract: write the `FIXED.md` receipt, then run '' @
      ''`python3 user/scripts/bug-state.py --repo-root . --archive-fixed docs/bugs/'' @ i @ ''` '' @
      ''(the one script-owned mover). OR '' @ em_dash @ '' if the `**Fixed:**` annotation is '' @
      ''stray and the bug genuinely still needs planning '' @ em_dash @ '' clear the annotation '' @
      ''from SPEC.md to re-plan. Then rename/neutralize this BLOCKED.md.'', []]"

definition format_fixed_unreconciled_blocker :: "step_env \<Rightarrow> string \<Rightarrow> string option \<Rightarrow> string" where
  "format_fixed_unreconciled_blocker env i evid =
     join newline (fixed_unreconciled_lines env i
       (strip (case evid of None \<Rightarrow> ''(no annotation value captured)''
               | Some s \<Rightarrow> if s = [] then ''(no annotation value captured)'' else s)))"

text \<open>A concluded bug whose fix is on record is blocked for reconciliation, and not planned.\<close>

definition investigate_step :: step where
  "investigate_step env cfg it d =
     (if has_doc d ''PHASES.md'' then Some Onward
      else if spec_status d = Some ''Concluded'' then
        map_option
          (\<lambda>fixed. if fixed
             then Halt (item_stop it ''Step 3: blocked'' ''blocked'')
                    (if has_doc d ''BLOCKED.md'' then NoWrite
                     else WriteDoc ''BLOCKED.md''
                            (format_fixed_unreconciled_blocker env (it_id it) (fixed_annotation d)))
             else halt_run it ''Step 5: plan bug from concluded investigation'' ''plan-bug'' (spec_file it))
          (is_fixed_unreconciled (the_yaml env) (it_path it) d)
      else Some (halt_run it ''Step 4: investigate bug'' ''spec-bug'' (spec_file it)))"

subsection \<open>Step 7: plans\<close>

definition bug_plan_is_stale :: "string \<Rightarrow> string \<Rightarrow> int set \<Rightarrow> bool" where
  "bug_plan_is_stale phases plan ps =
     (if ps = {} then False
      else if all_wus_in_plan_scope phases ps \<noteq> []
      then unchecked_wus_in_plan_scope phases ps = [] \<or>
           remaining_unchecked_are_verification_only (phases_text_scoped_to phases ps)
      else (case plan_wu_checkbox_counts plan of (unchecked, checked) \<Rightarrow>
             checked \<noteq> 0 \<and> (unchecked = 0 \<or> remaining_unchecked_are_verification_only plan)))"

definition bug_run_plan :: "step_env \<Rightarrow> item \<Rightarrow> item_dir \<Rightarrow> plan_ref \<Rightarrow> step_result" where
  "bug_run_plan env it d p =
     (if \<not> plan_structural_backstop env (plan_text d p)
      then Halt (item_stop it ''Step 7a: blocked (plan structurally invalid)'' ''blocked'')
             (if has_doc d ''BLOCKED.md'' then NoWrite
              else WriteDoc ''BLOCKED.md''
                (blocked_text (se_walk env) (it_id it) ''Plan structural validation'' ''plan-structural-invalid''))
      else halt_run it ''Step 7a: execute plan'' ''execute-plan'' (plan_file it p))"

definition bug_route_plan :: "step_env \<Rightarrow> item \<Rightarrow> item_dir \<Rightarrow> string \<Rightarrow> plan_ref \<Rightarrow> step_result option" where
  "bug_route_plan env it d phases p =
     map_option
       (\<lambda>ps. if bug_plan_is_stale phases (plan_text d p) ps
             then halt_run it (''Step 7a: flip plan Complete (stale '' @ em_dash @
                    '' all referenced implementation deliverables already checked)'') ''__flip_plan_complete_stale__''
                    (plan_file it p)
             else bug_run_plan env it d p)
       (plan_phase_set (the_yaml env) d p)"

definition bug_plan_step :: step where
  "bug_plan_step env cfg it d =
     (case phases_doc d of
        None \<Rightarrow> Some Onward
      | Some phases \<Rightarrow>
          if fst (count_deliverables phases) = 0 then Some Onward
          else Option.bind (find_implementation_plans (the_yaml env) d) (\<lambda>plans.
            case plans of
              p # _ \<Rightarrow> bug_route_plan env it d phases p
            | [] \<Rightarrow> Option.bind (if cfg_cloud cfg then has_any_complete_plan (the_yaml env) d else Some False)
                (\<lambda>cloud_bypass. Some (
                   if cloud_bypass \<or> \<not> cfg_cloud cfg \<and> remaining_unchecked_are_verification_only phases then Onward
                   else halt_run it ''Step 7a: write plan'' ''write-plan'' (path_str (it_path it) @ ''/PHASES.md'')))))"

subsection \<open>Step 9: validation\<close>

definition bug_device_step :: step where
  "bug_device_step env cfg it d =
     (if \<not> has_doc d ''DEFERRED_REQUIRES_DEVICE.md'' then Some Onward
      else if real_device cfg then
        Option.bind (parse_sentinel (the_yaml env) d ''DEFERRED_REQUIRES_DEVICE.md'') (\<lambda>m.
          Option.bind (scenario_text (mget m ''deferred_scenarios'')) (\<lambda>scen.
            Some (halt_run it ''Step 9: re-open device-deferred scenarios (real-device host)'' ''mcp-test''
              (''re-validate '' @ it_name it @ '' deferred real-device assertions ['' @ scen @
               ''] on THIS real-device host '' @ em_dash @ '' see '' @ path_str (it_path it) @
               ''/DEFERRED_REQUIRES_DEVICE.md. On pass, delete that sentinel and write VALIDATED.md; on a genuine failure treat it as a real bug (BLOCKED.md), not an environment skip.''))))
      else Some (halt_stop it ''Step 9: device-deferred (no real device on this host)'' ''device-queue-exhausted''))"

definition bug_waiver_route :: "step_env \<Rightarrow> item \<Rightarrow> item_dir \<Rightarrow> step_result option" where
  "bug_waiver_route env it d =
     Option.bind (parse_sentinel (the_yaml env) d ''SKIP_MCP_TEST.md'') (\<lambda>m.
       Some (case skip_waiver_refusal (the_repo env) m of
           Some refusal \<Rightarrow> halt_stop it ''Step 9: pipeline-granted skip needs operator confirmation'' ''needs-input''
         | None \<Rightarrow> halt_run it (''Step 9: skip-mcp-test '' @ arrow @ '' validated'') ''__write_validated_from_skip__''
                     (path_str (it_path it))))"

definition bug_test_route :: "step_env \<Rightarrow> item \<Rightarrow> item_dir \<Rightarrow> step_result" where
  "bug_test_route env it d =
     (if phases_mcp_runtime_not_required d \<and> \<not> has_app_surface (the_repo env)
      then halt_run it ''Step 9: structural MCP-skip (no app surface)'' ''__grant_skip_no_mcp_surface__'' (path_str (it_path it))
      else halt_run it ''Step 9: run MCP tests'' ''mcp-test''
             (''validate '' @ it_name it @ '' '' @ em_dash @ '' see '' @ path_str (it_path it) @ ''/SPEC.md''))"

definition bug_results_route :: "step_env \<Rightarrow> item \<Rightarrow> item_dir \<Rightarrow> step_result option" where
  "bug_results_route env it d =
     (if \<not> has_doc d ''MCP_TEST_RESULTS.md'' then Some (bug_test_route env it d)
      else Option.bind (parse_sentinel (the_yaml env) d ''MCP_TEST_RESULTS.md'') (\<lambda>m.
        let pass = evidence_count (mget m ''pass_count''); total = evidence_count (mget m ''total_count'');
            gap = observation_gap_promotable m \<and> pass \<noteq> None \<and> total \<noteq> None \<and> pass = total
        in Some (
          if mget m ''result'' = JStr ''all-passing'' \<or> gap then
            (case commit_drift_verdict (the_repo env) (opt_str (mget m ''validated_commit'')) of
               Fresh \<Rightarrow> halt_run it ''Step 9b: write validated'' ''__write_validated_from_results__'' (path_str (it_path it))
             | DocsOnly \<Rightarrow> halt_run it ''Step 9b: write validated'' ''__write_validated_from_results__'' (path_str (it_path it))
             | _ \<Rightarrow> halt_run it (''Step 9: stale MCP results '' @ em_dash @ '' re-verify'') ''mcp-test''
                      (''re-validate '' @ it_name it @ '' '' @ em_dash @
                       '' MCP_TEST_RESULTS.md was validated against a stale commit; see '' @ path_str (it_path it) @ ''/SPEC.md''))
          else bug_test_route env it d)))"

definition bug_validation_step :: step where
  "bug_validation_step env cfg it d =
     (let validated = has_doc d ''VALIDATED.md''; skip = has_doc d ''SKIP_MCP_TEST.md'' in
      if cfg_cloud cfg then
        if \<not> validated \<and> \<not> skip \<and> \<not> has_doc d ''DEFERRED_NON_CLOUD.md''
        then Some (halt_run it ''Step 9: cloud defers MCP test'' ''__write_deferred_non_cloud__'' (path_str (it_path it)))
        else if skip \<and> \<not> validated then bug_waiver_route env it d
        else Some Onward
      else if validated then Some Onward
      else if skip then bug_waiver_route env it d
      else bug_results_route env it d)"

definition bug_spike_step :: step where
  "bug_spike_step env cfg it d =
     (if \<not> phases_spike_required d then Some Onward
      else case spike_verdict_is_pass (the_yaml env) d of
          None \<Rightarrow> None
        | Some True \<Rightarrow> Some Onward
        | Some False \<Rightarrow>
            Option.bind (parse_sentinel (the_yaml env) d ''SPIKE_VERDICT.md'') (\<lambda>m. Some (
              if spike_tooling_cap_exceeded m
              then spike_cap_stop env it ''Step 9.5: spike tooling-round cap exceeded'' m
              else halt_run it ''Step 9.5: spike verdict pending'' ''spike''
                (''run the runtime proof for '' @ it_name it @ '' '' @ em_dash @ '' goal: '' @
                 (case read_spike_decision d of Some g \<Rightarrow> g | None \<Rightarrow> ''None'') @
                 ''. Write SPIKE_VERDICT.md (verdict: PASS|FAIL, with observed evidence) in '' @ path_str (it_path it) @
                 ''; see '' @ path_str (it_path it) @ ''/SPEC.md.''))))"

subsection \<open>Step 10: the fix\<close>

definition bug_rows_left :: "step_env \<Rightarrow> item_dir \<Rightarrow> verif_row list option" where
  "bug_rows_left env d =
     (if phases_mcp_runtime_not_required d \<and> \<not> has_app_surface (the_repo env) then Some []
      else uncovered_verification_rows_remain (the_yaml env) (the_repo env) d
             (case phases_doc d of Some t \<Rightarrow> t | None \<Rightarrow> []))"

definition fixed_step :: step where
  "fixed_step env cfg it d =
     (if cfg_cloud cfg \<and> \<not> has_doc d ''VALIDATED.md''
      then Some (halt_stop it ''Step 10a: cloud halt'' ''cloud-queue-exhausted'')
      else if has_doc d provisional_sentinel
      then Some (halt_stop it ''Step 3.6: needs-ratification'' ''needs-ratification'')
      else map_option
        (\<lambda>rows. if rows = [] then halt_run it ''Step 10: mark fixed'' ''__mark_fixed__'' (path_str (it_path it))
                else rows_route it (length rows))
        (bug_rows_left env d))"

subsection \<open>The probe\<close>

definition bug_route_steps :: "step list" where
  "bug_route_steps = [bug_stale_step, bug_blocked_step, bug_misnamed_step, bug_input_step, bug_ratify_step,
     investigate_step, bug_plan_step, bug_device_step, bug_validation_step, bug_spike_step, fixed_step]"

definition route_bug :: step where
  "route_bug = run_steps bug_route_steps"

definition bug_compute_state :: "step_env \<Rightarrow> int \<Rightarrow> route_cfg \<Rightarrow> probe_end option" where
  "bug_compute_state env today cfg =
     Option.bind (select_bug (se_walk env) today cfg (se_disk env) (se_queue env)) (\<lambda>(res, w).
       case res of
         Inr r \<Rightarrow> Some \<lparr>pe_route = r, pe_walk = w, pe_dir = None, pe_queue = se_queue env\<rparr>
       | Inl it \<Rightarrow>
           (case route_bug (env\<lparr>se_disk := w_disk w\<rparr>) cfg it (it_dir it) of
              Some (Halt r wr) \<Rightarrow> Some \<lparr>pe_route = r, pe_walk = w, pe_dir = Some (apply_write wr (it_dir it)),
                                     pe_queue = se_queue env\<rparr>
            | _ \<Rightarrow> None))"

end
