(* ===== verification/Bug_Parity.thy ===== *)
theory Bug_Parity
  imports Bug_Steps Route_Ends
begin

text \<open>
  The two state scripts are kept as a coupled pair: most blocks of \<^verbatim>\<open>bug-state.py\<close> claim to mirror
  \<^verbatim>\<open>lazy-state.py\<close>. Here each mirrored stage and step is proved equal to its twin, and the two
  routers to agree on an item whose specification and phases are in place.
\<close>

subsection \<open>The stages of the walk\<close>

named_theorems twin
  \<open>a definition of the bug pipeline equals its twin in the feature pipeline\<close>

lemma bind_Some_map: "Option.bind x (\<lambda>v. Some (f v)) = map_option f x"
  by (cases x) simp_all

lemma twin_phases [twin]: "bug_phases_effectively_complete = phases_effectively_complete"
  by (intro ext)
    (simp add: bug_phases_effectively_complete_def phases_effectively_complete_def phases_doc_def bind_Some_map
      split: option.split list.split)

lemma twin_cloud [twin]: "bug_cloud_stage = cloud_stage"
  by (intro ext) (auto simp: bug_cloud_stage_def cloud_stage_def twin_phases Let_def intro!: option.map_cong)

lemma twin_device [twin]: "bug_device_stage = device_stage"
  by (intro ext)
    (auto simp: bug_device_stage_def device_stage_def twin_phases Let_def fun_eq_iff split: bind_splits)

lemma twin_operator [twin]: "bug_operator_stage = operator_stage"
  by (intro ext) (simp add: bug_operator_stage_def operator_stage_def spec_dir_operator_deferred_def)

lemma twin_park_blocked [twin]:
  "run_stages (bug_park_blocked_stage # bug_park_stray_stage # ss) env cfg it w =
    run_stages (park_blocked_stage # ss) env cfg it w"
  by (auto simp: bug_park_blocked_stage_def bug_park_stray_stage_def park_blocked_stage_def park_item_def
      split: option.splits)

lemma twin_park_input [twin]: "bug_park_input_stage = park_input_stage"
  by (intro ext) (auto simp: bug_park_input_stage_def park_input_stage_def Let_def)

lemma twin_provisional [twin]: "bug_provisional_stage = provisional_stage"
proof (intro ext)
  fix env :: route_env and cfg :: route_cfg and it :: item and w :: walk
  have seen: "it_id it \<in> parked_id ` set (provisional w) \<longleftrightarrow> (\<exists>q\<in>set (provisional w). parked_id q = it_id it)"
    by (auto intro: rev_image_eqI)
  show "bug_provisional_stage env cfg it w = provisional_stage env cfg it w"
    unfolding bug_provisional_stage_def provisional_stage_def Let_def seen by (auto intro!: option.map_cong)
qed

subsection \<open>The steps of the router\<close>

lemma twin_sentinels [twin]:
  "bug_stale_step = stale_step" "bug_misnamed_step = misnamed_step" "bug_input_step = input_step"
  "bug_ratify_step = ratify_step"
  by (intro ext; auto simp: bug_stale_step_def stale_step_def bug_misnamed_step_def misnamed_step_def
      bug_input_step_def input_step_def bug_ratify_step_def ratify_step_def bind_Some_map split: option.split)+

lemma twin_blocked [twin]: "bug_blocked_step = blocked_step"
  by (intro ext)
    (auto simp: bug_blocked_step_def blocked_step_def bind_Some_map spec_file_def intro!: option.map_cong)

lemma twin_stale_plan [twin]: "bug_plan_is_stale = plan_is_stale"
  by (intro ext) (auto simp: bug_plan_is_stale_def plan_is_stale_def split: prod.splits)

lemma twin_run_plan [twin]: "bug_run_plan = run_plan"
  by (intro ext) (simp add: bug_run_plan_def run_plan_def)

lemma twin_route_plan:
  "\<not> cfg_cloud cfg \<Longrightarrow> bug_route_plan env it d t p = route_plan env cfg it d t p"
  by (cases "plan_phase_set (the_yaml env) d p") (simp_all add: bug_route_plan_def route_plan_def twin)

lemma twin_plan:
  assumes "\<not> cfg_cloud cfg" and "\<not> has_cognito_planner (the_repo env)"
  shows "bug_plan_step env cfg it d = plan_step env cfg it d"
  using assms
  by (auto simp: bug_plan_step_def plan_step_def plan_bypass_def twin_route_plan [OF assms(1)]
      intro!: Option.bind_cong split: option.split list.split)

lemma twin_device_step [twin]: "bug_device_step = device_step"
  by (intro ext) (auto simp: bug_device_step_def device_step_def bind_Some_map)

lemma twin_waiver [twin]: "bug_waiver_route = waiver_route"
  by (intro ext) (auto simp: bug_waiver_route_def waiver_route_def bind_Some_map intro!: option.map_cong split: option.split)

lemma twin_test [twin]: "bug_test_route = test_route"
  by (intro ext) (simp add: bug_test_route_def test_route_def structurally_skipped_def spec_file_def)

lemma twin_results [twin]: "bug_results_route = results_route"
proof (intro ext)
  fix env it d
  show "bug_results_route env it d = results_route env it d"
  proof (cases "has_doc d ''MCP_TEST_RESULTS.md''")
    case True
    show ?thesis
    proof (cases "parse_sentinel (the_yaml env) d ''MCP_TEST_RESULTS.md''")
      case (Some m)
      let ?drift = "commit_drift_verdict (the_repo env) (opt_str (mget m ''validated_commit''))"
      show ?thesis
        using True Some
        by (cases ?drift)
          (auto simp: bug_results_route_def results_route_def twin_test results_promotable_def spec_file_def Let_def)
    qed (use True in \<open>simp add: bug_results_route_def results_route_def\<close>)
  qed (simp add: bug_results_route_def results_route_def twin_test)
qed

lemma twin_validation [twin]: "bug_validation_step = validation_step"
  by (intro ext) (simp add: bug_validation_step_def validation_step_def twin_waiver twin_results Let_def)

lemma twin_spike [twin]: "bug_spike_step = spike_step"
  by (intro ext)
    (auto simp: bug_spike_step_def spike_step_def bind_Some_map spec_file_def split: option.split bool.split intro!: option.map_cong)

text \<open>The last step: the twins differ in the skill, and in what a workstation does without a receipt.\<close>

definition as_bug :: "item \<Rightarrow> step_result \<Rightarrow> step_result" where
  "as_bug it res =
     (case res of
        Halt r w \<Rightarrow>
          if sub_skill r = Some ''__mark_complete__''
          then halt_run it ''Step 10: mark fixed'' ''__mark_fixed__'' (path_str (it_path it)) else Halt r w
      | Onward \<Rightarrow> Onward)"

lemma twin_last:
  assumes "has_doc d ''VALIDATED.md''"
  shows "fixed_step env cfg it d = map_option (as_bug it) (complete_step env cfg it d)"
  using assms
  by (auto simp: fixed_step_def complete_step_def bug_rows_left_def structurally_skipped_def as_bug_def halt_stop_def
      halt_run_def rows_route_def option.map_comp comp_def intro!: option.map_cong)

lemma as_bug_other:
  assumes "route_step s skills" and "''__mark_complete__'' \<notin> skills"
  shows "map_option (as_bug it) (s env cfg it d) = s env cfg it d"
proof (cases "s env cfg it d")
  case (Some out)
  have "sub_skill r \<noteq> Some ''__mark_complete__''" if "out = Halt r w" for r w
    using route_step.runs [OF assms(1)] Some assms(2) that by blast
  then show ?thesis using Some by (simp add: as_bug_def split: step_result.split)
qed simp

lemma run_steps_Cons:
  "run_steps (s # ss) env cfg it d = (case s env cfg it d of Some Onward \<Rightarrow> run_steps ss env cfg it d | r \<Rightarrow> r)"
  by (auto split: option.split step_result.split)

lemma as_bug_run:
  assumes "map_option (as_bug it) (s env cfg it d) = s env cfg it d"
    and "s env cfg it d = Some Onward \<Longrightarrow>
      run_steps ts env cfg it d = map_option (as_bug it) (run_steps ss env cfg it d)"
  shows "run_steps (s # ts) env cfg it d = map_option (as_bug it) (run_steps (s # ss) env cfg it d)"
  using assms unfolding run_steps_Cons by (auto split: option.splits step_result.splits)

lemma run_skip: "s env cfg it d = Some Onward \<Longrightarrow> run_steps (s # ss) env cfg it d = run_steps ss env cfg it d"
  by (simp add: run_steps_Cons)

lemma investigate_onward: "investigate_step env cfg it d = Some Onward \<longleftrightarrow> has_doc d ''PHASES.md''"
  by (auto simp: investigate_step_def)

lemma twin_tail:
  assumes "\<not> cfg_cloud cfg" and "\<not> has_cognito_planner (the_repo env)"
  shows "run_steps [bug_plan_step, bug_device_step, bug_validation_step, bug_spike_step, fixed_step] env cfg it d =
    map_option (as_bug it) (run_steps [plan_step, device_step, validation_step, spike_step, complete_step] env cfg it d)"
proof -
  have last: "run_steps [fixed_step] env cfg it d = map_option (as_bug it) (run_steps [complete_step] env cfg it d)"
    if "has_doc d ''VALIDATED.md''"
    using twin_last [OF that, of env cfg it] unfolding run_steps_Cons
    by (auto simp: as_bug_def split: option.splits step_result.splits if_splits)
  have onward: "validation_step env cfg it d = Some Onward \<Longrightarrow> has_doc d ''VALIDATED.md''"
    using assms(1) by (simp add: validation_onward)
  note plan = twin_plan [OF assms, of it d]
  have plan_run: "run_steps (bug_plan_step # ss) env cfg it d = run_steps (plan_step # ss) env cfg it d" for ss
    by (simp add: run_steps_Cons plan)
  show ?thesis
    unfolding plan_run twin
    by (intro as_bug_run last onward as_bug_other [OF plan_st.route_step_axioms] as_bug_other [OF device_st.route_step_axioms]
        as_bug_other [OF validation_st.route_step_axioms] as_bug_other [OF spike_st.route_step_axioms])
      (simp_all add: plan_skills_def validation_skills_def)
qed

text \<open>
  C17. The two state scripts route alike: on a workstation, in a repository without the Cognito planner, for an item
  whose specification, research and phases are in place, the bug router returns exactly the route of the feature
  router, with \<open>__mark_fixed__\<close> for \<open>__mark_complete__\<close>; the same halts, the same skills and arguments, the same
  sentinels written. (With that planner the feature router asks for it where the bug router asks for \<open>write-plan\<close>.)
\<close>

theorem twins_route_alike:
  assumes "\<not> cfg_cloud cfg" and "\<not> has_cognito_planner (the_repo env)"
    and "\<forall>s\<in>{spec_step, stub_step, realign_step, research_step, phases_step}. s env cfg it d = Some Onward"
  shows "route_bug env cfg it d = map_option (as_bug it) (route_item env cfg it d)"
proof -
  have "has_doc d ''PHASES.md''" using assms(3) by (auto simp: phases_onward phases_doc_def has_doc_def)
  then have inv: "investigate_step env cfg it d = Some Onward" by (simp add: investigate_onward)
  have only: "spec_step env cfg it d = Some Onward" "stub_step env cfg it d = Some Onward"
    "realign_step env cfg it d = Some Onward" "research_step env cfg it d = Some Onward"
    "phases_step env cfg it d = Some Onward"
    using assms(3) by simp_all
  have middle: "run_steps [investigate_step, bug_plan_step, bug_device_step, bug_validation_step, bug_spike_step, fixed_step]
      env cfg it d = map_option (as_bug it) (run_steps [spec_step, stub_step, realign_step, research_step, phases_step,
        plan_step, device_step, validation_step, spike_step, complete_step] env cfg it d)"
    using twin_tail [OF assms(1,2)] by (simp only: run_skip [of investigate_step, OF inv] run_skip [of spec_step, OF only(1)]
        run_skip [of stub_step, OF only(2)] run_skip [of realign_step, OF only(3)] run_skip [of research_step, OF only(4)]
        run_skip [of phases_step, OF only(5)])
  show ?thesis
    unfolding route_bug_def bug_route_steps_def route_item_def route_steps_def twin_sentinels twin_blocked
    by (intro as_bug_run middle as_bug_other [OF stale_st.route_step_axioms] as_bug_other [OF blocked_st.route_step_axioms]
        as_bug_other [OF misnamed_st.route_step_axioms] as_bug_other [OF input_st.route_step_axioms]
        as_bug_other [OF ratify_st.route_step_axioms]) simp_all
qed

end
