(* ===== verification/Bug_Facts.thy ===== *)
theory Bug_Facts
  imports Bug_Parity
begin

text \<open>
  What the walk of \<^theory_text>\<open>Bug_Walk\<close> promises. The interface \<open>bug_stage\<close> is the contract of one stage:
  it leaves the disk alone unless it ends the probe, and whatever it skips is settled or on record; every
  stage of the bug pipeline is an interpretation of it.
\<close>

subsection \<open>The contract of a stage\<close>

definition settled_bug :: "yaml \<Rightarrow> item_dir \<Rightarrow> bool" where
  "settled_bug yaml d \<longleftrightarrow> spec_status d = Some wont_fix \<or>
     spec_status d = Some ''Fixed'' \<and> has_completion_receipt yaml d ''FIXED.md'' = Some True"

text \<open>Some skip is on record, and each record of an axis has the setting that allows it.\<close>

definition waiting :: "walk \<Rightarrow> bool" where
  "waiting w \<longleftrightarrow> cloud_skipped w \<noteq> [] \<or> device_deferred w \<noteq> [] \<or> operator_deferred w \<noteq> [] \<or> parked w \<noteq> [] \<or>
     dep_gated w \<noteq> []"

definition allowed :: "route_cfg \<Rightarrow> walk \<Rightarrow> bool" where
  "allowed cfg w \<longleftrightarrow> (cloud_skipped w \<noteq> [] \<longrightarrow> cfg_cloud cfg) \<and> (device_deferred w \<noteq> [] \<longrightarrow> \<not> real_device cfg)"

definition calls_on :: "route_cfg \<Rightarrow> walk \<Rightarrow> walk \<Rightarrow> bool" where
  "calls_on cfg w w' \<longleftrightarrow> w_disk w' = w_disk w \<and> scope_seen w' = scope_seen w \<and>
     (allowed cfg w \<longrightarrow> allowed cfg w') \<and> (waiting w \<longrightarrow> waiting w')"

lemma calls_on_refl [simp]: "calls_on cfg w w"
  by (simp add: calls_on_def)

lemma calls_on_trans: "calls_on cfg a b \<Longrightarrow> calls_on cfg b c \<Longrightarrow> calls_on cfg a c"
  by (auto simp: calls_on_def)

definition bug_reasons :: "string option set" where
  "bug_reasons = {None, Some ''bug-fixed-scoped'', Some ''completion-unverified'',
     Some ''cloud-queue-exhausted-scoped'', Some ''device-queue-exhausted-scoped'', Some ''blocked'',
     Some ''operator-deferred'', Some ''blocked-scoped'', Some ''needs-input-scoped'', Some ''needs-ratification-scoped''}"

locale bug_stage =
  fixes st :: stage
  assumes proceeds: "st env cfg it w = Some (Proceed w') \<Longrightarrow> calls_on cfg w w'"
    and skips: "st env cfg it w = Some (Skip w') \<Longrightarrow>
      calls_on cfg w w' \<and> (settled_bug (rt_yaml env) (it_dir it) \<or> waiting w')"
    and returns: "st env cfg it w = Some (Return r w') \<Longrightarrow>
      decision r \<and> feature_id r = Some (it_id it) \<and> terminal_reason r \<in> bug_reasons"

named_theorems bug_records
  \<open>a record of a skip keeps the contract, and is waiting\<close>

lemma calls_on_records [bug_records]:
  "cfg_cloud cfg \<Longrightarrow> calls_on cfg w (w\<lparr>cloud_skipped := cloud_skipped w @ [x]\<rparr>)"
  "\<not> real_device cfg \<Longrightarrow> calls_on cfg w (w\<lparr>device_deferred := device_deferred w @ [x]\<rparr>)"
  "calls_on cfg w (w\<lparr>operator_deferred := operator_deferred w @ [x]\<rparr>)"
  "calls_on cfg w (w\<lparr>parked := parked w @ [p]\<rparr>)"
  "calls_on cfg w (w\<lparr>provisional := ps\<rparr>)"
  "calls_on cfg w (w\<lparr>provisional := ps, parked := parked w @ [p]\<rparr>)"
  "calls_on cfg w (w\<lparr>dep_gated := dep_gated w @ [g]\<rparr>)"
  by (simp_all add: calls_on_def waiting_def allowed_def)

lemma waiting_records [bug_records]:
  "waiting (w\<lparr>cloud_skipped := cloud_skipped w @ [x]\<rparr>)" "waiting (w\<lparr>device_deferred := device_deferred w @ [x]\<rparr>)"
  "waiting (w\<lparr>operator_deferred := operator_deferred w @ [x]\<rparr>)" "waiting (w\<lparr>parked := parked w @ [p]\<rparr>)"
  "waiting (w\<lparr>provisional := ps, parked := parked w @ [p]\<rparr>)" "waiting (w\<lparr>dep_gated := dep_gated w @ [g]\<rparr>)"
  by (simp_all add: waiting_def)

lemma decision_provisional [simp]: "decision (provisional_accept it a)"
  by (simp add: decision_def)

lemmas bug_stage_defs = skip_or_scoped_def park_item_def bug_reasons_def Let_def

interpretation bug_completion_st: bug_stage bug_completion_stage
  by unfold_locales (auto simp: bug_completion_stage_def settled_bug_def bug_stage_defs split: if_splits)

interpretation bug_cloud_st: bug_stage bug_cloud_stage
  by unfold_locales (auto simp: bug_cloud_stage_def bug_stage_defs bug_records split: if_splits)

interpretation bug_device_st: bug_stage bug_device_stage
  by unfold_locales (auto simp: bug_device_stage_def bug_stage_defs bug_records bind_eq_Some_conv split: if_splits)

interpretation bug_host_st: bug_stage bug_host_stage
  by unfold_locales (auto simp: bug_host_stage_def bug_stage_defs split: if_splits)

interpretation bug_operator_st: bug_stage bug_operator_stage
  by unfold_locales (auto simp: bug_operator_stage_def bug_stage_defs bug_records split: if_splits)

interpretation bug_park_blocked_st: bug_stage bug_park_blocked_stage
  by unfold_locales (auto simp: bug_park_blocked_stage_def bug_stage_defs bug_records split: if_splits)

interpretation bug_park_stray_st: bug_stage bug_park_stray_stage
  by unfold_locales (auto simp: bug_park_stray_stage_def bug_stage_defs bug_records split: if_splits option.splits)

interpretation bug_park_input_st: bug_stage bug_park_input_stage
  by unfold_locales (auto simp: bug_park_input_stage_def bug_stage_defs bug_records bind_eq_Some_conv split: if_splits)

interpretation bug_provisional_st: bug_stage bug_provisional_stage
  by unfold_locales (auto simp: bug_provisional_stage_def bug_stage_defs bug_records split: if_splits)

lemma bug_dep_cases:
  assumes "bug_dep_stage queue env cfg it w = Some out"
  obtains "out = Return (item_stop it ''Step 3: blocked'' ''blocked'')
      (block_item env it ''Dependency validation'' ''unknown-dependency'' w)"
    | "out = Proceed w" "check_deps (bug_dep_completion_status (rt_yaml env) (rt_root env) (w_disk w) (bug_dir_map queue))
          (dep_ids (jget (it_entry it) ''queue_entry'')) = Some (Inr [])"
    | missing where "out = Skip (w\<lparr>dep_gated := dep_gated w @ [(it_id it, missing)]\<rparr>)"
proof -
  obtain z where z: "check_deps (bug_dep_completion_status (rt_yaml env) (rt_root env) (w_disk w) (bug_dir_map queue))
      (dep_ids (jget (it_entry it) ''queue_entry'')) = Some z"
    using assms by (auto simp: bug_dep_stage_def)
  show thesis
  proof (cases z)
    case (Inl bad)
    then show ?thesis using that(1) assms z by (simp add: bug_dep_stage_def)
  next
    case (Inr missing)
    with assms z have out: "out = (if missing = [] then Proceed w
        else Skip (w\<lparr>dep_gated := dep_gated w @ [(it_id it, missing)]\<rparr>))"
      by (simp add: bug_dep_stage_def)
    show ?thesis
    proof (cases "missing = []")
      case True
      then have "out = Proceed w" using out by simp
      then show ?thesis by (rule that(2)) (use z Inr True in simp)
    next
      case False
      then have "out = Skip (w\<lparr>dep_gated := dep_gated w @ [(it_id it, missing)]\<rparr>)" using out by simp
      then show ?thesis by (rule that(3))
    qed
  qed
qed

interpretation bug_dep_st: bug_stage "bug_dep_stage queue"
  by unfold_locales (erule bug_dep_cases; auto simp: bug_records bug_reasons_def)+

lemma run_stages_bug: "list_all bug_stage ss \<Longrightarrow> bug_stage (run_stages ss)"
proof (induction ss)
  case Nil
  show ?case by unfold_locales auto
next
  case (Cons s ss)
  then have s: "bug_stage s" and ss: "bug_stage (run_stages ss)" by simp_all
  show ?case
  proof
    fix env cfg it w w'
    assume "run_stages (s # ss) env cfg it w = Some (Proceed w')"
    then show "calls_on cfg w w'"
      by (auto split: option.splits outcome.splits
          intro: calls_on_trans [OF bug_stage.proceeds [OF s] bug_stage.proceeds [OF ss]])
  next
    fix env cfg it w w'
    assume "run_stages (s # ss) env cfg it w = Some (Skip w')"
    then consider "s env cfg it w = Some (Skip w')"
      | w1 where "s env cfg it w = Some (Proceed w1)" "run_stages ss env cfg it w1 = Some (Skip w')"
      by (auto split: option.splits outcome.splits)
    then show "calls_on cfg w w' \<and> (settled_bug (rt_yaml env) (it_dir it) \<or> waiting w')"
      by cases (blast dest: bug_stage.skips [OF s] bug_stage.skips [OF ss] bug_stage.proceeds [OF s]
          intro: calls_on_trans)+
  next
    fix env cfg it w r w'
    assume "run_stages (s # ss) env cfg it w = Some (Return r w')"
    then consider "s env cfg it w = Some (Return r w')" | w1 where "run_stages ss env cfg it w1 = Some (Return r w')"
      by (auto split: option.splits outcome.splits)
    then show "decision r \<and> feature_id r = Some (it_id it) \<and> terminal_reason r \<in> bug_reasons"
      by cases (rule bug_stage.returns [OF s] bug_stage.returns [OF ss], assumption)+
  qed
qed

lemma bug_stages_contract: "bug_stage (run_stages (bug_stages queue))"
  by (rule run_stages_bug)
    (simp add: bug_stages_def bug_completion_st.bug_stage_axioms bug_cloud_st.bug_stage_axioms
      bug_device_st.bug_stage_axioms bug_host_st.bug_stage_axioms bug_operator_st.bug_stage_axioms
      bug_park_blocked_st.bug_stage_axioms bug_park_stray_st.bug_stage_axioms bug_park_input_st.bug_stage_axioms
      bug_provisional_st.bug_stage_axioms bug_dep_st.bug_stage_axioms)

subsection \<open>The loop\<close>

text \<open>A loop that runs to its end has settled every bug it looked at, or has one on record.\<close>

lemma walk_bugs_exhausted:
  assumes "bug_stage (run_stages ss)"
  shows "walk_bugs ss env cfg es w = Some (Exhausted w') \<Longrightarrow> allowed cfg w \<Longrightarrow> cfg_scope cfg = None \<Longrightarrow>
    allowed cfg w' \<and> w_disk w' = w_disk w \<and> (waiting w \<longrightarrow> waiting w') \<and>
    (waiting w' \<or> (\<forall>e\<in>set es. be_id e \<noteq> [] \<and> be_name e \<noteq> [] \<longrightarrow>
        settled_bug (rt_yaml env) (it_dir (bug_item (w_disk w) e))))"
proof (induction es arbitrary: w)
  case (Cons e es)
  show ?case
  proof (cases "be_id e = [] \<or> be_name e = []")
    case True
    then have "walk_bugs ss env cfg es w = Some (Exhausted w')" using Cons.prems(1) by auto
    from Cons.IH [OF this Cons.prems(2,3)] True show ?thesis by auto
  next
    case False
    then obtain w2 where skip: "run_stages ss env cfg (bug_item (w_disk w) e) w = Some (Skip w2)"
      and rest: "walk_bugs ss env cfg es w2 = Some (Exhausted w')"
      using Cons.prems(1,3) by (auto simp: Let_def split: option.splits outcome.splits)
    note s = bug_stage.skips [OF assms skip]
    then have "allowed cfg w2" and disk: "w_disk w2 = w_disk w" using Cons.prems(2) by (auto simp: calls_on_def)
    from Cons.IH [OF rest this(1) Cons.prems(3)] s disk show ?thesis by (auto simp: calls_on_def)
  qed
qed simp

lemma walk_bugs_returned:
  assumes "bug_stage (run_stages ss)"
  shows "walk_bugs ss env cfg es w = Some (Returned r w') \<Longrightarrow>
    decision r \<and> feature_id r \<noteq> None \<and> terminal_reason r \<in> bug_reasons"
proof (induction es arbitrary: w)
  case (Cons e es)
  show ?case
  proof (cases "be_id e = [] \<or> be_name e = [] \<or> cfg_scope cfg \<notin> {None, Some (be_id e)}")
    case True
    then have "walk_bugs ss env cfg es w = Some (Returned r w')" using Cons.prems by simp
    then show ?thesis by (rule Cons.IH)
  next
    case False
    define w1 where "w1 = (if cfg_scope cfg = None then w else w\<lparr>scope_seen := True\<rparr>)"
    consider w2 where "walk_bugs ss env cfg es w2 = Some (Returned r w')"
      | "run_stages ss env cfg (bug_item (w_disk w) e) w1 = Some (Return r w')"
      using Cons.prems False by (auto simp: Let_def w1_def split: option.splits outcome.splits)
    then show ?thesis by cases (rule Cons.IH, assumption, use bug_stage.returns [OF assms] in blast)
  qed
qed simp

text \<open>The bug that is picked has passed every stage, on the disk the probe started from.\<close>

lemma walk_bugs_picked:
  assumes "bug_stage (run_stages ss)"
  shows "walk_bugs ss env cfg es w = Some (Picked it w') \<Longrightarrow>
    \<exists>e\<in>set es. it = bug_item (w_disk w) e \<and> w_disk w' = w_disk w \<and>
      (\<exists>w1. w_disk w1 = w_disk w \<and> run_stages ss env cfg it w1 = Some (Proceed w'))"
proof (induction es arbitrary: w)
  case (Cons e es)
  show ?case
  proof (cases "be_id e = [] \<or> be_name e = [] \<or> cfg_scope cfg \<notin> {None, Some (be_id e)}")
    case True
    then have "walk_bugs ss env cfg es w = Some (Picked it w')" using Cons.prems by simp
    from Cons.IH [OF this] show ?thesis by auto
  next
    case False
    define w1 where "w1 = (if cfg_scope cfg = None then w else w\<lparr>scope_seen := True\<rparr>)"
    then have d1: "w_disk w1 = w_disk w" by simp
    consider w2 where "run_stages ss env cfg (bug_item (w_disk w) e) w1 = Some (Skip w2)"
        "walk_bugs ss env cfg es w2 = Some (Picked it w')"
      | "it = bug_item (w_disk w) e" "run_stages ss env cfg it w1 = Some (Proceed w')"
      using Cons.prems False by (auto simp: Let_def w1_def split: option.splits outcome.splits)
    then show ?thesis
    proof cases
      case 1
      have "w_disk w2 = w_disk w" using bug_stage.skips [OF assms 1(1)] d1 by (simp add: calls_on_def)
      with Cons.IH [OF 1(2)] show ?thesis by auto
    next
      case 2
      moreover have "w_disk w' = w_disk w" using bug_stage.proceeds [OF assms 2(2)] d1 by (simp add: calls_on_def)
      ultimately show ?thesis using d1 by auto
    qed
  qed
qed simp

end
