(* ===== verification/Bug_Props.thy ===== *)
theory Bug_Props
  imports Bug_Facts
begin

text \<open>
  The properties of the bug pipeline in \<^theory_text>\<open>Bug_Walk\<close> and \<^theory_text>\<open>Bug_Steps\<close>: how the queue is ordered,
  what its end means, when a bug is marked fixed, that a fix on record is not planned again, and that every
  probe decides.
\<close>

subsection \<open>The queue\<close>

text \<open>A directory that the discovery of open bugs looks at.\<close>

definition bug_place :: "path \<Rightarrow> string set \<Rightarrow> path \<Rightarrow> bool" where
  "bug_place root queued p \<longleftrightarrow> p \<noteq> [] \<and> butlast p = root \<and> \<not> prefix ''_'' (last p) \<and> last p \<notin> queued"

lemma open_bugs_filter:
  "open_bugs yaml root queued disk = Some ds \<Longrightarrow>
    ds = filter (\<lambda>(p, d). bug_place root queued p \<and> open_bug yaml d = Some True) disk"
  by (induction yaml root queued disk arbitrary: ds rule: open_bugs.induct)
    (auto simp: bug_place_def Let_def split: if_splits option.splits)

lemma open_bugs_read:
  "open_bugs yaml root queued disk = Some ds \<Longrightarrow> (p, d) \<in> set disk \<Longrightarrow> bug_place root queued p \<Longrightarrow>
    open_bug yaml d \<noteq> None"
  by (induction yaml root queued disk arbitrary: ds rule: open_bugs.induct)
    (auto simp: bug_place_def Let_def split: if_splits option.splits)

lemma queued_bugs_ids:
  "distinct (map be_id (queued_bugs env disk seen es)) \<and> set (map be_id (queued_bugs env disk seen es)) \<inter> set seen = {}"
  by (induction env disk seen es rule: queued_bugs.induct)
    (auto simp: Let_def queued_bug_def split: option.splits)

definition file_items :: "json jfile \<Rightarrow> json list" where
  "file_items file =
     (case file of
        Content data \<Rightarrow> (case (if jhas data ''queue'' then jget data ''queue'' else JArr []) of JArr items \<Rightarrow> items | _ \<Rightarrow> [])
      | _ \<Rightarrow> [])"

lemma load_bug_queue_parts:
  assumes "load_bug_queue env today disk file = Some queue"
  obtains ds where "queue = queued_bugs env disk [] (file_items file) @ map discovered_bug ds"
    "find_open_bug_dirs (rt_yaml env) (rt_root env) (set (map be_id (queued_bugs env disk [] (file_items file)))) today disk
      = Some ds"
proof -
  have "with_open_dirs env today disk (queued_bugs env disk [] (file_items file)) = Some queue"
    using assms by (auto simp: load_bug_queue_def file_items_def split: jfile.splits if_splits json.splits sum.splits)
  then show thesis using that by (auto simp: with_open_dirs_def)
qed

lemma discovered_id [simp]: "be_id (discovered_bug (p, d)) = last p"
  by (simp add: discovered_bug_def)

lemma bug_place_inj: "bug_place root q p \<Longrightarrow> bug_place root q p' \<Longrightarrow> last p = last p' \<Longrightarrow> p = p'"
  unfolding bug_place_def by (metis append_butlast_last_id)

text \<open>
  C20. The order of the bug queue: first the usable entries of the queue file, in the order of the file, then
  every open directory that no entry names, sorted by the rank of its severity, lowered with its age, and by
  the day it was found; no id comes twice. (The directories of the disk are distinct.)
\<close>

theorem bug_queue_order:
  assumes "load_bug_queue env today disk file = Some queue" and "distinct (map fst disk)"
  shows "\<exists>queued ds. queue = queued @ map discovered_bug ds \<and>
    queued = queued_bugs env disk [] (file_items file) \<and>
    sorted (map (bug_sort_key today) ds) \<and>
    set ds = set (filter (\<lambda>(p, d). bug_place (rt_root env) (set (map be_id queued)) p \<and> open_bug (rt_yaml env) d = Some True) disk) \<and>
    distinct (map be_id queue)"
proof -
  let ?queued = "queued_bugs env disk [] (file_items file)"
  let ?found = "\<lambda>(p, d). bug_place (rt_root env) (set (map be_id ?queued)) p \<and> open_bug (rt_yaml env) d = Some True"
  from assms(1) obtain ds where queue: "queue = ?queued @ map discovered_bug ds"
    and find: "find_open_bug_dirs (rt_yaml env) (rt_root env) (set (map be_id ?queued)) today disk = Some ds"
    by (rule load_bug_queue_parts)
  then obtain os where os: "open_bugs (rt_yaml env) (rt_root env) (set (map be_id ?queued)) disk = Some os"
    and ds: "ds = sort_key (bug_sort_key today) os" by (auto simp: find_open_bug_dirs_def)
  have "os = filter ?found disk" by (rule open_bugs_filter [OF os])
  then have set_ds: "set ds = set (filter ?found disk)" and "distinct (map fst os)"
    using ds assms(2) by (simp_all add: distinct_map_filter)
  then have "distinct ds" using ds by (simp add: distinct_map)
  have at: "be_id (discovered_bug x) = last (fst x)" for x by (cases x) simp
  have inj: "inj_on (be_id \<circ> discovered_bug) (set ds)"
  proof (rule inj_onI)
    fix x y assume xy: "x \<in> set ds" "y \<in> set ds" "(be_id \<circ> discovered_bug) x = (be_id \<circ> discovered_bug) y"
    then have "fst x = fst y" using set_ds bug_place_inj [of "rt_root env" _ "fst x" "fst y"] by (auto simp: at)
    then show "x = y" using xy(1,2) set_ds assms(2)
      by (cases x; cases y) (auto dest: eq_key_imp_eq_value)
  qed
  have apart: "be_id x \<noteq> last (fst y)" if "x \<in> set ?queued" "y \<in> set ds" for x y
  proof -
    have "last (fst y) \<notin> set (map be_id ?queued)" using that(2) set_ds by (auto simp: bug_place_def)
    moreover have "be_id x \<in> set (map be_id ?queued)" using that(1) by simp
    ultimately show ?thesis by metis
  qed
  have "distinct (map (be_id \<circ> discovered_bug) ds)" using \<open>distinct ds\<close> inj by (simp add: distinct_map)
  moreover have "distinct (map be_id ?queued)" using queued_bugs_ids by blast
  moreover have "set (map be_id ?queued) \<inter> set (map (be_id \<circ> discovered_bug) ds) = {}"
  proof (rule equals0I)
    fix i assume "i \<in> set (map be_id ?queued) \<inter> set (map (be_id \<circ> discovered_bug) ds)"
    then obtain x y where "x \<in> set ?queued" "y \<in> set ds" "i = be_id x" "i = last (fst y)" by (auto simp: at)
    then show False using apart by blast
  qed
  ultimately have ids: "distinct (map be_id queue)" unfolding queue map_append map_map distinct_append by blast
  have "sorted (map (bug_sort_key today) ds)" by (simp add: ds)
  with queue set_ds ids show ?thesis by blast
qed

subsection \<open>The end of the queue\<close>

lemma start_walk_bugs: "allowed cfg (start_walk env disk)" "\<not> waiting (start_walk env disk)" "w_disk (start_walk env disk) = disk"
  by (simp_all add: start_walk_def allowed_def waiting_def)

lemma all_fixed_lists:
  "terminal_reason (bugs_exhausted_route cfg absent w) = Some ''all-bugs-fixed'' \<longleftrightarrow>
    \<not> cloud_exhausted cfg w \<and> \<not> device_exhausted cfg w \<and> operator_deferred w = [] \<and> \<not> absent \<and>
    \<not> scope_missed cfg w \<and> dep_gated w = [] \<and> parked w = []"
  unfolding bugs_exhausted_route_def if_distrib [of terminal_reason] stop_route_reason
  by (simp add: else_branch)

lemma all_fixed_not_waiting:
  assumes "terminal_reason (bugs_exhausted_route cfg absent w) = Some ''all-bugs-fixed''" and "allowed cfg w"
  shows "\<not> waiting w \<and> \<not> absent"
proof -
  note lists = assms(1) [unfolded all_fixed_lists]
  then have "cloud_skipped w = []" "device_deferred w = []"
    using assms(2) unfolding allowed_def cloud_exhausted_def device_exhausted_def by blast+
  with lists show ?thesis by (simp add: waiting_def)
qed

lemma select_bug_parts:
  assumes "select_bug env today cfg disk file = Some (res, w)"
  obtains queue e where "load_bug_queue env today disk file = Some queue"
    "walk_bugs (bug_stages queue) env cfg queue (start_walk env disk) = Some e"
    "(res, w) = (case e of Picked it w \<Rightarrow> (Inl it, w) | Returned r w \<Rightarrow> (Inr r, w)
       | Exhausted w \<Rightarrow> (Inr (bugs_exhausted_route cfg (file = Absent) w), w))"
  using assms by (auto simp: select_bug_def bind_eq_Some_conv split: if_splits)

lemma all_fixed_walk:
  assumes "select_bug env today cfg disk file = Some (Inr r, w)" and "terminal_reason r = Some ''all-bugs-fixed''"
    and "load_bug_queue env today disk file = Some queue"
  shows "walk_bugs (bug_stages queue) env cfg queue (start_walk env disk) = Some (Exhausted w) \<and>
    r = bugs_exhausted_route cfg (file = Absent) w"
proof -
  from assms(1) obtain q e where q: "load_bug_queue env today disk file = Some q"
    and e: "walk_bugs (bug_stages q) env cfg q (start_walk env disk) = Some e"
    and res: "(Inr r, w) = (case e of Picked it w \<Rightarrow> (Inl it, w) | Returned r w \<Rightarrow> (Inr r, w)
       | Exhausted w \<Rightarrow> (Inr (bugs_exhausted_route cfg (file = Absent) w), w))"
    by (rule select_bug_parts)
  have "e \<noteq> Returned r' w'" for r' w'
    using walk_bugs_returned [OF bug_stages_contract, of q env cfg q "start_walk env disk" r' w'] e res assms(2)
    by (auto simp: bug_reasons_def)
  with e res q assms(3) show ?thesis by (cases e) auto
qed

text \<open>
  C18. The stop \<open>all-bugs-fixed\<close> of a probe over the whole queue: there is a queue file, and every bug that was
  loaded is settled, which is retired as Won't-fix, or fixed with a receipt of known provenance.
\<close>

theorem all_bugs_fixed_means_settled:
  assumes "select_bug env today cfg disk file = Some (Inr r, w)"
    and "terminal_reason r = Some ''all-bugs-fixed''" and "cfg_scope cfg = None"
    and "load_bug_queue env today disk file = Some queue"
    and "e \<in> set queue" and "be_id e \<noteq> []" and "be_name e \<noteq> []"
  shows "file \<noteq> Absent \<and> settled_bug (rt_yaml env) (it_dir (bug_item disk e))"
proof -
  have run: "walk_bugs (bug_stages queue) env cfg queue (start_walk env disk) = Some (Exhausted w)"
    and r: "r = bugs_exhausted_route cfg (file = Absent) w" using all_fixed_walk [OF assms(1,2,4)] by simp_all
  note ex = walk_bugs_exhausted [OF bug_stages_contract run start_walk_bugs(1) assms(3)]
  have "\<not> waiting w \<and> file \<noteq> Absent" using all_fixed_not_waiting assms(2) ex unfolding r by blast
  with ex assms(5-7) show ?thesis by (simp add: start_walk_bugs)
qed

subsection \<open>What holds of the selected bug\<close>

definition ready_bug :: "route_cfg \<Rightarrow> item \<Rightarrow> bool" where
  "ready_bug cfg it \<longleftrightarrow>
     (let d = it_dir it in
      spec_status d \<noteq> Some wont_fix \<and> spec_status d \<noteq> Some ''Fixed'' \<and> \<not> has_doc d ''DEFERRED.md'' \<and>
      unknown_capability_ids (parse_requires_host (spec_text d) JNull) = [] \<and>
      \<not> (cfg_park_blocked cfg \<and> (has_doc d ''BLOCKED.md'' \<or> detect_noncanonical_blocker d \<noteq> None)) \<and>
      \<not> (cfg_park_needs_input cfg \<and> has_doc d ''NEEDS_INPUT.md'' \<and> \<not> has_doc d ''BLOCKED.md'') \<and>
      \<not> (cfg_park_needs_input cfg \<and> has_doc d provisional_sentinel \<and> has_doc d ''VALIDATED.md''))"

named_theorems bug_passed
  \<open>what holds of a bug that a stage lets pass\<close>

lemma bug_passed_completion [bug_passed]:
  "bug_completion_stage env cfg it w = Some (Proceed w') \<Longrightarrow>
    spec_status (it_dir it) \<noteq> Some wont_fix \<and> spec_status (it_dir it) \<noteq> Some ''Fixed''"
  by (auto simp: bug_completion_stage_def skip_or_scoped_def Let_def split: if_splits)

lemma bug_passed_operator [bug_passed]:
  "bug_operator_stage env cfg it w = Some (Proceed w') \<Longrightarrow> \<not> has_doc (it_dir it) ''DEFERRED.md''"
  unfolding twin_operator by (drule passed_operator) (simp add: spec_dir_operator_deferred_def)

lemma queued_host_is_ignored:
  "parse_requires_host spec (it_entry (bug_item disk e)) = parse_requires_host spec JNull"
  by (simp add: parse_requires_host_def bug_item_def bug_entry_json_def jget_def)

lemma bug_passed_host [bug_passed]:
  "bug_host_stage env cfg it w = Some (Proceed w') \<Longrightarrow>
    unknown_capability_ids (parse_requires_host (spec_text (it_dir it)) (it_entry it)) = []"
  by (auto simp: bug_host_stage_def split: if_splits)

lemma bug_passed_blocked [bug_passed]:
  "bug_park_blocked_stage env cfg it w = Some (Proceed w1) \<Longrightarrow> bug_park_stray_stage env cfg it w2 = Some (Proceed w3) \<Longrightarrow>
    \<not> (cfg_park_blocked cfg \<and> (has_doc (it_dir it) ''BLOCKED.md'' \<or> detect_noncanonical_blocker (it_dir it) \<noteq> None))"
  by (auto simp: bug_park_blocked_stage_def bug_park_stray_stage_def park_item_def split: if_splits option.splits)

lemma bug_passed_input [bug_passed]:
  "bug_park_input_stage env cfg it w = Some (Proceed w') \<Longrightarrow>
    \<not> (cfg_park_needs_input cfg \<and> has_doc (it_dir it) ''NEEDS_INPUT.md'' \<and> \<not> has_doc (it_dir it) ''BLOCKED.md'')"
  unfolding twin_park_input by (rule passed_input)

lemma bug_passed_provisional [bug_passed]:
  "bug_provisional_stage env cfg it w = Some (Proceed w') \<Longrightarrow>
    \<not> (cfg_park_needs_input cfg \<and> has_doc (it_dir it) provisional_sentinel \<and> has_doc (it_dir it) ''VALIDATED.md'')"
  unfolding twin_provisional by (rule passed_provisional)

lemma bug_passed_deps:
  assumes "bug_dep_stage queue env cfg it w = Some (Proceed w')"
    and "dep \<in> set (dep_ids (jget (it_entry it) ''queue_entry''))"
  shows "bug_dep_completion_status (rt_yaml env) (rt_root env) (w_disk w) (bug_dir_map queue) dep = Some DepComplete"
  using assms(1) by (cases rule: bug_dep_cases) (simp_all add: deps_complete [OF _ assms(2)])

lemma bug_entry_deps: "jget (it_entry (bug_item disk e)) ''queue_entry'' = be_queue_entry e"
  by (simp add: bug_item_def bug_entry_json_def jget_def)

lemma bug_stages_passed:
  assumes "run_stages (bug_stages queue) env cfg it w = Some (Proceed w')" and "it = bug_item disk e"
  shows "ready_bug cfg it \<and> (\<exists>w1. w_disk w1 = w_disk w \<and> bug_dep_stage queue env cfg it w1 = Some (Proceed w'))"
proof -
  from assms(1) obtain w1 w2 w3 w4 w5 w6 w7 w8 w9 where st:
    "bug_completion_stage env cfg it w = Some (Proceed w1)" "bug_cloud_stage env cfg it w1 = Some (Proceed w2)"
    "bug_device_stage env cfg it w2 = Some (Proceed w3)" "bug_host_stage env cfg it w3 = Some (Proceed w4)"
    "bug_operator_stage env cfg it w4 = Some (Proceed w5)" "bug_park_blocked_stage env cfg it w5 = Some (Proceed w6)"
    "bug_park_stray_stage env cfg it w6 = Some (Proceed w7)" "bug_park_input_stage env cfg it w7 = Some (Proceed w8)"
    "bug_provisional_stage env cfg it w8 = Some (Proceed w9)" "bug_dep_stage queue env cfg it w9 = Some (Proceed w')"
    unfolding bug_stages_def run_stages_proceed by auto
  have "w_disk w9 = w_disk w"
    using bug_completion_st.proceeds [OF st(1)] bug_cloud_st.proceeds [OF st(2)] bug_device_st.proceeds [OF st(3)]
      bug_host_st.proceeds [OF st(4)] bug_operator_st.proceeds [OF st(5)] bug_park_blocked_st.proceeds [OF st(6)]
      bug_park_stray_st.proceeds [OF st(7)] bug_park_input_st.proceeds [OF st(8)] bug_provisional_st.proceeds [OF st(9)]
    by (simp add: calls_on_def)
  moreover have "ready_bug cfg it"
    using bug_passed_completion [OF st(1)] bug_passed_host [OF st(4), unfolded assms(2) queued_host_is_ignored, folded assms(2)] bug_passed_operator [OF st(5)]
      bug_passed_blocked [OF st(6,7)] bug_passed_input [OF st(8)] bug_passed_provisional [OF st(9)]
    unfolding ready_bug_def Let_def by blast
  ultimately show ?thesis using st(10) by blast
qed

text \<open>
  C19. The bug that a probe selects is one of the queue, on an unchanged disk: its status is neither Won't-fix nor
  Fixed, the operator has not deferred it, its specification names no unknown capability, and in park mode it carries no
  sentinel that parks it; and each bug its queue entry depends on is fixed with a receipt, in place or in the archive.
  (Nothing more is checked: a queued bug with the status Superseded is selected, and a capability that only the
  queue entry names is not looked at.)
\<close>

theorem selected_bug_is_ready:
  assumes "select_bug env today cfg disk file = Some (Inl it, w)"
    and "load_bug_queue env today disk file = Some queue"
  shows "\<exists>e\<in>set queue. it = bug_item disk e \<and> w_disk w = disk \<and> ready_bug cfg it \<and>
    (\<forall>dep\<in>set (dep_ids (be_queue_entry e)).
       bug_dep_completion_status (rt_yaml env) (rt_root env) disk (bug_dir_map queue) dep = Some DepComplete)"
proof -
  from assms(1) obtain q e where q: "load_bug_queue env today disk file = Some q"
    and e: "walk_bugs (bug_stages q) env cfg q (start_walk env disk) = Some e"
    and res: "(Inl it, w) = (case e of Picked it w \<Rightarrow> (Inl it, w) | Returned r w \<Rightarrow> (Inr r, w)
       | Exhausted w \<Rightarrow> (Inr (bugs_exhausted_route cfg (file = Absent) w), w))"
    by (rule select_bug_parts)
  from res have picked: "e = Picked it w" by (cases e) auto
  have queue: "q = queue" using q assms(2) by simp
  from walk_bugs_picked [OF bug_stages_contract e [unfolded picked]]
  obtain x w1 where x: "x \<in> set queue" "it = bug_item disk x" "w_disk w = disk" "w_disk w1 = disk"
    "run_stages (bug_stages queue) env cfg it w1 = Some (Proceed w)"
    by (auto simp: queue start_walk_bugs)
  from bug_stages_passed [OF x(5,2)] obtain w2 where w2: "ready_bug cfg it" "w_disk w2 = disk"
    "bug_dep_stage queue env cfg it w2 = Some (Proceed w)" using x(4) by auto
  show ?thesis
  proof (intro bexI [of _ x] conjI ballI)
    fix dep assume "dep \<in> set (dep_ids (be_queue_entry x))"
    then show "bug_dep_completion_status (rt_yaml env) (rt_root env) disk (bug_dir_map queue) dep = Some DepComplete"
      using bug_passed_deps [OF w2(3), of dep] w2(2) by (simp add: x(2) bug_entry_deps)
  qed (use x w2 in simp_all)
qed

end
