(* ===== verification/Bug_Ends.thy ===== *)
theory Bug_Ends
  imports Bug_Props
begin

text \<open>
  The properties of the bug router in \<^theory_text>\<open>Bug_Steps\<close>: each of its steps is a \<open>route_step\<close>; a bug is
  marked fixed, or planned, exactly when its documents allow it; a fix on record that nobody has reconciled is
  blocked; and a sentinel that a probe writes stops the next one.
\<close>

subsection \<open>The contract of the steps\<close>

interpretation bug_stale_rs: route_step bug_stale_step "{}"
  unfolding twin_sentinels by (rule stale_st.route_step_axioms)

interpretation bug_blocked_rs: route_step bug_blocked_step "{''spike''}"
  unfolding twin_blocked by (rule blocked_st.route_step_axioms)

interpretation bug_misnamed_rs: route_step bug_misnamed_step "{}"
  unfolding twin_sentinels by (rule misnamed_st.route_step_axioms)

interpretation bug_input_rs: route_step bug_input_step "{}"
  unfolding twin_sentinels by (rule input_st.route_step_axioms)

interpretation bug_ratify_rs: route_step bug_ratify_step "{}"
  unfolding twin_sentinels by (rule ratify_st.route_step_axioms)

interpretation investigate_rs: route_step investigate_step "{''spec-bug'', ''plan-bug''}"
  by unfold_locales (auto simp: investigate_step_def halt_run_def split: if_splits)

lemma bug_route_plan_cases:
  assumes "bug_route_plan env it d t p = Some out"
  obtains "out = run_plan env it d p" | step args where "out = halt_run it step ''__flip_plan_complete_stale__'' args"
  using assms by (auto simp: bug_route_plan_def twin split: if_splits)

lemma bug_plan_cases:
  assumes "bug_plan_step env cfg it d = Some out"
  obtains "out = Onward" | p where "out = run_plan env it d p"
    | step args where "out = halt_run it step ''__flip_plan_complete_stale__'' args"
    | args where "out = halt_run it ''Step 7a: write plan'' ''write-plan'' args"
proof (cases "\<exists>t p. bug_route_plan env it d t p = Some out")
  case True
  then show ?thesis using that(2,3) by (blast elim: bug_route_plan_cases)
next
  case False
  then show ?thesis using assms that(1,4)
    by (auto simp: bug_plan_step_def bind_eq_Some_conv neq_Nil_conv split: option.splits if_splits list.splits)
qed

interpretation bug_plan_rs: route_step bug_plan_step plan_skills
proof
  fix env cfg it d r w
  assume "bug_plan_step env cfg it d = Some (Halt r w)"
  then show "decision r \<and> feature_id r = Some (it_id it)"
    by (cases rule: bug_plan_cases) (auto simp: halt_run_def dest: sym [THEN run_plan_halts(1)])
next
  fix env cfg it d r w k
  assume "bug_plan_step env cfg it d = Some (Halt r w)" and k: "sub_skill r = Some k"
  then show "k \<in> plan_skills"
  proof (cases rule: bug_plan_cases)
    case (2 p)
    then show ?thesis using run_plan_halts(2) [OF sym k] by blast
  qed (use k in \<open>simp_all add: halt_run_def plan_skills_def\<close>)
qed

interpretation bug_device_rs: route_step bug_device_step "{''mcp-test''}"
  unfolding twin_device_step by (rule device_st.route_step_axioms)

interpretation bug_validation_rs: route_step bug_validation_step validation_skills
  unfolding twin_validation by (rule validation_st.route_step_axioms)

interpretation bug_spike_rs: route_step bug_spike_step "{''spike''}"
  unfolding twin_spike by (rule spike_st.route_step_axioms)

interpretation fixed_rs: route_step fixed_step "{''mcp-test'', ''__mark_fixed__''}"
  by unfold_locales (auto simp: fixed_step_def halt_stop_def halt_run_def rows_route_def split: if_splits)

lemmas all_bug_steps = bug_stale_rs.route_step_axioms bug_blocked_rs.route_step_axioms bug_misnamed_rs.route_step_axioms
  bug_input_rs.route_step_axioms bug_ratify_rs.route_step_axioms investigate_rs.route_step_axioms
  bug_plan_rs.route_step_axioms bug_device_rs.route_step_axioms bug_validation_rs.route_step_axioms
  bug_spike_rs.route_step_axioms fixed_rs.route_step_axioms

lemma route_bug_decides:
  assumes "route_bug env cfg it d = Some (Halt r w)"
  shows "decision r \<and> feature_id r = Some (it_id it)"
proof -
  obtain s where s: "s \<in> set bug_route_steps" "s env cfg it d = Some (Halt r w)"
    using run_steps_from assms unfolding route_bug_def by blast
  then obtain skills where "route_step s skills" unfolding bug_route_steps_def by (auto intro: all_bug_steps)
  from route_step.halts [OF this s(2)] show ?thesis .
qed

lemma bugs_exhausted_stops: "\<exists>reason st. bugs_exhausted_route cfg absent w = stop_route reason st"
  unfolding bugs_exhausted_route_def by (auto split: if_splits)

lemma select_bug_decides:
  assumes "select_bug env today cfg disk file = Some (Inr r, w)"
  shows "decision r \<and> (sub_skill r = None \<or> feature_id r \<noteq> None)"
proof -
  from assms obtain q e where e: "walk_bugs (bug_stages q) env cfg q (start_walk env disk) = Some e"
    and res: "(Inr r, w) = (case e of Picked it w \<Rightarrow> (Inl it, w) | Returned r w \<Rightarrow> (Inr r, w)
       | Exhausted w \<Rightarrow> (Inr (bugs_exhausted_route cfg (file = Absent) w), w))"
    by (rule select_bug_parts)
  show ?thesis
  proof (cases e)
    case (Returned r' w')
    then show ?thesis using walk_bugs_returned [OF bug_stages_contract] e res by simp
  next
    case (Exhausted w')
    obtain reason st where "bugs_exhausted_route cfg (file = Absent) w' = stop_route reason st"
      using bugs_exhausted_stops by blast
    then show ?thesis using res Exhausted by simp
  qed (use res in simp)
qed

text \<open>
  Every probe of the bug pipeline that ends returns a decision: a skill to run, for a bug that it names, or
  the reason to stop, and never both or neither; and it leaves the queue file alone.
\<close>

theorem bug_probe_decides:
  assumes "bug_compute_state env today cfg = Some e"
  shows "(sub_skill (pe_route e) = None) = (terminal_reason (pe_route e) \<noteq> None) \<and>
    (sub_skill (pe_route e) = None \<or> feature_id (pe_route e) \<noteq> None) \<and> pe_queue e = se_queue env"
proof -
  obtain res w where q: "select_bug (se_walk env) today cfg (se_disk env) (se_queue env) = Some (res, w)"
    using assms by (auto simp: bug_compute_state_def bind_eq_Some_conv)
  show ?thesis
  proof (cases res)
    case (Inr r)
    then have "pe_route e = r" "pe_queue e = se_queue env" using assms q by (auto simp: bug_compute_state_def)
    then show ?thesis using select_bug_decides q Inr unfolding decision_walk by blast
  next
    case (Inl it)
    then obtain d env1 r wr where "route_bug env1 cfg it d = Some (Halt r wr)" "pe_route e = r" "pe_queue e = se_queue env"
      using assms q by (auto simp: bug_compute_state_def split: option.splits step_result.splits)
    then show ?thesis using route_bug_decides unfolding decision_walk by fastforce
  qed
qed

subsection \<open>When a bug is marked fixed\<close>

lemma bug_plan_onward:
  assumes "phases_doc d = Some t"
  shows "bug_plan_step env cfg it d = Some Onward \<longleftrightarrow> plans_done env cfg d t"
proof -
  have "bug_route_plan env it d t p \<noteq> Some Onward" for p
  proof
    assume "bug_route_plan env it d t p = Some Onward"
    then show False
      by (cases rule: bug_route_plan_cases) (simp_all add: not_sym [OF run_plan_halts(3)] not_sym [OF halt_not_onward(2)])
  qed
  then show ?thesis using assms
    by (cases "find_implementation_plans (the_yaml env) d"; cases "the (find_implementation_plans (the_yaml env) d)")
      (auto simp: bug_plan_step_def plans_done_def plan_bypass_def bind_eq_Some_conv)
qed

lemma rows_left_eq:
  "bug_rows_left env d = (if structurally_skipped (the_repo env) d then Some []
     else uncovered_verification_rows_remain (the_yaml env) (the_repo env) d
       (case phases_doc d of None \<Rightarrow> [] | Some t \<Rightarrow> t))"
  by (simp add: bug_rows_left_def structurally_skipped_def)

lemma fixed_marks:
  "(\<exists>r w. fixed_step env cfg it d = Some (Halt r w) \<and> sub_skill r = Some ''__mark_fixed__'') \<longleftrightarrow>
     (cfg_cloud cfg \<longrightarrow> has_doc d ''VALIDATED.md'') \<and> \<not> has_doc d provisional_sentinel \<and>
     bug_rows_left env d = Some []"
  by (auto simp: fixed_step_def halt_stop_def halt_run_def rows_route_def)

lemma mark_fixed_at:
  assumes "route_bug env cfg it d = Some (Halt r w)" and "sub_skill r = Some ''__mark_fixed__''"
  shows "fixed_step env cfg it d = Some (Halt r w) \<and>
    (\<forall>t\<in>set (take 10 bug_route_steps). t env cfg it d = Some Onward)"
proof -
  have split: "bug_route_steps = take 10 bug_route_steps @ fixed_step # []" by (simp add: bug_route_steps_def)
  have others: "t env cfg it d \<noteq> Some (Halt r w)" if "t \<in> set (take 10 bug_route_steps)" for t
    using that assms(2) unfolding bug_route_steps_def
    by (auto dest!: all_bug_steps [THEN route_step.runs] simp: plan_skills_def validation_skills_def)
  show ?thesis
    using halted_at [of "take 10 bug_route_steps" fixed_step "[]" env cfg it d r w] assms(1) others split
    unfolding route_bug_def by simp
qed

lemmas bug_onward = sentinel_onward device_onward validation_onward spike_onward investigate_onward

text \<open>
  C21. When a bug is marked fixed, exactly: it has a validation receipt and phases that leave no work to a plan, its
  runtime proof where the phases ask for one, and none of the sentinels that stop it; and no uncovered verification
  row is left, unless the phases declare that no runtime is required and the repository has no app surface. Its
  specification and status are not consulted.
\<close>

theorem mark_fixed_exact:
  "(\<exists>r w. route_bug env cfg it d = Some (Halt r w) \<and> sub_skill r = Some ''__mark_fixed__'') \<longleftrightarrow>
     has_doc d ''VALIDATED.md'' \<and> \<not> has_doc d ''STALE_UPSTREAM.md'' \<and>
     \<not> has_doc d ''BLOCKED.md'' \<and> detect_noncanonical_blocker d = None \<and> \<not> has_doc d ''NEEDS_INPUT.md'' \<and>
     \<not> has_doc d provisional_sentinel \<and> \<not> has_doc d ''DEFERRED_REQUIRES_DEVICE.md'' \<and>
     (\<not> phases_spike_required d \<or> spike_verdict_is_pass (the_yaml env) d = Some True) \<and>
     (\<exists>t. phases_doc d = Some t \<and> plans_done env cfg d t \<and>
        (structurally_skipped (the_repo env) d \<or>
         uncovered_verification_rows_remain (the_yaml env) (the_repo env) d t = Some []))"
    (is "?marks \<longleftrightarrow> ?ready")
proof -
  let ?passed = "\<forall>t\<in>set (take 10 bug_route_steps). t env cfg it d = Some Onward"
  let ?last = "\<exists>r w. fixed_step env cfg it d = Some (Halt r w) \<and> sub_skill r = Some ''__mark_fixed__''"
  have "?marks \<longleftrightarrow> ?passed \<and> ?last"
  proof
    assume ?marks
    then show "?passed \<and> ?last" using mark_fixed_at by blast
  next
    assume "?passed \<and> ?last"
    then have "run_steps (take 10 bug_route_steps) env cfg it d = Some Onward" unfolding run_steps_onward by (rule conjunct1)
    then have "route_bug env cfg it d = run_steps [fixed_step] env cfg it d"
      using run_steps_append [of "take 10 bug_route_steps" "[fixed_step]"] by (simp add: route_bug_def bug_route_steps_def)
    with \<open>?passed \<and> ?last\<close> show ?marks by auto
  qed
  also have "\<dots> \<longleftrightarrow> ?ready"
  proof (cases "phases_doc d")
    case None
    then have "\<not> has_doc d ''PHASES.md''" by (simp add: phases_doc_def has_doc_def)
    with None show ?thesis by (simp add: bug_route_steps_def investigate_onward)
  next
    case (Some t)
    then have "has_doc d ''PHASES.md''" by (auto simp: phases_doc_def has_doc_def)
    with Some show ?thesis
      unfolding fixed_marks rows_left_eq
      by (auto simp: bug_route_steps_def twin bug_onward bug_plan_onward)
  qed
  finally show ?thesis .
qed

subsection \<open>Investigation, planning, and fixes on record\<close>

text \<open>No sentinel stops the bug before it is looked at.\<close>

definition bug_unhalted :: "route_cfg \<Rightarrow> item_dir \<Rightarrow> bool" where
  "bug_unhalted cfg d \<longleftrightarrow> \<not> has_doc d ''STALE_UPSTREAM.md'' \<and> \<not> has_doc d ''BLOCKED.md'' \<and>
     detect_noncanonical_blocker d = None \<and> \<not> has_doc d ''NEEDS_INPUT.md'' \<and>
     (\<not> has_doc d provisional_sentinel \<or> cfg_park_needs_input cfg)"

lemma unhalted_steps:
  "run_steps (take 5 bug_route_steps) env cfg it d = Some Onward \<longleftrightarrow> bug_unhalted cfg d"
  unfolding run_steps_onward by (auto simp: bug_route_steps_def twin bug_onward bug_unhalted_def)

lemma route_bug_split: "route_bug env cfg it d =
    run_steps (take 5 bug_route_steps @ investigate_step # drop 6 bug_route_steps) env cfg it d"
  by (simp add: route_bug_def bug_route_steps_def)

lemma route_unhalted:
  assumes "bug_unhalted cfg d" and "\<not> has_doc d ''PHASES.md''"
  shows "route_bug env cfg it d = investigate_step env cfg it d"
proof -
  have on: "run_steps (take 5 bug_route_steps) env cfg it d = Some Onward" using assms(1) by (simp only: unhalted_steps)
  have "investigate_step env cfg it d \<noteq> Some Onward" using assms(2) by (simp add: investigate_onward)
  then show ?thesis unfolding route_bug_split run_steps_append on
    by (auto simp: run_steps_Cons split: option.split step_result.split)
qed

lemma planned_at:
  assumes "route_bug env cfg it d = Some (Halt r w)" and "sub_skill r = Some ''plan-bug''"
  shows "bug_unhalted cfg d \<and> investigate_step env cfg it d = Some (Halt r w)"
proof -
  have others: "t env cfg it d \<noteq> Some (Halt r w)"
    if "t \<in> set (take 5 bug_route_steps) \<union> set (drop 6 bug_route_steps)" for t
    using that assms(2) unfolding bug_route_steps_def
    by (auto dest!: all_bug_steps [THEN route_step.runs] simp: plan_skills_def validation_skills_def)
  from halted_at [OF assms(1) [unfolded route_bug_split]] others
  have "investigate_step env cfg it d = Some (Halt r w)" "\<forall>t\<in>set (take 5 bug_route_steps). t env cfg it d = Some Onward"
    by blast+
  then show ?thesis using unhalted_steps [of env cfg it d] by (simp add: run_steps_onward)
qed

text \<open>
  A bug is handed to planning exactly when no sentinel stops it, it has no phases yet, its investigation is
  concluded, and no fix without a receipt is on record for it.
\<close>

theorem plan_bug_exact:
  "(\<exists>r w. route_bug env cfg it d = Some (Halt r w) \<and> sub_skill r = Some ''plan-bug'') \<longleftrightarrow>
     bug_unhalted cfg d \<and> \<not> has_doc d ''PHASES.md'' \<and> spec_status d = Some ''Concluded'' \<and>
     is_fixed_unreconciled (the_yaml env) (it_path it) d = Some False" (is "?plans \<longleftrightarrow> ?ready")
proof
  assume ?plans
  then obtain r w where r: "route_bug env cfg it d = Some (Halt r w)" "sub_skill r = Some ''plan-bug''" by blast
  from planned_at [OF this] have at: "bug_unhalted cfg d" "investigate_step env cfg it d = Some (Halt r w)" by simp_all
  then have phases: "\<not> has_doc d ''PHASES.md''" and status: "spec_status d = Some ''Concluded''"
    using r(2) by (auto simp: investigate_step_def halt_run_def split: if_splits)
  then obtain fixed where fixed: "is_fixed_unreconciled (the_yaml env) (it_path it) d = Some fixed"
    using at(2) by (auto simp: investigate_step_def)
  then have "\<not> fixed" using at(2) phases status r(2) by (cases fixed) (auto simp: investigate_step_def)
  with at(1) phases status fixed show ?ready by simp
next
  assume ?ready
  then show ?plans using route_unhalted by (simp add: investigate_step_def halt_run_def)
qed

text \<open>
  C22. A concluded bug without phases that no sentinel stops, with a fix on record that nobody has reconciled, is
  blocked and not planned: the probe writes \<open>BLOCKED.md\<close> with the annotation, and as long as that file is there,
  parses and asks for no runtime proof, the next probe is blocked too. (A bug with phases goes on to its plans, and an
  earlier sentinel stops it first.)
\<close>

theorem unreconciled_fix_is_blocked:
  assumes "bug_unhalted cfg d" and "\<not> has_doc d ''PHASES.md''" and "spec_status d = Some ''Concluded''"
    and "is_fixed_unreconciled (the_yaml env) (it_path it) d = Some True"
    and "text = format_fixed_unreconciled_blocker env (it_id it) (fixed_annotation d)"
    and "frontmatter (the_yaml env) text = Some m"
    and "mget m ''blocker_kind'' \<noteq> JStr ''runtime-spike-verdict-pending''"
  shows "route_bug env cfg it d = Some (Halt (item_stop it ''Step 3: blocked'' ''blocked'') (WriteDoc ''BLOCKED.md'' text)) \<and>
    (\<exists>r w. route_bug env cfg it (apply_write (WriteDoc ''BLOCKED.md'' text) d) = Some (Halt r w) \<and>
       terminal_reason r = Some ''blocked'' \<and> sub_skill r = None)"
proof
  have "\<not> has_doc d ''BLOCKED.md''" "\<not> has_doc d ''STALE_UPSTREAM.md''" using assms(1) by (simp_all add: bug_unhalted_def)
  with assms show "route_bug env cfg it d =
      Some (Halt (item_stop it ''Step 3: blocked'' ''blocked'') (WriteDoc ''BLOCKED.md'' text))"
    by (simp add: route_unhalted investigate_step_def)
  let ?d = "apply_write (WriteDoc ''BLOCKED.md'' text) d"
  have "bug_stale_step env cfg it ?d = Some Onward"
    using \<open>\<not> has_doc d ''STALE_UPSTREAM.md''\<close> by (simp add: bug_stale_step_def apply_write_def)
  moreover have "bug_blocked_step env cfg it ?d =
      Some (Halt ((item_stop it ''Step 3: blocked'' ''blocked'')\<lparr>escalated := validation_escalation m\<rparr>) NoWrite)"
    using assms(6,7) by (simp add: bug_blocked_step_def apply_write_def parse_sentinel_def)
  ultimately show "\<exists>r w. route_bug env cfg it ?d = Some (Halt r w) \<and> terminal_reason r = Some ''blocked'' \<and> sub_skill r = None"
    by (auto simp: route_bug_def bug_route_steps_def)
qed

end
