(* ===== verification/Bug_Samples.thy ===== *)
theory Bug_Samples
  imports Bug_Ends Route_Samples
begin

text \<open>
  Small repositories on which the properties of the bug pipeline are applied, and three cases in which the
  probe does not do what its comments say.
\<close>

subsection \<open>The walk\<close>

definition bug_named :: "string \<Rightarrow> json" where
  "bug_named i = JObj [(''id'', JStr i), (''name'', JStr ''A'')]"

definition bug_with :: "string \<Rightarrow> item_dir" where
  "bug_with status = \<lparr>docs = [(''SPEC.md'', text_doc (''**Status:** '' @ status))], plan_docs = None\<rparr>"

definition bug_env_on :: "item_dir \<Rightarrow> json jfile \<Rightarrow> step_env" where
  "bug_env_on d f = sample_step_env\<lparr>se_disk := [([''f'', ''a''], d)], se_queue := f\<rparr>"

definition queue_of :: "json list \<Rightarrow> json jfile" where
  "queue_of es = Content (JObj [(''queue'', JArr es)])"

lemma status_line_printable: "list_all printable wont_fix" "list_all printable ''Superseded''" "list_all printable ''Concluded''"
  by (simp_all add: wont_fix_def quote_char_def printable_def)

lemma status_of_text:
  assumes "list_all printable s" and "s \<noteq> []" and "list_all plain_char s"
  shows "spec_status \<lparr>docs = (''SPEC.md'', text_doc (''**Status:** '' @ s)) # ds, plan_docs = ps\<rparr> = Some s"
proof -
  have "splitlines (''**Status:** '' @ s) = [''**Status:** '' @ s]"
    using assms by (intro splitlines_line) (simp_all add: printable_def)
  moreover have "strip (CHR '' '' # s) = s"
    using assms(2,3) unfolding strip_space by (intro strip_plain) (simp_all add: list_all_iff)
  ultimately show ?thesis by (simp add: spec_status_def spec_lines_def text_doc_def bold_value_def)
qed

lemma bug_with_status [simp]:
  "spec_status (bug_with wont_fix) = Some wont_fix" "spec_status (bug_with ''Superseded'') = Some ''Superseded''"
  "spec_status (bug_with ''Concluded'') = Some ''Concluded''"
  unfolding bug_with_def
  by (rule status_of_text; simp add: wont_fix_def quote_char_def printable_def plain_char_def)+

lemma bug_with_docs [simp]: "has_doc (bug_with st) n \<longleftrightarrow> n = ''SPEC.md''" "plan_docs (bug_with st) = None"
    "dkeys (docs (bug_with st)) = [''SPEC.md'']"
  by (simp_all add: bug_with_def has_doc_def)

lemma sample_fields [simp]:
  "rt_yaml sample_route_env = sample_yaml" "rt_root sample_route_env = [''f'']"
  "rt_resolve sample_route_env x = [''f'', x]" "cfg_scope sample_cfg = None" "\<not> cfg_cloud sample_cfg"
  "real_device sample_cfg" "\<not> cfg_park_needs_input sample_cfg" "cfg_park_blocked sample_cfg"
  "\<not> cfg_park_provisional sample_cfg" "se_walk sample_step_env = sample_route_env"
  "\<not> has_cognito_planner (the_repo sample_step_env)"
  by (simp_all add: sample_route_env_def sample_cfg_def real_device_def sample_step_env_def the_repo_def sample_repo_def)

lemma no_deps_valid: "validate_queue_deps [bug_named i] = Inr ()" "validate_queue_deps [] = Inr ()"
  by (simp_all add: validate_queue_deps_def bug_named_def jhas_def)

lemma named_fields [simp]:
  "entry_str (bug_named i) ''id'' = i" "entry_str (bug_named i) ''name'' = ''A''" "is_obj (bug_named i)"
  "queued_dir_name (bug_named i) = i"
  by (simp_all add: entry_str_def queued_dir_name_def bug_named_def jget_def jhas_def)

lemma queued_bug_fields [simp]:
  "be_id (queued_bug p d e) = entry_str e ''id''" "be_name (queued_bug p d e) = entry_str e ''name''"
  "be_path (queued_bug p d e) = p"
  by (simp_all add: queued_bug_def)

lemma queued_named:
  "queued_bugs sample_route_env [([''f'', ''a''], d)] [] [bug_named ''a''] = [queued_bug [''f'', ''a''] d (bug_named ''a'')]"
  by (simp add: Let_def)

lemma queue_field: "queue_of es = Content data \<Longrightarrow> jhas data ''queue'' \<and> jget data ''queue'' = JArr es \<and> is_obj data"
  by (auto simp: queue_of_def jhas_def jget_def)

lemma queue_present [simp]: "queue_of es \<noteq> Absent"
  by (simp add: queue_of_def)

lemma start_lists [simp]: "cloud_skipped (start_walk env k) = []" "device_deferred (start_walk env k) = []"
    "operator_deferred (start_walk env k) = []" "dep_gated (start_walk env k) = []" "parked (start_walk env k) = []"
    "scope_seen (start_walk env k) = False" "w_disk (start_walk env k) = k" "provisional (start_walk env k) = []"
  by (simp_all add: start_walk_def)

lemma load_queue_of:
  "validate_queue_deps es = Inr () \<Longrightarrow>
    load_bug_queue env today disk (queue_of es) = with_open_dirs env today disk (queued_bugs env disk [] es)"
  using queue_field [of es] by (cases "queue_of es") (simp_all add: load_bug_queue_def, simp_all add: queue_of_def)

lemma load_named:
  "load_bug_queue sample_route_env 0 [([''f'', ''a''], d)] (queue_of [bug_named ''a'']) =
     Some [queued_bug [''f'', ''a''] d (bug_named ''a'')]"
  by (simp only: load_queue_of [OF no_deps_valid(1)] queued_named)
    (simp add: with_open_dirs_def find_open_bug_dirs_def)

text \<open>A retired bug in the queue: the whole queue is settled.\<close>

lemma retired_walk:
  "select_bug sample_route_env 0 sample_cfg [([''f'', ''a''], bug_with wont_fix)] (queue_of [bug_named ''a'']) =
     Some (Inr (stop_route ''all-bugs-fixed'' None), start_walk sample_route_env [([''f'', ''a''], bug_with wont_fix)])"
  by (simp add: select_bug_def load_named bug_stages_def bug_completion_stage_def skip_or_scoped_def bug_item_def
      Let_def bugs_exhausted_route_def cloud_exhausted_def device_exhausted_def scope_missed_def)

theorem all_bugs_fixed_means_settled_witness:
  "settled_bug sample_yaml (bug_with wont_fix)"
proof -
  let ?e = "queued_bug [''f'', ''a''] (bug_with wont_fix) (bug_named ''a'')"
  have "it_dir (bug_item [([''f'', ''a''], bug_with wont_fix)] ?e) = bug_with wont_fix"
    by (simp add: bug_item_def)
  with all_bugs_fixed_means_settled [OF retired_walk, of "[?e]" ?e] show ?thesis
    by (simp add: load_named)
qed

theorem bug_probe_decides_witness:
  "\<exists>e. bug_compute_state (bug_env_on (bug_with wont_fix) (queue_of [bug_named ''a''])) 0 sample_cfg = Some e \<and>
     sub_skill (pe_route e) = None \<and> terminal_reason (pe_route e) \<noteq> None"
proof -
  let ?env = "bug_env_on (bug_with wont_fix) (queue_of [bug_named ''a''])"
  obtain e where e: "bug_compute_state ?env 0 sample_cfg = Some e" "pe_route e = stop_route ''all-bugs-fixed'' None"
    by (simp add: bug_compute_state_def bug_env_on_def retired_walk)
  from bug_probe_decides [OF e(1)] e show ?thesis by auto
qed

text \<open>The order of a queue of one discovered bug.\<close>

theorem bug_queue_order_witness:
  "\<exists>queue. load_bug_queue sample_route_env 0 [([''f'', ''a''], ready_dir)] Absent = Some queue \<and>
     map be_id queue = [''a''] \<and> distinct (map be_id queue)"
proof -
  have status: "spec_status ready_dir = None" by (simp add: spec_status_def spec_lines_def)
  have "load_bug_queue sample_route_env 0 [([''f'', ''a''], ready_dir)] Absent =
      Some [discovered_bug ([''f'', ''a''], ready_dir)]"
    by (simp add: load_bug_queue_def with_open_dirs_def find_open_bug_dirs_def open_bug_def status)
  note load = this
  from bug_queue_order [OF load] have "distinct (map be_id [discovered_bug ([''f'', ''a''], ready_dir)])" by auto
  with load show ?thesis by auto
qed

subsection \<open>The router\<close>

theorem twins_route_alike_witness:
  "route_bug sample_step_env sample_cfg new_item ready_dir =
     map_option (as_bug new_item) (route_item sample_step_env sample_cfg new_item ready_dir)"
proof (rule twins_route_alike)
  show "\<forall>s\<in>{spec_step, stub_step, realign_step, research_step, phases_step}.
      s sample_step_env sample_cfg new_item ready_dir = Some Onward"
    by (simp add: step_onward upstreams_fresh_def researched_def queue_stub_def new_item_def new_entry_def jget_def)
qed simp_all

theorem mark_fixed_exact_witness:
  "\<exists>r w. route_bug sample_step_env sample_cfg new_item ready_dir = Some (Halt r w) \<and>
     sub_skill r = Some ''__mark_fixed__''"
  unfolding mark_fixed_exact
  by (simp add: ready_no_stray ready_no_spike ready_rows provisional_sentinel_def plans_done_def count_deliverables_def)

subsection \<open>A fix on record\<close>

text \<open>Text that no line end cuts.\<close>

definition unbroken :: "string \<Rightarrow> bool" where
  "unbroken l \<longleftrightarrow> (\<forall>acc r. split_lines acc (l @ r) = split_lines (rev l @ acc) r)"

lemma unbroken_printable: "list_all printable l \<Longrightarrow> unbroken l"
  by (simp add: unbroken_def split_lines_printable)

lemma unbroken_append: "unbroken a \<Longrightarrow> unbroken b \<Longrightarrow> unbroken (a @ b)"
  by (simp add: unbroken_def)

lemma unbroken_dash: "unbroken em_dash"
  unfolding unbroken_def
  by (simp add: em_dash_def bytes_def split_lines.simps [of _ "_ # _"] line_ends_def prefix_def)

lemma split_unbroken:
  "list_all unbroken ls \<Longrightarrow> rest \<noteq> [] \<Longrightarrow>
    split_lines [] (join newline (ls @ rest)) = ls @ split_lines [] (join newline rest)"
proof (induction ls)
  case (Cons l ls)
  then obtain x xs where "ls @ rest = x # xs" by (cases "ls @ rest") auto
  then have "join newline (l # ls @ rest) = l @ newline @ join newline (ls @ rest)" by simp
  then show ?case using Cons by (simp add: unbroken_def split_lines_newline)
qed simp

definition fixed_spec :: string where
  "fixed_spec = join newline [''**Status:** Concluded'', ''**Fixed:** x'']"

definition fixed_dir :: item_dir where
  "fixed_dir = \<lparr>docs = [(''SPEC.md'', text_doc fixed_spec)], plan_docs = None\<rparr>"

lemma fixed_lines: "spec_lines fixed_dir = [''**Status:** Concluded'', ''**Fixed:** x'']"
proof -
  have "splitlines fixed_spec = [''**Status:** Concluded'', ''**Fixed:** x'']"
    unfolding fixed_spec_def by (rule splitlines_join) (simp_all add: printable_def)
  then show ?thesis by (simp add: spec_lines_def fixed_dir_def text_doc_def)
qed

lemma fixed_status: "spec_status fixed_dir = Some ''Concluded''" "spec_fixed_annotation fixed_dir = Some ''x''"
  by (simp_all add: spec_status_def spec_fixed_annotation_def fixed_lines bold_value_def strip_space strip_plain plain_char_def)

lemma fixed_docs [simp]: "has_doc fixed_dir n \<longleftrightarrow> n = ''SPEC.md''" "dkeys (docs fixed_dir) = [''SPEC.md'']"
    "plan_docs fixed_dir = None"
  by (simp_all add: fixed_dir_def has_doc_def)

lemma spec_only_no_stray:
  assumes "dkeys (docs d) = [''SPEC.md'']" and "plan_docs d = None"
  shows "detect_noncanonical_blocker d = None"
  using assms by (simp add: detect_noncanonical_blocker_def dir_names_def stray_blocker_def starts_ci_def to_lower_def)

lemma fixed_unhalted: "bug_unhalted sample_cfg fixed_dir"
  by (simp add: bug_unhalted_def spec_only_no_stray provisional_sentinel_def)

lemma fixed_found: "is_fixed_unreconciled yaml (it_path new_item) fixed_dir = Some True"
  by (simp add: is_fixed_unreconciled_def fixed_status has_completion_receipt_def new_item_def)

definition fixed_text :: string where
  "fixed_text = format_fixed_unreconciled_blocker sample_step_env (it_id new_item) (fixed_annotation fixed_dir)"

lemma fixed_frontmatter: "\<exists>block tail. splitlines fixed_text = fence # block @ fence # tail \<and> (\<forall>l\<in>set block. strip l \<noteq> fence)"
proof -
  let ?phase = "''phase: routing '' @ em_dash @ '' already-implemented-out-of-pipeline (fixed-unreconciled) detection''"
  let ?block = "[''kind: blocked'', ''feature_id: b'', ?phase, ''blocked_at: now'', ''retry_count: 0'',
      ''blocker_kind: fixed-unreconciled'']"
  define lines where "lines = fixed_unreconciled_lines sample_step_env ''b'' ''x''"
  have joined: "fixed_text = join newline lines"
    by (simp add: fixed_text_def format_fixed_unreconciled_blocker_def fixed_annotation_def fixed_status strip_plain
        plain_char_def new_item_def lines_def)
  have lines: "lines = (fence # ?block @ [fence]) @ drop 8 lines"
    unfolding lines_def fixed_unreconciled_lines_def by (simp add: sample_route_env_def)
  have remains: "drop 8 lines \<noteq> []" unfolding lines_def fixed_unreconciled_lines_def by simp
  have phase: "unbroken ?phase"
    by (intro unbroken_append unbroken_dash unbroken_printable) (simp_all add: printable_def)
  have "list_all unbroken (fence # ?block @ [fence])"
    using phase unbroken_printable [of fence] by (simp add: unbroken_printable printable_def fence_def)
  from split_unbroken [OF this remains] have "splitlines fixed_text = fence # ?block @ fence # split_lines [] (join newline (drop 8 lines))"
    unfolding joined splitlines_def lines [symmetric] by simp
  moreover have "\<forall>l\<in>set ?block. strip l \<noteq> fence"
    by (simp add: strip_plain plain_char_def fence_def)
  ultimately show ?thesis by blast
qed

theorem unreconciled_fix_is_blocked_witness:
  "route_bug sample_step_env sample_cfg new_item fixed_dir =
      Some (Halt (item_stop new_item ''Step 3: blocked'' ''blocked'') (WriteDoc ''BLOCKED.md'' fixed_text)) \<and>
   (\<exists>r w. route_bug sample_step_env sample_cfg new_item (apply_write (WriteDoc ''BLOCKED.md'' fixed_text) fixed_dir) =
      Some (Halt r w) \<and> terminal_reason r = Some ''blocked'' \<and> sub_skill r = None)"
proof -
  obtain block tail where lines: "splitlines fixed_text = fence # block @ fence # tail"
    and plain: "\<forall>l\<in>set block. strip l \<noteq> fence" using fixed_frontmatter by blast
  have fence: "fence \<noteq> []" by (simp add: fence_def)
  have "takeWhile (\<lambda>l. strip l \<noteq> fence) (block @ fence # tail) = block"
    using plain by (simp add: takeWhile_append strip_fence)
  then have "frontmatter (the_yaml sample_step_env) fixed_text =
      Some [(''kind'', JStr ''completed''), (''provenance'', JStr ''gate'')]"
    using fence by (simp add: frontmatter_def lines strip_fence load_mapping_def the_yaml_def sample_yaml_def)
  from unreconciled_fix_is_blocked [OF fixed_unhalted _ fixed_status(1) fixed_found fixed_text_def this] show ?thesis
    by (simp add: mget_def)
qed

subsection \<open>Where the comments and the code differ\<close>

text \<open>
  The comment on \<open>BUG_STATUS_SUPERSEDED\<close> calls such a bug non-actionable; discovery skips it, but the walk does
  not: with an entry in the queue it is handed to the investigation again.
\<close>

lemma superseded_unlisted:
  "open_bug yaml (bug_with ''Superseded'') = Some False"
  by (simp add: open_bug_def)

lemma superseded_passes:
  assumes "bug_item disk e = it" "it_dir it = bug_with ''Superseded''" "be_queue_entry e = bug_named ''a''"
  shows "run_stages (bug_stages queue) sample_route_env sample_cfg it w = Some (Proceed w)"
proof -
  have hosts: "parse_requires_host (spec_text (bug_with ''Superseded'')) (it_entry it) = []"
    unfolding assms(1) [symmetric]
    by (simp add: parse_requires_host_def bug_item_def bug_entry_json_def jget_def coerce_capability_ids_def spec_text_def
        bug_with_def text_doc_def splitlines_line printable_def head_value_def lstrip_plain plain_char_def to_lower_def
        strip_plain fence_def)
  have deps: "dep_ids (jget (it_entry it) ''queue_entry'') = []"
    unfolding assms(1) [symmetric] using assms(3) by (simp add: bug_item_def bug_entry_json_def jget_def dep_ids_def bug_named_def)
  show ?thesis
    by (simp add: bug_stages_def bug_completion_stage_def bug_cloud_stage_def bug_device_stage_def bug_host_stage_def
        bug_operator_stage_def bug_park_blocked_stage_def bug_park_stray_stage_def bug_park_input_stage_def
        bug_provisional_stage_def bug_dep_stage_def assms(2) wont_fix_def hosts deps unknown_capability_ids_def
        spec_only_no_stray)
qed

lemma superseded_selected:
  "select_bug sample_route_env 0 sample_cfg [([''f'', ''a''], bug_with ''Superseded'')] (queue_of [bug_named ''a'']) =
     Some (Inl (bug_item [([''f'', ''a''], bug_with ''Superseded'')]
                  (queued_bug [''f'', ''a''] (bug_with ''Superseded'') (bug_named ''a''))),
           start_walk sample_route_env [([''f'', ''a''], bug_with ''Superseded'')])"
proof -
  let ?d = "bug_with ''Superseded''" and ?disk = "[([''f'', ''a''], bug_with ''Superseded'')]"
  let ?q = "queued_bug [''f'', ''a''] ?d (bug_named ''a'')"
  have dir: "it_dir (bug_item ?disk ?q) = ?d" by (simp add: bug_item_def)
  have "be_queue_entry ?q = bug_named ''a''" by (simp add: queued_bug_def)
  from superseded_passes [OF refl dir this] show ?thesis by (simp add: select_bug_def load_named Let_def)
qed

theorem selected_bug_is_ready_witness:
  "ready_bug sample_cfg (bug_item [([''f'', ''a''], bug_with ''Superseded'')]
     (queued_bug [''f'', ''a''] (bug_with ''Superseded'') (bug_named ''a'')))"
  using selected_bug_is_ready [OF superseded_selected load_named] by simp

theorem superseded_bug_is_investigated:
  "\<exists>e. bug_compute_state (bug_env_on (bug_with ''Superseded'') (queue_of [bug_named ''a''])) 0 sample_cfg = Some e \<and>
     sub_skill (pe_route e) = Some ''spec-bug'' \<and> feature_id (pe_route e) = Some ''a''"
proof -
  let ?d = "bug_with ''Superseded''"
  let ?it = "bug_item [([''f'', ''a''], ?d)] (queued_bug [''f'', ''a''] ?d (bug_named ''a''))"
  have dir: "it_dir ?it = ?d" by (simp add: bug_item_def)
  have "bug_unhalted sample_cfg ?d" by (simp add: bug_unhalted_def spec_only_no_stray provisional_sentinel_def)
  then have "route_bug env sample_cfg ?it ?d = Some (halt_run ?it ''Step 4: investigate bug'' ''spec-bug'' (spec_file ?it))" for env
    by (simp add: route_unhalted investigate_step_def)
  then show ?thesis
    by (simp add: bug_compute_state_def bug_env_on_def superseded_selected dir halt_run_def) (simp add: bug_item_def)
qed

text \<open>Without a queue file the stop is \<open>queue-missing\<close>, also when open bugs were found and parked.\<close>

definition stuck_dir :: item_dir where
  "stuck_dir = \<lparr>docs = [(''SPEC.md'', empty_doc), (''BLOCKED.md'', empty_doc)], plan_docs = None\<rparr>"

lemma stuck_docs [simp]: "has_doc stuck_dir n \<longleftrightarrow> n \<in> {''SPEC.md'', ''BLOCKED.md''}" "spec_status stuck_dir = None"
    "spec_text stuck_dir = []"
  by (simp_all add: stuck_dir_def has_doc_def spec_status_def spec_lines_def spec_text_def)

lemma stuck_parked: "\<exists>p. build_parked_entry yaml i stuck_dir ''BLOCKED.md'' = Some p"
  by (simp add: build_parked_entry_def parse_sentinel_def stuck_dir_def mget_def)

theorem parked_without_queue_file:
  "\<exists>w. select_bug sample_route_env 0 sample_cfg [([''f'', ''a''], stuck_dir)] Absent =
     Some (Inr (stop_route ''queue-missing'' None), w) \<and> parked w \<noteq> []"
proof -
  let ?disk = "[([''f'', ''a''], stuck_dir)]"
  have load: "load_bug_queue sample_route_env 0 ?disk Absent = Some [discovered_bug ([''f'', ''a''], stuck_dir)]"
    by (simp add: load_bug_queue_def with_open_dirs_def find_open_bug_dirs_def open_bug_def wont_fix_def)
  let ?it = "bug_item ?disk (discovered_bug ([''f'', ''a''], stuck_dir))"
  have it: "it_dir ?it = stuck_dir" "be_name (discovered_bug ([''f'', ''a''], stuck_dir)) = ''a''"
    by (simp_all add: bug_item_def discovered_bug_def spec_lines_def stuck_dir_def)
  have hosts: "parse_requires_host [] (it_entry ?it) = []"
    by (simp add: queued_host_is_ignored) (simp add: parse_requires_host_def jget_def coerce_capability_ids_def)
  obtain p where p: "build_parked_entry sample_yaml (it_id ?it) stuck_dir ''BLOCKED.md'' = Some p"
    using stuck_parked by blast
  let ?w = "(start_walk sample_route_env ?disk)\<lparr>parked := [p]\<rparr>"
  have "run_stages (bug_stages queue) sample_route_env sample_cfg ?it (start_walk sample_route_env ?disk) = Some (Skip ?w)" for queue
    by (simp add: bug_stages_def bug_completion_stage_def bug_cloud_stage_def bug_device_stage_def bug_host_stage_def
        bug_operator_stage_def bug_park_blocked_stage_def it wont_fix_def hosts unknown_capability_ids_def park_item_def p)
  then have "walk_bugs (bug_stages queue) sample_route_env sample_cfg [discovered_bug ([''f'', ''a''], stuck_dir)]
      (start_walk sample_route_env ?disk) = Some (Exhausted ?w)" for queue
    by (simp add: it Let_def)
  then have "select_bug sample_route_env 0 sample_cfg ?disk Absent = Some (Inr (stop_route ''queue-missing'' None), ?w)"
    by (simp add: select_bug_def load bugs_exhausted_route_def cloud_exhausted_def device_exhausted_def)
  then show ?thesis by auto
qed

end
