(* ===== verification/Spec2Isabelle.thy ===== *)
theory Spec2Isabelle
  imports Lock_Race Coord_Fencing Coord_Claims Coord_Lanes Queue_Store Guard_Runs Viz_Queue Viz_Cache
    Walk_Budget Completion_Samples Bug_Samples
begin

text \<open>
  A verification development for the Python core of \<^verbatim>\<open>claude-config\<close>: the scripts that let an
  orchestrator walk work queues, dispatch agents for one work item at a time (or for several in
  parallel worktrees), and keep them honest. All paths are below \<^verbatim>\<open>user/scripts/\<close>.

  \<^bold>\<open>The program.\<close> A run is a marker file in a state directory. The state script computes the next
  step of a work item (a probe), registers the prompt it emits, and opens and closes a cycle around
  each dispatched agent; a guard hook lets a dispatch pass only if its prompt is registered and
  unspent, and books every denial as debt in a ledger that a run must pay before it may end. The
  work items come from two queues whose entries depend on each other. A parallel run gives each item
  to a worktree slot under a lease with a fencing token, keeps its lanes in a ledger and merges
  them back in queue order; leases and ledger are guarded by a lock directory. A web visualizer reads
  the same files and may reorder a queue.

  \<^bold>\<open>Theories.\<close>

  \<^item> \<open>Prelude\<close> (dictionaries, JSON files, operations with errors), \<open>Py_Json\<close> (JSON values, strings,
    dates as Python treats them).
  \<^item> \<open>Coord_Lock\<close>: the lock directory of \<^verbatim>\<open>lazy_coord.py\<close> for one process and an arbitrary environment;
    locale \<open>mutex\<close>, interpreted as \<open>gl\<close>. \<open>Lock_Race\<close>: several processes interleaved at the level of
    system calls, with crashes.
  \<^item> \<open>Fencing\<close>: the contract of a fencing-token service (locale \<open>fencing\<close>) and what follows for whole runs.
    \<open>Coord_Leases\<close> (leases.json, watermarks, the lease operations) and \<open>Coord_Fencing\<close> (its correctness;
    interpretation \<open>fenced_leases\<close>, with crashes between the two writes).
  \<^item> \<open>Coord_Claims\<close>: the per-item lock, the shard claims, and the lease view of
    \<^verbatim>\<open>pipeline_visualizer/leases.py\<close>. \<open>Coord_Lanes\<close>: the lane ledger, merge-back, budgets.
  \<^item> \<open>Dep_Graph\<close>, \<open>Merged_Priority\<close>, \<open>Queue_Store\<close>: \<^verbatim>\<open>lazy_core/depdag.py\<close>: the dependency graph and its
    validation, the merged order of the two queues, and the commands that change a queue file;
    locale \<open>queue_mutator\<close>, interpreted for every command.
  \<^item> \<open>Viz_Queue\<close>, \<open>Viz_Cache\<close>: \<^verbatim>\<open>pipeline_visualizer/queue_writer.py\<close> and \<^verbatim>\<open>cache.py\<close>.
  \<^item> \<open>Prompt_Registry\<close>: \<^verbatim>\<open>lazy_core/dispatch.py\<close>: normalisation, registration, lookup, consumption;
    locale \<open>one_shot\<close>, interpreted as \<open>registry\<close>.
  \<^item> \<open>Run_Marker\<close>, \<open>Run_Counters\<close>, \<open>Loop_Detector\<close>: \<^verbatim>\<open>lazy_core/markers.py\<close>: the marker, everything that
    counts on it (locale \<open>marker_mutator\<close>, interpreted for thirteen operations), and the repeat
    counts.
  \<^item> \<open>Deny_Ledger\<close>, \<open>Efficacy_Gate\<close>: \<^verbatim>\<open>lazy_core/ledgers.py\<close>: hardening debt (locale \<open>ledger_ack\<close>,
    interpreted for every acknowledgement) and the end-of-run reports.
  \<^item> \<open>Commit_Budget\<close>, \<open>Cycle_Friction\<close>: what one cycle may commit, and the check at its end.
  \<^item> \<open>Run_Lifecycle\<close>: the guards, gates and checkpoint of \<^verbatim>\<open>markers.py\<close> and the handlers of
    \<^verbatim>\<open>lazy-state.py\<close> that compose all of these over the state directory of a run.
  \<^item> \<open>Dispatch_Guard\<close>: the hook \<^verbatim>\<open>lazy_guard.py\<close> that judges every dispatch over the same state, and
    \<open>Guard_Runs\<close>: whole runs of emissions, guarded dispatches and life cycle commands (locale
    \<open>single_owner\<close>, interpreted as \<open>guarded\<close>).
  \<^item> \<open>Py_Regex\<close> (the regular expressions of the readers), \<open>Item_Docs\<close>, \<open>Sentinels\<close>, \<open>Evidence\<close>, \<open>Phase_Docs\<close>,
    \<open>Plan_Docs\<close>: the documents of a work item and what the pipeline reads off them
    (\<^verbatim>\<open>lazy_core/docmodel.py\<close>, \<^verbatim>\<open>gates.py\<close>, \<^verbatim>\<open>hostcaps.py\<close>): frontmatter, status lines, receipts, parks
    and deferrals, the runtime proof, the evidence of a completion, phases, plans.
  \<^item> \<open>Route_Walk\<close>: Step 2 of \<open>compute_state\<close> in \<^verbatim>\<open>lazy-state.py\<close>, the walk over the feature queue, one stage per
    block of the loop body. \<open>Walk_Facts\<close>: the contract of a stage (locale \<open>walk_stage\<close>, interpreted for all
    twelve) and what the walk inherits from it; \<open>Walk_Props\<close>, \<open>Walk_Live\<close>, \<open>Walk_Budget\<close>: its properties;
    \<open>Text_Lines\<close>, \<open>Walk_Samples\<close>: a small repository to apply them to.
  \<^item> \<open>Upstream_Docs\<close> (stub markers, upstream directories, realign plans, headers, uncovered rows) and
    \<open>Route_Steps\<close>: Steps 2.9 to 10 of \<open>compute_state\<close>, one definition per step, and the whole probe.
    \<open>Route_Facts\<close>: the contract of a step (locale \<open>route_step\<close>, interpreted for all fifteen); \<open>Route_Props\<close>,
    \<open>Route_Ends\<close>: what a probe promises; \<open>Route_Samples\<close>: directories to apply it to.
  \<^item> \<open>Pseudo_Skills\<close>, \<open>Completion\<close>: \<open>apply_pseudo\<close> of \<^verbatim>\<open>lazy_core/pseudo.py\<close>, which writes the sentinels and receipts that a
    probe asks for. A skill returns its end and the list of its writes, so that a crash is a prefix of the list.
    \<open>Completion\<close> holds \<open>__mark_complete__\<close> and \<open>__mark_fixed__\<close>: the evidence, the backstops, the tick of verification
    rows, the coherence gate, the receipt, the tail and the audit that decides about resuming it. \<open>Line_Facts\<close> and
    \<open>Completion_Facts\<close> prove what the rewriting and the tail do, \<open>Completion_Props\<close> that receipts are earned, that a
    finished completion leaves nothing, and when an interrupted one is taken up again; \<open>Completion_Samples\<close> applies it.
  \<^item> \<open>Bug_Walk\<close>, \<open>Bug_Steps\<close>: \<^verbatim>\<open>bug-state.py\<close>, the coupled twin of \<^verbatim>\<open>lazy-state.py\<close> for bugs: the queue with its order by severity
    and age, the ten checks of the walk, Steps 2.9 to 10, the whole probe. \<open>Bug_Parity\<close> proves each mirrored block equal to its
    twin; \<open>Bug_Facts\<close> (locale \<open>bug_stage\<close>, interpreted for all ten checks), \<open>Bug_Props\<close> and \<open>Bug_Ends\<close> (\<open>route_step\<close> again,
    interpreted for all eleven steps) hold what a probe of the bug pipeline promises, \<open>Bug_Samples\<close> applies it.

  \<^bold>\<open>What the lemmas show.\<close> Each theory proves the behaviour of its operations on every branch, then
  the properties of whole runs: mutual exclusion and its limits (\<open>Lock_Race\<close>), monotone tokens and
  refused zombies (\<open>Coord_Fencing\<close>), queues that stay valid under every sequence of commands
  (\<open>Queue_Store\<close>), exactness of the cycle check against reachability and of the merged list against
  a reference listing (\<open>Dep_Graph\<close>, \<open>Merged_Priority\<close>), refinement of a reference merge procedure
  (\<open>Coord_Lanes\<close>), one dispatch per emission (\<open>Prompt_Registry\<close>), counters that only grow
  (\<open>Run_Counters\<close>), repeat counts as lengths of streaks (\<open>Loop_Detector\<close>), an append-only audit trail
  (\<open>Deny_Ledger\<close>), containment of cycles, admission of starts, gates of ends and pauses that keep the
  run (\<open>Run_Lifecycle\<close>), the decision, the bookkeeping and the delivery of the guard (\<open>Dispatch_Guard\<close>), one
  consumer per emission (\<open>Guard_Runs\<close>), the meaning of the stop \<open>all-features-complete\<close> and the eligibility of
  the selected item (\<open>Walk_Props\<close>), the service of a ready item (\<open>Walk_Live\<close>), the books of the budget guard
  (\<open>Walk_Budget\<close>), the exact conditions of a completion (\<open>Route_Props\<close>), earned validations, the choice of the
  plan, sentinels that stop the next probe, and that every probe decides (\<open>Route_Ends\<close>), earned receipts and resumed
  completions (\<open>Completion_Props\<close>), the agreement of the two state scripts (\<open>Bug_Parity\<close>), the order of the bug queue, the
  meaning of \<open>all-bugs-fixed\<close>, and when a bug is served, planned, blocked and marked fixed (\<open>Bug_Props\<close>, \<open>Bug_Ends\<close>). Some theorems state defects the proofs ran into: two reclaimers of one stale
  lock, a refused claim that has already scrubbed slots, a merge-back that waits for its own lock, a
  payment that lands on another run's debt, a denial lost behind a torn line, an end that is refused
  after it has wiped out the debt, a deferred item that is evicted before it
  gets another turn, an open row that the re-route of Step 10 does not see, a completion that cannot be resumed once
  its evidence is gone, two routes whose handler never accepts them, and a superseded bug that is investigated.

  \<^bold>\<open>Conventions.\<close> Strings are UTF-8 byte sequences; patterns are read over ASCII. Time stamps are
  seconds, clocks microseconds; \<open>None\<close> is an absent or unreadable value. A file is absent, corrupt or
  has content; a write replaces it as a whole, and the writes of the model succeed except where the
  source handles the failure (the visualizer's replace). Git, SHA-256, Unicode normalisation, process
  tables and directory scans are arguments of the definitions that use them, and a theorem names
  what it needs of them.

  \<^bold>\<open>Bounds.\<close> The polling loop of \<open>acquire_lock\<close> has fuel \<open>lock_fuel\<close>, one more than the polls that fit
  its timeout, and is proved to return within it; the item lock polls at most its budget plus one
  times; the relaxation of \<open>detect_dep_cycle\<close> has one step per queued id and is proved to be done
  by then. Every other recursion terminates by a measure.

  \<^bold>\<open>Documents.\<close> A directory of an item is a dictionary of files; the YAML loader and writer are
  arguments. The result \<open>None\<close> of a reader is the end of the process. The texts the scripts print are left
  out, and so are the bodies of the sentinels of a probe; the frontmatter they write is kept. A write of a pseudo-skill
  sets the time of the file to the clock of the call.

  \<^bold>\<open>Not modelled.\<close> The item commands of the state scripts, the
  archiving of fixed bugs, the intervention record and the provenance index of a completion (their failures never
  stop it, and they write nothing that the probe reads), prompt templates, the runtime plane (processes and HTTP),
  telemetry and the reporting tools, the linters, and everything that is not Python. The worktree pool is a
  sequence of git calls.
\<close>

end
